(* ===== verification/Prelude.thy ===== *)
theory Prelude
  imports Main "HOL-Library.Word" "HOL-Library.AList"
begin

text \<open>
  Shared vocabulary of the development: the machine integers of the Rust sources as
  words, results as sums, little-endian byte strings, the slice operations of the
  standard library that several components use, and the automation the component theories
  rely on.
  A \<^verbatim>\<open>usize\<close> is a \<^typ>\<open>nat\<close> (a length of data in memory), every other
  integer keeps its width; additions on words wrap, which is what the release profile
  (no overflow checks in \<^verbatim>\<open>Cargo.toml\<close>) does.
\<close>

unbundle bit_operations_syntax

named_theorems wire_simps \<open>unfolding of the byte-level readers and writers\<close>
named_theorems slot_simps \<open>the slot table's operations, one equation per branch\<close>

section \<open>Machine integers and results\<close>

type_synonym u8 = "8 word"
type_synonym u16 = "16 word"
type_synonym u32 = "32 word"
type_synonym u64 = "64 word"
type_synonym bytes = "u8 list"

text \<open>\<^verbatim>\<open>Result<T, E>\<close> is \<open>'e + 'a\<close>; the question-mark operator is \<open>and_then\<close>.\<close>

primrec and_then :: "'e + 'a \<Rightarrow> ('a \<Rightarrow> 'e + 'b) \<Rightarrow> 'e + 'b" where
  "and_then (Inl e) f = Inl e"
| "and_then (Inr x) f = f x"

definition is_ok :: "'e + 'a \<Rightarrow> bool" where
  "is_ok r = (case r of Inl _ \<Rightarrow> False | Inr _ \<Rightarrow> True)"

text \<open>
  \<^verbatim>\<open>expect\<close> and \<^verbatim>\<open>unwrap\<close> abort the process on an error: nothing is known of the result
  then. Each use is accompanied by a lemma that its argument is a success.
\<close>

definition expect :: "'e + 'a \<Rightarrow> 'a" where
  "expect r = (case r of Inr x \<Rightarrow> x | Inl _ \<Rightarrow> undefined)"

lemma expect_Inr [simp]: "expect (Inr x) = x"
  by (simp add: expect_def)

lemma expect_is_ok: "is_ok r \<Longrightarrow> r = Inr (expect r)"
  by (auto simp: is_ok_def expect_def split: sum.splits)

definition saturating_sub :: "'a::len word \<Rightarrow> 'a word \<Rightarrow> 'a word" where
  "saturating_sub a b = (if a < b then 0 else a - b)"

definition saturating_add :: "'a::len word \<Rightarrow> 'a word \<Rightarrow> 'a word" where
  "saturating_add a b = (if unat a + unat b < 2 ^ LENGTH('a) then a + b else - 1)"

lemma is_ok_simps [simp]: "is_ok (Inr x)" "\<not> is_ok (Inl e)"
  by (simp_all add: is_ok_def)

lemma and_then_eq_Inr_iff:
  "and_then r f = Inr y \<longleftrightarrow> (\<exists>x. r = Inr x \<and> f x = Inr y)"
  by (cases r) auto

lemma and_then_eq_Inl_iff:
  "and_then r f = Inl e \<longleftrightarrow> r = Inl e \<or> (\<exists>x. r = Inr x \<and> f x = Inl e)"
  by (cases r) auto

lemma unat_saturating_sub: "unat (saturating_sub a b) = unat a - unat b"
  by (simp add: saturating_sub_def unat_sub word_less_nat_alt word_le_nat_alt)

lemma unat_saturating_add:
  fixes a b :: "'a::len word"
  shows "unat (saturating_add a b) = min (unat a + unat b) (2 ^ LENGTH('a) - 1)"
  by (auto simp: saturating_add_def unat_word_ariths unsigned_minus_1_eq_mask mask_eq_exp_minus_1)

section \<open>Little-endian integers\<close>

text \<open>\<^verbatim>\<open>to_le_bytes\<close> and \<^verbatim>\<open>from_le_bytes\<close> at any width, least significant byte first.\<close>

primrec to_le :: "nat \<Rightarrow> 'a::len word \<Rightarrow> bytes" where
  "to_le 0 w = []"
| "to_le (Suc n) w = ucast w # to_le n (drop_bit 8 w)"

primrec from_le :: "bytes \<Rightarrow> 'a::len word" where
  "from_le [] = 0"
| "from_le (b # bs) = ucast b OR push_bit 8 (from_le bs)"

lemma length_to_le [simp]: "length (to_le n w) = n"
  by (induction n arbitrary: w) auto

lemma from_le_to_le_take_bit: "from_le (to_le n w) = take_bit (8 * n) w"
proof (induction n arbitrary: w)
  case 0
  then show ?case by simp
next
  case (Suc n)
  show ?case
    by (rule bit_word_eqI) (auto simp: Suc bit_simps algebra_simps)
qed

lemma from_le_to_le [simp]:
  fixes w :: "'a::len word"
  assumes "LENGTH('a) \<le> 8 * n"
  shows "from_le (to_le n w) = w"
  using assms by (simp add: from_le_to_le_take_bit take_bit_word_eq_self)

lemma from_le_high_bits:
  "bit (from_le bs :: 'a::len word) i \<Longrightarrow> i < 8 * length bs"
proof (induction bs arbitrary: i)
  case Nil
  then show ?case by simp
next
  case (Cons b bs)
  show ?case
  proof (cases "i < 8")
    case False
    with Cons.prems have "bit (from_le bs :: 'a word) (i - 8)"
      by (auto simp: bit_simps dest: bit_imp_le_length)
    with Cons.IH [of "i - 8"] False show ?thesis by simp
  qed simp
qed

lemma ucast_from_le_Cons:
  "8 \<le> LENGTH('a::len) \<Longrightarrow> (ucast (from_le (b # bs) :: 'a word) :: u8) = b"
  by (rule bit_word_eqI) (auto simp: bit_simps)

lemma drop_bit_from_le_Cons:
  assumes "8 * Suc (length bs) \<le> LENGTH('a)"
  shows "drop_bit 8 (from_le (b # bs) :: 'a::len word) = from_le bs"
proof (rule bit_word_eqI)
  fix n assume "n < LENGTH('a)"
  have "bit (from_le bs :: 'a word) n \<Longrightarrow> n + 8 < LENGTH('a)"
    using from_le_high_bits [of bs n] assms by fastforce
  then show "bit (drop_bit 8 (from_le (b # bs) :: 'a word)) n = bit (from_le bs :: 'a word) n"
    by (auto simp: bit_simps dest: bit_imp_le_length)
qed

lemma to_le_from_le [simp]:
  assumes "length bs = n" and "8 * n \<le> LENGTH('a)"
  shows "to_le n (from_le bs :: 'a::len word) = bs"
  using assms
proof (induction bs arbitrary: n)
  case Nil
  then show ?case by simp
next
  case (Cons b bs)
  then show ?case
    by (auto simp del: from_le.simps simp: ucast_from_le_Cons drop_bit_from_le_Cons)
qed

text \<open>Unfolded on demand only: the round-trip laws above are what proofs use.\<close>

declare from_le.simps(2) [simp del] to_le.simps(2) [simp del]

section \<open>Slices\<close>

text \<open>\<^verbatim>\<open>iter().position(p)\<close>: the index of the first element that satisfies \<open>p\<close>.\<close>

fun position :: "('a \<Rightarrow> bool) \<Rightarrow> 'a list \<Rightarrow> nat option" where
  "position p [] = None"
| "position p (x # xs) = (if p x then Some 0 else map_option Suc (position p xs))"

lemma position_SomeD:
  "position p xs = Some i \<Longrightarrow>
     i < length xs \<and> p (xs ! i) \<and> (\<forall>j < i. \<not> p (xs ! j))"
proof (induction xs arbitrary: i)
  case Nil
  then show ?case by simp
next
  case (Cons x xs)
  show ?case
  proof (cases "p x")
    case True
    with Cons.prems show ?thesis by simp
  next
    case False
    with Cons.prems obtain k where "position p xs = Some k" and "i = Suc k"
      by auto
    with Cons.IH [of k] False show ?thesis
      by (auto simp: nth_Cons split: nat.splits)
  qed
qed

lemma position_None_iff: "position p xs = None \<longleftrightarrow> (\<forall>x \<in> set xs. \<not> p x)"
  by (induction xs) auto

lemma position_SomeI:
  "i < length xs \<Longrightarrow> p (xs ! i) \<Longrightarrow> (\<And>j. j < i \<Longrightarrow> \<not> p (xs ! j)) \<Longrightarrow> position p xs = Some i"
proof (induction xs arbitrary: i)
  case Nil
  then show ?case by simp
next
  case (Cons x xs)
  show ?case
  proof (cases i)
    case 0
    with Cons.prems show ?thesis by simp
  next
    case (Suc k)
    have "\<not> p x" using Cons.prems(3) [of 0] Suc by simp
    moreover have "position p xs = Some k"
      using Cons.prems Suc by (intro Cons.IH) (force dest: Cons.prems(3) [of "Suc _"])+
    ultimately show ?thesis using Suc by simp
  qed
qed

lemma position_append_first:
  "\<forall>x \<in> set xs. \<not> p x \<Longrightarrow> p y \<Longrightarrow> position p (xs @ y # ys) = Some (length xs)"
  by (induction xs) auto

text \<open>\<^verbatim>\<open>iter_mut().find(p)\<close> and a change of the element found.\<close>

fun upd_first :: "('a \<Rightarrow> bool) \<Rightarrow> ('a \<Rightarrow> 'a) \<Rightarrow> 'a list \<Rightarrow> 'a list" where
  "upd_first p f [] = []"
| "upd_first p f (x # xs) = (if p x then f x # xs else x # upd_first p f xs)"

lemma length_upd_first [simp]: "length (upd_first p f xs) = length xs"
  by (induction xs) auto

lemma upd_first_none: "\<forall>x \<in> set xs. \<not> p x \<Longrightarrow> upd_first p f xs = xs"
  by (induction xs) auto

lemma map_upd_first [simp]: "(\<And>x. g (f x) = g x) \<Longrightarrow> map g (upd_first p f xs) = map g xs"
  by (induction xs) auto

text \<open>With distinct keys, updating the first element with a key updates exactly that one.\<close>

lemma upd_first_key:
  "distinct (map key xs) \<Longrightarrow>
   upd_first (\<lambda>x. key x = k) f xs = map (\<lambda>x. if key x = k then f x else x) xs"
proof (induction xs)
  case (Cons x xs)
  show ?case
  proof (cases "key x = k")
    case True
    with Cons.prems have "\<forall>y \<in> set xs. key y \<noteq> k" by (auto simp: image_iff)
    with True show ?thesis by (simp add: map_idI)
  qed (use Cons in simp)
qed simp

lemma find_key:
  "distinct (map key xs) \<Longrightarrow> x \<in> set xs \<Longrightarrow> key x = k \<Longrightarrow> find (\<lambda>x. key x = k) xs = Some x"
  by (induction xs) auto

lemma find_None_key: "find (\<lambda>x. key x = k) xs = None \<longleftrightarrow> k \<notin> key ` set xs"
  by (auto simp: find_None_iff)

lemma find_upd_first:
  "(\<And>x. p (f x) = p x) \<Longrightarrow> find p (upd_first p f xs) = map_option f (find p xs)"
  by (induction xs) auto

lemma find_SomeD: "find P xs = Some x \<Longrightarrow> x \<in> set xs \<and> P x"
  by (auto simp: find_Some_iff)

text \<open>\<^verbatim>\<open>slice.chunks(n)\<close>: consecutive pieces of \<open>n\<close> elements, the last one possibly shorter.\<close>

function chunks :: "nat \<Rightarrow> 'a list \<Rightarrow> 'a list list" where
  "chunks n xs = (if xs = [] \<or> n = 0 then [] else take n xs # chunks n (drop n xs))"
  by pat_completeness auto
termination
  by (relation "measure (\<lambda>(n, xs). length xs)") auto

declare chunks.simps [simp del]

lemma chunks_Nil [simp]: "chunks n [] = []"
  by (simp add: chunks.simps)

lemma chunks_append:
  "length xs = n \<Longrightarrow> n \<noteq> 0 \<Longrightarrow> chunks n (xs @ ys) = xs # chunks n ys"
  by (subst chunks.simps) auto

lemma chunks_short: "xs \<noteq> [] \<Longrightarrow> length xs \<le> n \<Longrightarrow> chunks n xs = [xs]"
  by (subst chunks.simps) (cases xs, auto)

text \<open>Pieces of \<open>n\<close> elements, a possibly shorter last one, and induction along them.\<close>

lemma chunk_induct [case_names Nil Short Full]:
  assumes "P []"
    and "\<And>xs. xs \<noteq> [] \<Longrightarrow> length xs < n \<Longrightarrow> P xs"
    and "\<And>xs ys. length xs = n \<Longrightarrow> P ys \<Longrightarrow> P (xs @ ys)"
    and "0 < n"
  shows "P xs"
proof (induction "length xs" arbitrary: xs rule: less_induct)
  case less
  consider "xs = []" | "xs \<noteq> []" "length xs < n" | "n \<le> length xs" by linarith
  then show ?case
  proof cases
    case 3
    with \<open>0 < n\<close> have "P (drop n xs)" by (intro less) auto
    with 3 show ?thesis using assms(3) [of "take n xs" "drop n xs"] by simp
  qed (use assms in auto)
qed

section \<open>Hash maps\<close>

text \<open>
  A hash map is an association list with distinct keys; its order stands for the unspecified
  iteration order. \<^verbatim>\<open>HashMap::insert\<close> and \<^verbatim>\<open>entry(k).or_insert_with(new)\<close> followed by a change of the value.\<close>

definition entry_modify ::
    "'k \<Rightarrow> 'v \<Rightarrow> ('v \<Rightarrow> 'v) \<Rightarrow> ('k \<times> 'v) list \<Rightarrow> ('k \<times> 'v) list" where
  "entry_modify k new f m =
     AList.update k (f (case map_of m k of Some v \<Rightarrow> v | None \<Rightarrow> new)) m"

end
