(* ===== verification/Utf8.thy ===== *)
theory Utf8
  imports Prelude
begin

text \<open>
  What the sources use of Rust's strings. A \<^verbatim>\<open>String\<close> is its UTF-8 bytes, so every
  string of the model is a \<^typ>\<open>bytes\<close> value and \<^verbatim>\<open>len()\<close> counts bytes.
  \<^verbatim>\<open>String::from_utf8_lossy\<close> is modelled as the standard library documents it: the
  longest valid prefix is kept, each maximal invalid piece becomes U+FFFD. The theory also
  has the ASCII case folding behind \<^verbatim>\<open>eq_ignore_ascii_case\<close>.
\<close>

section \<open>One character\<close>

definition is_cont :: "u8 \<Rightarrow> bool" where
  "is_cont b = (b AND 192 = 128)"

definition nth_or_zero :: "bytes \<Rightarrow> nat \<Rightarrow> u8" where
  "nth_or_zero bs i = (if i < length bs then bs ! i else 0)"

definition in_range :: "u8 \<Rightarrow> u8 \<Rightarrow> u8 \<Rightarrow> bool" where
  "in_range lo hi b = (lo \<le> b \<and> b \<le> hi)"

text \<open>The second byte that a three- or four-byte lead byte admits.\<close>

definition second_ok3 :: "u8 \<Rightarrow> u8 \<Rightarrow> bool" where
  "second_ok3 b c =
     (if b = 0xE0 then in_range 0xA0 0xBF c
      else if b = 0xED then in_range 0x80 0x9F c
      else in_range 0x80 0xBF c)"

definition second_ok4 :: "u8 \<Rightarrow> u8 \<Rightarrow> bool" where
  "second_ok4 b c =
     (if b = 0xF0 then in_range 0x90 0xBF c
      else if b = 0xF4 then in_range 0x80 0x8F c
      else in_range 0x80 0xBF c)"

text \<open>
  One step of the decoder on a non-empty input: how many bytes it takes, and whether they
  are a character (otherwise they are one invalid piece).
\<close>

definition utf8_step :: "bytes \<Rightarrow> nat \<times> bool" where
  "utf8_step bs =
     (let b = nth_or_zero bs 0; c = nth_or_zero bs 1; d = nth_or_zero bs 2; e = nth_or_zero bs 3
      in if b < 128 then (1, True)
         else if in_range 0xC2 0xDF b then (if is_cont c then (2, True) else (1, False))
         else if in_range 0xE0 0xEF b then
           (if \<not> second_ok3 b c then (1, False)
            else if is_cont d then (3, True) else (2, False))
         else if in_range 0xF0 0xF4 b then
           (if \<not> second_ok4 b c then (1, False)
            else if \<not> is_cont d then (2, False)
            else if is_cont e then (4, True) else (3, False))
         else (1, False))"

lemma utf8_step_pos: "0 < fst (utf8_step bs)"
  by (auto simp: utf8_step_def Let_def)

section \<open>Lossy decoding\<close>

definition replacement_char :: bytes where
  "replacement_char = [0xEF, 0xBF, 0xBD]"

function utf8_lossy :: "bytes \<Rightarrow> bytes" where
  "utf8_lossy bs =
     (if bs = [] then []
      else (if snd (utf8_step bs) then take (fst (utf8_step bs)) bs else replacement_char)
           @ utf8_lossy (drop (fst (utf8_step bs)) bs))"
  by pat_completeness auto
termination
  by (relation "measure length") (auto simp: utf8_step_pos)

declare utf8_lossy.simps [simp del]

text \<open>A byte string is valid UTF-8 when every step of the decoder finds a character.\<close>

function utf8_valid :: "bytes \<Rightarrow> bool" where
  "utf8_valid bs =
     (if bs = [] then True
      else snd (utf8_step bs) \<and> utf8_valid (drop (fst (utf8_step bs)) bs))"
  by pat_completeness auto
termination
  by (relation "measure length") (auto simp: utf8_step_pos)

declare utf8_valid.simps [simp del]

lemma utf8_lossy_Nil [simp]: "utf8_lossy [] = []"
  by (simp add: utf8_lossy.simps)

lemma utf8_valid_Nil [simp]: "utf8_valid []"
  by (simp add: utf8_valid.simps)

lemma utf8_lossy_valid: "utf8_valid bs \<Longrightarrow> utf8_lossy bs = bs"
proof (induction bs rule: utf8_lossy.induct)
  case (1 bs)
  show ?case
  proof (cases "bs = []")
    case False
    with "1.prems" have "snd (utf8_step bs)" and "utf8_valid (drop (fst (utf8_step bs)) bs)"
      by (auto simp: utf8_valid.simps [of bs])
    with "1.IH" [OF False] False show ?thesis
      by (simp add: utf8_lossy.simps [of bs])
  qed simp
qed

text \<open>ASCII strings are valid, so decoding keeps them.\<close>

lemma utf8_valid_ascii: "\<forall>b \<in> set bs. b < 128 \<Longrightarrow> utf8_valid bs"
proof (induction bs)
  case (Cons b bs)
  then have "utf8_step (b # bs) = (1, True)"
    by (simp add: utf8_step_def nth_or_zero_def)
  with Cons show ?case by (simp add: utf8_valid.simps [of "b # bs"])
qed simp

text \<open>A character step looks at the bytes it takes and at no others.\<close>

lemma utf8_step_local:
  assumes "utf8_step bs = (n, True)" and "bs \<noteq> []"
  shows "n \<le> length bs" and "utf8_step (take n bs @ ys) = (n, True)"
proof -
  have nz: "is_cont (nth_or_zero bs i) \<Longrightarrow> i < length bs" for i
    by (auto simp: is_cont_def nth_or_zero_def split: if_splits)
  have nz3: "second_ok3 b (nth_or_zero bs i) \<Longrightarrow> i < length bs"
    and nz4: "second_ok4 b (nth_or_zero bs i) \<Longrightarrow> i < length bs" for b i
    by (auto simp: second_ok3_def second_ok4_def in_range_def nth_or_zero_def split: if_splits)
  show len: "n \<le> length bs"
    using assms by (auto simp: utf8_step_def Let_def Suc_le_eq split: if_splits dest: nz nz3 nz4)
  have "nth_or_zero (take n bs @ ys) i = nth_or_zero bs i" if "i < n" for i
    using that len by (simp add: nth_or_zero_def nth_append)
  with assms(1) show "utf8_step (take n bs @ ys) = (n, True)"
    by (auto simp: utf8_step_def Let_def split: if_splits)
qed

lemma utf8_valid_step:
  assumes "utf8_step bs = (n, True)" and "bs \<noteq> []" and "utf8_valid ys"
  shows "utf8_valid (take n bs @ ys)"
proof -
  note step = utf8_step_local [OF assms(1,2)]
  have "take n bs @ ys \<noteq> []" using assms utf8_step_pos [of bs] by auto
  with step assms show ?thesis
    by (simp add: utf8_valid.simps [of "take n bs @ ys"])
qed

text \<open>Whatever the input, the decoded string is valid, hence decoding twice changes nothing.\<close>

lemma utf8_valid_lossy: "utf8_valid (utf8_lossy bs)"
proof (induction bs rule: utf8_lossy.induct)
  case (1 bs)
  show ?case
  proof (cases "bs = []")
    case False
    then have IH: "utf8_valid (utf8_lossy (drop (fst (utf8_step bs)) bs))" by (rule "1.IH")
    have repl: "utf8_step replacement_char = (3, True)"
      by (simp add: utf8_step_def replacement_char_def nth_or_zero_def in_range_def
          second_ok3_def is_cont_def Let_def)
    show ?thesis
    proof (cases "utf8_step bs")
      case (Pair n ok)
      show ?thesis
      proof (cases ok)
        case True
        then show ?thesis
          using Pair False IH utf8_valid_step [of bs n]
          by (simp add: utf8_lossy.simps [of bs])
      next
        case ok: False
        have "utf8_valid (take 3 replacement_char @ utf8_lossy (drop n bs))"
          using repl IH Pair by (intro utf8_valid_step) (auto simp: replacement_char_def)
        then show ?thesis
          using Pair False ok by (simp add: utf8_lossy.simps [of bs] replacement_char_def)
      qed
    qed
  qed simp
qed

lemma utf8_lossy_idem: "utf8_lossy (utf8_lossy bs) = utf8_lossy bs"
  by (simp add: utf8_lossy_valid utf8_valid_lossy)

lemma utf8_lossy_eq_Nil_iff [simp]: "utf8_lossy bs = [] \<longleftrightarrow> bs = []"
  using utf8_step_pos [of bs] by (auto simp: utf8_lossy.simps [of bs] replacement_char_def)

section \<open>ASCII case\<close>

definition to_ascii_lower :: "u8 \<Rightarrow> u8" where
  "to_ascii_lower b = (if in_range 65 90 b then b + 32 else b)"

definition to_ascii_upper :: "u8 \<Rightarrow> u8" where
  "to_ascii_upper b = (if in_range 97 122 b then b - 32 else b)"

definition eq_ignore_ascii_case :: "bytes \<Rightarrow> bytes \<Rightarrow> bool" where
  "eq_ignore_ascii_case xs ys = (map to_ascii_lower xs = map to_ascii_lower ys)"

lemma eq_ignore_ascii_case_refl [simp]: "eq_ignore_ascii_case xs xs"
  by (simp add: eq_ignore_ascii_case_def)

lemma eq_ignore_ascii_case_sym: "eq_ignore_ascii_case xs ys = eq_ignore_ascii_case ys xs"
  by (auto simp: eq_ignore_ascii_case_def)

text \<open>String literals of the sources, as bytes.\<close>

definition str :: "string \<Rightarrow> bytes" where
  "str s = map (\<lambda>c. of_nat (of_char c)) s"

lemma str_Nil [simp]: "str [] = []"
  by (simp add: str_def)

section \<open>Slicing and formatting\<close>

text \<open>
  \<^verbatim>\<open>&s[..n]\<close>: the slice must end at a character boundary of the string, otherwise the program
  panics: \<open>None\<close>.
\<close>

definition is_char_boundary :: "bytes \<Rightarrow> nat \<Rightarrow> bool" where
  "is_char_boundary s n \<longleftrightarrow> n = length s \<or> n < length s \<and> \<not> is_cont (s ! n)"

definition str_prefix :: "bytes \<Rightarrow> nat \<Rightarrow> bytes option" where
  "str_prefix s n = (if is_char_boundary s n then Some (take n s) else None)"

text \<open>\<^verbatim>\<open>s.chars()\<close>, each character as its bytes.\<close>

function utf8_chars :: "bytes \<Rightarrow> bytes list" where
  "utf8_chars s =
     (if s = [] then []
      else take (fst (utf8_step s)) s # utf8_chars (drop (fst (utf8_step s)) s))"
  by pat_completeness auto
termination
  by (relation "measure length") (auto simp: utf8_step_pos)

declare utf8_chars.simps [simp del]

lemma utf8_chars_ascii: "\<forall>b \<in> set s. b < 128 \<Longrightarrow> utf8_chars s = map (\<lambda>b. [b]) s"
proof (induction s)
  case Nil
  show ?case by (simp add: utf8_chars.simps)
next
  case (Cons b s)
  then have "utf8_step (b # s) = (1, True)" by (simp add: utf8_step_def nth_or_zero_def)
  with Cons show ?case by (simp add: utf8_chars.simps [of "b # s"])
qed

text \<open>\<^verbatim>\<open>slice.get(a..b)\<close>.\<close>

definition get_range :: "bytes \<Rightarrow> nat \<Rightarrow> nat \<Rightarrow> bytes option" where
  "get_range p a b = (if a \<le> b \<and> b \<le> length p then Some (take (b - a) (drop a p)) else None)"

text \<open>\<^verbatim>\<open>Display\<close> of the unsigned integers.\<close>

fun show_nat :: "nat \<Rightarrow> bytes" where
  "show_nat n = (if n < 10 then [of_nat (48 + n)] else show_nat (n div 10) @ [of_nat (48 + n mod 10)])"

declare show_nat.simps [simp del]

definition show_word :: "'a::len word \<Rightarrow> bytes" where
  "show_word w = show_nat (unat w)"

definition show_ip :: "bytes \<Rightarrow> bytes" where
  "show_ip ip = show_word (ip ! 0) @ str ''.'' @ show_word (ip ! 1) @ str ''.''
     @ show_word (ip ! 2) @ str ''.'' @ show_word (ip ! 3)"

lemma digit_ascii: "n < 10 \<Longrightarrow> of_nat (48 + n) < (128 :: u8)"
  by (subst word_less_nat_alt, subst unat_of_nat) simp

lemma show_nat_ascii: "\<forall>b \<in> set (show_nat n). b < 128"
proof (induction n rule: show_nat.induct)
  case (1 n)
  show ?case
  proof (cases "n < 10")
    case True
    then show ?thesis using digit_ascii [of n] by (simp add: show_nat.simps [of n])
  next
    case False
    then show ?thesis
      using 1 digit_ascii [of "n mod 10"] by (simp add: show_nat.simps [of n])
  qed
qed

lemma is_cont_ascii: "b < 128 \<Longrightarrow> \<not> is_cont b"
proof -
  assume "b < 128"
  then have "b div 2 ^ 7 = 0" by (simp add: div_word_less)
  then have "\<not> bit b 7" by (simp add: bit_iff_odd)
  moreover have "bit (128 :: u8) 7" by simp
  ultimately show ?thesis unfolding is_cont_def by (metis bit_and_iff)
qed

end
