(* ===== verification/Wire.thy ===== *)
theory Wire
  imports Prelude Utf8
begin

text \<open>
  The byte layer of \<^verbatim>\<open>spectre-protocol\<close>: the protocol error (\<^verbatim>\<open>error.rs\<close>), the checked
  readers and the writers (\<^verbatim>\<open>bytes_ext.rs\<close>), the stat-string encoding, and the framing
  that every protocol of the program shares (\<^verbatim>\<open>frame.rs\<close>): a header byte, a packet
  id, a 16-bit little-endian total length and the payload.
  A reader takes the remaining bytes and returns the value with what is left; a writer
  returns the bytes it appends.
  The locale \<open>framed_message\<close> is the contract between a message's encoder and decoder and
  the framing; the protocol theories interpret it for their messages.
\<close>

section \<open>Errors\<close>

datatype proto_error =
    Truncated nat nat
  | UnterminatedString
  | BadValue string
  | TooLarge nat
  | Io string

section \<open>Checked readers\<close>

type_synonym 'a reader = "bytes \<Rightarrow> proto_error + ('a \<times> bytes)"

definition try_get_u8 :: "u8 reader" where
  "try_get_u8 b =
     (if length b < 1 then Inl (Truncated 1 (length b)) else Inr (b ! 0, drop 1 b))"

definition try_get_u16_le :: "u16 reader" where
  "try_get_u16_le b =
     (if length b < 2 then Inl (Truncated 2 (length b)) else Inr (from_le (take 2 b), drop 2 b))"

definition try_get_u32_le :: "u32 reader" where
  "try_get_u32_le b =
     (if length b < 4 then Inl (Truncated 4 (length b)) else Inr (from_le (take 4 b), drop 4 b))"

definition try_get_bytes :: "nat \<Rightarrow> bytes reader" where
  "try_get_bytes n b =
     (if length b < n then Inl (Truncated n (length b)) else Inr (take n b, drop n b))"

text \<open>The loop of \<^verbatim>\<open>try_get_cstring\<close>, with the bytes pushed so far.\<close>

fun cstring_loop :: "bytes \<Rightarrow> bytes reader" where
  "cstring_loop out [] = Inl UnterminatedString"
| "cstring_loop out (x # b) =
     (if x = 0 then Inr (utf8_lossy out, b) else cstring_loop (out @ [x]) b)"

definition try_get_cstring :: "bytes reader" where
  "try_get_cstring b = cstring_loop [] b"

section \<open>Writers\<close>

abbreviation put_u8 :: "u8 \<Rightarrow> bytes" where
  "put_u8 x \<equiv> [x]"

abbreviation put_u16_le :: "u16 \<Rightarrow> bytes" where
  "put_u16_le x \<equiv> to_le 2 x"

abbreviation put_u32_le :: "u32 \<Rightarrow> bytes" where
  "put_u32_le x \<equiv> to_le 4 x"

definition put_cstring :: "bytes \<Rightarrow> bytes" where
  "put_cstring s = s @ [0]"

section \<open>Stat strings\<close>

text \<open>
  The inner loop of \<^verbatim>\<open>encode_statstring\<close> over one chunk, from position \<open>i\<close> with the mask
  so far: even bytes are incremented, odd bytes set bit \<open>i + 1\<close> of the mask.
\<close>

fun stat_chunk_loop :: "nat \<Rightarrow> u8 \<Rightarrow> bytes \<Rightarrow> u8 \<times> bytes" where
  "stat_chunk_loop i m [] = (m, [])"
| "stat_chunk_loop i m (byte # rest) =
     (if even (unat byte)
      then (let (m', out) = stat_chunk_loop (Suc i) m rest in (m', (byte + 1) # out))
      else (let (m', out) = stat_chunk_loop (Suc i) (m OR push_bit (i + 1) 1) rest
            in (m', byte # out)))"

definition encode_stat_chunk :: "bytes \<Rightarrow> bytes" where
  "encode_stat_chunk chunk = (let (m, out) = stat_chunk_loop 0 1 chunk in m # out)"

definition encode_statstring :: "bytes \<Rightarrow> bytes" where
  "encode_statstring raw = concat (map encode_stat_chunk (chunks 7 raw))"

fun stat_unchunk_loop :: "u8 \<Rightarrow> nat \<Rightarrow> bytes \<Rightarrow> bytes" where
  "stat_unchunk_loop m i [] = []"
| "stat_unchunk_loop m i (byte # rest) =
     (if m AND push_bit (i + 1) 1 = 0 then byte - 1 else byte) # stat_unchunk_loop m (Suc i) rest"

definition decode_stat_chunk :: "bytes \<Rightarrow> bytes" where
  "decode_stat_chunk chunk =
     (case chunk of [] \<Rightarrow> [] | m # rest \<Rightarrow> stat_unchunk_loop m 0 rest)"

definition decode_statstring :: "bytes \<Rightarrow> bytes" where
  "decode_statstring enc = concat (map decode_stat_chunk (chunks 8 enc))"

section \<open>Frames\<close>

record frame =
  frame_id :: u8
  frame_payload :: bytes

definition HEADER_LEN :: nat where
  "HEADER_LEN = 4"

definition encode_with :: "u8 \<Rightarrow> frame \<Rightarrow> proto_error + bytes" where
  "encode_with header f =
     (let total = HEADER_LEN + length (frame_payload f)
      in if total > 65535 then Inl (TooLarge total)
         else Inr (put_u8 header @ put_u8 (frame_id f) @ put_u16_le (of_nat total)
                   @ frame_payload f))"

text \<open>
  \<^verbatim>\<open>HeaderCodec::<H>::decode\<close>: the result and the buffer it leaves. The first part skips to
  the next header byte (\<open>None\<close> when there is none: the buffer is cleared).
\<close>

definition resync :: "u8 \<Rightarrow> bytes \<Rightarrow> bytes option" where
  "resync h src =
     (if src \<noteq> [] \<and> src ! 0 \<noteq> h
      then (case position (\<lambda>b. b = h) src of Some pos \<Rightarrow> Some (drop pos src) | None \<Rightarrow> None)
      else Some src)"

definition decode_at_header :: "bytes \<Rightarrow> (proto_error + frame option) \<times> bytes" where
  "decode_at_header src =
     (if length src < HEADER_LEN then (Inr None, src)
      else let total = unat (from_le [src ! 2, src ! 3] :: u16)
           in if total < HEADER_LEN
              then (Inl (BadValue ''frame length below header size''), drop 1 src)
              else if length src < total then (Inr None, src)
              else (Inr (Some \<lparr>frame_id = src ! 1,
                               frame_payload = take (total - HEADER_LEN) (drop HEADER_LEN src)\<rparr>),
                    drop total src))"

definition header_decode :: "u8 \<Rightarrow> bytes \<Rightarrow> (proto_error + frame option) \<times> bytes" where
  "header_decode h src =
     (case resync h src of None \<Rightarrow> (Inr None, []) | Some src' \<Rightarrow> decode_at_header src')"

text \<open>\<^verbatim>\<open>Encoder<Bytes>\<close> of the same codec appends the item.\<close>

definition header_encode :: "bytes \<Rightarrow> bytes \<Rightarrow> proto_error + bytes" where
  "header_encode item dst = Inr (dst @ item)"

section \<open>Readers after writers\<close>

lemma try_get_u8_Cons [simp, wire_simps]: "try_get_u8 (x # b) = Inr (x, b)"
  by (simp add: try_get_u8_def)

lemma try_get_u8_Nil [simp]: "try_get_u8 [] = Inl (Truncated 1 0)"
  by (simp add: try_get_u8_def)

lemma try_get_u16_le_append [simp]: "try_get_u16_le (put_u16_le x @ b) = Inr (x, b)"
  by (simp add: try_get_u16_le_def)

lemma try_get_u32_le_append [simp]: "try_get_u32_le (put_u32_le x @ b) = Inr (x, b)"
  by (simp add: try_get_u32_le_def)

lemma try_get_u16_le_exact [simp]: "try_get_u16_le (put_u16_le x) = Inr (x, [])"
  using try_get_u16_le_append [of x "[]"] by simp

lemma try_get_u32_le_exact [simp]: "try_get_u32_le (put_u32_le x) = Inr (x, [])"
  using try_get_u32_le_append [of x "[]"] by simp

lemma try_get_bytes_append [simp]: "length x = n \<Longrightarrow> try_get_bytes n (x @ b) = Inr (x, b)"
  by (simp add: try_get_bytes_def)

lemma cstring_loop_append:
  "0 \<notin> set s \<Longrightarrow> cstring_loop out (s @ 0 # b) = Inr (utf8_lossy (out @ s), b)"
  by (induction s arbitrary: out) auto

lemma cstring_loop_unterminated: "0 \<notin> set s \<Longrightarrow> cstring_loop out s = Inl UnterminatedString"
  by (induction s arbitrary: out) auto

lemma try_get_cstring_raw: "0 \<notin> set s \<Longrightarrow> try_get_cstring (s @ 0 # b) = Inr (utf8_lossy s, b)"
  by (simp add: try_get_cstring_def cstring_loop_append)

text \<open>
  The strings the program can put on the wire as C strings: valid UTF-8 without NUL. A name
  with an embedded NUL would be cut at it.
\<close>

definition cstr_ok :: "bytes \<Rightarrow> bool" where
  "cstr_ok s = (0 \<notin> set s \<and> utf8_valid s)"

lemma try_get_cstring_append [simp]:
  "cstr_ok s \<Longrightarrow> try_get_cstring (put_cstring s @ b) = Inr (s, b)"
  by (simp add: cstr_ok_def put_cstring_def try_get_cstring_raw utf8_lossy_valid)

lemma try_get_cstring_exact [simp]: "cstr_ok s \<Longrightarrow> try_get_cstring (put_cstring s) = Inr (s, [])"
  using try_get_cstring_append [of s "[]"] by simp

lemma length_put_cstring [simp]: "length (put_cstring s) = Suc (length s)"
  by (simp add: put_cstring_def)

text \<open>What a successful read consumed.\<close>

lemma try_get_u8_InrD: "try_get_u8 b = Inr (x, r) \<Longrightarrow> b = x # r"
  by (cases b) auto

lemma try_get_u16_le_InrD: "try_get_u16_le b = Inr (x, r) \<Longrightarrow> b = put_u16_le x @ r"
  by (auto simp: try_get_u16_le_def split: if_splits)

lemma try_get_u32_le_InrD: "try_get_u32_le b = Inr (x, r) \<Longrightarrow> b = put_u32_le x @ r"
  by (auto simp: try_get_u32_le_def split: if_splits)

lemma try_get_bytes_InrD: "try_get_bytes n b = Inr (x, r) \<Longrightarrow> b = x @ r \<and> length x = n"
  by (auto simp: try_get_bytes_def split: if_splits)

lemma cstring_loop_InrD:
  "cstring_loop out b = Inr (s, r) \<Longrightarrow> \<exists>t. b = t @ 0 # r \<and> 0 \<notin> set t \<and> s = utf8_lossy (out @ t)"
proof (induction b arbitrary: out)
  case (Cons x b)
  show ?case
  proof (cases "x = 0")
    case True
    with Cons.prems show ?thesis by (intro exI [of _ "[]"]) auto
  next
    case False
    with Cons.prems Cons.IH [of "out @ [x]"] obtain t
      where "b = t @ 0 # r \<and> 0 \<notin> set t \<and> s = utf8_lossy (out @ x # t)" by auto
    with False show ?thesis by (intro exI [of _ "x # t"]) auto
  qed
qed simp

lemma try_get_cstring_InrD:
  "try_get_cstring b = Inr (s, r) \<Longrightarrow> \<exists>t. b = t @ 0 # r \<and> 0 \<notin> set t \<and> s = utf8_lossy t"
  using cstring_loop_InrD [of "[]" b s r] by (simp add: try_get_cstring_def)

lemmas reader_InrD = try_get_u8_InrD try_get_u16_le_InrD try_get_u32_le_InrD try_get_bytes_InrD
  try_get_cstring_InrD

section \<open>Stat strings\<close>

lemma length_stat_chunk_loop: "length (snd (stat_chunk_loop i m bs)) = length bs"
  by (induction i m bs rule: stat_chunk_loop.induct) (auto simp: Let_def split: prod.splits)

lemma stat_unchunk_loop_Cons:
  "stat_unchunk_loop m i (byte # rest) =
     (if bit m (Suc i) then byte else byte - 1) # stat_unchunk_loop m (Suc i) rest"
  using and_exp_eq_0_iff_not_bit [of m "Suc i"] by (simp add: push_bit_eq_mult)

declare stat_unchunk_loop.simps(2) [simp del]

text \<open>The mask the loop returns keeps the bits below, and decoding with it gives the chunk back.\<close>

lemma stat_chunk_loop_roundtrip:
  assumes "stat_chunk_loop i m bs = (m', out)" and "i + length bs \<le> 7"
    and "\<And>k. i < k \<Longrightarrow> \<not> bit m k"
  shows "(\<forall>k \<le> i. bit m' k = bit m k) \<and> stat_unchunk_loop m' i out = bs"
  using assms
proof (induction i m bs arbitrary: m' out rule: stat_chunk_loop.induct)
  case (1 i m)
  then show ?case by simp
next
  case (2 i m byte rest)
  show ?case
  proof (cases "even (unat byte)")
    case True
    obtain n o' where loop: "stat_chunk_loop (Suc i) m rest = (n, o')" by fastforce
    with True "2.prems"(1) have mo: "m' = n" "out = (byte + 1) # o'" by auto
    have "(\<forall>k \<le> Suc i. bit n k = bit m k) \<and> stat_unchunk_loop n (Suc i) o' = rest"
      using True loop "2.prems" by (intro "2.IH"(1)) auto
    with mo "2.prems"(3) [of "Suc i"] show ?thesis
      by (simp add: stat_unchunk_loop_Cons)
  next
    case False
    let ?m = "m OR push_bit (i + 1) 1"
    obtain n o' where loop: "stat_chunk_loop (Suc i) ?m rest = (n, o')" by fastforce
    with False "2.prems"(1) have mo: "m' = n" "out = byte # o'" by auto
    have "(\<forall>k \<le> Suc i. bit n k = bit ?m k) \<and> stat_unchunk_loop n (Suc i) o' = rest"
      using False loop "2.prems" by (intro "2.IH"(2)) (auto simp: bit_simps)
    moreover have "bit ?m (Suc i)" and "\<forall>k \<le> i. bit ?m k = bit m k"
      using "2.prems"(2) by (auto simp: bit_simps)
    ultimately show ?thesis using mo by (simp add: stat_unchunk_loop_Cons)
  qed
qed

lemma decode_encode_stat_chunk:
  "length bs \<le> 7 \<Longrightarrow> decode_stat_chunk (encode_stat_chunk bs) = bs"
  using stat_chunk_loop_roundtrip [of 0 1 bs]
  by (cases "stat_chunk_loop 0 1 bs")
     (auto simp: decode_stat_chunk_def encode_stat_chunk_def bit_1_iff)

lemma length_encode_stat_chunk [simp]: "length (encode_stat_chunk bs) = Suc (length bs)"
  using length_stat_chunk_loop [of 0 1 bs]
  by (auto simp: encode_stat_chunk_def Let_def split: prod.splits)

lemma encode_stat_chunk_neq_Nil [simp]: "encode_stat_chunk bs \<noteq> []"
  using length_encode_stat_chunk [of bs] by (metis length_0_conv nat.simps(3))

lemma encode_statstring_append:
  "length xs = 7 \<Longrightarrow> encode_statstring (xs @ ys) = encode_stat_chunk xs @ encode_statstring ys"
  by (simp add: encode_statstring_def chunks_append)

lemma encode_statstring_short:
  "xs \<noteq> [] \<Longrightarrow> length xs \<le> 7 \<Longrightarrow> encode_statstring xs = encode_stat_chunk xs"
  by (simp add: encode_statstring_def chunks_short)

lemma decode_statstring_append:
  "length xs = 8 \<Longrightarrow> decode_statstring (xs @ ys) = decode_stat_chunk xs @ decode_statstring ys"
  by (simp add: decode_statstring_def chunks_append)

lemma decode_statstring_short:
  "xs \<noteq> [] \<Longrightarrow> length xs \<le> 8 \<Longrightarrow> decode_statstring xs = decode_stat_chunk xs"
  by (simp add: decode_statstring_def chunks_short)

text \<open>No byte of the encoding is NUL: the mask has bit 0, data bytes are odd.\<close>

lemma odd_succ_even: "even (unat (b :: u8)) \<Longrightarrow> odd (unat (b + 1))"
  by (simp add: unat_word_ariths dvd_mod_iff)

lemma stat_chunk_loop_odd:
  "stat_chunk_loop i m bs = (m', out) \<Longrightarrow> bit m 0 \<Longrightarrow> bit m' 0 \<and> (\<forall>b \<in> set out. odd (unat b))"
proof (induction i m bs arbitrary: m' out rule: stat_chunk_loop.induct)
  case (2 i m byte rest)
  show ?case
  proof (cases "even (unat byte)")
    case True
    then obtain o' where "stat_chunk_loop (Suc i) m rest = (m', o')" "out = (byte + 1) # o'"
      using "2.prems"(1) by (auto simp: Let_def split: prod.splits)
    with "2.IH"(1) [OF True] "2.prems"(2) odd_succ_even [OF True] show ?thesis by simp
  next
    case False
    then obtain o' where "stat_chunk_loop (Suc i) (m OR push_bit (i + 1) 1) rest = (m', o')"
        "out = byte # o'"
      using "2.prems"(1) by (auto simp: Let_def split: prod.splits)
    with "2.IH"(2) [OF False] "2.prems"(2) False show ?thesis by (simp add: bit_or_iff)
  qed
qed simp

lemma encode_stat_chunk_no_nul: "0 \<notin> set (encode_stat_chunk bs)"
proof (cases "stat_chunk_loop 0 1 bs")
  case (Pair m out)
  then have "bit m 0 \<and> (\<forall>b \<in> set out. odd (unat b))"
    using stat_chunk_loop_odd by (simp add: bit_1_iff)
  with Pair show ?thesis by (auto simp: encode_stat_chunk_def)
qed

text \<open>
  Stat strings round-trip, for byte strings of any length, and the encoding never contains a NUL
  byte, so that it can be embedded as a C string in a packet.
\<close>

lemma statstring_roundtrip:
  "decode_statstring (encode_statstring raw) = raw \<and> 0 \<notin> set (encode_statstring raw)"
proof (induction raw rule: chunk_induct [where n = 7])
  case Nil
  show ?case by (simp add: encode_statstring_def decode_statstring_def)
next
  case (Short xs)
  then show ?case
    by (simp add: encode_statstring_short decode_statstring_short decode_encode_stat_chunk
        encode_stat_chunk_no_nul)
next
  case (Full xs ys)
  then show ?case
    by (simp add: encode_statstring_append decode_statstring_append decode_encode_stat_chunk
        encode_stat_chunk_no_nul)
qed simp

section \<open>Framing\<close>

lemma encode_with_InrD:
  assumes "encode_with h f = Inr bs"
  shows "bs = h # frame_id f # put_u16_le (of_nat (4 + length (frame_payload f))) @ frame_payload f"
    and "length (frame_payload f) \<le> 65531" and "length bs = 4 + length (frame_payload f)"
  using assms by (auto simp: encode_with_def HEADER_LEN_def Let_def split: if_splits)

lemma encode_with_ok_iff: "is_ok (encode_with h f) \<longleftrightarrow> length (frame_payload f) \<le> 65531"
  by (auto simp: encode_with_def HEADER_LEN_def Let_def)

lemma to_le_2: "put_u16_le x = [ucast x, ucast (drop_bit 8 x)]"
  by (simp add: numeral_2_eq_2 to_le.simps)

lemma resync_at_header [simp]: "resync h (h # bs) = Some (h # bs)"
  by (simp add: resync_def)

lemma resync_suffix: "resync h src = Some src' \<Longrightarrow> \<exists>n. src' = drop n src"
  by (auto simp: resync_def split: if_splits option.splits intro: exI [of _ 0])

lemma resync_starts: "resync h src = Some (b # bs) \<Longrightarrow> b = h"
proof (cases "src \<noteq> [] \<and> src ! 0 \<noteq> h")
  case True
  assume *: "resync h src = Some (b # bs)"
  with True obtain pos where pos: "position (\<lambda>b. b = h) src = Some pos" "drop pos src = b # bs"
    by (auto simp: resync_def split: option.splits)
  then show "b = h"
    using position_SomeD [OF pos(1)] by (metis Cons_nth_drop_Suc list.inject)
next
  case False
  assume "resync h src = Some (b # bs)"
  with False show "b = h" by (auto simp: resync_def)
qed

lemma decode_at_header_shrinks:
  "decode_at_header src = (r, rest) \<Longrightarrow> r \<noteq> Inr None \<Longrightarrow> length rest < length src"
  by (auto simp: decode_at_header_def HEADER_LEN_def Let_def split: if_splits)

lemma header_decode_shrinks:
  assumes "header_decode h src = (r, rest)" and "r \<noteq> Inr None"
  shows "length rest < length src"
proof -
  obtain src' where s: "resync h src = Some src'" and d: "decode_at_header src' = (r, rest)"
    using assms by (auto simp: header_decode_def split: option.splits)
  obtain n where "src' = drop n src" using resync_suffix [OF s] by blast
  with decode_at_header_shrinks [OF d assms(2)] show ?thesis by simp
qed

lemma decode_at_header_complete:
  assumes "unat (from_le [src ! 2, src ! 3] :: u16) = t" and "4 \<le> t" and "t \<le> length src"
  shows "decode_at_header src =
     (Inr (Some \<lparr>frame_id = src ! 1, frame_payload = take (t - 4) (drop 4 src)\<rparr>), drop t src)"
  using assms by (simp add: decode_at_header_def HEADER_LEN_def Let_def)

lemma decode_at_header_frame:
  assumes "length p \<le> 65531"
  shows "decode_at_header (h # i # put_u16_le (of_nat (4 + length p)) @ p @ rest) =
     (Inr (Some \<lparr>frame_id = i, frame_payload = p\<rparr>), rest)"
proof -
  let ?l = "of_nat (4 + length p) :: u16"
  let ?src = "h # i # put_u16_le ?l @ p @ rest"
  have l: "unat ?l = 4 + length p"
    using assms by (subst unat_of_nat) simp
  have "[?src ! 2, ?src ! 3] = put_u16_le ?l"
    by (simp add: to_le_2)
  then have len: "unat (from_le [?src ! 2, ?src ! 3] :: u16) = 4 + length p"
    using l by simp
  have tot: "drop 4 ?src = p @ rest" and id: "?src ! 1 = i" and "4 + length p \<le> length ?src"
    by (simp_all add: to_le_2)
  moreover have "drop (4 + length p) ?src = rest"
    using arg_cong [OF tot, of "drop (length p)"] by (simp only: drop_drop add.commute) simp
  ultimately show ?thesis
    using decode_at_header_complete [OF len] by (simp only: tot id le_add1) simp
qed

lemma header_decode_encode:
  assumes "encode_with h f = Inr bs"
  shows "header_decode h (bs @ rest) = (Inr (Some f), rest)"
  using decode_at_header_frame [of "frame_payload f" h "frame_id f" rest]
    encode_with_InrD [OF assms]
  by (simp add: header_decode_def)

text \<open>
  A frame that \<^verbatim>\<open>encode_with\<close> accepts is decoded by the codec of the same header byte to
  the same id and payload, and exactly its bytes are consumed: whatever follows in the
  buffer is left for the next call. The encoder refuses exactly the payloads that do not fit
  the 16-bit length field.
\<close>

lemma frame_roundtrip:
  "(encode_with h f = Inr bs \<longrightarrow> header_decode h (bs @ rest) = (Inr (Some f), rest))
   \<and> (is_ok (encode_with h f) \<longleftrightarrow> HEADER_LEN + length (frame_payload f) < 2 ^ 16)"
  using header_decode_encode [of h f bs rest] encode_with_ok_iff [of h f]
  by (auto simp: HEADER_LEN_def)

lemma decode_at_header_partial:
  assumes "length p \<le> 65531" and "src @ unread = h # i # put_u16_le (of_nat (4 + length p)) @ p @ rest"
    and "length src < 4 + length p"
  shows "decode_at_header src = (Inr None, src)"
proof (cases "length src < 4")
  case False
  let ?l = "of_nat (4 + length p) :: u16"
  have "src ! k = (src @ unread) ! k" if "k < 4" for k
    using that False by (simp add: nth_append)
  then have "[src ! 2, src ! 3] = put_u16_le ?l"
    unfolding assms(2) by (simp add: to_le_2)
  moreover have "unat ?l = 4 + length p"
    using assms(1) by (subst unat_of_nat) simp
  ultimately show ?thesis
    using False assms(3) by (simp add: decode_at_header_def HEADER_LEN_def Let_def)
qed (simp add: decode_at_header_def HEADER_LEN_def)

lemma header_decode_partial:
  assumes "encode_with h f = Inr bs" and "k < length bs"
  shows "header_decode h (take k bs) = (Inr None, take k bs)"
proof -
  note bs = encode_with_InrD [OF assms(1)]
  have "take k bs @ drop k bs =
      h # frame_id f # put_u16_le (of_nat (4 + length (frame_payload f))) @ frame_payload f @ []"
    using bs(1) by simp
  then have "decode_at_header (take k bs) = (Inr None, take k bs)"
    by (rule decode_at_header_partial [OF bs(2)]) (use bs(3) assms(2) in simp)
  moreover have "resync h (take k bs) = Some (take k bs)"
    using bs(1) by (cases k) (simp_all add: resync_def)
  ultimately show ?thesis by (simp add: header_decode_def)
qed

section \<open>Codecs on a stream\<close>

text \<open>
  The reading loop of a connection: decode until the codec asks for more bytes (a codec that
  returned something without consuming anything would be stopped). \<open>feed\<close> adds one piece
  read from the socket to the buffer and runs it.
\<close>

type_synonym 'f decoder = "bytes \<Rightarrow> (proto_error + 'f option) \<times> bytes"

function drain :: "'f decoder \<Rightarrow> bytes \<Rightarrow> (proto_error + 'f) list \<times> bytes" where
  "drain dec buf =
     (case dec buf of
        (Inr None, rest) \<Rightarrow> ([], rest)
      | (Inr (Some f), rest) \<Rightarrow>
          (if length rest < length buf then let (fs, r) = drain dec rest in (Inr f # fs, r)
           else ([Inr f], rest))
      | (Inl e, rest) \<Rightarrow>
          (if length rest < length buf then let (fs, r) = drain dec rest in (Inl e # fs, r)
           else ([Inl e], rest)))"
  by pat_completeness auto
termination
  by (relation "measure (\<lambda>(dec, buf). length buf)") auto

declare drain.simps [simp del]

definition feed ::
    "'f decoder \<Rightarrow> bytes \<times> (proto_error + 'f) list \<Rightarrow> bytes \<Rightarrow> bytes \<times> (proto_error + 'f) list" where
  "feed dec s piece =
     (let (fs, rest) = drain dec (fst s @ piece) in (rest, snd s @ fs))"

text \<open>
  The contract of a stream codec: a complete frame at the front of the buffer is returned and
  exactly its bytes are consumed; the beginning of a frame is left untouched.
\<close>

locale stream_codec =
  fixes dec :: "'f decoder"
    and enc :: "'f \<Rightarrow> proto_error + bytes"
  assumes dec_enc: "enc f = Inr bs \<Longrightarrow> dec (bs @ rest) = (Inr (Some f), rest)"
    and dec_partial: "enc f = Inr bs \<Longrightarrow> k < length bs \<Longrightarrow> dec (take k bs) = (Inr None, take k bs)"
    and enc_nonempty: "enc f = Inr bs \<Longrightarrow> bs \<noteq> []"
    and dec_empty: "dec [] = (Inr None, [])"
begin

lemma drain_partial:
  assumes "enc f = Inr bs" and "k < length bs"
  shows "drain dec (take k bs) = ([], take k bs)"
  using dec_partial [OF assms] by (simp add: drain.simps [of dec "take k bs"])

lemma drain_complete:
  assumes "enc f = Inr bs" and "drain dec buf = (fs, r)"
  shows "drain dec (bs @ buf) = (Inr f # fs, r)"
  using dec_enc [OF assms(1), of buf] assms(2) enc_nonempty [OF assms(1)]
  by (simp add: drain.simps [of dec "bs @ buf"])

text \<open>
  Draining a prefix of a stream of frames yields the frames that are complete in it and
  keeps the beginning of the next one.
\<close>

lemma drain_prefix:
  assumes "\<forall>f \<in> set fs. enc f = Inr (e f)" and "buf @ unread = concat (map e fs)"
  shows "\<exists>done rest buf'. fs = done @ rest \<and> drain dec buf = (map Inr done, buf')
     \<and> buf' @ unread = concat (map e rest) \<and> (rest \<noteq> [] \<longrightarrow> length buf' < length (e (hd rest)))"
  using assms
proof (induction fs arbitrary: buf)
  case Nil
  then show ?case by (simp add: drain.simps [of dec "[]"] dec_empty)
next
  case (Cons f fs)
  have enc: "enc f = Inr (e f)" using Cons.prems(1) by simp
  show ?case
  proof (cases "length (e f) \<le> length buf")
    case True
    then have "take (length (e f)) (buf @ unread) = take (length (e f)) buf" by simp
    with Cons.prems(2) have "take (length (e f)) buf = e f" by simp
    then obtain buf2 where buf: "buf = e f @ buf2"
      by (metis append_take_drop_id)
    have "buf2 @ unread = concat (map e fs)" using Cons.prems(2) buf by simp
    with Cons.IH [of buf2] Cons.prems(1) obtain ds rs buf' where
      IH: "fs = ds @ rs" "drain dec buf2 = (map Inr ds, buf')" "buf' @ unread = concat (map e rs)"
        "rs \<noteq> [] \<longrightarrow> length buf' < length (e (hd rs))"
      by auto
    from drain_complete [OF enc IH(2)] IH show ?thesis
      by (intro exI [of _ "f # ds"] exI [of _ rs] exI [of _ buf']) (simp add: buf)
  next
    case False
    have "buf = take (length buf) (buf @ unread)" by simp
    also have "\<dots> = take (length buf) (e f)" using Cons.prems(2) False by simp
    finally have "drain dec buf = ([], buf)"
      using drain_partial [OF enc, of "length buf"] False by simp
    with False Cons.prems(2) show ?thesis
      by (intro exI [of _ "[]"] exI [of _ "f # fs"] exI [of _ buf]) auto
  qed
qed

lemma feed_all:
  assumes "\<forall>f \<in> set fs. enc f = Inr (e f)"
    and "buf @ concat pieces = concat (map e fs)"
    and "fs \<noteq> [] \<longrightarrow> length buf < length (e (hd fs))"
  shows "foldl (feed dec) (buf, out) pieces = ([], out @ map Inr fs)"
  using assms
proof (induction pieces arbitrary: buf out fs)
  case Nil
  then show ?case by (cases fs) auto
next
  case (Cons piece pieces)
  have "(buf @ piece) @ concat pieces = concat (map e fs)" using Cons.prems(2) by simp
  from drain_prefix [OF Cons.prems(1) this] obtain ds rs buf' where
    d: "fs = ds @ rs" "drain dec (buf @ piece) = (map Inr ds, buf')"
      "buf' @ concat pieces = concat (map e rs)" "rs \<noteq> [] \<longrightarrow> length buf' < length (e (hd rs))"
    by blast
  then have "foldl (feed dec) (buf', out @ map Inr ds) pieces = ([], (out @ map Inr ds) @ map Inr rs)"
    using Cons.prems(1) by (intro Cons.IH) auto
  moreover have "feed dec (buf, out) piece = (buf', out @ map Inr ds)"
    using d(2) by (simp add: feed_def)
  ultimately show ?case using d(1) by simp
qed

lemma fragmentation:
  assumes "\<forall>f \<in> set fs. enc f = Inr (e f)" and "concat pieces = concat (map e fs)"
  shows "foldl (feed dec) ([], []) pieces = ([], map Inr fs)"
proof -
  have "fs \<noteq> [] \<longrightarrow> length [] < length (e (hd fs))"
    using assms(1) enc_nonempty by (cases fs) auto
  from feed_all [OF assms(1) _ this, of pieces "[]"] assms(2) show ?thesis by simp
qed

end

interpretation header_codec: stream_codec "header_decode h" "encode_with h" for h
proof
  fix f bs rest assume "encode_with h f = Inr bs"
  then show "header_decode h (bs @ rest) = (Inr (Some f), rest)" by (rule header_decode_encode)
next
  fix f bs and k :: nat assume "encode_with h f = Inr bs" "k < length bs"
  then show "header_decode h (take k bs) = (Inr None, take k bs)" by (rule header_decode_partial)
next
  fix f bs assume "encode_with h f = Inr bs"
  then show "bs \<noteq> []" using encode_with_InrD(3) [of h f bs] by auto
next
  show "header_decode h [] = (Inr None, [])"
    by (simp add: header_decode_def resync_def decode_at_header_def HEADER_LEN_def)
qed

text \<open>
  C19. Framing does not depend on how TCP cuts the stream: however the bytes of a sequence of
  encoded frames are split into the pieces read from the socket, running the decoder after
  each piece yields exactly those frames, in order, with no error and nothing left over.
\<close>

theorem framing_fragmentation:
  assumes "\<forall>f \<in> set fs. encode_with h f = Inr (enc f)"
    and "concat pieces = concat (map enc fs)"
  shows "foldl (feed (header_decode h)) ([], []) pieces = ([], map Inr fs)"
  using assms by (rule header_codec.fragmentation)

definition witness_enc :: "frame \<Rightarrow> bytes" where
  "witness_enc f = [0xF7, frame_id f, 5, 0] @ frame_payload f"

theorem framing_fragmentation_witness:
  "foldl (feed (header_decode 0xF7)) ([], []) [[0xF7, 1], [5, 0, 9, 0xF7], [2, 5, 0, 8]] =
     ([], map Inr [\<lparr>frame_id = 1, frame_payload = [9]\<rparr>, \<lparr>frame_id = 2, frame_payload = [8]\<rparr>])"
  by (rule framing_fragmentation [where enc = witness_enc])
     (simp_all add: encode_with_def HEADER_LEN_def to_le_2 Let_def witness_enc_def)

section \<open>The contract of a message\<close>

text \<open>
  A message type of a protocol with header byte \<open>hdr\<close> and packet id \<open>mid\<close>: its encoder frames
  the payload, its decoder inverts the payload on the values \<open>wf\<close> that the wire format
  can carry. What a receiver may conclude holds for every such message.
\<close>

locale framed_message =
  fixes hdr :: u8
    and mid :: u8
    and payload :: "'m \<Rightarrow> bytes"
    and encode :: "'m \<Rightarrow> proto_error + bytes"
    and decode :: "bytes \<Rightarrow> proto_error + 'm"
    and wf :: "'m \<Rightarrow> bool"
  assumes encode_frames: "wf m \<Longrightarrow> encode m = encode_with hdr \<lparr>frame_id = mid, frame_payload = payload m\<rparr>"
    and decode_payload: "wf m \<Longrightarrow> decode (payload m) = Inr m"
begin

lemma receives:
  assumes "wf m" and "encode m = Inr bs"
  shows "\<exists>f. header_decode hdr (bs @ rest) = (Inr (Some f), rest) \<and> frame_id f = mid
     \<and> decode (frame_payload f) = Inr m"
proof -
  have "header_decode hdr (bs @ rest) = (Inr (Some \<lparr>frame_id = mid, frame_payload = payload m\<rparr>), rest)"
    using assms encode_frames by (intro header_decode_encode) simp
  with assms(1) decode_payload show ?thesis by simp
qed

lemma encode_ok_iff: "wf m \<Longrightarrow> is_ok (encode m) \<longleftrightarrow> length (payload m) \<le> 65531"
  by (simp add: encode_frames encode_with_ok_iff)

lemma encode_inj:
  assumes "wf m" "wf m'" "encode m = Inr bs" "encode m' = Inr bs"
  shows "m = m'"
proof -
  obtain f where "header_decode hdr (bs @ []) = (Inr (Some f), [])" "decode (frame_payload f) = Inr m"
    using receives [OF assms(1,3)] by blast
  moreover obtain g where "header_decode hdr (bs @ []) = (Inr (Some g), [])" "decode (frame_payload g) = Inr m'"
    using receives [OF assms(2,4)] by blast
  ultimately show ?thesis by simp
qed

end

section \<open>Progress of the decoder\<close>

lemma decode_at_header_outcome:
  "case decode_at_header src of
     (Inr None, rest) \<Rightarrow> rest = src
   | (Inr (Some f), rest) \<Rightarrow> length rest + 4 + length (frame_payload f) \<le> length src
   | (Inl e, rest) \<Rightarrow> length rest < length src"
  by (auto simp: decode_at_header_def HEADER_LEN_def Let_def)

text \<open>
  The decoder always makes progress: a frame or an error consumes at least one byte of
  the buffer, and when it asks for more bytes everything it keeps is a suffix of the buffer
  that starts with the header byte (or is empty), so garbage is dropped and no byte of a
  frame that has begun is lost.
\<close>

lemma header_decode_progress:
  "case header_decode h src of
     (Inr None, rest) \<Rightarrow> (\<exists>n. rest = drop n src) \<and> (rest = [] \<or> rest ! 0 = h)
   | (Inr (Some f), rest) \<Rightarrow> length rest + 4 + length (frame_payload f) \<le> length src
   | (Inl e, rest) \<Rightarrow> length rest < length src"
proof (cases "resync h src")
  case None
  then show ?thesis
    by (simp add: header_decode_def exI [of _ "length src"])
next
  case (Some src')
  obtain n where n: "src' = drop n src" using resync_suffix [OF Some] by blast
  have hd: "src' = [] \<or> src' ! 0 = h"
    using resync_starts [of h src] Some by (cases src') auto
  show ?thesis
    using decode_at_header_outcome [of src'] Some n hd
    by (auto simp: header_decode_def split: prod.splits sum.splits option.splits)
qed

section \<open>Truncation\<close>

text \<open>
  A decoder that notices truncation: the part of the input a success depends on is a prefix,
  every shorter prefix of it is an error and everything after it is ignored. The readers have
  this property with the rest they return, and it is kept by sequencing.
\<close>

definition strict_reader :: "'a reader \<Rightarrow> bool" where
  "strict_reader rd \<longleftrightarrow> (\<forall>b x r. rd b = Inr (x, r) \<longrightarrow>
     (\<exists>c. b = c @ r \<and> (\<forall>r'. rd (c @ r') = Inr (x, r'))
        \<and> (\<forall>k < length c. \<exists>e. rd (take k c) = Inl e)))"

definition strict_decoder :: "(bytes \<Rightarrow> proto_error + 'a) \<Rightarrow> bool" where
  "strict_decoder d \<longleftrightarrow> (\<forall>b x. d b = Inr x \<longrightarrow>
     (\<exists>c r. b = c @ r \<and> (\<forall>r'. d (c @ r') = Inr x)
        \<and> (\<forall>k < length c. \<exists>e. d (take k c) = Inl e)))"

lemma strict_readerE:
  assumes "strict_reader rd" and "rd b = Inr (x, r)"
  obtains c where "b = c @ r" "\<And>r'. rd (c @ r') = Inr (x, r')"
    "\<And>k. k < length c \<Longrightarrow> \<exists>e. rd (take k c) = Inl e"
  using assms unfolding strict_reader_def by blast

lemma strict_decoderE:
  assumes "strict_decoder d" and "d b = Inr x"
  obtains c r where "b = c @ r" "\<And>r'. d (c @ r') = Inr x"
    "\<And>k. k < length c \<Longrightarrow> \<exists>e. d (take k c) = Inl e"
  using assms unfolding strict_decoder_def by blast

lemma strict_readerI:
  assumes "\<And>b x r. rd b = Inr (x, r) \<Longrightarrow> \<exists>c. b = c @ r \<and> (\<forall>r'. rd (c @ r') = Inr (x, r'))
     \<and> (\<forall>k < length c. \<exists>e. rd (take k c) = Inl e)"
  shows "strict_reader rd"
  using assms by (simp add: strict_reader_def)

text \<open>A reader of \<open>n\<close> bytes has \<open>enc x\<close>, the bytes it read, as the part it depends on.\<close>

lemma strict_reader_fixed:
  assumes "\<And>b x r. rd b = Inr (x, r) \<Longrightarrow> b = enc x @ r \<and> length (enc x) = n"
    and "\<And>x r. length (enc x) = n \<Longrightarrow> rd (enc x @ r) = Inr (x, r)"
    and "\<And>b. length b < n \<Longrightarrow> \<exists>e. rd b = Inl e"
  shows "strict_reader rd"
proof (rule strict_readerI)
  fix b x r assume "rd b = Inr (x, r)"
  from assms(1) [OF this] assms(2,3) show "\<exists>c. b = c @ r \<and> (\<forall>r'. rd (c @ r') = Inr (x, r'))
     \<and> (\<forall>k < length c. \<exists>e. rd (take k c) = Inl e)"
    by (intro exI [of _ "enc x"]) simp
qed

lemma strict_reader_bytes: "strict_reader (try_get_bytes n)"
  by (rule strict_reader_fixed [where enc = "\<lambda>x. x" and n = n])
     (blast dest: try_get_bytes_InrD, simp, simp add: try_get_bytes_def)

lemma strict_reader_u8: "strict_reader try_get_u8"
  by (rule strict_reader_fixed [where enc = "\<lambda>x. [x]" and n = 1])
     (simp add: try_get_u8_InrD, simp, simp)

lemma strict_reader_u16: "strict_reader try_get_u16_le"
  by (rule strict_reader_fixed [where enc = put_u16_le and n = 2])
     (simp add: try_get_u16_le_InrD, simp, simp add: try_get_u16_le_def)

lemma strict_reader_u32: "strict_reader try_get_u32_le"
  by (rule strict_reader_fixed [where enc = put_u32_le and n = 4])
     (simp add: try_get_u32_le_InrD, simp, simp add: try_get_u32_le_def)

lemma try_get_cstring_take:
  assumes "0 \<notin> set t" and "k \<le> length t"
  shows "try_get_cstring (take k (t @ [0])) = Inl UnterminatedString"
proof -
  have "0 \<notin> set (take k t)" using assms(1) by (meson in_set_takeD)
  then show ?thesis using assms(2) by (simp add: try_get_cstring_def cstring_loop_unterminated)
qed

lemma strict_reader_cstring: "strict_reader try_get_cstring"
proof (rule strict_readerI)
  fix b s r assume "try_get_cstring b = Inr (s, r)"
  then obtain t where t: "b = t @ 0 # r" "0 \<notin> set t" "s = utf8_lossy t"
    using try_get_cstring_InrD by blast
  then have "\<exists>e. try_get_cstring (take k (t @ [0])) = Inl e" if "k < length (t @ [0])" for k
    using that try_get_cstring_take [OF t(2), of k] by (simp del: take_append)
  with t show "\<exists>c. b = c @ r \<and> (\<forall>r'. try_get_cstring (c @ r') = Inr (s, r'))
     \<and> (\<forall>k < length c. \<exists>e. try_get_cstring (take k c) = Inl e)"
    by (intro exI [of _ "t @ [0]"]) (simp add: try_get_cstring_raw del: take_append)
qed

lemmas strict_readers [intro] = strict_reader_bytes strict_reader_u8 strict_reader_u16
  strict_reader_u32 strict_reader_cstring

lemma strict_decoder_return [intro]: "strict_decoder (\<lambda>b. Inr v)"
  unfolding strict_decoder_def by (metis append_Nil less_nat_zero_code list.size(3))

lemma strict_decoder_fail [intro]: "strict_decoder (\<lambda>b. Inl e)"
  by (simp add: strict_decoder_def)

lemma strict_decoder_if [intro]:
  "(P \<Longrightarrow> strict_decoder d) \<Longrightarrow> (\<not> P \<Longrightarrow> strict_decoder d') \<Longrightarrow>
   strict_decoder (\<lambda>b. if P then d b else d' b)"
  by (cases P) simp_all

lemma take_append_cases:
  assumes "k < length (c @ d)"
  obtains "k < length c" "take k (c @ d) = take k c"
  | j where "j < length d" "take k (c @ d) = c @ take j d"
proof (cases "k < length c")
  case False
  with assms have "k - length c < length d" "take k (c @ d) = c @ take (k - length c) d" by auto
  then show ?thesis by (rule that(2))
qed (use that in simp)

lemma strict_decoder_bind [intro]:
  assumes rd: "strict_reader rd" and f: "\<And>x. strict_decoder (f x)"
  shows "strict_decoder (\<lambda>b. and_then (rd b) (\<lambda>(x, b). f x b))" (is "strict_decoder ?d")
  unfolding strict_decoder_def
proof (intro allI impI)
  fix b v assume "?d b = Inr v"
  then obtain x r where "rd b = Inr (x, r)" and "f x r = Inr v"
    by (auto simp: and_then_eq_Inr_iff)
  from strict_readerE [OF rd this(1)] obtain c where
    c: "b = c @ r" "\<And>r'. rd (c @ r') = Inr (x, r')" "\<And>k. k < length c \<Longrightarrow> \<exists>e. rd (take k c) = Inl e"
    by blast
  from strict_decoderE [OF f \<open>f x r = Inr v\<close>] obtain c2 r2 where
    c2: "r = c2 @ r2" "\<And>r'. f x (c2 @ r') = Inr v" "\<And>k. k < length c2 \<Longrightarrow> \<exists>e. f x (take k c2) = Inl e"
    by blast
  have "\<exists>e. ?d (take k (c @ c2)) = Inl e" if "k < length (c @ c2)" for k
    using that
  proof (cases rule: take_append_cases)
    case 1
    then show ?thesis using c(3) by fastforce
  next
    case (2 j)
    then show ?thesis using c(2) c2(3) by simp
  qed
  with c c2 show "\<exists>c r. b = c @ r \<and> (\<forall>r'. ?d (c @ r') = Inr v)
     \<and> (\<forall>k < length c. \<exists>e. ?d (take k c) = Inl e)"
    by (intro exI [of _ "c @ c2"] exI [of _ r2]) simp
qed

end
