(* ===== verification/W3gs_Types.thy ===== *)
theory W3gs_Types
  imports Wire
begin

text \<open>
  Packet ids and leave codes (\<^verbatim>\<open>w3gs/ids.rs\<close>), the slot record and its nine-byte layout
  (\<^verbatim>\<open>w3gs/slot.rs\<close>), the W3GS frame header and the ids the host accepts
  (\<^verbatim>\<open>w3gs/codec.rs\<close>).
\<close>

section \<open>Identifiers\<close>

abbreviation "PING_FROM_HOST \<equiv> (0x01 :: u8)"
abbreviation "SLOT_INFO_JOIN \<equiv> (0x04 :: u8)"
abbreviation "REJECT_JOIN \<equiv> (0x05 :: u8)"
abbreviation "PLAYER_INFO \<equiv> (0x06 :: u8)"
abbreviation "PLAYER_LEAVE_OTHERS \<equiv> (0x07 :: u8)"
abbreviation "GAME_LOADED_OTHERS \<equiv> (0x08 :: u8)"
abbreviation "SLOT_INFO \<equiv> (0x09 :: u8)"
abbreviation "COUNTDOWN_START \<equiv> (0x0A :: u8)"
abbreviation "COUNTDOWN_END \<equiv> (0x0B :: u8)"
abbreviation "INCOMING_ACTION \<equiv> (0x0C :: u8)"
abbreviation "CHAT_FROM_HOST \<equiv> (0x0F :: u8)"
abbreviation "START_LAG \<equiv> (0x10 :: u8)"
abbreviation "STOP_LAG \<equiv> (0x11 :: u8)"
abbreviation "REQ_JOIN \<equiv> (0x1E :: u8)"
abbreviation "LEAVE_GAME \<equiv> (0x21 :: u8)"
abbreviation "GAME_LOADED_SELF \<equiv> (0x23 :: u8)"
abbreviation "OUTGOING_ACTION \<equiv> (0x26 :: u8)"
abbreviation "OUTGOING_KEEPALIVE \<equiv> (0x27 :: u8)"
abbreviation "CHAT_TO_HOST \<equiv> (0x28 :: u8)"
abbreviation "DROP_REQ \<equiv> (0x29 :: u8)"
abbreviation "SEARCH_GAME \<equiv> (0x2F :: u8)"
abbreviation "GAME_INFO \<equiv> (0x30 :: u8)"
abbreviation "MAP_CHECK \<equiv> (0x3D :: u8)"
abbreviation "START_DOWNLOAD \<equiv> (0x3F :: u8)"
abbreviation "MAP_SIZE \<equiv> (0x42 :: u8)"
abbreviation "MAP_PART \<equiv> (0x43 :: u8)"
abbreviation "MAP_PART_OK \<equiv> (0x44 :: u8)"
abbreviation "MAP_PART_NOT_OK \<equiv> (0x45 :: u8)"
abbreviation "PONG_TO_HOST \<equiv> (0x46 :: u8)"
abbreviation "INCOMING_ACTION2 \<equiv> (0x48 :: u8)"
abbreviation "REJOIN_TOKEN \<equiv> (0x77 :: u8)"
abbreviation "PLAYERLEAVE_DISCONNECT \<equiv> (1 :: u32)"
abbreviation "PLAYERLEAVE_LOST \<equiv> (7 :: u32)"
abbreviation "PLAYERLEAVE_LOBBY \<equiv> (13 :: u32)"
abbreviation "PLAYERLEAVE_GPROXY \<equiv> (100 :: u32)"

abbreviation "W3GS_HEADER \<equiv> (0xF7 :: u8)"

definition w3gs_encode :: "frame \<Rightarrow> proto_error + bytes" where
  "w3gs_encode f = encode_with W3GS_HEADER f"

definition is_known_id :: "u8 \<Rightarrow> bool" where
  "is_known_id i = (i \<in> {REQ_JOIN, LEAVE_GAME, GAME_LOADED_SELF, OUTGOING_ACTION,
     OUTGOING_KEEPALIVE, CHAT_TO_HOST, DROP_REQ, SEARCH_GAME, MAP_SIZE, MAP_PART_OK,
     MAP_PART_NOT_OK, PONG_TO_HOST})"

section \<open>Slots\<close>

record slot_info =
  slot_pid :: u8
  slot_download_status :: u8
  slot_status :: u8
  slot_computer :: u8
  slot_team :: u8
  slot_colour :: u8
  slot_race :: u8
  slot_computer_type :: u8
  slot_handicap :: u8

definition slot_info_encode :: "slot_info \<Rightarrow> bytes" where
  "slot_info_encode s =
     [slot_pid s, slot_download_status s, slot_status s, slot_computer s, slot_team s,
      slot_colour s, slot_race s, slot_computer_type s, slot_handicap s]"

abbreviation "WIRE_LEN \<equiv> (9 :: nat)"

lemma length_slot_info_encode [simp]: "length (slot_info_encode s) = 9"
  by (simp add: slot_info_encode_def)

lemma length_slots_encode [simp]: "length (concat (map slot_info_encode ss)) = 9 * length ss"
  by (induction ss) auto

end
