(* ===== verification/W3gs_In.thy ===== *)
theory W3gs_In
  imports W3gs_Types
begin

text \<open>
  The packets a game client sends (\<^verbatim>\<open>w3gs/incoming.rs\<close>): one record per packet with its
  decoder, as the source has them, and the proof that no decoder of the host accepts a
  truncated packet.
\<close>

section \<open>Decoders\<close>

record req_join =
  rj_host_counter :: u32
  rj_entry_key :: u32
  rj_listen_port :: u16
  rj_peer_key :: u32
  rj_name :: bytes
  rj_internal_ip :: bytes

definition req_join_decode :: "bytes \<Rightarrow> proto_error + req_join" where
  "req_join_decode b =
     and_then (try_get_u32_le b) (\<lambda>(host_counter, b).
     and_then (try_get_u32_le b) (\<lambda>(entry_key, b).
     and_then (try_get_u8 b) (\<lambda>(unknown, b).
     and_then (try_get_u16_le b) (\<lambda>(listen_port, b).
     and_then (try_get_u32_le b) (\<lambda>(peer_key, b).
     and_then (try_get_cstring b) (\<lambda>(name, b).
     if name = [] then Inl (BadValue ''empty player name'')
     else
     and_then (try_get_bytes 6 b) (\<lambda>(unknown2, b).
     and_then (try_get_bytes 4 b) (\<lambda>(ip, b).
     Inr \<lparr>rj_host_counter = host_counter, rj_entry_key = entry_key,
          rj_listen_port = listen_port, rj_peer_key = peer_key, rj_name = name,
          rj_internal_ip = ip\<rparr>))))))))"

record outgoing_action =
  oa_crc :: u32
  oa_data :: bytes

definition outgoing_action_decode :: "bytes \<Rightarrow> proto_error + outgoing_action" where
  "outgoing_action_decode payload =
     (if length payload < 4 then Inl (Truncated 4 (length payload))
      else Inr \<lparr>oa_crc = from_le [payload ! 0, payload ! 1, payload ! 2, payload ! 3],
                oa_data = drop 4 payload\<rparr>)"

record chat_to_host =
  cth_to_pids :: bytes
  cth_from_pid :: u8
  cth_flag :: u8
  cth_extra :: bytes
  cth_message :: bytes
  cth_byte :: u8

definition chat_to_host_decode :: "bytes \<Rightarrow> proto_error + chat_to_host" where
  "chat_to_host_decode b =
     and_then (try_get_u8 b) (\<lambda>(count, b).
     and_then (try_get_bytes (unat count) b) (\<lambda>(to_pids, b).
     and_then (try_get_u8 b) (\<lambda>(from_pid, b).
     and_then (try_get_u8 b) (\<lambda>(flag, b).
     if flag = 0x10 then
       and_then (try_get_cstring b) (\<lambda>(message, b).
       Inr \<lparr>cth_to_pids = to_pids, cth_from_pid = from_pid, cth_flag = flag, cth_extra = [],
            cth_message = message, cth_byte = 0\<rparr>)
     else if 0x11 \<le> flag \<and> flag \<le> 0x14 then
       and_then (try_get_u8 b) (\<lambda>(byte, b).
       Inr \<lparr>cth_to_pids = to_pids, cth_from_pid = from_pid, cth_flag = flag, cth_extra = [],
            cth_message = [], cth_byte = byte\<rparr>)
     else if flag = 0x20 then
       and_then (try_get_bytes 4 b) (\<lambda>(extra, b).
       and_then (try_get_cstring b) (\<lambda>(message, b).
       Inr \<lparr>cth_to_pids = to_pids, cth_from_pid = from_pid, cth_flag = flag, cth_extra = extra,
            cth_message = message, cth_byte = 0\<rparr>))
     else Inl (BadValue ''unknown chat-to-host flag'')))))"

record map_size_report =
  msr_size_flag :: u8
  msr_map_size :: u32

definition map_size_report_decode :: "bytes \<Rightarrow> proto_error + map_size_report" where
  "map_size_report_decode b =
     and_then (try_get_bytes 4 b) (\<lambda>(unknown, b).
     and_then (try_get_u8 b) (\<lambda>(size_flag, b).
     and_then (try_get_u32_le b) (\<lambda>(map_size, b).
     Inr \<lparr>msr_size_flag = size_flag, msr_map_size = map_size\<rparr>)))"

definition decode_leave_game :: "bytes \<Rightarrow> proto_error + u32" where
  "decode_leave_game b = and_then (try_get_u32_le b) (\<lambda>(reason, b). Inr reason)"

definition decode_keepalive :: "bytes \<Rightarrow> proto_error + u32" where
  "decode_keepalive b =
     and_then (try_get_u8 b) (\<lambda>(unknown, b).
     and_then (try_get_u32_le b) (\<lambda>(checksum, b). Inr checksum))"

definition decode_pong_to_host :: "bytes \<Rightarrow> proto_error + u32" where
  "decode_pong_to_host b = and_then (try_get_u32_le b) (\<lambda>(pong, b). Inr pong)"

definition decode_map_part_ok :: "bytes \<Rightarrow> proto_error + u32" where
  "decode_map_part_ok b =
     and_then (try_get_u8 b) (\<lambda>(to_pid, b).
     and_then (try_get_u8 b) (\<lambda>(from_pid, b).
     and_then (try_get_bytes 4 b) (\<lambda>(unknown, b).
     and_then (try_get_u32_le b) (\<lambda>(offset, b). Inr offset))))"

definition decode_map_part_not_ok :: "bytes \<Rightarrow> proto_error + u32" where
  "decode_map_part_not_ok payload =
     (if length payload < 6 then Inl (Truncated 6 (length payload))
      else if length payload \<ge> 10 then Inr (from_le (take 4 (drop 6 payload)))
      else Inr (from_le (take 4 (drop 2 payload))))"

section \<open>Truncated packets\<close>

lemmas incoming_decoder_defs = req_join_decode_def chat_to_host_decode_def
  map_size_report_decode_def decode_leave_game_def decode_keepalive_def decode_pong_to_host_def
  decode_map_part_ok_def

lemma strict_req_join: "strict_decoder req_join_decode"
  unfolding incoming_decoder_defs by (intro strict_decoder_bind strict_decoder_if strict_decoder_return
    strict_decoder_fail strict_readers)

lemma strict_chat_to_host: "strict_decoder chat_to_host_decode"
  unfolding incoming_decoder_defs by (intro strict_decoder_bind strict_decoder_if strict_decoder_return
    strict_decoder_fail strict_readers)

lemma strict_incoming_numbers:
  "strict_decoder map_size_report_decode" "strict_decoder decode_leave_game"
  "strict_decoder decode_keepalive" "strict_decoder decode_pong_to_host"
  "strict_decoder decode_map_part_ok"
  unfolding incoming_decoder_defs
  by (intro strict_decoder_bind strict_decoder_return strict_readers)+

text \<open>
  C40. A join request cut short is never accepted: if a payload decodes as a join request, then
  the decision depends on a prefix of it only. Cutting that prefix anywhere is an error, and
  bytes after it do not change the result; the accepted name is never empty.
\<close>

theorem req_join_truncation:
  assumes "req_join_decode p = Inr r"
  shows "\<exists>c rest. p = c @ rest \<and> (\<forall>rest'. req_join_decode (c @ rest') = Inr r)
     \<and> (\<forall>k < length c. \<exists>e. req_join_decode (take k c) = Inl e) \<and> rj_name r \<noteq> []"
proof -
  obtain c rest where "p = c @ rest" "\<And>rest'. req_join_decode (c @ rest') = Inr r"
    "\<And>k. k < length c \<Longrightarrow> \<exists>e. req_join_decode (take k c) = Inl e"
    using strict_decoderE [OF strict_req_join assms] by blast
  moreover have "rj_name r \<noteq> []"
    using assms by (auto simp: req_join_decode_def and_then_eq_Inr_iff split: if_splits)
  ultimately show ?thesis by blast
qed

theorem req_join_truncation_witness:
  "\<exists>c rest. [1, 0, 0, 0, 2, 0, 0, 0, 0, 0xE0, 0x17, 3, 0, 0, 0, 0x41, 0, 0, 0, 0, 0, 0, 0,
       127, 0, 0, 1, 9] = c @ rest
     \<and> (\<forall>rest'. req_join_decode (c @ rest') = Inr \<lparr>rj_host_counter = 1, rj_entry_key = 2,
         rj_listen_port = 6112, rj_peer_key = 3, rj_name = [0x41], rj_internal_ip = [127, 0, 0, 1]\<rparr>)
     \<and> (\<forall>k < length c. \<exists>e. req_join_decode (take k c) = Inl e)
     \<and> rj_name \<lparr>rj_host_counter = 1, rj_entry_key = 2, rj_listen_port = 6112, rj_peer_key = 3,
         rj_name = [0x41], rj_internal_ip = [127, 0, 0, 1]\<rparr> \<noteq> []"
  by (rule req_join_truncation) code_simp

end
