(* ===== verification/W3gs_Out.thy ===== *)
theory W3gs_Out
  imports W3gs_Types
begin

text \<open>
  The packets the host sends (\<^verbatim>\<open>w3gs/outgoing.rs\<close>), one definition per constructor function.
  The CRC-32 of the package \<^verbatim>\<open>crc32fast\<close> is the parameter \<open>crc32\<close> of the packets that carry
  one. The section on action packets shows what a client reads back from them.
\<close>

section \<open>Packet constructors\<close>

abbreviation w3gs_frame :: "u8 \<Rightarrow> bytes \<Rightarrow> proto_error + bytes" where
  "w3gs_frame i p \<equiv> w3gs_encode \<lparr>frame_id = i, frame_payload = p\<rparr>"

record action_block =
  ab_pid :: u8
  ab_data :: bytes

definition wire_len :: "action_block \<Rightarrow> nat" where
  "wire_len a = length (ab_data a) + 3"

definition action_block_put :: "action_block \<Rightarrow> bytes" where
  "action_block_put a = put_u8 (ab_pid a) @ put_u16_le (of_nat (length (ab_data a))) @ ab_data a"

definition encode_actions_raw :: "action_block list \<Rightarrow> bytes" where
  "encode_actions_raw actions = concat (map action_block_put actions)"

definition action_payload ::
    "(bytes \<Rightarrow> u32) \<Rightarrow> action_block list \<Rightarrow> u16 \<Rightarrow> proto_error + bytes" where
  "action_payload crc32 actions send_interval =
     (case find (\<lambda>a. length (ab_data a) > 65535) actions of
        Some a \<Rightarrow> Inl (TooLarge (length (ab_data a)))
      | None \<Rightarrow>
          (let sub = concat (map action_block_put actions)
           in if actions = [] then Inr (put_u16_le send_interval)
              else let crc = crc32 sub
                   in Inr (put_u16_le send_interval
                           @ put_u8 (ucast (crc AND 0xFF))
                           @ put_u8 (ucast (drop_bit 8 crc AND 0xFF))
                           @ sub)))"

definition incoming_action ::
    "(bytes \<Rightarrow> u32) \<Rightarrow> action_block list \<Rightarrow> u16 \<Rightarrow> proto_error + bytes" where
  "incoming_action crc32 actions send_interval =
     and_then (action_payload crc32 actions send_interval) (w3gs_frame INCOMING_ACTION)"

definition incoming_action2 :: "(bytes \<Rightarrow> u32) \<Rightarrow> action_block list \<Rightarrow> proto_error + bytes" where
  "incoming_action2 crc32 actions =
     and_then (action_payload crc32 actions 0) (w3gs_frame INCOMING_ACTION2)"

definition ping_from_host :: "u32 \<Rightarrow> bytes" where
  "ping_from_host ticks = expect (w3gs_frame PING_FROM_HOST (put_u32_le ticks))"

definition slot_block :: "slot_info list \<Rightarrow> u32 \<Rightarrow> u8 \<Rightarrow> u8 \<Rightarrow> bytes" where
  "slot_block slots random_seed layout_style player_slots =
     (let block_len = 1 + length slots * WIRE_LEN + 4 + 1 + 1
      in put_u16_le (of_nat block_len)
         @ put_u8 (of_nat (length slots))
         @ concat (map slot_info_encode slots)
         @ put_u32_le random_seed
         @ put_u8 layout_style
         @ put_u8 player_slots)"

definition slot_info_packet ::
    "slot_info list \<Rightarrow> u32 \<Rightarrow> u8 \<Rightarrow> u8 \<Rightarrow> proto_error + bytes" where
  "slot_info_packet slots random_seed layout_style player_slots =
     w3gs_frame SLOT_INFO (slot_block slots random_seed layout_style player_slots)"

definition slot_info_join ::
    "u8 \<Rightarrow> u16 \<Rightarrow> bytes \<Rightarrow> slot_info list \<Rightarrow> u32 \<Rightarrow> u8 \<Rightarrow> u8 \<Rightarrow> proto_error + bytes" where
  "slot_info_join pid port external_ip slots random_seed layout_style player_slots =
     w3gs_frame SLOT_INFO_JOIN
       (slot_block slots random_seed layout_style player_slots
        @ put_u8 pid @ put_u16_le 2 @ put_u16_le port @ external_ip @ replicate 8 0)"

definition reject_join :: "u32 \<Rightarrow> bytes" where
  "reject_join reason = expect (w3gs_frame REJECT_JOIN (put_u32_le reason))"

definition player_info :: "u8 \<Rightarrow> bytes \<Rightarrow> bytes \<Rightarrow> bytes \<Rightarrow> proto_error + bytes" where
  "player_info pid name external_ip internal_ip =
     w3gs_frame PLAYER_INFO
       (put_u32_le 2 @ put_u8 pid @ put_cstring name @ put_u8 1 @ put_u8 0
        @ put_u16_le 2 @ put_u16_le 0 @ external_ip @ replicate 8 0
        @ put_u16_le 2 @ put_u16_le 0 @ internal_ip @ replicate 8 0)"

definition player_leave_others :: "u8 \<Rightarrow> u32 \<Rightarrow> bytes" where
  "player_leave_others pid left_code =
     expect (w3gs_frame PLAYER_LEAVE_OTHERS (put_u8 pid @ put_u32_le left_code))"

definition game_loaded_others :: "u8 \<Rightarrow> bytes" where
  "game_loaded_others pid = expect (w3gs_frame GAME_LOADED_OTHERS (put_u8 pid))"

definition countdown_start :: bytes where
  "countdown_start = expect (w3gs_frame COUNTDOWN_START [])"

definition countdown_end :: bytes where
  "countdown_end = expect (w3gs_frame COUNTDOWN_END [])"

definition chat_from_host :: "u8 \<Rightarrow> bytes \<Rightarrow> u8 \<Rightarrow> bytes \<Rightarrow> bytes \<Rightarrow> proto_error + bytes" where
  "chat_from_host from_pid to_pids flag extra message =
     (if to_pids = [] then Inl (BadValue ''chat_from_host needs at least one recipient'')
      else w3gs_frame CHAT_FROM_HOST
             (put_u8 (of_nat (length to_pids)) @ to_pids @ put_u8 from_pid @ put_u8 flag
              @ extra @ put_cstring message))"

definition start_lag :: "(u8 \<times> u32) list \<Rightarrow> proto_error + bytes" where
  "start_lag laggers =
     w3gs_frame START_LAG
       (put_u8 (of_nat (length laggers))
        @ concat (map (\<lambda>(pid, lag_ms). put_u8 pid @ put_u32_le lag_ms) laggers))"

definition stop_lag :: "u8 \<Rightarrow> u32 \<Rightarrow> bytes" where
  "stop_lag pid lag_ms = expect (w3gs_frame STOP_LAG (put_u8 pid @ put_u32_le lag_ms))"

definition map_check :: "bytes \<Rightarrow> u32 \<Rightarrow> u32 \<Rightarrow> u32 \<Rightarrow> bytes \<Rightarrow> proto_error + bytes" where
  "map_check map_path map_size map_info map_crc map_sha1 =
     w3gs_frame MAP_CHECK
       (put_u32_le 1 @ put_cstring map_path @ put_u32_le map_size @ put_u32_le map_info
        @ put_u32_le map_crc @ map_sha1)"

definition start_download :: "u8 \<Rightarrow> bytes" where
  "start_download from_pid =
     expect (w3gs_frame START_DOWNLOAD (put_u32_le 1 @ put_u8 from_pid))"

definition map_part :: "(bytes \<Rightarrow> u32) \<Rightarrow> u8 \<Rightarrow> u8 \<Rightarrow> u32 \<Rightarrow> bytes \<Rightarrow> proto_error + bytes" where
  "map_part crc32 from_pid to_pid start chunk =
     w3gs_frame MAP_PART
       (put_u8 to_pid @ put_u8 from_pid @ put_u32_le 1 @ put_u32_le start
        @ put_u32_le (crc32 chunk) @ chunk)"

definition game_info ::
    "bool \<Rightarrow> u8 \<Rightarrow> u32 \<Rightarrow> u32 \<Rightarrow> bytes \<Rightarrow> bytes \<Rightarrow> u32 \<Rightarrow> bytes \<Rightarrow> u32 \<Rightarrow> u32 \<Rightarrow> u16
     \<Rightarrow> proto_error + bytes" where
  "game_info tft war3_version host_counter entry_key game_name stat_string slots_total
       map_game_type slots_open up_time port =
     w3gs_frame GAME_INFO
       ((if tft then [80, 88, 51, 87] else [51, 82, 65, 87])
        @ [war3_version, 0, 0, 0]
        @ put_u32_le host_counter @ put_u32_le entry_key @ put_cstring game_name @ put_u8 0
        @ stat_string @ put_u8 0 @ put_u32_le slots_total @ map_game_type @ [1, 0, 0, 0]
        @ put_u32_le slots_open @ put_u32_le up_time @ put_u16_le port)"

definition rejoin_token ::
    "u8 \<Rightarrow> u32 \<Rightarrow> u16 \<Rightarrow> u32 \<Rightarrow> bytes \<Rightarrow> bytes \<Rightarrow> bytes \<Rightarrow> proto_error + bytes" where
  "rejoin_token pid reconnect_key host_port map_crc map_sha1 game_name map_name =
     w3gs_frame REJOIN_TOKEN
       (put_u8 pid @ put_u32_le reconnect_key @ put_u16_le host_port @ put_u32_le map_crc
        @ map_sha1 @ put_cstring game_name @ put_cstring map_name)"

section \<open>Packets of fixed size\<close>

lemma w3gs_frame_ok_iff: "is_ok (w3gs_frame i p) \<longleftrightarrow> length p \<le> 65531"
  by (simp add: w3gs_encode_def encode_with_ok_iff)

lemma w3gs_frame_small: "length p \<le> 65531 \<Longrightarrow> w3gs_frame i p = Inr (expect (w3gs_frame i p))"
  by (rule expect_is_ok) (simp add: w3gs_frame_ok_iff)

lemmas fixed_packet_defs = ping_from_host_def reject_join_def player_leave_others_def
  game_loaded_others_def countdown_start_def countdown_end_def stop_lag_def start_download_def

text \<open>
  The packets whose constructor unwraps the encoder's result never abort the process: the
  encoder succeeds for every argument, and the packet a client decodes from it carries the
  id and the payload that were framed.
\<close>

lemma fixed_packets_fit:
  "w3gs_frame PING_FROM_HOST (put_u32_le t) = Inr (ping_from_host t)
   \<and> w3gs_frame REJECT_JOIN (put_u32_le t) = Inr (reject_join t)
   \<and> w3gs_frame PLAYER_LEAVE_OTHERS (put_u8 pid @ put_u32_le t) = Inr (player_leave_others pid t)
   \<and> w3gs_frame GAME_LOADED_OTHERS (put_u8 pid) = Inr (game_loaded_others pid)
   \<and> w3gs_frame COUNTDOWN_START [] = Inr countdown_start
   \<and> w3gs_frame COUNTDOWN_END [] = Inr countdown_end
   \<and> w3gs_frame STOP_LAG (put_u8 pid @ put_u32_le t) = Inr (stop_lag pid t)
   \<and> w3gs_frame START_DOWNLOAD (put_u32_le 1 @ put_u8 pid) = Inr (start_download pid)"
  unfolding fixed_packet_defs by (intro conjI; rule w3gs_frame_small, simp)

section \<open>Action packets\<close>

text \<open>
  How a client reads the body of an action packet: blocks of a player id, a 16-bit length and
  the data, until the body is used up.
\<close>

function parse_blocks :: "bytes \<Rightarrow> action_block list option" where
  "parse_blocks b =
     (if b = [] then Some []
      else case and_then (try_get_u8 b) (\<lambda>(pid, b).
                and_then (try_get_u16_le b) (\<lambda>(len, b).
                and_then (try_get_bytes (unat len) b) (\<lambda>(d, b).
                Inr (\<lparr>ab_pid = pid, ab_data = d\<rparr>, b)))) of
             Inl e \<Rightarrow> None
           | Inr (a, rest) \<Rightarrow> map_option ((#) a) (parse_blocks rest))"
  by pat_completeness auto
termination
  by (relation "measure length")
     (auto dest!: reader_InrD simp: and_then_eq_Inr_iff eq_commute [where b = "and_then _ _"])

declare parse_blocks.simps [simp del]

lemma parse_blocks_put:
  assumes "length (ab_data a) \<le> 65535"
  shows "parse_blocks (action_block_put a @ rest) = map_option ((#) a) (parse_blocks rest)"
proof -
  have "unat (of_nat (length (ab_data a)) :: u16) = length (ab_data a)"
    using assms by (subst unat_of_nat) simp
  then show ?thesis
    by (subst parse_blocks.simps) (simp add: action_block_put_def, cases a, simp)
qed

lemma parse_blocks_encode:
  "\<forall>a \<in> set as. length (ab_data a) \<le> 65535 \<Longrightarrow> parse_blocks (encode_actions_raw as) = Some as"
proof (induction as)
  case Nil
  show ?case by (simp add: encode_actions_raw_def parse_blocks.simps)
next
  case (Cons a as)
  then show ?case by (simp add: encode_actions_raw_def parse_blocks_put)
qed

lemma length_action_block_put [simp]: "length (action_block_put a) = wire_len a"
  by (simp add: action_block_put_def wire_len_def)

lemma length_encode_actions_raw [simp]:
  "length (encode_actions_raw as) = sum_list (map wire_len as)"
  by (induction as) (auto simp: encode_actions_raw_def)

definition actions_fit :: "action_block list \<Rightarrow> bool" where
  "actions_fit as \<longleftrightarrow> (\<forall>a \<in> set as. length (ab_data a) \<le> 65535)
     \<and> 4 + sum_list (map wire_len as) \<le> 65531"

lemma action_payload_ok:
  assumes "\<forall>a \<in> set as. length (ab_data a) \<le> 65535"
  shows "action_payload crc32 as si =
     Inr (if as = [] then put_u16_le si
          else put_u16_le si @ put_u16_le (ucast (crc32 (encode_actions_raw as)))
               @ encode_actions_raw as)"
proof -
  have "find (\<lambda>a. length (ab_data a) > 65535) as = None"
    using assms by (auto simp: find_None_iff)
  moreover have ff: "0xFF = (mask 8 :: u32)" by (simp add: mask_eq_exp_minus_1)
  have "(ucast (drop_bit 8 w AND 0xFF) :: u8) = ucast (drop_bit 8 (ucast w :: u16))"
     "(ucast (w AND 0xFF) :: u8) = ucast (ucast w :: u16)" for w :: u32
    unfolding ff by (rule bit_word_eqI, auto simp: bit_simps)+
  ultimately show ?thesis
    by (simp add: action_payload_def Let_def encode_actions_raw_def to_le_2)
qed

lemma action_payload_toolong:
  assumes "a \<in> set as" and "length (ab_data a) > 65535"
  shows "\<not> is_ok (action_payload crc32 as si)"
proof -
  have "find (\<lambda>a. length (ab_data a) > 65535) as \<noteq> None"
    using assms by (auto simp: find_None_iff)
  then show ?thesis by (auto simp: action_payload_def)
qed

lemma is_ok_and_then: "is_ok (and_then r f) \<longleftrightarrow> (\<exists>x. r = Inr x \<and> is_ok (f x))"
  by (cases r) auto

lemma incoming_action_ok_iff:
  "is_ok (incoming_action crc32 as si) \<longleftrightarrow> as = [] \<or> actions_fit as"
proof (cases "\<exists>a \<in> set as. length (ab_data a) > 65535")
  case True
  then have "\<not> is_ok (action_payload crc32 as si)" using action_payload_toolong by blast
  with True show ?thesis
    by (auto simp: incoming_action_def is_ok_and_then actions_fit_def)
next
  case False
  then have "\<forall>a \<in> set as. length (ab_data a) \<le> 65535" by auto
  from action_payload_ok [OF this] this show ?thesis
    by (auto simp: incoming_action_def w3gs_frame_ok_iff actions_fit_def)
qed

text \<open>
  The action packet is faithful: it is built exactly when there is no action or every
  action's length fits its 16-bit field and the whole fits a frame; then the client
  decodes a frame that carries the send interval, the low half of the CRC of the body and a
  body from which exactly the queued blocks are read, in order.
\<close>

lemma incoming_action_faithful:
  "(is_ok (incoming_action crc32 as si) \<longleftrightarrow> as = [] \<or> actions_fit as)
   \<and> (\<forall>bs rest. incoming_action crc32 as si = Inr bs \<longrightarrow>
        (\<exists>f. header_decode W3GS_HEADER (bs @ rest) = (Inr (Some f), rest)
           \<and> frame_id f = INCOMING_ACTION
           \<and> frame_payload f =
               (if as = [] then put_u16_le si
                else put_u16_le si @ put_u16_le (ucast (crc32 (drop 4 (frame_payload f))))
                     @ drop 4 (frame_payload f))
           \<and> parse_blocks (drop 4 (frame_payload f)) = Some as))"
proof (intro conjI allI impI)
  show "is_ok (incoming_action crc32 as si) \<longleftrightarrow> as = [] \<or> actions_fit as"
    by (rule incoming_action_ok_iff)
  fix bs rest assume *: "incoming_action crc32 as si = Inr bs"
  then have "as = [] \<or> actions_fit as"
    using incoming_action_ok_iff [of crc32 as si] by simp
  then have len: "\<forall>a \<in> set as. length (ab_data a) \<le> 65535" by (auto simp: actions_fit_def)
  let ?p = "if as = [] then put_u16_le si
    else put_u16_le si @ put_u16_le (ucast (crc32 (encode_actions_raw as))) @ encode_actions_raw as"
  have "w3gs_frame INCOMING_ACTION ?p = Inr bs"
    using * by (simp add: incoming_action_def action_payload_ok [OF len])
  then have "header_decode W3GS_HEADER (bs @ rest) =
      (Inr (Some \<lparr>frame_id = INCOMING_ACTION, frame_payload = ?p\<rparr>), rest)"
    unfolding w3gs_encode_def by (rule header_decode_encode)
  moreover have "drop 4 ?p = encode_actions_raw as"
    by (simp add: encode_actions_raw_def to_le_2)
  ultimately show "\<exists>f. header_decode W3GS_HEADER (bs @ rest) = (Inr (Some f), rest)
           \<and> frame_id f = INCOMING_ACTION
           \<and> frame_payload f =
               (if as = [] then put_u16_le si
                else put_u16_le si @ put_u16_le (ucast (crc32 (drop 4 (frame_payload f))))
                     @ drop 4 (frame_payload f))
           \<and> parse_blocks (drop 4 (frame_payload f)) = Some as"
    using parse_blocks_encode [OF len]
    by (intro exI [of _ "\<lparr>frame_id = INCOMING_ACTION, frame_payload = ?p\<rparr>"]) auto
qed

end
