(* ===== verification/Gps.thy ===== *)
theory Gps
  imports Wire
begin

text \<open>
  The reconnect protocol of GProxy clients (\<^verbatim>\<open>gps/mod.rs\<close>), with header byte 0xF8, and its
  iCCup variant with header byte 0x6F. The host sends the constructors below and decodes two
  requests; those interpret the contract of the byte layer together with the packet a
  client sends.
\<close>

section \<open>Identifiers\<close>

abbreviation "GPS_HEADER \<equiv> (0xF8 :: u8)"
abbreviation "GPS_ICCUP_HEADER \<equiv> (0x6F :: u8)"
abbreviation "GPS_INIT \<equiv> (0x01 :: u8)"
abbreviation "GPS_RECONNECT \<equiv> (0x02 :: u8)"
abbreviation "GPS_ACK \<equiv> (0x03 :: u8)"
abbreviation "GPS_REJECT \<equiv> (0x04 :: u8)"
abbreviation "GPS_FULL \<equiv> (0x05 :: u8)"
abbreviation "ICCUP_INIT \<equiv> (0x08 :: u8)"
abbreviation "ICCUP_RECONNECT \<equiv> (0x16 :: u8)"
abbreviation "ICCUP_ACK \<equiv> (0x32 :: u8)"
abbreviation "ICCUP_REJECT \<equiv> (0x64 :: u8)"
abbreviation "NOT_FOUND \<equiv> (0x01 :: u32)"
abbreviation "INVALID_KEY \<equiv> (0x02 :: u32)"

section \<open>Packets\<close>

abbreviation gps_frame :: "u8 \<Rightarrow> bytes \<Rightarrow> proto_error + bytes" where
  "gps_frame i p \<equiv> encode_with GPS_HEADER \<lparr>frame_id = i, frame_payload = p\<rparr>"

abbreviation iccup_frame :: "u8 \<Rightarrow> bytes \<Rightarrow> proto_error + bytes" where
  "iccup_frame i p \<equiv> encode_with GPS_ICCUP_HEADER \<lparr>frame_id = i, frame_payload = p\<rparr>"

definition gps_init :: "u32 \<Rightarrow> u8 \<Rightarrow> u32 \<Rightarrow> u8 \<Rightarrow> bytes" where
  "gps_init version pid reconnect_key num_empty_actions =
     expect (gps_frame GPS_INIT
       (put_u32_le version @ put_u8 pid @ put_u32_le reconnect_key @ put_u8 num_empty_actions))"

definition gps_ack :: "u32 \<Rightarrow> bytes" where
  "gps_ack last_packet = expect (gps_frame GPS_ACK (put_u32_le last_packet))"

definition gps_reconnect_ok :: "u32 \<Rightarrow> bytes" where
  "gps_reconnect_ok last_packet = expect (gps_frame GPS_RECONNECT (put_u32_le last_packet))"

definition gps_reject :: "u32 \<Rightarrow> bytes" where
  "gps_reject reason = expect (gps_frame GPS_REJECT (put_u32_le reason))"

definition gps_full :: "u8 \<Rightarrow> u32 \<Rightarrow> bytes" where
  "gps_full pid reconnect_key =
     expect (gps_frame GPS_FULL (put_u8 pid @ put_u32_le reconnect_key))"

definition iccup_init :: "u16 \<Rightarrow> u8 \<Rightarrow> u32 \<Rightarrow> u8 \<Rightarrow> bytes" where
  "iccup_init reconn_port pid reconnect_key num_empty_actions =
     expect (iccup_frame ICCUP_INIT
       (put_u16_le reconn_port @ put_u32_le 0 @ put_u8 pid @ put_u32_le reconnect_key
        @ put_u8 num_empty_actions))"

definition iccup_reconnect_ok :: "u32 \<Rightarrow> bytes" where
  "iccup_reconnect_ok last_packet =
     expect (iccup_frame ICCUP_RECONNECT (put_u32_le last_packet @ put_u32_le 0))"

definition iccup_ack :: "u32 \<Rightarrow> bytes" where
  "iccup_ack last_packet = expect (iccup_frame ICCUP_ACK (put_u32_le last_packet))"

definition iccup_reject :: "u32 \<Rightarrow> bytes" where
  "iccup_reject reason = expect (iccup_frame ICCUP_REJECT (put_u32_le reason))"

record reconnect_req =
  rr_pid :: u8
  rr_reconnect_key :: u32
  rr_last_packet :: u32

definition decode_reconnect :: "bytes \<Rightarrow> proto_error + reconnect_req" where
  "decode_reconnect b =
     and_then (try_get_u8 b) (\<lambda>(pid, b).
     and_then (try_get_u32_le b) (\<lambda>(reconnect_key, b).
     and_then (try_get_u32_le b) (\<lambda>(last_packet, b).
     Inr \<lparr>rr_pid = pid, rr_reconnect_key = reconnect_key, rr_last_packet = last_packet\<rparr>)))"

definition decode_full :: "bytes \<Rightarrow> proto_error + (u8 \<times> u32)" where
  "decode_full b =
     and_then (try_get_u8 b) (\<lambda>(pid, b).
     and_then (try_get_u32_le b) (\<lambda>(key, b). Inr (pid, key)))"

section \<open>Framing\<close>

lemma encode_with_small:
  "length (frame_payload f) \<le> 65531 \<Longrightarrow> encode_with h f = Inr (expect (encode_with h f))"
  by (rule expect_is_ok) (simp add: encode_with_ok_iff)

lemma header_decode_expect:
  "length p \<le> 65531 \<Longrightarrow>
   header_decode h (expect (encode_with h \<lparr>frame_id = i, frame_payload = p\<rparr>) @ rest) =
     (Inr (Some \<lparr>frame_id = i, frame_payload = p\<rparr>), rest)"
  by (rule header_decode_encode, rule encode_with_small) simp

interpretation full: framed_message GPS_HEADER GPS_FULL
    "\<lambda>(pid, key). put_u8 pid @ put_u32_le key" "\<lambda>(pid, key). Inr (gps_full pid key)"
    decode_full "\<lambda>_. True"
proof unfold_locales
  fix m :: "u8 \<times> u32"
  show "(\<lambda>(pid, key). Inr (gps_full pid key)) m =
    gps_frame GPS_FULL ((\<lambda>(pid, key). put_u8 pid @ put_u32_le key) m)"
    by (cases m) (simp add: gps_full_def flip: encode_with_small)
  show "decode_full ((\<lambda>(pid, key). put_u8 pid @ put_u32_le key) m) = Inr m"
    by (cases m) (simp add: decode_full_def)
qed

text \<open>
  The answers of the reconnect protocol always fit their frame (their constructors cannot
  abort the process) and arrive as framed: a GProxy client reads back the key and id it was
  given at initialisation, and the packet number of an acknowledgement.
\<close>

lemma gps_answers_arrive:
  "header_decode GPS_HEADER (gps_init v pid key n @ rest) =
     (Inr (Some \<lparr>frame_id = GPS_INIT,
        frame_payload = put_u32_le v @ put_u8 pid @ put_u32_le key @ put_u8 n\<rparr>), rest)
   \<and> header_decode GPS_HEADER (gps_ack l @ rest) =
       (Inr (Some \<lparr>frame_id = GPS_ACK, frame_payload = put_u32_le l\<rparr>), rest)
   \<and> header_decode GPS_HEADER (gps_reconnect_ok l @ rest) =
       (Inr (Some \<lparr>frame_id = GPS_RECONNECT, frame_payload = put_u32_le l\<rparr>), rest)
   \<and> header_decode GPS_HEADER (gps_reject l @ rest) =
       (Inr (Some \<lparr>frame_id = GPS_REJECT, frame_payload = put_u32_le l\<rparr>), rest)
   \<and> (\<exists>f. header_decode GPS_HEADER (gps_full pid key @ rest) = (Inr (Some f), rest)
        \<and> frame_id f = GPS_FULL \<and> decode_full (frame_payload f) = Inr (pid, key))
   \<and> header_decode GPS_ICCUP_HEADER (iccup_init port pid key n @ rest) =
       (Inr (Some \<lparr>frame_id = ICCUP_INIT, frame_payload = put_u16_le port @ put_u32_le 0
          @ put_u8 pid @ put_u32_le key @ put_u8 n\<rparr>), rest)
   \<and> header_decode GPS_ICCUP_HEADER (iccup_reconnect_ok l @ rest) =
       (Inr (Some \<lparr>frame_id = ICCUP_RECONNECT, frame_payload = put_u32_le l @ put_u32_le 0\<rparr>), rest)
   \<and> header_decode GPS_ICCUP_HEADER (iccup_ack l @ rest) =
       (Inr (Some \<lparr>frame_id = ICCUP_ACK, frame_payload = put_u32_le l\<rparr>), rest)
   \<and> header_decode GPS_ICCUP_HEADER (iccup_reject l @ rest) =
       (Inr (Some \<lparr>frame_id = ICCUP_REJECT, frame_payload = put_u32_le l\<rparr>), rest)"
  using full.receives [of "(pid, key)" "gps_full pid key" rest]
  by (simp add: gps_init_def gps_ack_def gps_reconnect_ok_def gps_reject_def iccup_init_def
      iccup_reconnect_ok_def iccup_ack_def iccup_reject_def header_decode_expect)

end
