(* ===== verification/Dotatv_Proto.thy ===== *)
theory Dotatv_Proto
  imports W3gs_Types
begin

text \<open>
  The spectator protocol of \<^verbatim>\<open>spectre-protocol/src/dotatv.rs\<close>: header byte 0xFD and nine
  messages with an encoder and a decoder each. Every message interprets the contract
  \<open>framed_message\<close> of the byte layer, which gives its round trip through the framing.
\<close>

section \<open>Messages\<close>

abbreviation "DOTATV_HEADER \<equiv> (0xFD :: u8)"
abbreviation "TV_HELLO \<equiv> (0x01 :: u8)"
abbreviation "TV_GAME_START_SNAPSHOT \<equiv> (0x02 :: u8)"
abbreviation "TV_PLAYER \<equiv> (0x03 :: u8)"
abbreviation "TV_ACTION \<equiv> (0x04 :: u8)"
abbreviation "TV_CHAT \<equiv> (0x05 :: u8)"
abbreviation "TV_GAME_OVER \<equiv> (0x06 :: u8)"
abbreviation "TV_HISTORY_END \<equiv> (0x07 :: u8)"
abbreviation "TV_SUBSCRIBE \<equiv> (0x80 :: u8)"
abbreviation "TV_CLIENT_CHAT \<equiv> (0x81 :: u8)"

record game_start_snapshot =
  snap_game_name :: bytes
  snap_map_path :: bytes
  snap_map_size :: u32
  snap_map_info_crc :: u32
  snap_map_crc :: u32
  snap_map_sha1 :: bytes
  snap_stat_string :: bytes
  snap_random_seed :: u32
  snap_layout_style :: u8
  snap_player_slots :: u8
  snap_war3_version :: u8
  snap_is_tft :: bool
  snap_slots :: "slot_info list"

record tv_player_info =
  tvp_pid :: u8
  tvp_name :: bytes
  tvp_colour :: u8
  tvp_team :: u8
  tvp_race :: u8

record spectator_chat =
  chat_sender :: bytes
  chat_text :: bytes

abbreviation tv_frame :: "u8 \<Rightarrow> bytes \<Rightarrow> proto_error + bytes" where
  "tv_frame i p \<equiv> encode_with DOTATV_HEADER \<lparr>frame_id = i, frame_payload = p\<rparr>"

definition encode_hello :: "u16 \<Rightarrow> bytes \<Rightarrow> proto_error + bytes" where
  "encode_hello version server_name =
     tv_frame TV_HELLO (put_u16_le version @ put_cstring server_name)"

definition decode_hello :: "bytes \<Rightarrow> proto_error + (u16 \<times> bytes)" where
  "decode_hello b =
     and_then (try_get_u16_le b) (\<lambda>(version, b).
     and_then (try_get_cstring b) (\<lambda>(server_name, b).
     Inr (version, server_name)))"

definition snapshot_payload :: "game_start_snapshot \<Rightarrow> bytes" where
  "snapshot_payload snap =
     put_cstring (snap_game_name snap)
     @ put_cstring (snap_map_path snap)
     @ put_u32_le (snap_map_size snap)
     @ put_u32_le (snap_map_info_crc snap)
     @ put_u32_le (snap_map_crc snap)
     @ snap_map_sha1 snap
     @ snap_stat_string snap
     @ put_u8 0
     @ put_u32_le (snap_random_seed snap)
     @ put_u8 (snap_layout_style snap)
     @ put_u8 (snap_player_slots snap)
     @ put_u8 (snap_war3_version snap)
     @ put_u8 (if snap_is_tft snap then 1 else 0)
     @ put_u8 (of_nat (length (snap_slots snap)))
     @ concat (map slot_info_encode (snap_slots snap))"

definition encode_snapshot :: "game_start_snapshot \<Rightarrow> proto_error + bytes" where
  "encode_snapshot snap =
     (if length (snap_slots snap) > 255 then Inl (BadValue ''too many slots in snapshot'')
      else tv_frame TV_GAME_START_SNAPSHOT (snapshot_payload snap))"

text \<open>The stat-string loop of \<^verbatim>\<open>decode_snapshot\<close>: raw bytes up to a NUL.\<close>

fun stat_string_loop :: "bytes \<Rightarrow> bytes reader" where
  "stat_string_loop out [] = Inl UnterminatedString"
| "stat_string_loop out (x # b) =
     (if x = 0 then Inr (out, b) else stat_string_loop (out @ [x]) b)"

definition decode_slot :: "slot_info reader" where
  "decode_slot b =
     and_then (try_get_u8 b) (\<lambda>(pid, b).
     and_then (try_get_u8 b) (\<lambda>(download_status, b).
     and_then (try_get_u8 b) (\<lambda>(status, b).
     and_then (try_get_u8 b) (\<lambda>(computer, b).
     and_then (try_get_u8 b) (\<lambda>(team, b).
     and_then (try_get_u8 b) (\<lambda>(colour, b).
     and_then (try_get_u8 b) (\<lambda>(race, b).
     and_then (try_get_u8 b) (\<lambda>(computer_type, b).
     and_then (try_get_u8 b) (\<lambda>(handicap, b).
     Inr (\<lparr>slot_pid = pid, slot_download_status = download_status, slot_status = status,
           slot_computer = computer, slot_team = team, slot_colour = colour, slot_race = race,
           slot_computer_type = computer_type, slot_handicap = handicap\<rparr>, b))))))))))"

fun decode_slots :: "nat \<Rightarrow> slot_info list reader" where
  "decode_slots 0 b = Inr ([], b)"
| "decode_slots (Suc n) b =
     and_then (decode_slot b) (\<lambda>(s, b).
     and_then (decode_slots n b) (\<lambda>(ss, b). Inr (s # ss, b)))"

definition decode_snapshot :: "bytes \<Rightarrow> proto_error + game_start_snapshot" where
  "decode_snapshot b =
     and_then (try_get_cstring b) (\<lambda>(game_name, b).
     and_then (try_get_cstring b) (\<lambda>(map_path, b).
     and_then (try_get_u32_le b) (\<lambda>(map_size, b).
     and_then (try_get_u32_le b) (\<lambda>(map_info_crc, b).
     and_then (try_get_u32_le b) (\<lambda>(map_crc, b).
     and_then (try_get_bytes 20 b) (\<lambda>(map_sha1, b).
     and_then (stat_string_loop [] b) (\<lambda>(stat_string, b).
     and_then (try_get_u32_le b) (\<lambda>(random_seed, b).
     and_then (try_get_u8 b) (\<lambda>(layout_style, b).
     and_then (try_get_u8 b) (\<lambda>(player_slots, b).
     and_then (try_get_u8 b) (\<lambda>(war3_version, b).
     and_then (try_get_u8 b) (\<lambda>(tft, b).
     and_then (try_get_u8 b) (\<lambda>(num_slots, b).
     and_then (decode_slots (unat num_slots) b) (\<lambda>(slots, b).
     Inr \<lparr>snap_game_name = game_name, snap_map_path = map_path, snap_map_size = map_size,
          snap_map_info_crc = map_info_crc, snap_map_crc = map_crc, snap_map_sha1 = map_sha1,
          snap_stat_string = stat_string, snap_random_seed = random_seed,
          snap_layout_style = layout_style, snap_player_slots = player_slots,
          snap_war3_version = war3_version, snap_is_tft = (tft \<noteq> 0),
          snap_slots = slots\<rparr>))))))))))))))"

definition encode_player :: "u8 \<Rightarrow> bytes \<Rightarrow> u8 \<Rightarrow> u8 \<Rightarrow> u8 \<Rightarrow> proto_error + bytes" where
  "encode_player pid name colour team race =
     tv_frame TV_PLAYER (put_u8 pid @ put_cstring name @ put_u8 colour @ put_u8 team @ put_u8 race)"

definition decode_player :: "bytes \<Rightarrow> proto_error + tv_player_info" where
  "decode_player b =
     and_then (try_get_u8 b) (\<lambda>(pid, b).
     and_then (try_get_cstring b) (\<lambda>(name, b).
     and_then (try_get_u8 b) (\<lambda>(colour, b).
     and_then (try_get_u8 b) (\<lambda>(team, b).
     and_then (try_get_u8 b) (\<lambda>(race, b).
     Inr \<lparr>tvp_pid = pid, tvp_name = name, tvp_colour = colour, tvp_team = team, tvp_race = race\<rparr>)))))"

definition encode_action :: "bytes \<Rightarrow> proto_error + bytes" where
  "encode_action w3gs_raw_frame = tv_frame TV_ACTION w3gs_raw_frame"

definition decode_action :: "bytes \<Rightarrow> proto_error + bytes" where
  "decode_action payload =
     (if length payload < 4 then Inl (Truncated 4 (length payload))
      else if payload ! 0 \<noteq> W3GS_HEADER then Inl (BadValue ''action frame missing 0xF7 header'')
      else let len = unat (from_le [payload ! 2, payload ! 3] :: u16)
           in if len < 4 then Inl (BadValue ''action frame length below header size'')
              else if length payload < len then Inl (Truncated len (length payload))
              else Inr (take len payload))"

definition encode_chat :: "bytes \<Rightarrow> bytes \<Rightarrow> proto_error + bytes" where
  "encode_chat sender text = tv_frame TV_CHAT (put_cstring sender @ put_cstring text)"

definition decode_chat :: "bytes \<Rightarrow> proto_error + spectator_chat" where
  "decode_chat b =
     and_then (try_get_cstring b) (\<lambda>(sender, b).
     and_then (try_get_cstring b) (\<lambda>(text, b).
     Inr \<lparr>chat_sender = sender, chat_text = text\<rparr>))"

definition encode_game_over :: "bytes \<Rightarrow> proto_error + bytes" where
  "encode_game_over winner = tv_frame TV_GAME_OVER (put_cstring winner)"

definition decode_game_over :: "bytes \<Rightarrow> proto_error + bytes" where
  "decode_game_over b = and_then (try_get_cstring b) (\<lambda>(s, b). Inr s)"

definition encode_history_end :: "u32 \<Rightarrow> proto_error + bytes" where
  "encode_history_end count = tv_frame TV_HISTORY_END (put_u32_le count)"

definition decode_history_end :: "bytes \<Rightarrow> proto_error + u32" where
  "decode_history_end b = and_then (try_get_u32_le b) (\<lambda>(c, b). Inr c)"

definition encode_subscribe :: "u16 \<Rightarrow> proto_error + bytes" where
  "encode_subscribe client_version = tv_frame TV_SUBSCRIBE (put_u16_le client_version)"

definition decode_subscribe :: "bytes \<Rightarrow> proto_error + u16" where
  "decode_subscribe b = and_then (try_get_u16_le b) (\<lambda>(v, b). Inr v)"

definition encode_client_chat :: "bytes \<Rightarrow> proto_error + bytes" where
  "encode_client_chat text = tv_frame TV_CLIENT_CHAT (put_cstring text)"

definition decode_client_chat :: "bytes \<Rightarrow> proto_error + bytes" where
  "decode_client_chat b = and_then (try_get_cstring b) (\<lambda>(s, b). Inr s)"

section \<open>The messages implement the contract\<close>

interpretation hello: framed_message DOTATV_HEADER TV_HELLO
    "\<lambda>(v, s). put_u16_le v @ put_cstring s" "\<lambda>(v, s). encode_hello v s" decode_hello
    "\<lambda>(v, s). cstr_ok s"
  by unfold_locales (auto simp: encode_hello_def decode_hello_def)

interpretation player: framed_message DOTATV_HEADER TV_PLAYER
    "\<lambda>p. put_u8 (tvp_pid p) @ put_cstring (tvp_name p) @ put_u8 (tvp_colour p)
         @ put_u8 (tvp_team p) @ put_u8 (tvp_race p)"
    "\<lambda>p. encode_player (tvp_pid p) (tvp_name p) (tvp_colour p) (tvp_team p) (tvp_race p)"
    decode_player "\<lambda>p. cstr_ok (tvp_name p)"
  by unfold_locales (auto simp: encode_player_def decode_player_def)

interpretation chat: framed_message DOTATV_HEADER TV_CHAT
    "\<lambda>c. put_cstring (chat_sender c) @ put_cstring (chat_text c)"
    "\<lambda>c. encode_chat (chat_sender c) (chat_text c)" decode_chat
    "\<lambda>c. cstr_ok (chat_sender c) \<and> cstr_ok (chat_text c)"
  by unfold_locales (auto simp: encode_chat_def decode_chat_def)

interpretation game_over: framed_message DOTATV_HEADER TV_GAME_OVER
    put_cstring encode_game_over decode_game_over cstr_ok
  by unfold_locales (auto simp: encode_game_over_def decode_game_over_def)

interpretation history_end: framed_message DOTATV_HEADER TV_HISTORY_END
    put_u32_le encode_history_end decode_history_end "\<lambda>_. True"
  by unfold_locales (auto simp: encode_history_end_def decode_history_end_def)

interpretation subscribe: framed_message DOTATV_HEADER TV_SUBSCRIBE
    put_u16_le encode_subscribe decode_subscribe "\<lambda>_. True"
  by unfold_locales (auto simp: encode_subscribe_def decode_subscribe_def)

interpretation client_chat: framed_message DOTATV_HEADER TV_CLIENT_CHAT
    put_cstring encode_client_chat decode_client_chat cstr_ok
  by unfold_locales (auto simp: encode_client_chat_def decode_client_chat_def)

text \<open>The snapshot: two C strings, fixed-width fields, a raw NUL-terminated string, counted slots.\<close>

lemma stat_string_loop_append:
  "0 \<notin> set s \<Longrightarrow> stat_string_loop out (s @ 0 # b) = Inr (out @ s, b)"
  by (induction s arbitrary: out) auto

lemma decode_slot_encode [simp]: "decode_slot (slot_info_encode s @ b) = Inr (s, b)"
  by (simp add: decode_slot_def slot_info_encode_def)

lemma decode_slots_encode [simp]:
  "decode_slots (length ss) (concat (map slot_info_encode ss) @ b) = Inr (ss, b)"
  by (induction ss) auto

definition snapshot_ok :: "game_start_snapshot \<Rightarrow> bool" where
  "snapshot_ok snap =
     (cstr_ok (snap_game_name snap) \<and> cstr_ok (snap_map_path snap)
      \<and> length (snap_map_sha1 snap) = 20 \<and> 0 \<notin> set (snap_stat_string snap)
      \<and> length (snap_slots snap) \<le> 255)"

lemma decode_snapshot_payload:
  assumes "snapshot_ok snap"
  shows "decode_snapshot (snapshot_payload snap) = Inr snap"
proof -
  have "unat (of_nat (length (snap_slots snap)) :: u8) = length (snap_slots snap)"
    using assms by (subst unat_of_nat) (simp add: snapshot_ok_def)
  with assms decode_slots_encode [of "snap_slots snap" "[]"] show ?thesis
    by (simp add: decode_snapshot_def snapshot_payload_def snapshot_ok_def stat_string_loop_append)
qed

interpretation snapshot: framed_message DOTATV_HEADER TV_GAME_START_SNAPSHOT
    snapshot_payload encode_snapshot decode_snapshot snapshot_ok
  by unfold_locales (auto simp: encode_snapshot_def snapshot_ok_def decode_snapshot_payload)

text \<open>
  C38. A game-start snapshot reaches the spectator intact: for a snapshot with NUL-free strings,
  a 20-byte hash and at most 255 slots, the frame that \<^verbatim>\<open>encode_snapshot\<close> builds decodes, at
  the front of any buffer, to a frame of the snapshot id whose payload \<^verbatim>\<open>decode_snapshot\<close>
  turns back into the same snapshot.
\<close>

theorem snapshot_roundtrip:
  assumes "snapshot_ok snap" and "encode_snapshot snap = Inr bs"
  shows "\<exists>f. header_decode DOTATV_HEADER (bs @ rest) = (Inr (Some f), rest)
     \<and> frame_id f = TV_GAME_START_SNAPSHOT \<and> decode_snapshot (frame_payload f) = Inr snap"
  using assms by (rule snapshot.receives)

definition witness_snapshot :: game_start_snapshot where
  "witness_snapshot = \<lparr>snap_game_name = [68, 111, 116, 65], snap_map_path = [77],
     snap_map_size = 7, snap_map_info_crc = 1, snap_map_crc = 2,
     snap_map_sha1 = replicate 20 9, snap_stat_string = [170, 187], snap_random_seed = 42,
     snap_layout_style = 0, snap_player_slots = 10, snap_war3_version = 26, snap_is_tft = True,
     snap_slots = [\<lparr>slot_pid = 1, slot_download_status = 255, slot_status = 2,
       slot_computer = 0, slot_team = 0, slot_colour = 1, slot_race = 32,
       slot_computer_type = 1, slot_handicap = 100\<rparr>]\<rparr>"

theorem snapshot_roundtrip_witness:
  "\<exists>bs f. encode_snapshot witness_snapshot = Inr bs
     \<and> header_decode DOTATV_HEADER (bs @ [1, 2]) = (Inr (Some f), [1, 2])
     \<and> decode_snapshot (frame_payload f) = Inr witness_snapshot"
proof -
  have ok: "snapshot_ok witness_snapshot"
    by (simp add: snapshot_ok_def witness_snapshot_def cstr_ok_def utf8_valid_ascii)
  have "is_ok (encode_snapshot witness_snapshot)"
    using snapshot.encode_ok_iff [OF ok]
    by (simp add: snapshot_payload_def witness_snapshot_def)
  then obtain bs where "encode_snapshot witness_snapshot = Inr bs"
    by (auto simp: is_ok_def split: sum.splits)
  with snapshot_roundtrip [OF ok this] show ?thesis by blast
qed

text \<open>
  Relayed actions survive the double framing: the W3GS packet a game broadcasts, wrapped by
  \<^verbatim>\<open>encode_action\<close>, is exactly what \<^verbatim>\<open>decode_action\<close> returns for the payload of the
  spectator frame, even when bytes follow the packet in it; and whatever \<^verbatim>\<open>decode_action\<close>
  returns is a complete W3GS frame.
\<close>

lemma action_relay_roundtrip:
  "(encode_with W3GS_HEADER f = Inr p \<longrightarrow> decode_action (p @ junk) = Inr p)
   \<and> (decode_action q = Inr r \<longrightarrow>
        (\<exists>g. header_decode W3GS_HEADER r = (Inr (Some g), []) \<and> r = take (length r) q))"
proof (intro conjI impI)
  assume "encode_with W3GS_HEADER f = Inr p"
  note e = encode_with_InrD [OF this]
  let ?l = "of_nat (4 + length (frame_payload f)) :: u16"
  have "unat ?l = 4 + length (frame_payload f)"
    using e(2) by (subst unat_of_nat) simp
  moreover have "[(p @ junk) ! 2, (p @ junk) ! 3] = put_u16_le ?l" and "(p @ junk) ! 0 = W3GS_HEADER"
    by (simp_all add: e(1) to_le_2)
  ultimately show "decode_action (p @ junk) = Inr p"
    using e(3) by (simp add: decode_action_def Let_def)
next
  assume q: "decode_action q = Inr r"
  let ?t = "unat (from_le [q ! 2, q ! 3] :: u16)"
  from q have h: "q ! 0 = W3GS_HEADER" "4 \<le> ?t" "?t \<le> length q" and r: "r = take ?t q"
    by (auto simp: decode_action_def Let_def split: if_splits)
  then have "r ! 2 = q ! 2" "r ! 3 = q ! 3" "r ! 0 = W3GS_HEADER" "r \<noteq> []" "length r = ?t"
    by auto
  then have "decode_at_header r =
      (Inr (Some \<lparr>frame_id = r ! 1, frame_payload = take (?t - 4) (drop 4 r)\<rparr>), [])"
    using h decode_at_header_complete [of r ?t] by simp
  with r h \<open>r ! 0 = W3GS_HEADER\<close>
  show "\<exists>g. header_decode W3GS_HEADER r = (Inr (Some g), []) \<and> r = take (length r) q"
    by (simp add: header_decode_def resync_def)
qed

end
