(* ===== verification/Conn.thy ===== *)
theory Conn
  imports Wire W3gs_Types Gps Dotatv_Proto
begin

text \<open>
  The connection layer of \<^verbatim>\<open>spectre-net/src/conn.rs\<close>: the codec that reads three protocols
  from one socket, the codec of spectator connections, the reader task's treatment of codec
  results, and the link a game keeps to a player. The bounded channel behind a link is a
  tokio channel: its sending operation is the parameter \<open>ts\<close> of the definitions that send,
  and \<open>channel_law\<close> is what the program relies on of it.
\<close>

section \<open>Codecs\<close>

datatype any_frame = W3gs frame | Gps frame | IccupGps frame | DotaTv frame

abbreviation map_frame ::
    "(frame \<Rightarrow> any_frame) \<Rightarrow> (proto_error + frame option) \<times> bytes
     \<Rightarrow> (proto_error + any_frame option) \<times> bytes" where
  "map_frame c r \<equiv> map_prod (map_sum id (map_option c)) id r"

definition dotatv_conn_decode :: "any_frame decoder" where
  "dotatv_conn_decode src = map_frame DotaTv (header_decode DOTATV_HEADER src)"

definition is_dual_header :: "u8 \<Rightarrow> bool" where
  "is_dual_header b \<longleftrightarrow> b = W3GS_HEADER \<or> b = GPS_HEADER \<or> b = GPS_ICCUP_HEADER"

text \<open>
  The skipping loop of \<^verbatim>\<open>DualCodec::decode\<close>: after one iteration the buffer starts with a
  header byte (\<open>dual_resync_stable\<close> below), so the loop body runs at most once. \<open>None\<close> is the
  return from inside the loop with the buffer cleared.
\<close>

definition dual_resync :: "bytes \<Rightarrow> bytes option" where
  "dual_resync src =
     (if src \<noteq> [] \<and> \<not> is_dual_header (src ! 0)
      then (case position is_dual_header src of Some pos \<Rightarrow> Some (drop pos src) | None \<Rightarrow> None)
      else Some src)"

definition dual_decode :: "any_frame decoder" where
  "dual_decode src =
     (case dual_resync src of
        None \<Rightarrow> (Inr None, [])
      | Some src \<Rightarrow>
          if src = [] then (Inr None, src)
          else if src ! 0 = W3GS_HEADER then map_frame W3gs (header_decode W3GS_HEADER src)
          else if src ! 0 = GPS_HEADER then map_frame Gps (header_decode GPS_HEADER src)
          else map_frame IccupGps (header_decode GPS_ICCUP_HEADER src))"

text \<open>The encoders of both codecs append the already framed bytes.\<close>

definition dual_encode :: "bytes \<Rightarrow> bytes \<Rightarrow> proto_error + bytes" where
  "dual_encode item dst = Inr (dst @ item)"

section \<open>Links\<close>

datatype link_error = Backpressure | Closed

datatype close_reason = PeerClosed | Protocol proto_error | CloseIo string | WriterBackpressure

datatype conn_event_kind = EvFrame any_frame | EvClosed close_reason

record conn_event =
  ev_conn_id :: u64
  ev_kind :: conn_event_kind

text \<open>Results of the channel's \<^verbatim>\<open>try_send\<close>, and the channel's operation as a parameter.\<close>

datatype tx_result = TxOk | TxFull | TxClosed

type_synonym 'c try_send = "'c \<Rightarrow> bytes \<Rightarrow> tx_result \<times> 'c"

definition link_try_send :: "'c try_send \<Rightarrow> 'c \<Rightarrow> bytes \<Rightarrow> (link_error + unit) \<times> 'c" where
  "link_try_send ts tx bs =
     (case ts tx bs of
        (TxOk, tx) \<Rightarrow> (Inr (), tx)
      | (TxFull, tx) \<Rightarrow> (Inl Backpressure, tx)
      | (TxClosed, tx) \<Rightarrow> (Inl Closed, tx))"

text \<open>
  What the program relies on: an accepted message goes to the end of the queue, a refused one
  leaves the channel as it was.
\<close>

definition channel_law :: "'c try_send \<Rightarrow> ('c \<Rightarrow> bytes list) \<Rightarrow> bool" where
  "channel_law ts queued \<longleftrightarrow> (\<forall>tx bs. case ts tx bs of
     (TxOk, tx') \<Rightarrow> queued tx' = queued tx @ [bs]
   | (_, tx') \<Rightarrow> queued tx' = queued tx)"

lemma link_try_send_queued:
  assumes "channel_law ts queued"
  shows "queued (snd (link_try_send ts tx bs)) =
     queued tx @ (if is_ok (fst (link_try_send ts tx bs)) then [bs] else [])"
  using assms [unfolded channel_law_def, rule_format, of tx bs]
  by (auto simp: link_try_send_def split: prod.splits tx_result.splits)

text \<open>
  A bounded queue, the instance the witnesses use: the queued messages, the room for them and
  whether the receiver is gone.
\<close>

definition bounded_send :: "(nat \<times> bool \<times> bytes list) try_send" where
  "bounded_send tx bs =
     (case tx of (cap, gone, q) \<Rightarrow>
        if gone then (TxClosed, tx) else if cap \<le> length q then (TxFull, tx)
        else (TxOk, (cap, gone, q @ [bs])))"

lemma bounded_send_law: "channel_law bounded_send (\<lambda>(cap, gone, q). q)"
  by (simp add: channel_law_def bounded_send_def)

section \<open>The reader task\<close>

text \<open>
  The loop of the reader task over the results of the framed stream (\<open>None\<close> ends the stream),
  with the events it sends; \<open>accepts\<close> tells for each event whether the receiver still took
  it. A dropped frame is not an event.
\<close>

fun reader_loop ::
    "u64 \<Rightarrow> (proto_error + any_frame) list \<Rightarrow> bool list \<Rightarrow> conn_event list" where
  "reader_loop conn_id [] acc = [\<lparr>ev_conn_id = conn_id, ev_kind = EvClosed PeerClosed\<rparr>]"
| "reader_loop conn_id (Inr f # rs) acc =
     (case acc of
        False # _ \<Rightarrow> []
      | True # acc \<Rightarrow> \<lparr>ev_conn_id = conn_id, ev_kind = EvFrame f\<rparr> # reader_loop conn_id rs acc
      | [] \<Rightarrow> \<lparr>ev_conn_id = conn_id, ev_kind = EvFrame f\<rparr> # reader_loop conn_id rs [])"
| "reader_loop conn_id (Inl e # rs) acc =
     (case e of
        BadValue s \<Rightarrow> reader_loop conn_id rs acc
      | _ \<Rightarrow> [\<lparr>ev_conn_id = conn_id, ev_kind = EvClosed (Protocol e)\<rparr>])"

section \<open>The dual codec on a stream\<close>

lemma dual_resync_stable:
  "dual_resync src = Some src' \<Longrightarrow> src' = [] \<or> is_dual_header (src' ! 0)"
  by (auto simp: dual_resync_def dest: position_SomeD split: if_splits option.splits)

lemma dual_resync_suffix: "dual_resync src = Some src' \<Longrightarrow> \<exists>n. src' = drop n src"
  by (auto simp: dual_resync_def split: if_splits option.splits intro: exI [of _ 0])

text \<open>What a peer sends over one of the protocols of the dual codec.\<close>

definition any_encode :: "any_frame \<Rightarrow> proto_error + bytes" where
  "any_encode af =
     (case af of
        W3gs f \<Rightarrow> encode_with W3GS_HEADER f
      | Gps f \<Rightarrow> encode_with GPS_HEADER f
      | IccupGps f \<Rightarrow> encode_with GPS_ICCUP_HEADER f
      | DotaTv f \<Rightarrow> Inl (BadValue ''not a protocol of this connection''))"

lemma dual_decode_header:
  assumes "h \<in> {W3GS_HEADER, GPS_HEADER, GPS_ICCUP_HEADER}"
  shows "dual_decode (h # bs) =
     map_frame (if h = W3GS_HEADER then W3gs else if h = GPS_HEADER then Gps else IccupGps)
       (header_decode h (h # bs))"
  using assms by (auto simp: dual_decode_def dual_resync_def is_dual_header_def)

lemma any_encodeE:
  assumes "any_encode af = Inr bs"
  obtains h f t where "h \<in> {W3GS_HEADER, GPS_HEADER, GPS_ICCUP_HEADER}" "encode_with h f = Inr bs"
    "af = (if h = W3GS_HEADER then W3gs else if h = GPS_HEADER then Gps else IccupGps) f"
    "bs = h # t"
proof (cases af)
  case (W3gs f)
  with assms show ?thesis
    by (intro that [of W3GS_HEADER f "tl bs"]) (auto simp: any_encode_def dest: encode_with_InrD)
next
  case (Gps f)
  with assms show ?thesis
    by (intro that [of GPS_HEADER f "tl bs"]) (auto simp: any_encode_def dest: encode_with_InrD)
next
  case (IccupGps f)
  with assms show ?thesis
    by (intro that [of GPS_ICCUP_HEADER f "tl bs"]) (auto simp: any_encode_def dest: encode_with_InrD)
qed (use assms in \<open>simp add: any_encode_def\<close>)

lemma dual_decode_any_encode:
  assumes "any_encode af = Inr bs"
  shows "dual_decode (bs @ rest) = (Inr (Some af), rest)"
  using assms
proof (rule any_encodeE)
  fix h f t
  assume h: "h \<in> {W3GS_HEADER, GPS_HEADER, GPS_ICCUP_HEADER}" and e: "encode_with h f = Inr bs"
    and af: "af = (if h = W3GS_HEADER then W3gs else if h = GPS_HEADER then Gps else IccupGps) f"
    and bs: "bs = h # t"
  show ?thesis
    using header_decode_encode [OF e, of rest] by (simp add: bs dual_decode_header [OF h] af)
qed

lemma dual_decode_partial:
  assumes "any_encode af = Inr bs" and "k < length bs"
  shows "dual_decode (take k bs) = (Inr None, take k bs)"
  using assms(1)
proof (rule any_encodeE)
  fix h f t
  assume h: "h \<in> {W3GS_HEADER, GPS_HEADER, GPS_ICCUP_HEADER}" and e: "encode_with h f = Inr bs"
    and bs: "bs = h # t"
  show ?thesis
  proof (cases k)
    case 0
    then show ?thesis by (simp add: dual_decode_def dual_resync_def)
  next
    case (Suc n)
    then have "take k bs = h # take n t" by (simp add: bs)
    with dual_decode_header [OF h, of "take n t"] header_decode_partial [OF e assms(2)]
    show ?thesis by simp
  qed
qed

interpretation dual: stream_codec dual_decode any_encode
proof
  fix f bs assume "any_encode f = Inr bs"
  then show "bs \<noteq> []" by (rule any_encodeE) auto
next
  show "dual_decode [] = (Inr None, [])" by (simp add: dual_decode_def dual_resync_def)
qed (rule dual_decode_any_encode dual_decode_partial; assumption)+

text \<open>
  C20. One socket carries three protocols: however TCP cuts a stream of game, GProxy and iCCup
  frames in any interleaving, the connection's codec yields exactly those frames with the
  protocol each was sent in, in order, with no error and nothing left over.
\<close>

theorem dual_stream_fragmentation:
  assumes "\<forall>f \<in> set fs. any_encode f = Inr (enc f)"
    and "concat pieces = concat (map enc fs)"
  shows "foldl (feed dual_decode) ([], []) pieces = ([], map Inr fs)"
  using assms by (rule dual.fragmentation)

definition dual_witness_enc :: "any_frame \<Rightarrow> bytes" where
  "dual_witness_enc af = expect (any_encode af)"

theorem dual_stream_fragmentation_witness:
  "foldl (feed dual_decode) ([], []) [[0xF7, 0x21, 5], [0, 9, 0xF8, 3, 4], [0]] =
     ([], map Inr [W3gs \<lparr>frame_id = 0x21, frame_payload = [9]\<rparr>, Gps \<lparr>frame_id = 3, frame_payload = []\<rparr>])"
  by (rule dual_stream_fragmentation [where enc = dual_witness_enc])
     (simp_all add: any_encode_def encode_with_def HEADER_LEN_def to_le_2 Let_def dual_witness_enc_def)

section \<open>What the reader reports\<close>

lemma reader_loop_frames:
  assumes "\<forall>r \<in> set rs. is_ok r \<or> (\<exists>s. r = Inl (BadValue s))"
  shows "reader_loop c rs [] =
     map (\<lambda>f. \<lparr>ev_conn_id = c, ev_kind = EvFrame f\<rparr>) (concat (map (case_sum (\<lambda>_. []) (\<lambda>f. [f])) rs))
     @ [\<lparr>ev_conn_id = c, ev_kind = EvClosed PeerClosed\<rparr>]"
  using assms
proof (induction rs)
  case (Cons r rs)
  then show ?case by (cases r) auto
qed simp

end
