(* ===== verification/Slots.thy ===== *)
theory Slots
  imports W3gs_Types "HOL-Library.Multiset"
begin

text \<open>
  The slot table of a lobby (\<^verbatim>\<open>spectre-engine/src/slots.rs\<close>). A table is the vector of slot
  records; a slot id is a \<^verbatim>\<open>u8\<close> index. Every mutating operation returns the table with the
  boolean (or option) the source returns.
\<close>

section \<open>Operations\<close>

abbreviation "SLOT_OPEN \<equiv> (0 :: u8)"
abbreviation "SLOT_CLOSED \<equiv> (1 :: u8)"
abbreviation "SLOT_OCCUPIED \<equiv> (2 :: u8)"
abbreviation "MAX_SLOTS \<equiv> (24 :: nat)"

type_synonym slot_table = "slot_info list"

definition slots_new :: "nat \<Rightarrow> slot_table" where
  "slots_new num_slots =
     map (\<lambda>i. \<lparr>slot_pid = 0, slot_download_status = 255, slot_status = SLOT_OPEN,
               slot_computer = 0, slot_team = of_nat (i div 6), slot_colour = of_nat i,
               slot_race = 0x20, slot_computer_type = 1, slot_handicap = 100\<rparr>) [0..<num_slots]"

definition as_wire_bytes :: "slot_table \<Rightarrow> bytes" where
  "as_wire_bytes ss = concat (map slot_info_encode ss)"

text \<open>\<^verbatim>\<open>match self.get_mut(sid)\<close>: apply a change to the slot, \<^verbatim>\<open>false\<close> out of range.\<close>

definition slot_update :: "slot_table \<Rightarrow> u8 \<Rightarrow> (slot_info \<Rightarrow> slot_info) \<Rightarrow> bool \<times> slot_table" where
  "slot_update ss sid f =
     (if unat sid < length ss then (True, ss[unat sid := f (ss ! unat sid)]) else (False, ss))"

definition slot_open :: "slot_table \<Rightarrow> u8 \<Rightarrow> bool \<times> slot_table" where
  "slot_open ss sid = slot_update ss sid (\<lambda>s. s\<lparr>slot_status := SLOT_OPEN, slot_pid := 0\<rparr>)"

definition slot_close :: "slot_table \<Rightarrow> u8 \<Rightarrow> bool \<times> slot_table" where
  "slot_close ss sid = slot_update ss sid (\<lambda>s. s\<lparr>slot_status := SLOT_CLOSED, slot_pid := 0\<rparr>)"

definition swap_slots :: "slot_table \<Rightarrow> u8 \<Rightarrow> u8 \<Rightarrow> bool \<Rightarrow> bool \<Rightarrow> bool \<times> slot_table" where
  "swap_slots ss a b fixed_settings custom_forces =
     (let a = unat a; b = unat b in
      if a \<ge> length ss \<or> b \<ge> length ss \<or> a = b then (False, ss)
      else let slot_a = ss ! a; slot_b = ss ! b in
        if fixed_settings then
          (True, ss
             [a := slot_a\<lparr>slot_pid := slot_pid slot_b,
                          slot_download_status := slot_download_status slot_b,
                          slot_status := slot_status slot_b, slot_computer := slot_computer slot_b,
                          slot_computer_type := slot_computer_type slot_b\<rparr>,
              b := slot_b\<lparr>slot_pid := slot_pid slot_a,
                          slot_download_status := slot_download_status slot_a,
                          slot_status := slot_status slot_a, slot_computer := slot_computer slot_a,
                          slot_computer_type := slot_computer_type slot_a\<rparr>])
        else
          (let new_a = (if custom_forces then slot_b\<lparr>slot_team := slot_team slot_a\<rparr> else slot_b);
               new_b = (if custom_forces then slot_a\<lparr>slot_team := slot_team slot_b\<rparr> else slot_a)
           in (True, ss[a := new_a, b := new_b])))"

definition slot_swap :: "slot_table \<Rightarrow> u8 \<Rightarrow> u8 \<Rightarrow> bool \<times> slot_table" where
  "slot_swap ss a b = swap_slots ss a b False False"

definition occupy_slot :: "slot_table \<Rightarrow> u8 \<Rightarrow> u8 \<Rightarrow> bool \<times> slot_table" where
  "occupy_slot ss sid pid = slot_update ss sid
     (\<lambda>s. s\<lparr>slot_status := SLOT_OCCUPIED, slot_pid := pid, slot_computer := 0,
            slot_download_status := 100\<rparr>)"

definition occupy :: "slot_table \<Rightarrow> u8 \<Rightarrow> u8 \<Rightarrow> u8 \<Rightarrow> u8 \<Rightarrow> bool \<times> slot_table" where
  "occupy ss sid pid team colour = slot_update ss sid
     (\<lambda>s. s\<lparr>slot_status := SLOT_OCCUPIED, slot_pid := pid, slot_team := team,
            slot_colour := colour, slot_computer := 0\<rparr>)"

definition slot_replace :: "slot_table \<Rightarrow> u8 \<Rightarrow> slot_info \<Rightarrow> bool \<times> slot_table" where
  "slot_replace ss sid info = slot_update ss sid (\<lambda>_. info)"

definition sid_of_pid :: "slot_table \<Rightarrow> u8 \<Rightarrow> u8 option" where
  "sid_of_pid ss pid =
     map_option of_nat (position (\<lambda>s. slot_status s = SLOT_OCCUPIED \<and> slot_pid s = pid) ss)"

definition slot_release :: "slot_table \<Rightarrow> u8 \<Rightarrow> u8 option \<times> slot_table" where
  "slot_release ss pid =
     (case sid_of_pid ss pid of None \<Rightarrow> (None, ss) | Some sid \<Rightarrow> (Some sid, snd (slot_open ss sid)))"

definition first_open :: "slot_table \<Rightarrow> u8 option" where
  "first_open ss = map_option of_nat (position (\<lambda>s. slot_status s = SLOT_OPEN) ss)"

definition first_open_in_team :: "slot_table \<Rightarrow> u8 \<Rightarrow> u8 option" where
  "first_open_in_team ss team =
     map_option of_nat (position (\<lambda>s. slot_status s = SLOT_OPEN \<and> slot_team s = team) ss)"

definition first_open_in_team_from :: "slot_table \<Rightarrow> u8 \<Rightarrow> u8 \<Rightarrow> u8 option" where
  "first_open_in_team_from ss start_sid team =
     (let n = length ss;
          ok = (\<lambda>i. slot_status (ss ! i) = SLOT_OPEN \<and> slot_team (ss ! i) = team)
      in if n = 0 \<or> unat start_sid \<ge> n then None
         else let start = (if slot_team (ss ! unat start_sid) = team then unat start_sid else 0)
              in case find ok [start..<n] of
                   Some i \<Rightarrow> Some (of_nat i)
                 | None \<Rightarrow> map_option of_nat (find ok [0..<start]))"

definition unused_colour :: "slot_table \<Rightarrow> u8" where
  "unused_colour ss =
     (case find (\<lambda>c. \<not> list_ex (\<lambda>s. slot_colour s = c) ss) (map of_nat [0..<MAX_SLOTS]) of
        Some c \<Rightarrow> c | None \<Rightarrow> of_nat MAX_SLOTS)"

definition count_open :: "slot_table \<Rightarrow> u32" where
  "count_open ss = of_nat (length (filter (\<lambda>s. slot_status s = SLOT_OPEN) ss))"

definition count_occupied :: "slot_table \<Rightarrow> u32" where
  "count_occupied ss = of_nat (length (filter (\<lambda>s. slot_status s = SLOT_OCCUPIED) ss))"

definition slot_is_open :: "slot_table \<Rightarrow> u8 \<Rightarrow> bool" where
  "slot_is_open ss sid \<longleftrightarrow> unat sid < length ss \<and> slot_status (ss ! unat sid) = SLOT_OPEN"

definition open_slots :: "slot_table \<Rightarrow> nat" where
  "open_slots ss = unat (count_open ss)"

definition set_colour :: "slot_table \<Rightarrow> u8 \<Rightarrow> u8 \<Rightarrow> bool \<times> slot_table" where
  "set_colour ss sid colour = slot_update ss sid (\<lambda>s. s\<lparr>slot_colour := colour\<rparr>)"

definition open_all :: "slot_table \<Rightarrow> slot_table" where
  "open_all ss = map (\<lambda>s. if slot_status s = SLOT_CLOSED
                          then s\<lparr>slot_status := SLOT_OPEN, slot_pid := 0\<rparr> else s) ss"

definition close_all :: "slot_table \<Rightarrow> slot_table" where
  "close_all ss = map (\<lambda>s. if slot_status s = SLOT_OPEN
                           then s\<lparr>slot_status := SLOT_CLOSED, slot_pid := 0\<rparr> else s) ss"

definition add_computer ::
    "slot_table \<Rightarrow> u8 \<Rightarrow> u8 \<Rightarrow> u8 \<Rightarrow> u8 \<Rightarrow> u8 \<Rightarrow> u8 \<Rightarrow> bool \<times> slot_table" where
  "add_computer ss sid team colour race computer_type handicap =
     (if unat sid < length ss \<and> slot_status (ss ! unat sid) \<noteq> SLOT_OCCUPIED
      then slot_update ss sid
        (\<lambda>s. s\<lparr>slot_status := SLOT_OCCUPIED, slot_computer := 1, slot_team := team,
               slot_colour := colour, slot_race := race, slot_computer_type := computer_type,
               slot_handicap := handicap, slot_download_status := 100\<rparr>)
      else (False, ss))"

section \<open>Seats\<close>

text \<open>
  The seats of a table: the ids of its occupied slots, in slot order. Computers have the id 0;
  the invariant is that no other id has two seats, that a slot that is not occupied names
  no player, and that every slot can be addressed by a \<^verbatim>\<open>u8\<close>.
\<close>

definition is_seat :: "slot_info \<Rightarrow> bool" where
  "is_seat s \<longleftrightarrow> slot_status s = SLOT_OCCUPIED \<and> slot_pid s \<noteq> 0"

definition seated :: "slot_table \<Rightarrow> u8 list" where
  "seated ss = map slot_pid (filter is_seat ss)"

definition slots_inv :: "slot_table \<Rightarrow> bool" where
  "slots_inv ss \<longleftrightarrow> distinct (seated ss) \<and> length ss \<le> 255
     \<and> (\<forall>s \<in> set ss. slot_status s \<noteq> SLOT_OCCUPIED \<longrightarrow> slot_pid s = 0)"

lemma seated_append [simp]: "seated (xs @ ys) = seated xs @ seated ys"
  by (simp add: seated_def)

lemma seated_Cons: "seated (s # ss) = (if is_seat s then slot_pid s # seated ss else seated ss)"
  by (simp add: seated_def)

lemma seated_Nil [simp]: "seated [] = []"
  by (simp add: seated_def)

lemma seated_map_same:
  "(\<And>s. s \<in> set ss \<Longrightarrow> is_seat (f s) = is_seat s \<and> (is_seat s \<longrightarrow> slot_pid (f s) = slot_pid s))
   \<Longrightarrow> seated (map f ss) = seated ss"
  by (induction ss) (auto simp: seated_Cons)

lemma slot_update_fst [slot_simps]: "fst (slot_update ss sid f) \<longleftrightarrow> unat sid < length ss"
  by (simp add: slot_update_def)

lemma slot_update_length [simp]: "length (snd (slot_update ss sid f)) = length ss"
  by (simp add: slot_update_def)

lemma slot_update_outside: "\<not> unat sid < length ss \<Longrightarrow> slot_update ss sid f = (False, ss)"
  by (simp add: slot_update_def)

text \<open>A table around a slot that an operation replaces.\<close>

lemma slot_update_split:
  assumes "unat sid < length ss"
  obtains xs ys where "ss = xs @ ss ! unat sid # ys" "length xs = unat sid"
    "\<And>f. slot_update ss sid f = (True, xs @ f (ss ! unat sid) # ys)"
proof
  show "ss = take (unat sid) ss @ ss ! unat sid # drop (Suc (unat sid)) ss"
    using assms by (rule id_take_nth_drop)
  show "length (take (unat sid) ss) = unat sid" using assms by simp
  show "slot_update ss sid f =
      (True, take (unat sid) ss @ f (ss ! unat sid) # drop (Suc (unat sid)) ss)" for f
    using assms by (simp add: slot_update_def upd_conv_take_nth_drop)
qed

text \<open>Seats after one slot changed: what the slot had is replaced by what it has.\<close>

lemma mset_seated_update:
  assumes "unat sid < length ss"
  shows "mset (seated (snd (slot_update ss sid f))) + mset (seated [ss ! unat sid]) =
    mset (seated ss) + mset (seated [f (ss ! unat sid)])"
  using assms
proof (rule slot_update_split)
  fix xs ys assume ss: "ss = xs @ ss ! unat sid # ys"
    and upd: "\<And>f. slot_update ss sid f = (True, xs @ f (ss ! unat sid) # ys)"
  define s where "s = ss ! unat sid"
  have "seated ss = seated xs @ seated [s] @ seated ys"
    by (subst ss) (simp add: s_def seated_Cons)
  moreover have "seated (snd (slot_update ss sid f)) = seated xs @ seated [f s] @ seated ys"
    by (simp add: upd s_def seated_Cons)
  ultimately show ?thesis by (simp add: s_def)
qed

lemma slots_inv_update:
  assumes "slots_inv ss" and "unat sid < length ss"
    and "seated [f (ss ! unat sid)] = [] \<or> seated [f (ss ! unat sid)] = seated [ss ! unat sid]
      \<or> seated [f (ss ! unat sid)] = [pid] \<and> pid \<notin> set (seated ss)"
    and "slot_status (f (ss ! unat sid)) \<noteq> SLOT_OCCUPIED \<Longrightarrow> slot_pid (f (ss ! unat sid)) = 0"
  shows "slots_inv (snd (slot_update ss sid f))"
proof (rule slot_update_split [OF assms(2)])
  fix xs ys assume ss: "ss = xs @ ss ! unat sid # ys"
    and upd: "\<And>f. slot_update ss sid f = (True, xs @ f (ss ! unat sid) # ys)"
  define s where "s = ss ! unat sid"
  have old: "seated ss = seated xs @ seated [s] @ seated ys"
    by (subst ss) (simp add: s_def seated_Cons)
  have new: "seated (snd (slot_update ss sid f)) = seated xs @ seated [f s] @ seated ys"
    by (simp add: upd s_def seated_Cons)
  have "\<forall>t \<in> set (snd (slot_update ss sid f)). slot_status t \<noteq> SLOT_OCCUPIED \<longrightarrow> slot_pid t = 0"
    using assms(1,4) ss by (simp add: upd slots_inv_def) (metis Un_iff set_append set_ConsD list.set_intros(2))
  then show ?thesis
    using assms(1,3) unfolding slots_inv_def new slot_update_length
    by (auto simp: old simp flip: s_def)
qed

section \<open>Lookup\<close>

lemma sid_of_pid_unique:
  assumes "slots_inv ss" "i < length ss" "slot_status (ss ! i) = SLOT_OCCUPIED"
    "slot_pid (ss ! i) = pid" "pid \<noteq> 0"
  shows "sid_of_pid ss pid = Some (of_nat i)"
proof -
  have False if "j < i" "slot_status (ss ! j) = SLOT_OCCUPIED" "slot_pid (ss ! j) = pid" for j
  proof -
    have "ss = take i ss @ ss ! i # drop (Suc i) ss" using assms(2) by (rule id_take_nth_drop)
    then have "seated ss = seated (take i ss) @ pid # seated (drop (Suc i) ss)"
      using assms by (metis is_seat_def seated_Cons seated_append)
    moreover have "pid \<in> set (seated (take i ss))"
      using that assms(2,5) by (auto simp: seated_def is_seat_def in_set_conv_nth image_iff
          intro!: exI [of _ j] bexI [of _ "ss ! j"])
    ultimately show False using assms(1) by (simp add: slots_inv_def)
  qed
  then have "position (\<lambda>s. slot_status s = SLOT_OCCUPIED \<and> slot_pid s = pid) ss = Some i"
    using assms by (intro position_SomeI) auto
  then show ?thesis by (simp add: sid_of_pid_def)
qed

lemma sid_of_pid_SomeD:
  assumes "sid_of_pid ss pid = Some sid" and "length ss \<le> 255"
  shows "unat sid < length ss" "slot_status (ss ! unat sid) = SLOT_OCCUPIED"
    "slot_pid (ss ! unat sid) = pid"
proof -
  obtain i where i: "position (\<lambda>s. slot_status s = SLOT_OCCUPIED \<and> slot_pid s = pid) ss = Some i"
    "sid = of_nat i"
    using assms(1) by (auto simp: sid_of_pid_def)
  note p = position_SomeD [OF i(1)]
  have "unat sid = i" unfolding i(2) using p assms(2) by (subst unat_of_nat) simp
  with p show "unat sid < length ss" "slot_status (ss ! unat sid) = SLOT_OCCUPIED"
    "slot_pid (ss ! unat sid) = pid" by auto
qed

lemma sid_of_pid_None_iff:
  "pid \<noteq> 0 \<Longrightarrow> sid_of_pid ss pid = None \<longleftrightarrow> pid \<notin> set (seated ss)"
  by (auto simp: sid_of_pid_def position_None_iff seated_def is_seat_def)

section \<open>The invariant\<close>

lemmas slot_op_defs = slot_open_def slot_close_def occupy_slot_def occupy_def set_colour_def
  add_computer_def

lemma slots_inv_slotD:
  assumes "slots_inv ss" and "i < length ss" and "slot_status (ss ! i) \<noteq> SLOT_OCCUPIED"
  shows "slot_pid (ss ! i) = 0"
  using assms by (simp add: slots_inv_def)

text \<open>Every guarded change of one slot keeps the invariant.\<close>

lemma slots_inv_slot_update:
  assumes "slots_inv ss"
    and "\<And>s. unat sid < length ss \<Longrightarrow> s = ss ! unat sid \<Longrightarrow>
      seated [f s] = [] \<or> seated [f s] = seated [s] \<or> seated [f s] = [pid] \<and> pid \<notin> set (seated ss)"
    and "\<And>s. unat sid < length ss \<Longrightarrow> s = ss ! unat sid \<Longrightarrow> slot_status (f s) \<noteq> SLOT_OCCUPIED \<Longrightarrow> slot_pid (f s) = 0"
  shows "slots_inv (snd (slot_update ss sid f))"
proof (cases "unat sid < length ss")
  case True
  with assms show ?thesis by (intro slots_inv_update [where pid = pid]) auto
next
  case False
  with assms(1) show ?thesis by (simp add: slot_update_outside)
qed

lemma slots_inv_open: "slots_inv ss \<Longrightarrow> slots_inv (snd (slot_open ss sid))"
  unfolding slot_open_def by (rule slots_inv_slot_update) (auto simp: seated_Cons is_seat_def)

lemma slots_inv_close: "slots_inv ss \<Longrightarrow> slots_inv (snd (slot_close ss sid))"
  unfolding slot_close_def by (rule slots_inv_slot_update) (auto simp: seated_Cons is_seat_def)

lemma slots_inv_set_colour: "slots_inv ss \<Longrightarrow> slots_inv (snd (set_colour ss sid c))"
  unfolding set_colour_def
  by (rule slots_inv_slot_update) (auto simp: seated_Cons is_seat_def slots_inv_slotD)

lemma slots_inv_occupy_slot:
  "slots_inv ss \<Longrightarrow> pid \<notin> set (seated ss) \<Longrightarrow> slots_inv (snd (occupy_slot ss sid pid))"
  unfolding occupy_slot_def
  by (rule slots_inv_slot_update [where pid = pid]) (auto simp: seated_Cons is_seat_def)

lemma slots_inv_occupy:
  "slots_inv ss \<Longrightarrow> pid \<notin> set (seated ss) \<Longrightarrow> slots_inv (snd (occupy ss sid pid team colour))"
  unfolding occupy_def
  by (rule slots_inv_slot_update [where pid = pid]) (auto simp: seated_Cons is_seat_def)

lemma slots_inv_add_computer:
  "slots_inv ss \<Longrightarrow> slots_inv (snd (add_computer ss sid team colour race ct handicap))"
  unfolding add_computer_def
  by (cases "unat sid < length ss \<and> slot_status (ss ! unat sid) \<noteq> SLOT_OCCUPIED")
     (auto intro!: slots_inv_slot_update simp: seated_Cons is_seat_def slots_inv_slotD)

lemma slots_inv_release: "slots_inv ss \<Longrightarrow> slots_inv (snd (slot_release ss pid))"
  by (auto simp: slot_release_def slots_inv_open split: option.splits)

lemma slots_inv_map:
  assumes "slots_inv ss"
    and "\<And>s. is_seat (f s) = is_seat s \<and> (is_seat s \<longrightarrow> slot_pid (f s) = slot_pid s)"
    and "\<And>s. s \<in> set ss \<Longrightarrow> slot_status (f s) \<noteq> SLOT_OCCUPIED \<Longrightarrow> slot_pid (f s) = 0"
  shows "slots_inv (map f ss)"
  using assms seated_map_same [of ss f] by (simp add: slots_inv_def)

lemma slots_inv_open_all: "slots_inv ss \<Longrightarrow> slots_inv (open_all ss)"
  unfolding open_all_def by (rule slots_inv_map) (auto simp: is_seat_def slots_inv_def)

lemma slots_inv_close_all: "slots_inv ss \<Longrightarrow> slots_inv (close_all ss)"
  unfolding close_all_def by (rule slots_inv_map) (auto simp: is_seat_def slots_inv_def)

text \<open>Swapping exchanges the seats of two slots.\<close>

lemma list_two_split:
  assumes "a < b" and "b < length xs"
  shows "\<exists>p m s. xs = p @ xs ! a # m @ xs ! b # s \<and> length p = a \<and> length m = b - Suc a"
proof (intro exI conjI)
  let ?m = "take (b - Suc a) (drop (Suc a) xs)"
  have "xs = take a xs @ xs ! a # drop (Suc a) xs"
    using assms by (intro id_take_nth_drop) simp
  also have "drop (Suc a) xs = ?m @ drop (Suc a) xs ! (b - Suc a) # drop (Suc (b - Suc a)) (drop (Suc a) xs)"
    using assms by (intro id_take_nth_drop) simp
  also have "drop (Suc a) xs ! (b - Suc a) = xs ! b" using assms by simp
  finally show "xs = take a xs @ xs ! a # ?m @ xs ! b # drop (Suc b) xs"
    using assms by simp
qed (use assms in auto)

lemma list_update_two:
  "length p = a \<Longrightarrow> length m = b - Suc a \<Longrightarrow> a < b \<Longrightarrow>
   (p @ x # m @ y # s)[a := x', b := y'] = p @ x' # m @ y' # s"
  by (cases "b - a") (auto simp: list_update_append)

lemma slots_inv_exchange:
  assumes "slots_inv ss" "a \<noteq> b" "a < length ss" "b < length ss"
    and x: "slot_status x = slot_status (ss ! b)" "slot_pid x = slot_pid (ss ! b)"
    and y: "slot_status y = slot_status (ss ! a)" "slot_pid y = slot_pid (ss ! a)"
  shows "slots_inv (ss[a := x, b := y]) \<and> mset (seated (ss[a := x, b := y])) = mset (seated ss)"
proof -
  have *: "slots_inv (ss[a := x, b := y]) \<and> mset (seated (ss[a := x, b := y])) = mset (seated ss)"
    if ab: "a < b" "b < length ss" and xy: "slot_status x = slot_status (ss ! b)" "slot_pid x = slot_pid (ss ! b)"
      "slot_status y = slot_status (ss ! a)" "slot_pid y = slot_pid (ss ! a)" for a b x y
  proof -
    obtain p m s where ss: "ss = p @ ss ! a # m @ ss ! b # s" "length p = a" "length m = b - Suc a"
      using list_two_split [OF ab] by blast
    define sa sb where "sa = ss ! a" and "sb = ss ! b"
    have new: "ss[a := x, b := y] = p @ x # m @ y # s"
      using list_update_two [OF ss(2,3) ab(1)] ss(1) by metis
    have "is_seat x = is_seat sb" "is_seat y = is_seat sa"
      using xy by (simp_all add: is_seat_def sa_def sb_def)
    then have m: "mset (seated (ss[a := x, b := y])) = mset (seated ss)"
      using xy by (subst (2) ss(1)) (auto simp: new seated_Cons sa_def sb_def)
    then have "distinct (seated (ss[a := x, b := y]))"
      using assms(1) by (metis mset_eq_imp_distinct_iff slots_inv_def)
    moreover have "\<forall>s \<in> set (ss[a := x, b := y]). slot_status s \<noteq> SLOT_OCCUPIED \<longrightarrow> slot_pid s = 0"
      using assms(1) xy ab unfolding slots_inv_def
      by (auto dest!: subsetD [OF set_update_subset_insert])
    ultimately show ?thesis using m assms(1) by (simp add: slots_inv_def)
  qed
  show ?thesis
  proof (cases "a < b")
    case True
    with * [of a b x y] assms show ?thesis by simp
  next
    case False
    with * [of b a y x] assms show ?thesis by (simp add: list_update_swap)
  qed
qed

lemma swap_slots_inv:
  assumes "slots_inv ss"
  shows "slots_inv (snd (swap_slots ss a b fs cf))
     \<and> mset (seated (snd (swap_slots ss a b fs cf))) = mset (seated ss)"
proof (cases "unat a \<ge> length ss \<or> unat b \<ge> length ss \<or> unat a = unat b")
  case True
  with assms show ?thesis by (auto simp: swap_slots_def Let_def)
next
  case False
  with assms show ?thesis
    by (cases fs; cases cf) (simp_all add: swap_slots_def Let_def slots_inv_exchange)
qed


lemma slots_inv_new: "n \<le> 255 \<Longrightarrow> slots_inv (slots_new n)"
  by (simp add: slots_inv_def slots_new_def seated_def is_seat_def filter_map comp_def)


section \<open>Seating and releasing\<close>

lemma nth_slot_update:
  "unat sid < length ss \<Longrightarrow> i < length ss \<Longrightarrow>
   snd (slot_update ss sid f) ! i = (if i = unat sid then f (ss ! i) else ss ! i)"
  by (simp add: slot_update_def)

lemma seated_open_at:
  assumes "slots_inv ss" "unat sid < length ss" "slot_status (ss ! unat sid) = SLOT_OCCUPIED"
    "slot_pid (ss ! unat sid) = pid" "pid \<noteq> 0"
  shows "mset (seated ss) = add_mset pid (mset (seated (snd (slot_open ss sid))))"
  using mset_seated_update [OF assms(2), of "\<lambda>s. s\<lparr>slot_status := SLOT_OPEN, slot_pid := 0\<rparr>"] assms(3-5)
  by (simp add: slot_open_def seated_Cons is_seat_def)

lemma seated_release:
  assumes "slots_inv ss" and "pid \<noteq> 0" and "sid_of_pid ss pid = Some sid"
  shows "mset (seated ss) = add_mset pid (mset (seated (snd (slot_release ss pid))))"
  using assms sid_of_pid_SomeD [OF assms(3)]
  by (simp add: slot_release_def seated_open_at slots_inv_def)

text \<open>
  A seated player is found and released: after a player without a seat is put on a slot,
  looking the player up gives exactly that slot; releasing the player reports that slot,
  opens it, and afterwards the player has no seat, every other player keeps theirs, and
  the slot keeps its team, colour, race and handicap.
\<close>

lemma seat_lookup_release:
  assumes "slots_inv ss" and "pid \<noteq> 0" and "sid_of_pid ss pid = None" and "unat sid < length ss"
    and "slot_is_open ss sid"
  shows "let ss1 = snd (occupy_slot ss sid pid); (r, ss2) = slot_release ss1 pid
    in fst (occupy_slot ss sid pid) \<and> sid_of_pid ss1 pid = Some sid \<and> r = Some sid
      \<and> sid_of_pid ss2 pid = None \<and> slot_is_open ss2 sid \<and> mset (seated ss2) = mset (seated ss)
      \<and> (\<forall>i < length ss. i \<noteq> unat sid \<longrightarrow> ss2 ! i = ss ! i)
      \<and> slot_team (ss2 ! unat sid) = slot_team (ss ! unat sid)
      \<and> slot_colour (ss2 ! unat sid) = slot_colour (ss ! unat sid)
      \<and> slot_race (ss2 ! unat sid) = slot_race (ss ! unat sid)
      \<and> slot_handicap (ss2 ! unat sid) = slot_handicap (ss ! unat sid)"
proof -
  define ss1 where "ss1 = snd (occupy_slot ss sid pid)"
  have fresh: "pid \<notin> set (seated ss)" using assms(2,3) by (simp add: sid_of_pid_None_iff)
  have inv1: "slots_inv ss1" unfolding ss1_def by (rule slots_inv_occupy_slot [OF assms(1) fresh])
  have at: "slot_status (ss1 ! unat sid) = SLOT_OCCUPIED" "slot_pid (ss1 ! unat sid) = pid"
    "length ss1 = length ss"
    using assms(4) by (simp_all add: ss1_def occupy_slot_def nth_slot_update)
  then have look: "sid_of_pid ss1 pid = Some sid"
    using sid_of_pid_unique [OF inv1, of "unat sid" pid] assms(2,4) by simp
  then have rel: "slot_release ss1 pid = (Some sid, snd (slot_open ss1 sid))"
    by (simp add: slot_release_def)
  have m1: "mset (seated ss1) = add_mset pid (mset (seated (snd (slot_open ss1 sid))))"
    using seated_open_at [OF inv1] at assms(2,4) by simp
  have m0: "mset (seated ss1) = add_mset pid (mset (seated ss))"
    using mset_seated_update [OF assms(4), of "\<lambda>s. s\<lparr>slot_status := SLOT_OCCUPIED, slot_pid := pid,
       slot_computer := 0, slot_download_status := 100\<rparr>"] assms(2,5)
    by (simp add: ss1_def occupy_slot_def seated_Cons is_seat_def slot_is_open_def)
  with m1 have m: "mset (seated (snd (slot_open ss1 sid))) = mset (seated ss)" by simp
  then have gone: "sid_of_pid (snd (slot_open ss1 sid)) pid = None"
    using fresh assms(2) by (metis set_mset_mset sid_of_pid_None_iff)
  show ?thesis
    using look rel m gone assms(4) at(3) unfolding ss1_def [symmetric]
    by (simp add: slot_is_open_def slot_open_def nth_slot_update)
       (simp add: ss1_def occupy_slot_def nth_slot_update slot_update_fst)
qed

section \<open>Searching for an open slot\<close>

lemma find_upt_SomeD:
  "find P [i..<j] = Some k \<Longrightarrow> i \<le> k \<and> k < j \<and> P k \<and> (\<forall>m. i \<le> m \<and> m < k \<longrightarrow> \<not> P m)"
  by (auto simp: find_Some_iff) (metis add.commute add_diff_inverse_nat less_diff_conv2 linorder_not_le nth_upt
      less_diff_conv le_add_diff_inverse)

lemma find_upt_None: "find P [i..<j] = None \<longleftrightarrow> (\<forall>m. i \<le> m \<and> m < j \<longrightarrow> \<not> P m)"
  by (auto simp: find_None_iff)

text \<open>
  The circular search for a team's open slot: \<open>None\<close> is returned exactly when the start is
  out of range or the team has no open slot; otherwise the result is the first open slot
  of the team at or after the starting point (the given slot when it belongs to the team, the
  beginning of the table otherwise), wrapping around once.
\<close>

lemma first_open_in_team_from_correct:
  assumes "length ss \<le> 255"
  shows "case first_open_in_team_from ss start team of
     None \<Rightarrow> unat start \<ge> length ss
         \<or> (\<forall>s \<in> set ss. \<not> (slot_status s = SLOT_OPEN \<and> slot_team s = team))
   | Some sid \<Rightarrow>
       (let beg = (if slot_team (ss ! unat start) = team then unat start else 0);
            ok = (\<lambda>i. slot_status (ss ! i) = SLOT_OPEN \<and> slot_team (ss ! i) = team)
        in unat start < length ss \<and> unat sid < length ss \<and> ok (unat sid)
           \<and> (if beg \<le> unat sid then \<forall>i. beg \<le> i \<and> i < unat sid \<longrightarrow> \<not> ok i
              else (\<forall>i. beg \<le> i \<and> i < length ss \<longrightarrow> \<not> ok i) \<and> (\<forall>i < unat sid. \<not> ok i)))"
proof -
  define beg where "beg = (if slot_team (ss ! unat start) = team then unat start else 0)"
  define ok where "ok = (\<lambda>i. slot_status (ss ! i) = SLOT_OPEN \<and> slot_team (ss ! i) = team)"
  have small: "unat (of_nat i :: u8) = i" if "i < length ss" for i
    using that assms by (subst unat_of_nat) simp
  show ?thesis
  proof (cases "unat start < length ss")
    case False
    then show ?thesis by (simp add: first_open_in_team_from_def)
  next
    case True
    then have le: "beg \<le> length ss" by (simp add: beg_def)
    have eq: "first_open_in_team_from ss start team =
        (case find ok [beg..<length ss] of Some i \<Rightarrow> Some (of_nat i)
         | None \<Rightarrow> map_option of_nat (find ok [0..<beg]))"
      using True unfolding first_open_in_team_from_def beg_def [symmetric] ok_def [symmetric] Let_def
      by (cases ss) auto
    show ?thesis
    proof (cases "find ok [beg..<length ss]")
      case (Some k)
      note k = find_upt_SomeD [OF Some]
      then show ?thesis using Some eq True small [of k] by (simp flip: beg_def ok_def)
    next
      case None
      note none = None
      show ?thesis
      proof (cases "find ok [0..<beg]")
        case (Some k)
        note k = find_upt_SomeD [OF Some]
        then show ?thesis
          using Some none eq True le small [of k] none [unfolded find_upt_None]
          unfolding beg_def [symmetric] ok_def [symmetric] Let_def by simp
      next
        case none2: None
        then have "\<forall>i < length ss. \<not> ok i"
          using none by (metis find_upt_None linorder_not_le zero_le)
        with none none2 eq show ?thesis by (auto simp: in_set_conv_nth ok_def)
      qed
    qed
  qed
qed

lemma mem_first_colours: "(c :: u8) \<in> set (map of_nat [0..<MAX_SLOTS]) \<longleftrightarrow> c < 24"
  by (auto simp: word_less_nat_alt unat_of_nat intro!: image_eqI [of _ _ "unat c"])

lemma unused_colour_fresh:
  assumes "unused_colour ss < 24"
  shows "unused_colour ss \<notin> slot_colour ` set ss"
proof (cases "find (\<lambda>c. \<not> list_ex (\<lambda>s. slot_colour s = c) ss) (map of_nat [0..<MAX_SLOTS])")
  case None
  with assms show ?thesis by (simp add: unused_colour_def)
next
  case (Some c)
  from find_SomeD [OF this] Some show ?thesis by (auto simp: unused_colour_def list_ex_iff)
qed

lemma unused_colour_none:
  assumes "\<not> unused_colour ss < 24" and "c < 24"
  shows "c \<in> slot_colour ` set ss"
proof (cases "find (\<lambda>c. \<not> list_ex (\<lambda>s. slot_colour s = c) ss) (map of_nat [0..<MAX_SLOTS])")
  case None
  then have "\<forall>c \<in> set (map of_nat [0..<MAX_SLOTS]). \<exists>s \<in> set ss. slot_colour s = c"
    by (auto simp: find_None_iff list_ex_iff)
  with assms(2) mem_first_colours [of c] obtain s where "s \<in> set ss" "slot_colour s = c"
    by metis
  then show ?thesis by blast
next
  case (Some c)
  with find_SomeD [OF Some] assms(1) mem_first_colours [of c] show ?thesis
    by (simp add: unused_colour_def del: set_map)
qed

end
