(* ===== verification/Tick.thy ===== *)
theory Tick
  imports Prelude
begin

text \<open>
  The action-tick scheduler (\<^verbatim>\<open>spectre-engine/src/tick.rs\<close>). Instants and durations are
  natural numbers of nanoseconds; the clock is the argument \<open>now\<close>.
\<close>

section \<open>Operations\<close>

record tick_scheduler =
  ts_period :: nat
  ts_next :: nat

definition tick_new :: "nat \<Rightarrow> nat \<Rightarrow> tick_scheduler" where
  "tick_new now period = \<lparr>ts_period = period, ts_next = now + period\<rparr>"

definition tick_deadline :: "tick_scheduler \<Rightarrow> nat" where
  "tick_deadline t = ts_next t"

definition tick_set_period :: "tick_scheduler \<Rightarrow> nat \<Rightarrow> tick_scheduler" where
  "tick_set_period t period = t\<lparr>ts_period := period\<rparr>"

text \<open>
  The loop of \<^verbatim>\<open>advance\<close>, with the deadline and the count of skipped ticks. It does not end for
  a period of zero when the deadline is in the past: \<open>None\<close>.
\<close>

partial_function (option) advance_loop :: "nat \<Rightarrow> nat \<Rightarrow> nat \<Rightarrow> u32 \<Rightarrow> (nat \<times> u32) option" where
  "advance_loop period now next skipped =
     (if next \<le> now then advance_loop period now (next + period) (skipped + 1)
      else Some (next, skipped))"

definition tick_advance :: "tick_scheduler \<Rightarrow> nat \<Rightarrow> (u32 \<times> tick_scheduler) option" where
  "tick_advance t now =
     map_option (\<lambda>(next, skipped). (skipped, t\<lparr>ts_next := next\<rparr>))
       (advance_loop (ts_period t) now (ts_next t + ts_period t) 0)"

section \<open>The loop returns\<close>

lemma advance_loop_past:
  "now < next \<Longrightarrow> advance_loop period now next skipped = Some (next, skipped)"
  by (simp add: advance_loop.simps)

lemma advance_loop_due:
  "next \<le> now \<Longrightarrow> advance_loop period now next skipped =
     advance_loop period now (next + period) (skipped + 1)"
  by (subst advance_loop.simps) simp

text \<open>
  With a positive period the loop performs the least number \<open>k\<close> of further periods that takes
  the deadline past the clock.
\<close>

lemma advance_loop_result:
  assumes "0 < period"
  shows "\<exists>k. advance_loop period now next skipped = Some (next + k * period, skipped + of_nat k)
     \<and> now < next + k * period \<and> (\<forall>j < k. next + j * period \<le> now)"
proof (induction "Suc now - next" arbitrary: "next" skipped rule: less_induct)
  case less
  show ?case
  proof (cases "next \<le> now")
    case False
    then show ?thesis by (intro exI [of _ 0]) (simp add: advance_loop_past)
  next
    case True
    with assms have "Suc now - (next + period) < Suc now - next" by simp
    from less [OF this, of "skipped + 1"] obtain k where
      k: "advance_loop period now (next + period) (skipped + 1) =
            Some (next + period + k * period, skipped + 1 + of_nat k)"
        "now < next + period + k * period" "\<forall>j < k. next + period + j * period \<le> now"
      by blast
    have "next + j * period \<le> now" if "j < Suc k" for j
      using that k(3) True by (cases j) (auto simp: algebra_simps)
    with k True show ?thesis
      by (intro exI [of _ "Suc k"]) (auto simp: advance_loop_due algebra_simps)
  qed
qed

lemma advance_loop_SomeD:
  assumes "advance_loop p now next s = Some r"
  shows "p = 0 \<longrightarrow> now < next"
  by (rule advance_loop.raw_induct [where P = "\<lambda>p now n s r. p = 0 \<longrightarrow> now < n", OF _ assms])
     (fastforce split: if_splits)

lemma advance_loop_stuck: "next \<le> now \<Longrightarrow> advance_loop 0 now next skipped = None"
  using advance_loop_SomeD [of 0 now "next" skipped]
  by (cases "advance_loop 0 now next skipped") auto

text \<open>
  C31. The scheduler catches up without drifting: with a positive period \<^verbatim>\<open>advance\<close> returns, the
  new deadline lies after the clock and is the first one of the grid of whole periods
  from the old deadline to do so, and the number it returns is exactly the number of grid
  points after the first that had already passed. With a period of zero and a
  deadline that is not in the future it never returns.
\<close>

theorem tick_advance_no_drift:
  "(0 < ts_period t \<longrightarrow>
     (\<exists>k. tick_advance t now = Some (of_nat k, t\<lparr>ts_next := ts_next t + Suc k * ts_period t\<rparr>)
        \<and> now < ts_next t + Suc k * ts_period t
        \<and> (\<forall>j < k. ts_next t + Suc j * ts_period t \<le> now)))
   \<and> (ts_period t = 0 \<longrightarrow> ts_next t \<le> now \<longrightarrow> tick_advance t now = None)"
proof (intro conjI impI)
  assume "0 < ts_period t"
  from advance_loop_result [OF this, of now "ts_next t + ts_period t" 0] obtain k where
    "advance_loop (ts_period t) now (ts_next t + ts_period t) 0 =
       Some (ts_next t + ts_period t + k * ts_period t, of_nat k)"
    "now < ts_next t + ts_period t + k * ts_period t"
    "\<forall>j < k. ts_next t + ts_period t + j * ts_period t \<le> now"
    by auto
  then show "\<exists>k. tick_advance t now = Some (of_nat k, t\<lparr>ts_next := ts_next t + Suc k * ts_period t\<rparr>)
        \<and> now < ts_next t + Suc k * ts_period t
        \<and> (\<forall>j < k. ts_next t + Suc j * ts_period t \<le> now)"
    by (intro exI [of _ k]) (auto simp: tick_advance_def algebra_simps)
qed (simp add: tick_advance_def advance_loop_stuck)

theorem tick_advance_no_drift_witness:
  "\<exists>k. tick_advance (tick_new 0 50) 270 =
       Some (of_nat k, (tick_new 0 50)\<lparr>ts_next := 50 + Suc k * 50\<rparr>)
     \<and> 270 < 50 + Suc k * (50 :: nat) \<and> (\<forall>j < k. 50 + Suc j * 50 \<le> (270 :: nat))"
  using tick_advance_no_drift [of "tick_new 0 50" 270] by (simp add: tick_new_def)

end
