(* ===== verification/History.thy ===== *)
theory History
  imports Prelude
begin

text \<open>
  The two packet logs of a game: the history of all broadcast packets that a rejoining
  player is replayed (\<^verbatim>\<open>full_history.rs\<close>) and the buffer of the packets sent to one GProxy
  client (the \<^verbatim>\<open>GProxyBuffer\<close> of \<^verbatim>\<open>gproxy.rs\<close>). Both are bounded queues that number the
  packets they were given; the locale \<open>replay_log\<close> is that contract, and what a reader gets
  is proved in it once.
\<close>

section \<open>The history of a game\<close>

record full_history =
  fh_inner :: "bytes list"
  fh_cap :: nat
  fh_evicted :: u64

definition history_new_with_cap :: "nat \<Rightarrow> full_history" where
  "history_new_with_cap cap = \<lparr>fh_inner = [], fh_cap = cap, fh_evicted = 0\<rparr>"

definition history_new :: full_history where
  "history_new = history_new_with_cap 216000"

definition history_push :: "full_history \<Rightarrow> bytes \<Rightarrow> full_history" where
  "history_push h pkt =
     (if fh_cap h = 0 then h
      else let h = (if length (fh_inner h) \<ge> fh_cap h
                    then h\<lparr>fh_inner := drop 1 (fh_inner h), fh_evicted := fh_evicted h + 1\<rparr>
                    else h)
           in h\<lparr>fh_inner := fh_inner h @ [pkt]\<rparr>)"

definition first_seq :: "full_history \<Rightarrow> u64" where
  "first_seq h = fh_evicted h"

definition next_seq :: "full_history \<Rightarrow> u64" where
  "next_seq h = fh_evicted h + of_nat (length (fh_inner h))"

definition snapshot_from_seq :: "full_history \<Rightarrow> u64 \<Rightarrow> bytes list" where
  "snapshot_from_seq h seq = drop (unat (saturating_sub seq (fh_evicted h))) (fh_inner h)"

definition history_len :: "full_history \<Rightarrow> u32" where
  "history_len h = of_nat (length (fh_inner h))"

definition history_is_empty :: "full_history \<Rightarrow> bool" where
  "history_is_empty h \<longleftrightarrow> fh_inner h = []"

definition bytes_estimate :: "full_history \<Rightarrow> nat" where
  "bytes_estimate h = sum_list (map length (fh_inner h))"

section \<open>The buffer of a GProxy client\<close>

record gproxy_buffer =
  gb_capacity :: nat
  gb_first_packet_id :: u32
  gb_packets :: "bytes list"

definition gproxy_new :: "nat \<Rightarrow> gproxy_buffer" where
  "gproxy_new capacity = \<lparr>gb_capacity = capacity, gb_first_packet_id = 0, gb_packets = []\<rparr>"

definition gproxy_push :: "gproxy_buffer \<Rightarrow> bytes \<Rightarrow> gproxy_buffer" where
  "gproxy_push g packet =
     (let g = (if length (gb_packets g) = gb_capacity g
               then g\<lparr>gb_packets := drop 1 (gb_packets g),
                      gb_first_packet_id := gb_first_packet_id g + 1\<rparr>
               else g)
      in g\<lparr>gb_packets := gb_packets g @ [packet]\<rparr>)"

definition total_sent :: "gproxy_buffer \<Rightarrow> u32" where
  "total_sent g = gb_first_packet_id g + of_nat (length (gb_packets g))"

definition replay_from :: "gproxy_buffer \<Rightarrow> u32 \<Rightarrow> bytes list option" where
  "replay_from g last_received =
     (if last_received > total_sent g \<or> last_received < gb_first_packet_id g then None
      else Some (drop (unat (last_received - gb_first_packet_id g)) (gb_packets g)))"

section \<open>The contract of a bounded log\<close>

locale replay_log =
  fixes push :: "'s \<Rightarrow> bytes \<Rightarrow> 's"
    and contents :: "'s \<Rightarrow> bytes list"
    and first_id :: "'s \<Rightarrow> 'w::len word"
    and cap :: "'s \<Rightarrow> nat"
  assumes push_room: "length (contents s) < cap s \<Longrightarrow> contents (push s p) = contents s @ [p]"
    and push_full: "length (contents s) = cap s \<Longrightarrow> 0 < cap s \<Longrightarrow>
      contents (push s p) = tl (contents s) @ [p]"
    and first_room: "length (contents s) < cap s \<Longrightarrow> first_id (push s p) = first_id s"
    and first_full: "length (contents s) = cap s \<Longrightarrow> 0 < cap s \<Longrightarrow> first_id (push s p) = first_id s + 1"
    and push_cap: "cap (push s p) = cap s"
begin

text \<open>After any sequence of pushes the log holds the last packets, numbered from the start.\<close>

lemma after_pushes:
  assumes "contents s = []" "first_id s = 0" "0 < cap s"
  shows "contents (foldl push s pkts) = drop (length pkts - cap s) pkts
     \<and> first_id (foldl push s pkts) = of_nat (length pkts - cap s)
     \<and> cap (foldl push s pkts) = cap s"
proof (induction pkts rule: rev_induct)
  case Nil
  show ?case using assms by simp
next
  case (snoc p pkts)
  let ?s = "foldl push s pkts"
  show ?case
  proof (cases "length pkts < cap s")
    case True
    with snoc show ?thesis by (simp add: push_room first_room push_cap)
  next
    case False
    with snoc have full: "length (contents ?s) = cap ?s" "0 < cap ?s" using assms(3) by simp_all
    have "tl (drop (length pkts - cap s) pkts) = drop (Suc (length pkts) - cap s) pkts"
      using False by (simp add: drop_Suc [symmetric] tl_drop Suc_diff_le drop_tl)
    moreover have "Suc 0 - cap s = 0" using assms(3) by simp
    ultimately show ?thesis
      using snoc False push_full [OF full] first_full [OF full] by (simp add: push_cap Suc_diff_le)
  qed
qed

lemma length_after_pushes:
  assumes "contents s = []" "first_id s = 0" "0 < cap s"
  shows "length (contents (foldl push s pkts)) = min (length pkts) (cap s)"
  using after_pushes [OF assms, of pkts] by auto

lemma suffix_after_pushes:
  assumes "contents s = []" "first_id s = 0" "0 < cap s" and "length pkts - cap s \<le> n"
  shows "drop (n - (length pkts - cap s)) (contents (foldl push s pkts)) = drop n pkts"
  using after_pushes [OF assms(1-3), of pkts] assms(4) by simp

end

interpretation history: replay_log history_push fh_inner fh_evicted fh_cap
  by unfold_locales (auto simp: history_push_def Let_def drop_Suc)

interpretation gproxy: replay_log gproxy_push gb_packets gb_first_packet_id gb_capacity
  by unfold_locales (auto simp: gproxy_push_def Let_def drop_Suc)

section \<open>What readers get\<close>

lemma unat_of_nat_small: "n < 2 ^ LENGTH('a) \<Longrightarrow> unat (of_nat n :: 'a::len word) = n"
  by (simp add: unat_of_nat)

lemma history_log_facts:
  assumes "0 < cap" and "length pkts < 2 ^ 64"
  defines "h \<equiv> foldl history_push (history_new_with_cap cap) pkts"
  shows "unat (next_seq h) = length pkts" "unat (first_seq h) = length pkts - cap"
    "snapshot_from_seq h seq = drop (max (unat seq) (length pkts - cap)) pkts"
    "length (fh_inner h) \<le> cap"
proof -
  note start = history.after_pushes [of "history_new_with_cap cap" pkts]
  have h: "fh_inner h = drop (length pkts - cap) pkts" "fh_evicted h = of_nat (length pkts - cap)"
    using start assms(1) by (simp_all add: history_new_with_cap_def h_def)
  have e: "unat (fh_evicted h) = length pkts - cap"
    unfolding h(2) by (rule unat_of_nat_small) (use assms(2) in simp)
  then show "unat (first_seq h) = length pkts - cap" by (simp add: first_seq_def)
  have "fh_evicted h + of_nat (length (fh_inner h)) = (of_nat (length pkts) :: u64)"
    unfolding h by (simp flip: of_nat_add)
  then show "unat (next_seq h) = length pkts"
    unfolding next_seq_def using assms(2) by (simp add: unat_of_nat_small)
  show "snapshot_from_seq h seq = drop (max (unat seq) (length pkts - cap)) pkts"
    by (simp add: snapshot_from_seq_def unat_saturating_sub e h(1) max_def)
  show "length (fh_inner h) \<le> cap" by (simp add: h(1))
qed

text \<open>
  C29. The game history never loses a packet it still holds and never reorders: after any
  sequence of pushes, the next sequence number counts all of them, the first counts the
  evicted ones, and a snapshot from a sequence number is exactly the packets pushed from that
  number on (from the oldest one kept, when that number was evicted). The log never exceeds its capacity.
\<close>

theorem history_snapshot_is_suffix:
  assumes "0 < cap" and "length pkts < 2 ^ 64"
  shows "let h = foldl history_push (history_new_with_cap cap) pkts in
      unat (next_seq h) = length pkts \<and> unat (first_seq h) = length pkts - cap
      \<and> snapshot_from_seq h seq = drop (max (unat seq) (length pkts - cap)) pkts
      \<and> length (fh_inner h) \<le> cap"
  using history_log_facts [OF assms] by (simp add: Let_def)

theorem history_snapshot_is_suffix_witness:
  "let h = foldl history_push (history_new_with_cap 2) [[1], [2], [3]] in
      unat (next_seq h) = length [[1 :: u8], [2], [3]] \<and> unat (first_seq h) = length [[1 :: u8], [2], [3]] - 2
      \<and> snapshot_from_seq h 2 = drop (max (unat (2 :: u64)) (length [[1 :: u8], [2], [3]] - 2)) [[1], [2], [3]]
      \<and> length (fh_inner h) \<le> 2"
  by (rule history_snapshot_is_suffix) simp_all

lemma gproxy_log_facts:
  assumes "0 < capacity" and "length pkts < 2 ^ 32"
  shows "let g = foldl gproxy_push (gproxy_new capacity) pkts in
      unat (total_sent g) = length pkts
      \<and> replay_from g n =
          (if length pkts - capacity \<le> unat n \<and> unat n \<le> length pkts then Some (drop (unat n) pkts)
           else None)"
proof -
  let ?g = "foldl gproxy_push (gproxy_new capacity) pkts"
  note start = gproxy.after_pushes [of "gproxy_new capacity" pkts]
  have g: "gb_packets ?g = drop (length pkts - capacity) pkts"
      "gb_first_packet_id ?g = of_nat (length pkts - capacity)"
    using start assms(1) by (simp_all add: gproxy_new_def)
  have f: "unat (gb_first_packet_id ?g) = length pkts - capacity"
    unfolding g(2) by (rule unat_of_nat_small) (use assms(2) in simp)
  have "gb_first_packet_id ?g + of_nat (length (gb_packets ?g)) = (of_nat (length pkts) :: u32)"
    unfolding g by (simp flip: of_nat_add)
  then have t: "unat (total_sent ?g) = length pkts"
    unfolding total_sent_def using assms(2) by (simp add: unat_of_nat_small)
  have sub: "unat (n - gb_first_packet_id ?g) = unat n - unat (gb_first_packet_id ?g)"
    if "unat (gb_first_packet_id ?g) \<le> unat n"
    using that by (simp add: unat_sub word_le_nat_alt)
  show ?thesis
    using t f sub by (auto simp: replay_from_def word_less_nat_alt g(1) Let_def)
qed

text \<open>
  C28. A GProxy client that lost its connection is replayed exactly what it missed: with \<open>n\<close>
  packets acknowledged, the replay is all packets pushed after the first \<open>n\<close>, in order; it is refused
  exactly when more are acknowledged than were sent or when a missing packet has been
  evicted. This holds while fewer than \<open>2 ^ 32\<close> packets were sent.
\<close>

theorem gproxy_replay_exact:
  assumes "0 < capacity" and "length pkts < 2 ^ 32"
  shows "let g = foldl gproxy_push (gproxy_new capacity) pkts in
      unat (total_sent g) = length pkts
      \<and> replay_from g n =
          (if length pkts - capacity \<le> unat n \<and> unat n \<le> length pkts then Some (drop (unat n) pkts)
           else None)"
  using gproxy_log_facts [OF assms] .

theorem gproxy_replay_exact_witness:
  "let g = foldl gproxy_push (gproxy_new 2) [[1], [2], [3]] in
      unat (total_sent g) = length [[1 :: u8], [2], [3]]
      \<and> replay_from g 2 =
          (if length [[1 :: u8], [2], [3]] - 2 \<le> unat (2 :: u32) \<and> unat (2 :: u32) \<le> length [[1 :: u8], [2], [3]]
           then Some (drop (unat (2 :: u32)) [[1], [2], [3]]) else None)"
  by (rule gproxy_replay_exact) simp_all

end
