(* ===== verification/Stats_Dota.thy ===== *)
theory Stats_Dota
  imports Wire
begin

text \<open>
  The DotA statistics that a map embeds in the players' actions
  (\<^verbatim>\<open>spectre-engine/src/stats_dota.rs\<close>). The hash map of players is an association list: its
  order stands for the unspecified iteration order of the hash map.
\<close>

section \<open>Statistics\<close>

record dota_player_stats =
  dp_colour :: u32
  dp_new_colour :: u32
  dp_name :: bytes
  dp_hero :: bytes
  dp_kills :: u32
  dp_deaths :: u32
  dp_assists :: u32
  dp_creep_kills :: u32
  dp_creep_denies :: u32
  dp_neutral_kills :: u32
  dp_gold :: u32
  dp_items :: "bytes list"
  dp_courier_kills :: u32
  dp_tower_kills :: u32
  dp_rax_kills :: u32

definition dota_player_new :: "u32 \<Rightarrow> dota_player_stats" where
  "dota_player_new colour =
     \<lparr>dp_colour = colour, dp_new_colour = colour, dp_name = [], dp_hero = [], dp_kills = 0,
      dp_deaths = 0, dp_assists = 0, dp_creep_kills = 0, dp_creep_denies = 0,
      dp_neutral_kills = 0, dp_gold = 0, dp_items = replicate 6 [], dp_courier_kills = 0,
      dp_tower_kills = 0, dp_rax_kills = 0\<rparr>"

record stats_dota =
  sd_players :: "(u32 \<times> dota_player_stats) list"
  sd_winner :: u32
  sd_duration_min :: u32
  sd_duration_sec :: u32
  sd_tree_hp :: u32
  sd_throne_hp :: u32
  sd_game_name :: bytes

definition stats_dota_new :: "bytes \<Rightarrow> stats_dota" where
  "stats_dota_new game_name =
     \<lparr>sd_players = [], sd_winner = 0, sd_duration_min = 0, sd_duration_sec = 0,
      sd_tree_hp = 100, sd_throne_hp = 100, sd_game_name = game_name\<rparr>"

definition dota_add_player :: "stats_dota \<Rightarrow> u32 \<Rightarrow> bytes \<Rightarrow> stats_dota" where
  "dota_add_player d colour name =
     d\<lparr>sd_players := AList.update colour ((dota_player_new colour)\<lparr>dp_name := name\<rparr>) (sd_players d)\<rparr>"

section \<open>Records in action data\<close>

text \<open>
  \<^verbatim>\<open>str::parse::<u32>\<close>: an optional plus sign and decimal digits, without overflow.
\<close>

fun parse_digits :: "nat \<Rightarrow> bytes \<Rightarrow> nat option" where
  "parse_digits acc [] = Some acc"
| "parse_digits acc (b # bs) =
     (if 48 \<le> b \<and> b \<le> 57
      then let acc' = acc * 10 + unat (b - 48) in if acc' < 2 ^ 32 then parse_digits acc' bs else None
      else None)"

definition parse_u32 :: "bytes \<Rightarrow> u32 option" where
  "parse_u32 s =
     (case s of
        [] \<Rightarrow> None
      | b # bs \<Rightarrow>
          if b = 43 then (if bs = [] then None else map_option of_nat (parse_digits 0 bs))
          else map_option of_nat (parse_digits 0 s))"

definition is_dota_colour :: "u32 \<Rightarrow> bool" where
  "is_dota_colour v \<longleftrightarrow> 1 \<le> v \<and> v \<le> 5 \<or> 7 \<le> v \<and> v \<le> 11"

definition starts_with :: "bytes \<Rightarrow> bytes \<Rightarrow> bool" where
  "starts_with pre s \<longleftrightarrow> take (length pre) s = pre"

text \<open>The \<^verbatim>\<open>match key_str\<close> on a player's record.\<close>

definition dota_player_key ::
    "bytes \<Rightarrow> u32 \<Rightarrow> bytes \<Rightarrow> dota_player_stats \<Rightarrow> dota_player_stats" where
  "dota_player_key key value_int value_raw p =
     (if key = str ''1'' then p\<lparr>dp_kills := value_int\<rparr>
      else if key = str ''2'' then p\<lparr>dp_deaths := value_int\<rparr>
      else if key = str ''3'' then p\<lparr>dp_creep_kills := value_int\<rparr>
      else if key = str ''4'' then p\<lparr>dp_creep_denies := value_int\<rparr>
      else if key = str ''5'' then p\<lparr>dp_assists := value_int\<rparr>
      else if key = str ''6'' then p\<lparr>dp_gold := value_int\<rparr>
      else if key = str ''7'' then p\<lparr>dp_neutral_kills := value_int\<rparr>
      else if key = str ''8_0'' then p\<lparr>dp_items := (dp_items p)[0 := utf8_lossy (rev value_raw)]\<rparr>
      else if key = str ''8_1'' then p\<lparr>dp_items := (dp_items p)[1 := utf8_lossy (rev value_raw)]\<rparr>
      else if key = str ''8_2'' then p\<lparr>dp_items := (dp_items p)[2 := utf8_lossy (rev value_raw)]\<rparr>
      else if key = str ''8_3'' then p\<lparr>dp_items := (dp_items p)[3 := utf8_lossy (rev value_raw)]\<rparr>
      else if key = str ''8_4'' then p\<lparr>dp_items := (dp_items p)[4 := utf8_lossy (rev value_raw)]\<rparr>
      else if key = str ''8_5'' then p\<lparr>dp_items := (dp_items p)[5 := utf8_lossy (rev value_raw)]\<rparr>
      else if key = str ''9'' then p\<lparr>dp_hero := utf8_lossy (rev value_raw)\<rparr>
      else if key = str ''id''
        then p\<lparr>dp_new_colour := (if value_int \<ge> 6 then value_int + 1 else value_int)\<rparr>
      else p)"

text \<open>What one record does to the statistics.\<close>

definition dota_record :: "stats_dota \<Rightarrow> bytes \<Rightarrow> bytes \<Rightarrow> u32 \<Rightarrow> bytes \<Rightarrow> stats_dota" where
  "dota_record d data_str key_str value_int value_raw =
     (if data_str = str ''Data'' then
        (if starts_with (str ''Courier'') key_str then
           (if is_dota_colour value_int
            then d\<lparr>sd_players := entry_modify value_int (dota_player_new value_int)
                     (\<lambda>p. p\<lparr>dp_courier_kills := dp_courier_kills p + 1\<rparr>) (sd_players d)\<rparr> else d)
         else if starts_with (str ''Tower'') key_str then
           (if is_dota_colour value_int
            then d\<lparr>sd_players := entry_modify value_int (dota_player_new value_int)
                     (\<lambda>p. p\<lparr>dp_tower_kills := dp_tower_kills p + 1\<rparr>) (sd_players d)\<rparr> else d)
         else if starts_with (str ''Rax'') key_str then
           (if is_dota_colour value_int
            then d\<lparr>sd_players := entry_modify value_int (dota_player_new value_int)
                     (\<lambda>p. p\<lparr>dp_rax_kills := dp_rax_kills p + 1\<rparr>) (sd_players d)\<rparr> else d)
         else if starts_with (str ''Throne'') key_str then d\<lparr>sd_throne_hp := min value_int 100\<rparr>
         else if starts_with (str ''Tree'') key_str then d\<lparr>sd_tree_hp := min value_int 100\<rparr>
         else d)
      else if data_str = str ''Global'' then
        (if key_str = str ''Winner'' then d\<lparr>sd_winner := value_int\<rparr>
         else if key_str = str ''m'' then d\<lparr>sd_duration_min := value_int\<rparr>
         else if key_str = str ''s'' then d\<lparr>sd_duration_sec := value_int\<rparr>
         else d)
      else case parse_u32 data_str of
             Some pid \<Rightarrow>
               (if is_dota_colour pid
                then d\<lparr>sd_players := entry_modify pid (dota_player_new pid)
                         (dota_player_key key_str value_int value_raw) (sd_players d)\<rparr>
                else d)
           | None \<Rightarrow> d)"

definition dota_sig :: bytes where
  "dota_sig = [0x6B, 0x64, 0x72, 0x2E, 0x78, 0x00]"

text \<open>
  A record after the signature: two C strings and four value bytes, with what follows;
  \<open>None\<close> for the \<^verbatim>\<open>continue\<close>s of the source.
\<close>

definition dota_parse_record :: "bytes \<Rightarrow> (bytes \<times> bytes \<times> bytes \<times> bytes) option" where
  "dota_parse_record rest =
     (case position (\<lambda>b. b = 0) rest of
        None \<Rightarrow> None
      | Some data_null \<Rightarrow>
          (let krest = drop (data_null + 1) rest in
           case position (\<lambda>b. b = 0) krest of
             None \<Rightarrow> None
           | Some key_null \<Rightarrow>
               (let vrest = drop (key_null + 1) krest in
                if length vrest < 4 then None
                else Some (take data_null rest, take key_null krest, take 4 vrest, drop 4 vrest))))"

text \<open>The scanning loop, on the bytes from the current index on.\<close>

function dota_scan :: "stats_dota \<Rightarrow> bytes \<Rightarrow> stats_dota" where
  "dota_scan d data =
     (if length data < 6 then d
      else if take 6 data = dota_sig then
        (case dota_parse_record (drop 6 data) of
           None \<Rightarrow> dota_scan d (drop 1 data)
         | Some (data_bytes, key_bytes, value_raw, rest) \<Rightarrow>
             dota_scan (dota_record d (utf8_lossy data_bytes) (utf8_lossy key_bytes)
                          (from_le value_raw) value_raw) rest)
      else dota_scan d (drop 1 data))"
  by pat_completeness auto

lemma dota_parse_record_rest:
  "dota_parse_record rest = Some (a, b, c, r) \<Longrightarrow> length r < length rest"
  by (auto simp: dota_parse_record_def Let_def dest!: position_SomeD split: option.splits if_splits)

termination dota_scan
  by (relation "measure (\<lambda>(d, data). length data)")
     (auto dest!: dota_parse_record_rest)

declare dota_scan.simps [simp del]

definition dota_process_action :: "stats_dota \<Rightarrow> bytes \<Rightarrow> bool \<times> stats_dota" where
  "dota_process_action d action_data =
     (let d' = dota_scan d action_data in (sd_winner d' \<noteq> 0, d'))"

definition format_player_stats :: "stats_dota \<Rightarrow> bytes \<Rightarrow> bytes option" where
  "format_player_stats d name =
     map_option (\<lambda>p.
       str ''['' @ dp_name p @ str ''] Hero: '' @ (if dp_hero p = [] then str ''None'' else dp_hero p)
       @ str '', K/D/A: '' @ show_word (dp_kills p) @ str ''/'' @ show_word (dp_deaths p)
       @ str ''/'' @ show_word (dp_assists p) @ str '', CS: '' @ show_word (dp_creep_kills p)
       @ str ''/'' @ show_word (dp_creep_denies p) @ str '', Neutrals: '' @ show_word (dp_neutral_kills p)
       @ str '', Gold: '' @ show_word (dp_gold p))
       (find (\<lambda>p. eq_ignore_ascii_case (dp_name p) name) (map snd (sd_players d)))"

definition format_winner :: "stats_dota \<Rightarrow> bytes" where
  "format_winner d =
     (if sd_winner d = 1 then str ''Sentinel''
      else if sd_winner d = 2 then str ''Scourge'' else str ''Unfinished'')"

section \<open>Robustness\<close>

definition dota_ok :: "stats_dota \<Rightarrow> bool" where
  "dota_ok d \<longleftrightarrow> distinct (map fst (sd_players d))
     \<and> (\<forall>c p. map_of (sd_players d) c = Some p \<longrightarrow> is_dota_colour c \<and> length (dp_items p) = 6)
     \<and> sd_tree_hp d \<le> 100 \<and> sd_throne_hp d \<le> 100"

lemma dota_ok_entry_modify:
  assumes "dota_ok d" and "is_dota_colour c"
    and "\<And>p. length (dp_items (f p)) = length (dp_items p)"
  shows "dota_ok (d\<lparr>sd_players := entry_modify c (dota_player_new c) f (sd_players d)\<rparr>)"
  using assms
  by (auto simp: dota_ok_def entry_modify_def update_conv' distinct_update dota_player_new_def
      split: option.splits)

lemma dota_ok_fields:
  "dota_ok d \<Longrightarrow> dota_ok (d\<lparr>sd_throne_hp := min v 100\<rparr>)"
  "dota_ok d \<Longrightarrow> dota_ok (d\<lparr>sd_tree_hp := min v 100\<rparr>)"
  "dota_ok d \<Longrightarrow> dota_ok (d\<lparr>sd_winner := v\<rparr>)"
  "dota_ok d \<Longrightarrow> dota_ok (d\<lparr>sd_duration_min := v\<rparr>)"
  "dota_ok d \<Longrightarrow> dota_ok (d\<lparr>sd_duration_sec := v\<rparr>)"
  by (simp_all add: dota_ok_def)

lemma length_items_key [simp]: "length (dp_items (dota_player_key key v raw p)) = length (dp_items p)"
  by (simp add: dota_player_key_def)

lemma dota_ok_record: "dota_ok d \<Longrightarrow> dota_ok (dota_record d data_str key_str v raw)"
  unfolding dota_record_def
  by (simp add: dota_ok_fields dota_ok_entry_modify split: option.split)

lemma dota_ok_scan: "dota_ok d \<Longrightarrow> dota_ok (dota_scan d data)"
proof (induction d data rule: dota_scan.induct)
  case (1 d data)
  then show ?case
    by (subst dota_scan.simps) (auto simp: dota_ok_record split: option.split)
qed

text \<open>
  C39. Whatever bytes a client puts into its actions, the statistics stay in range: scanning ends,
  every row belongs to one of the ten player colours (once each) and has six items, and the
  hit points stay at most 100; the scan reports the end of the game exactly when a winner is recorded.
\<close>

theorem dota_stats_robust:
  assumes "dota_ok d"
  shows "dota_ok (snd (dota_process_action d action_data))
     \<and> (fst (dota_process_action d action_data)
          \<longleftrightarrow> format_winner (snd (dota_process_action d action_data)) \<noteq> str ''Unfinished''
            \<or> sd_winner (snd (dota_process_action d action_data)) > 2)"
proof -
  define w where "w = sd_winner (snd (dota_process_action d action_data))"
  have "w \<noteq> 0 \<longleftrightarrow> w = 1 \<or> w = 2 \<or> 2 < w"
    by (simp add: word_less_nat_alt word_unat_eq_iff) linarith
  moreover have "format_winner (snd (dota_process_action d action_data)) \<noteq> str ''Unfinished''
      \<longleftrightarrow> w = 1 \<or> w = 2"
    by (simp add: format_winner_def w_def str_def)
  moreover have "fst (dota_process_action d action_data) \<longleftrightarrow> w \<noteq> 0"
    by (simp add: dota_process_action_def w_def Let_def)
  moreover have "dota_ok (snd (dota_process_action d action_data))"
    using dota_ok_scan [OF assms] by (simp add: dota_process_action_def Let_def)
  ultimately show ?thesis unfolding w_def [symmetric] by blast
qed

lemma dota_ok_new: "dota_ok (stats_dota_new name)"
  by (simp add: dota_ok_def stats_dota_new_def)

theorem dota_stats_robust_witness:
  "dota_ok (snd (dota_process_action (stats_dota_new []) (dota_sig @ str ''Global'' @ [0] @ str ''Winner'' @ [0, 2, 0, 0, 0])))"
  using dota_stats_robust [OF dota_ok_new] by blast

end
