(* ===== verification/Replay_Body.thy ===== *)
theory Replay_Body
  imports Wire
begin

text \<open>
  The body of a replay (\<^verbatim>\<open>spectre-spectator/src/body.rs\<close>): what a game records while it runs,
  and the blocks that are published to live viewers. A slice \<^verbatim>\<open>blocks[published..]\<close> aborts when
  the index is out of range; \<open>replay_ok\<close> excludes that.
\<close>

section \<open>Operations\<close>

abbreviation "REPLAY_LEAVEGAME \<equiv> (0x17 :: u8)"
abbreviation "REPLAY_FIRSTSTARTBLOCK \<equiv> (0x1A :: u8)"
abbreviation "REPLAY_SECONDSTARTBLOCK \<equiv> (0x1B :: u8)"
abbreviation "REPLAY_THIRDSTARTBLOCK \<equiv> (0x1C :: u8)"
abbreviation "REPLAY_TIMESLOT2 \<equiv> (0x1E :: u8)"
abbreviation "REPLAY_TIMESLOT \<equiv> (0x1F :: u8)"
abbreviation "REPLAY_CHATMESSAGE \<equiv> (0x20 :: u8)"
abbreviation "LANGUAGE_ID \<equiv> (0x0012F8B0 :: u32)"
abbreviation "REPLAY_GAME_TYPE \<equiv> (0x00000001 :: u32)"

datatype replay_body_error = StartNeverSet | InvalidSlotsLength nat

record replay_body =
  rb_host_pid :: u8
  rb_host_name :: bytes
  rb_players :: "(u8 \<times> bytes) list"
  rb_slots :: bytes
  rb_random_seed :: u32
  rb_select_mode :: u8
  rb_start_spots :: u8
  rb_num_slots :: nat
  rb_start_set :: bool
  rb_game_name :: bytes
  rb_stat_string :: bytes
  rb_map_game_type :: u32
  rb_loading_blocks :: "bytes list"
  rb_blocks :: bytes
  rb_replay_length_ms :: u32
  rb_published :: nat

definition replay_new :: "u8 \<Rightarrow> bytes \<Rightarrow> replay_body" where
  "replay_new host_pid host_name =
     \<lparr>rb_host_pid = host_pid, rb_host_name = host_name, rb_players = [], rb_slots = [],
      rb_random_seed = 0, rb_select_mode = 0, rb_start_spots = 0, rb_num_slots = 0,
      rb_start_set = False, rb_game_name = [], rb_stat_string = [], rb_map_game_type = 0,
      rb_loading_blocks = [], rb_blocks = [], rb_replay_length_ms = 0, rb_published = 0\<rparr>"

definition replay_set_host :: "replay_body \<Rightarrow> u8 \<Rightarrow> bytes \<Rightarrow> replay_body" where
  "replay_set_host r host_pid host_name = r\<lparr>rb_host_pid := host_pid, rb_host_name := host_name\<rparr>"

definition replay_set_game :: "replay_body \<Rightarrow> bytes \<Rightarrow> bytes \<Rightarrow> u32 \<Rightarrow> replay_body" where
  "replay_set_game r game_name stat_string map_game_type =
     r\<lparr>rb_game_name := game_name, rb_stat_string := stat_string, rb_map_game_type := map_game_type\<rparr>"

definition replay_add_player :: "replay_body \<Rightarrow> u8 \<Rightarrow> bytes \<Rightarrow> replay_body" where
  "replay_add_player r pid name =
     (if pid \<noteq> rb_host_pid r then r\<lparr>rb_players := rb_players r @ [(pid, name)]\<rparr> else r)"

definition replay_set_start ::
    "replay_body \<Rightarrow> bytes \<Rightarrow> u32 \<Rightarrow> u8 \<Rightarrow> u8 \<Rightarrow> (replay_body_error + unit) \<times> replay_body" where
  "replay_set_start r slots random_seed select_mode start_spots =
     (if length slots mod 9 \<noteq> 0 then (Inl (InvalidSlotsLength (length slots)), r)
      else (Inr (), r\<lparr>rb_num_slots := length slots div 9, rb_slots := slots,
                      rb_random_seed := random_seed, rb_select_mode := select_mode,
                      rb_start_spots := start_spots, rb_start_set := True\<rparr>))"

definition replay_add_timeslot :: "replay_body \<Rightarrow> u16 \<Rightarrow> bytes \<Rightarrow> replay_body" where
  "replay_add_timeslot r time_increment actions =
     r\<lparr>rb_replay_length_ms := rb_replay_length_ms r + ucast time_increment,
       rb_blocks := rb_blocks r @ [REPLAY_TIMESLOT] @ put_u16_le (of_nat (2 + length actions))
         @ put_u16_le time_increment @ actions\<rparr>"

definition replay_add_timeslot2 :: "replay_body \<Rightarrow> bytes \<Rightarrow> replay_body" where
  "replay_add_timeslot2 r actions =
     r\<lparr>rb_blocks := rb_blocks r @ [REPLAY_TIMESLOT2] @ put_u16_le (of_nat (2 + length actions))
         @ put_u16_le 0 @ actions\<rparr>"

definition replay_add_chat :: "replay_body \<Rightarrow> u8 \<Rightarrow> u8 \<Rightarrow> u32 \<Rightarrow> bytes \<Rightarrow> replay_body" where
  "replay_add_chat r pid flag extra message =
     r\<lparr>rb_blocks := rb_blocks r @ [REPLAY_CHATMESSAGE, pid]
         @ put_u16_le (of_nat (1 + 4 + length message + 1)) @ [flag] @ put_u32_le extra
         @ put_cstring message\<rparr>"

definition leaver_block :: "u8 \<Rightarrow> u32 \<Rightarrow> u32 \<Rightarrow> bytes" where
  "leaver_block pid reason result =
     [REPLAY_LEAVEGAME] @ put_u32_le reason @ [pid] @ put_u32_le result @ put_u32_le 1"

definition replay_add_leaver :: "replay_body \<Rightarrow> u8 \<Rightarrow> u32 \<Rightarrow> u32 \<Rightarrow> replay_body" where
  "replay_add_leaver r pid reason result =
     r\<lparr>rb_blocks := rb_blocks r @ leaver_block pid reason result\<rparr>"

definition replay_add_server_chat :: "replay_body \<Rightarrow> u8 \<Rightarrow> bytes \<Rightarrow> replay_body" where
  "replay_add_server_chat r pid message = replay_add_chat r pid 0x20 0 message"

definition replay_add_leaver_loading :: "replay_body \<Rightarrow> u8 \<Rightarrow> u32 \<Rightarrow> u32 \<Rightarrow> replay_body" where
  "replay_add_leaver_loading r pid reason result =
     r\<lparr>rb_loading_blocks := rb_loading_blocks r @ [leaver_block pid reason result]\<rparr>"

definition replay_prologue :: "replay_body \<Rightarrow> replay_body_error + bytes" where
  "replay_prologue r =
     (if \<not> rb_start_set r then Inl StartNeverSet
      else Inr (put_u32_le 0x00000110 @ [0] @ [rb_host_pid r] @ put_cstring (rb_host_name r)
        @ [1] @ [0] @ put_cstring (rb_game_name r) @ [0] @ rb_stat_string r @ [0]
        @ put_u32_le (of_nat (rb_num_slots r))
        @ put_u32_le REPLAY_GAME_TYPE @ put_u32_le LANGUAGE_ID
        @ concat (map (\<lambda>(pid, name). [22, pid] @ put_cstring name @ [1, 0] @ put_u32_le 0) (rb_players r))
        @ [25] @ put_u16_le (of_nat (7 + rb_num_slots r * 9)) @ [of_nat (rb_num_slots r)]
        @ rb_slots r @ put_u32_le (rb_random_seed r) @ [rb_select_mode r] @ [rb_start_spots r]
        @ [REPLAY_FIRSTSTARTBLOCK] @ put_u32_le 1 @ [REPLAY_SECONDSTARTBLOCK] @ put_u32_le 1
        @ concat (rb_loading_blocks r)
        @ [REPLAY_THIRDSTARTBLOCK] @ put_u32_le 1))"

definition replay_finish :: "replay_body \<Rightarrow> replay_body_error + (bytes \<times> u32)" where
  "replay_finish r =
     and_then (replay_prologue r) (\<lambda>p. Inr (p @ rb_blocks r, rb_replay_length_ms r))"

definition drain_new_blocks :: "replay_body \<Rightarrow> bytes \<times> replay_body" where
  "drain_new_blocks r =
     (drop (rb_published r) (rb_blocks r), r\<lparr>rb_published := length (rb_blocks r)\<rparr>)"

section \<open>The stream of published blocks\<close>

definition replay_ok :: "replay_body \<Rightarrow> bool" where
  "replay_ok r \<longleftrightarrow> rb_published r \<le> length (rb_blocks r)"

text \<open>The operations a game performs on its replay once play has begun.\<close>

datatype replay_op =
    RTimeslot u16 bytes
  | RTimeslot2 bytes
  | RChat u8 u8 u32 bytes
  | RLeaver u8 u32 u32
  | RPublish

text \<open>A step records an operation; publishing also yields the bytes that go to the viewers.\<close>

fun replay_step :: "bytes \<times> replay_body \<Rightarrow> replay_op \<Rightarrow> bytes \<times> replay_body" where
  "replay_step (out, r) (RTimeslot t a) = (out, replay_add_timeslot r t a)"
| "replay_step (out, r) (RTimeslot2 a) = (out, replay_add_timeslot2 r a)"
| "replay_step (out, r) (RChat p f e m) = (out, replay_add_chat r p f e m)"
| "replay_step (out, r) (RLeaver p c d) = (out, replay_add_leaver r p c d)"
| "replay_step (out, r) RPublish = (let (fresh, r) = drain_new_blocks r in (out @ fresh, r))"

lemma replay_step_keeps:
  assumes "replay_step (out, r) opn = (out', r')" and "replay_ok r" and "out = take (rb_published r) (rb_blocks r)"
  shows "replay_ok r' \<and> out' = take (rb_published r') (rb_blocks r')
     \<and> (\<exists>new. rb_blocks r' = rb_blocks r @ new)"
  using assms
  by (cases opn) (auto simp: replay_ok_def replay_add_timeslot_def replay_add_timeslot2_def
      replay_add_chat_def replay_add_leaver_def drain_new_blocks_def)


end
