(* ===== verification/Hcl.thy ===== *)
theory Hcl
  imports Slots
begin

text \<open>
  The host-bot command library (\<^verbatim>\<open>spectre-engine/src/hcl.rs\<close>): a mode string is passed to the
  map in the handicaps of the occupied slots. The Unicode functions of \<^verbatim>\<open>str\<close> that the
  parser of game names uses are parameters.
\<close>

section \<open>Operations\<close>

text \<open>
  \<^verbatim>\<open>parse_from_gamename\<close>: the words of the name (\<^verbatim>\<open>split_whitespace\<close>) are searched for one that
  begins with a dash and continues with letters and digits only.
\<close>

fun hcl_find_mode :: "(bytes \<Rightarrow> bool) \<Rightarrow> (bytes \<Rightarrow> bytes) \<Rightarrow> bytes list \<Rightarrow> bytes option" where
  "hcl_find_mode alnum lower [] = None"
| "hcl_find_mode alnum lower (word # ws) =
     (case word of
        [] \<Rightarrow> hcl_find_mode alnum lower ws
      | b # mode \<Rightarrow>
          if b = 45 \<and> mode \<noteq> [] \<and> alnum mode then Some (lower mode)
          else hcl_find_mode alnum lower ws)"

definition hcl_parse_from_gamename ::
    "(bytes \<Rightarrow> bytes list) \<Rightarrow> (bytes \<Rightarrow> bool) \<Rightarrow> (bytes \<Rightarrow> bytes) \<Rightarrow> bytes \<Rightarrow> bytes option" where
  "hcl_parse_from_gamename split_whitespace alnum lower game_name =
     hcl_find_mode alnum lower (split_whitespace game_name)"

definition hcl_chars :: bytes where
  "hcl_chars = str ''abcdefghijklmnopqrstuvwxyz0123456789 -=,.''"

text \<open>The loop that fills the encoding map: seven values are skipped.\<close>

definition hcl_skip :: "u8 \<Rightarrow> bool" where
  "hcl_skip j \<longleftrightarrow> j = 0 \<or> j = 50 \<or> j = 60 \<or> j = 70 \<or> j = 80 \<or> j = 90 \<or> j = 100"

fun hcl_map_loop :: "nat \<Rightarrow> u8 \<Rightarrow> u8 list" where
  "hcl_map_loop 0 j = []"
| "hcl_map_loop (Suc n) j =
     (let j = (if hcl_skip j then j + 1 else j) in j # hcl_map_loop n (j + 1))"

definition encoding_map :: "u8 list" where
  "encoding_map = hcl_map_loop 256 0"

definition hcl_map_index :: "u8 \<Rightarrow> u8 \<Rightarrow> nat" where
  "hcl_map_index handicap ch =
     (let handicap_index = unat (saturating_sub handicap 50 div 10);
          char_index = (case position (\<lambda>b. b = ch) hcl_chars of Some i \<Rightarrow> i | None \<Rightarrow> 0)
      in min (handicap_index + char_index * 6) 255)"

text \<open>The loop over the characters, with the slots from the current one on.\<close>

fun hcl_fill :: "bytes \<Rightarrow> slot_info list \<Rightarrow> slot_info list" where
  "hcl_fill [] ss = ss"
| "hcl_fill (ch # cs) [] = []"
| "hcl_fill (ch # cs) (s # ss) =
     (if slot_status s \<noteq> SLOT_OCCUPIED then s # hcl_fill (ch # cs) ss
      else s\<lparr>slot_handicap := encoding_map ! hcl_map_index (slot_handicap s) ch\<rparr> # hcl_fill cs ss)"

definition encode_hcl_into_slots :: "bytes \<Rightarrow> slot_info list \<Rightarrow> bool \<times> slot_info list" where
  "encode_hcl_into_slots hcl ss =
     (let occupied_count = length (filter (\<lambda>s. slot_status s = SLOT_OCCUPIED) ss)
      in if hcl = [] \<or> length hcl > occupied_count then (False, ss)
         else if \<not> list_all (\<lambda>c. c \<in> set hcl_chars) hcl then (False, ss)
         else (True, hcl_fill hcl ss))"

section \<open>What the map reads back\<close>

text \<open>
  The decoder of the map: the position of the handicap in the encoding map gives the character
  and the handicap the player had chosen.
\<close>

definition hcl_decode_char :: "u8 \<Rightarrow> u8" where
  "hcl_decode_char h = hcl_chars ! ((case position (\<lambda>b. b = h) encoding_map of Some k \<Rightarrow> k | None \<Rightarrow> 0) div 6)"

definition hcl_decode_handicap :: "u8 \<Rightarrow> u8" where
  "hcl_decode_handicap h =
     50 + 10 * of_nat ((case position (\<lambda>b. b = h) encoding_map of Some k \<Rightarrow> k | None \<Rightarrow> 0) mod 6)"

definition standard_handicap :: "u8 \<Rightarrow> bool" where
  "standard_handicap h \<longleftrightarrow> h \<in> {50, 60, 70, 80, 90, 100}"

text \<open>Closed forms of the encoding map: below the wrap it is increasing, hence injective.\<close>

lemma encoding_map_prefix:
  "take 246 encoding_map = map of_nat
     ([1..<50] @ [51..<60] @ [61..<70] @ [71..<80] @ [81..<90] @ [91..<100] @ [101..<253])"
  by code_simp

lemma inj_of_nat_u8: "inj_on (of_nat :: nat \<Rightarrow> u8) {..<256}"
  by (rule inj_on_inverseI [where g = unat]) (simp add: unat_of_nat)

lemma encoding_map_distinct: "distinct (take 246 encoding_map)"
  unfolding encoding_map_prefix distinct_map
  by (intro conjI inj_on_subset [OF inj_of_nat_u8]) auto

lemma hcl_skip_succ: "hcl_skip j \<Longrightarrow> \<not> hcl_skip (j + 1)"
  by (auto simp: hcl_skip_def)

lemma hcl_map_loop_no_skip: "list_all (\<lambda>j. \<not> hcl_skip j) (hcl_map_loop n j)"
  by (induction n arbitrary: j) (auto simp: Let_def hcl_skip_succ)

lemma encoding_map_no_skip: "list_all (\<lambda>j. \<not> hcl_skip j) encoding_map"
  by (simp add: encoding_map_def hcl_map_loop_no_skip)

lemma length_encoding_map: "length encoding_map = 256"
proof -
  have "length (hcl_map_loop n j) = n" for n j
    by (induction n arbitrary: j) (auto simp: Let_def)
  then show ?thesis by (simp add: encoding_map_def)
qed

lemma position_distinct:
  "distinct (take n xs) \<Longrightarrow> k < n \<Longrightarrow> n \<le> length xs \<Longrightarrow> position (\<lambda>b. b = xs ! k) xs = Some k"
  by (rule position_SomeI) (auto simp: distinct_conv_nth)

lemma hcl_chars_distinct: "distinct hcl_chars" and length_hcl_chars: "length hcl_chars = 41"
  by (simp_all add: hcl_chars_def str_def)

lemma hcl_map_index_bounds:
  assumes "standard_handicap h" and "c < 41"
  shows "hcl_map_index h (hcl_chars ! c) = unat ((h - 50) div 10) + c * 6 \<and> unat ((h - 50) div 10) < 6
     \<and> 50 + 10 * of_nat (unat ((h - 50) div 10)) = h"
proof -
  have "position (\<lambda>b. b = hcl_chars ! c) hcl_chars = Some c"
    using hcl_chars_distinct length_hcl_chars assms(2)
    by (intro position_distinct [where n = 41]) simp_all
  moreover have "saturating_sub h 50 = h - 50" "unat ((h - 50) div 10) < 6"
    "50 + 10 * of_nat (unat ((h - 50) div 10)) = h"
    using assms(1) by (auto simp: standard_handicap_def saturating_sub_def)
  ultimately show ?thesis using assms(2) by (simp add: hcl_map_index_def Let_def)
qed

lemma hcl_decode_encode:
  assumes "standard_handicap h" and "ch \<in> set hcl_chars"
  shows "hcl_decode_char (encoding_map ! hcl_map_index h ch) = ch
     \<and> hcl_decode_handicap (encoding_map ! hcl_map_index h ch) = h
     \<and> \<not> standard_handicap (encoding_map ! hcl_map_index h ch)"
proof -
  obtain c where c: "c < 41" "ch = hcl_chars ! c"
    using assms(2) length_hcl_chars by (auto simp: in_set_conv_nth)
  let ?k = "hcl_map_index h ch" and ?x = "unat ((h - 50) div 10)"
  have k: "?k = ?x + c * 6" "?x < 6" "50 + 10 * of_nat ?x = h"
    using hcl_map_index_bounds [OF assms(1) c(1)] c(2) by auto
  then have lt: "?k < 246" using c(1) by simp
  then have "position (\<lambda>b. b = encoding_map ! ?k) encoding_map = Some ?k"
    using encoding_map_distinct length_encoding_map by (intro position_distinct) auto
  moreover have "?k div 6 = c" "?k mod 6 = ?x" using k by simp_all
  moreover have "\<not> hcl_skip (encoding_map ! ?k)"
    using encoding_map_no_skip lt length_encoding_map by (auto simp: list_all_length)
  ultimately show ?thesis
    using k(3) c(2)
    by (auto simp: hcl_decode_char_def hcl_decode_handicap_def standard_handicap_def hcl_skip_def)
qed

definition occupied :: "slot_info list \<Rightarrow> slot_info list" where
  "occupied ss = filter (\<lambda>s. slot_status s = SLOT_OCCUPIED) ss"

lemma hcl_fill_occupied:
  assumes "\<forall>s \<in> set (occupied ss). standard_handicap (slot_handicap s)"
    and "set hcl \<subseteq> set hcl_chars" and "length hcl \<le> length (occupied ss)"
  shows "map (hcl_decode_char \<circ> slot_handicap) (take (length hcl) (occupied (hcl_fill hcl ss))) = hcl
     \<and> map (\<lambda>s. if standard_handicap (slot_handicap s) then slot_handicap s
               else hcl_decode_handicap (slot_handicap s)) (occupied (hcl_fill hcl ss))
         = map slot_handicap (occupied ss)
     \<and> map (slot_handicap_update (\<lambda>_. 0)) (hcl_fill hcl ss) = map (slot_handicap_update (\<lambda>_. 0)) ss"
  using assms
proof (induction hcl ss rule: hcl_fill.induct)
  case (3 ch cs s ss)
  then show ?case
    using hcl_decode_encode [of "slot_handicap s" ch] by (auto simp: occupied_def)
qed (auto simp: occupied_def)

text \<open>
  C37. A mode string survives its trip through the handicaps: when the encoder accepts it and
  the occupied slots have standard handicaps, the map reads back exactly the mode string from the
  first occupied slots, can recover every player's own handicap, tells encoded slots
  from plain ones, and nothing but handicaps has changed. When the encoder refuses, nothing changes.
\<close>

theorem hcl_roundtrip:
  assumes "\<forall>s \<in> set (occupied ss). standard_handicap (slot_handicap s)"
  shows "case encode_hcl_into_slots hcl ss of
     (True, ss') \<Rightarrow>
       map (hcl_decode_char \<circ> slot_handicap) (take (length hcl) (occupied ss')) = hcl
       \<and> map (\<lambda>s. if standard_handicap (slot_handicap s) then slot_handicap s
               else hcl_decode_handicap (slot_handicap s)) (occupied ss') = map slot_handicap (occupied ss)
       \<and> map (slot_handicap_update (\<lambda>_. 0)) ss' = map (slot_handicap_update (\<lambda>_. 0)) ss
   | (False, ss') \<Rightarrow> ss' = ss
       \<and> (hcl = [] \<or> length hcl > length (occupied ss) \<or> \<not> set hcl \<subseteq> set hcl_chars)"
  using hcl_fill_occupied [OF assms, of hcl]
  by (auto simp: encode_hcl_into_slots_def occupied_def Let_def list_all_iff subset_iff)

theorem hcl_roundtrip_witness:
  "map (hcl_decode_char \<circ> slot_handicap)
     (take 2 (occupied (snd (encode_hcl_into_slots (str ''ap'')
        (snd (occupy_slot (snd (occupy_slot (slots_new 4) 0 1)) 2 2)))))) = str ''ap''"
proof -
  let ?ss = "snd (occupy_slot (snd (occupy_slot (slots_new 4) 0 1)) 2 2)"
  have h: "\<forall>s \<in> set (occupied ?ss). standard_handicap (slot_handicap s)"
    by code_simp
  have "length (occupied ?ss) = 2" "set (str ''ap'') \<subseteq> set hcl_chars" by code_simp+
  then have e: "fst (encode_hcl_into_slots (str ''ap'') ?ss)"
    by (simp add: encode_hcl_into_slots_def occupied_def list_all_iff subset_iff str_def)
  have l: "length (str ''ap'') = 2" by (simp add: str_def)
  from hcl_roundtrip [OF h, of "str ''ap''"] e show ?thesis
    by (simp add: l split: prod.splits)
qed

end
