(* ===== verification/Players.thy ===== *)
theory Players
  imports Slots History Conn
begin

text \<open>
  Players and the player table of a game (\<^verbatim>\<open>spectre-engine/src/players.rs\<close>). The type
  parameter is the state of the channel behind a player's link. Instants are nanoseconds.
  The field \<^verbatim>\<open>score\<close> is set to zero and never read, and left out.
\<close>

section \<open>Players\<close>

abbreviation "PING_HISTORY \<equiv> (10 :: nat)"

datatype name_match = NoMatch | Ambiguous nat

datatype rejoin_stage = RejoinNone | AwaitingMapSize | AwaitingLoaded

record checksum_entry =
  ce_turn :: u32
  ce_checksum :: u32

record 'c player =
  pl_pid :: u8
  pl_name :: bytes
  pl_conn_id :: u64
  pl_link :: 'c
  pl_external_ip :: bytes
  pl_internal_ip :: bytes
  pl_joined_realm :: bytes
  pl_spoofed :: bool
  pl_whois_sent :: bool
  pl_sync_counter :: u32
  pl_lagging :: bool
  pl_started_lagging :: "nat option"
  pl_loaded :: bool
  pl_download_status :: u8
  pl_ping_history :: "u32 list"
  pl_reconnect_key :: u32
  pl_gproxy :: bool
  pl_gproxy_buffer :: "gproxy_buffer option"
  pl_disconnected_since :: "nat option"
  pl_muted :: bool
  pl_reserved :: bool
  pl_total_packets_sent :: u32
  pl_total_packets_received :: u32
  pl_checksums :: "checksum_entry list"
  pl_consecutive_send_failures :: u32
  pl_left_code :: u32
  pl_left :: "bytes option"
  pl_virtual_host :: bool
  pl_finished_loading_at :: "nat option"
  pl_download_allowed :: bool
  pl_stats_sent_time :: "nat option"
  pl_stats_dota_sent_time :: "nat option"
  pl_last_gproxy_wait_notice :: "nat option"
  pl_gproxy_disconnect_notice_sent :: bool
  pl_rejoin :: rejoin_stage
  pl_catchup_cursor :: "u64 option"
  pl_catching_up :: bool

definition player_new :: "u8 \<Rightarrow> bytes \<Rightarrow> u64 \<Rightarrow> 'c \<Rightarrow> 'c player" where
  "player_new pid name conn_id link =
     \<lparr>pl_pid = pid, pl_name = name, pl_conn_id = conn_id, pl_link = link,
      pl_external_ip = replicate 4 0, pl_internal_ip = replicate 4 0, pl_joined_realm = [],
      pl_spoofed = False, pl_whois_sent = False, pl_sync_counter = 0, pl_lagging = False,
      pl_started_lagging = None, pl_loaded = False, pl_download_status = 255,
      pl_ping_history = [], pl_reconnect_key = 0, pl_gproxy = False, pl_gproxy_buffer = None,
      pl_disconnected_since = None, pl_muted = False, pl_reserved = False,
      pl_total_packets_sent = 0, pl_total_packets_received = 0, pl_checksums = [],
      pl_consecutive_send_failures = 0, pl_left_code = PLAYERLEAVE_LOBBY, pl_left = None,
      pl_virtual_host = False, pl_finished_loading_at = None, pl_download_allowed = False,
      pl_stats_sent_time = None, pl_stats_dota_sent_time = None,
      pl_last_gproxy_wait_notice = None, pl_gproxy_disconnect_notice_sent = False,
      pl_rejoin = RejoinNone, pl_catchup_cursor = None, pl_catching_up = False\<rparr>"

definition record_ping :: "'c player \<Rightarrow> u32 \<Rightarrow> 'c player" where
  "record_ping p ping_ms =
     p\<lparr>pl_ping_history :=
         (if length (pl_ping_history p) = PING_HISTORY then drop 1 (pl_ping_history p)
          else pl_ping_history p) @ [ping_ms]\<rparr>"

definition average_ping :: "'c player \<Rightarrow> u32 option" where
  "average_ping p =
     (if pl_ping_history p = [] then None
      else Some (sum_list (pl_ping_history p) div of_nat (length (pl_ping_history p))))"

section \<open>The table\<close>

type_synonym 'c player_table = "'c player list"

definition players_insert :: "'c player_table \<Rightarrow> 'c player \<Rightarrow> 'c player_table" where
  "players_insert ps p = ps @ [p]"

definition remove_pid :: "'c player_table \<Rightarrow> u8 \<Rightarrow> 'c player option \<times> 'c player_table" where
  "remove_pid ps pid =
     (case position (\<lambda>p. pl_pid p = pid) ps of
        None \<Rightarrow> (None, ps)
      | Some i \<Rightarrow> (Some (ps ! i), take i ps @ drop (Suc i) ps))"

definition by_pid :: "'c player_table \<Rightarrow> u8 \<Rightarrow> 'c player option" where
  "by_pid ps pid = find (\<lambda>p. pl_pid p = pid) ps"

definition by_pid_mut ::
    "'c player_table \<Rightarrow> u8 \<Rightarrow> ('c player \<Rightarrow> 'c player) \<Rightarrow> 'c player_table" where
  "by_pid_mut ps pid f = upd_first (\<lambda>p. pl_pid p = pid) f ps"

definition by_conn :: "'c player_table \<Rightarrow> u64 \<Rightarrow> 'c player option" where
  "by_conn ps conn_id = find (\<lambda>p. pl_conn_id p = conn_id) ps"

definition by_conn_mut ::
    "'c player_table \<Rightarrow> u64 \<Rightarrow> ('c player \<Rightarrow> 'c player) \<Rightarrow> 'c player_table" where
  "by_conn_mut ps conn_id f = upd_first (\<lambda>p. pl_conn_id p = conn_id) f ps"

text \<open>The Unicode \<^verbatim>\<open>to_lowercase\<close> is the parameter \<open>lower\<close>.\<close>

definition by_name_partial ::
    "(bytes \<Rightarrow> bytes) \<Rightarrow> 'c player_table \<Rightarrow> bytes \<Rightarrow> name_match + 'c player" where
  "by_name_partial lower ps needle =
     (case find (\<lambda>p. pl_name p = needle) ps of
        Some p \<Rightarrow> Inr p
      | None \<Rightarrow>
          (let hits = filter (\<lambda>p. take (length (lower needle)) (lower (pl_name p)) = lower needle) ps
           in case hits of [] \<Rightarrow> Inl NoMatch | [p] \<Rightarrow> Inr p | _ \<Rightarrow> Inl (Ambiguous (length hits))))"

definition humans :: "'c player_table \<Rightarrow> 'c player list" where
  "humans ps = filter (\<lambda>p. \<not> pl_virtual_host p) ps"

definition human_count :: "'c player_table \<Rightarrow> nat" where
  "human_count ps = length (humans ps)"

definition next_free_pid :: "'c player_table \<Rightarrow> u8 option" where
  "next_free_pid ps = find (\<lambda>c. \<not> list_ex (\<lambda>p. pl_pid p = c) ps) (map of_nat [1..<255])"

definition next_free_colour :: "slot_table \<Rightarrow> u8" where
  "next_free_colour slots =
     (case find (\<lambda>c. c \<notin> set (map slot_colour slots)) (map of_nat [0..<12]) of
        Some c \<Rightarrow> c | None \<Rightarrow> 0)"

section \<open>The table's laws\<close>

abbreviation pids :: "'c player_table \<Rightarrow> u8 list" where
  "pids ps \<equiv> map pl_pid ps"

lemma remove_pid_snd: "distinct (pids ps) \<Longrightarrow> snd (remove_pid ps pid) = filter (\<lambda>p. pl_pid p \<noteq> pid) ps"
proof (induction ps)
  case (Cons p ps)
  then show ?case
    by (auto simp: remove_pid_def split: option.splits) (metis (mono_tags, lifting) filter_True image_eqI)
qed (simp add: remove_pid_def)

lemma remove_pid_fst: "fst (remove_pid ps pid) = by_pid ps pid"
proof (induction ps)
  case (Cons p ps)
  then show ?case by (auto simp: remove_pid_def by_pid_def split: option.splits)
qed (simp add: remove_pid_def by_pid_def)

lemma by_pid_SomeD: "by_pid ps pid = Some p \<Longrightarrow> p \<in> set ps \<and> pl_pid p = pid"
  unfolding by_pid_def by (drule find_SomeD) simp

lemma by_pid_None_iff: "by_pid ps pid = None \<longleftrightarrow> pid \<notin> set (pids ps)"
  by (auto simp: by_pid_def find_None_iff)

lemma by_conn_SomeD: "by_conn ps c = Some p \<Longrightarrow> p \<in> set ps \<and> pl_conn_id p = c"
  unfolding by_conn_def by (drule find_SomeD) simp

lemma by_pid_mut_map:
  "distinct (pids ps) \<Longrightarrow> by_pid_mut ps pid f = map (\<lambda>p. if pl_pid p = pid then f p else p) ps"
  by (simp add: by_pid_mut_def upd_first_key)

lemma pids_by_pid_mut [simp]: "(\<And>p. pl_pid (f p) = pl_pid p) \<Longrightarrow> pids (by_pid_mut ps pid f) = pids ps"
  by (simp add: by_pid_mut_def)

lemma pids_by_conn_mut [simp]: "(\<And>p. pl_pid (f p) = pl_pid p) \<Longrightarrow> pids (by_conn_mut ps c f) = pids ps"
  by (simp add: by_conn_mut_def)

lemma pids_players_insert [simp]: "pids (players_insert ps p) = pids ps @ [pl_pid p]"
  by (simp add: players_insert_def)

lemma next_free_pid_SomeD:
  assumes "next_free_pid ps = Some pid"
  shows "pid \<notin> set (pids ps) \<and> pid \<noteq> 0 \<and> pid \<noteq> 255"
proof -
  from find_SomeD [OF assms [unfolded next_free_pid_def]] obtain n where
    n: "1 \<le> n" "n < 255" "pid = of_nat n" and free: "\<not> list_ex (\<lambda>p. pl_pid p = pid) ps"
    by auto
  have "unat pid = n" unfolding n(3) using n(2) by (subst unat_of_nat) simp
  then have "pid \<noteq> 0" "pid \<noteq> 255" using n by auto
  with free show ?thesis by (auto simp: list_ex_iff)
qed

lemma mem_player_ids: "(c :: u8) \<in> set (map of_nat [1..<255]) \<longleftrightarrow> c \<noteq> 0 \<and> c \<noteq> 255"
proof
  assume "c \<in> set (map of_nat [1..<255])"
  then obtain n where "1 \<le> n" "n < 255" "c = of_nat n" by auto
  moreover from this have "unat c = n" by (simp add: unat_of_nat)
  ultimately show "c \<noteq> 0 \<and> c \<noteq> 255" by auto
next
  assume c: "c \<noteq> 0 \<and> c \<noteq> 255"
  have "unat c < 256" using unsigned_less [of c] by simp
  moreover have "unat c \<noteq> 0" "unat c \<noteq> 255"
    using c word_unat_eq_iff [of c 0] word_unat_eq_iff [of c 255] by simp_all
  ultimately have "unat c \<in> set [1..<255]" by auto
  then have "of_nat (unat c) \<in> set (map of_nat [1..<255] :: u8 list)"
    by (simp only: set_map image_eqI)
  then show "c \<in> set (map of_nat [1..<255])" by (simp del: set_map)
qed

text \<open>
  A free player id is found exactly when there is one: the result is unused and is neither
  0 (a computer's id) nor 255 (no host), and when there is none, all 254 ids are taken.
\<close>

lemma next_free_pid_correct:
  "case next_free_pid ps of
     Some pid \<Rightarrow> pid \<notin> set (pids ps) \<and> pid \<noteq> 0 \<and> pid \<noteq> 255
   | None \<Rightarrow> - {0, 255} \<subseteq> set (pids ps)"
proof (cases "next_free_pid ps")
  case None
  then have "\<forall>c \<in> set (map of_nat [1..<255]). c \<in> set (pids ps)"
    by (simp add: next_free_pid_def find_None_iff list_ex_iff image_iff del: set_upt) metis
  then have "c \<in> set (pids ps)" if "c \<noteq> 0 \<and> c \<noteq> 255" for c :: u8
    using that mem_player_ids by blast
  with None show ?thesis by auto
next
  case (Some pid)
  then show ?thesis using next_free_pid_SomeD by fastforce
qed

lemma record_ping_bounded:
  "length (pl_ping_history p) \<le> PING_HISTORY \<Longrightarrow> length (pl_ping_history (record_ping p x)) \<le> PING_HISTORY"
  by (auto simp: record_ping_def)

end
