(* ===== verification/Game_State.thy ===== *)
theory Game_State
  imports Players Tick Hcl Stats_Dota Replay_Body W3gs_Out "HOL-Library.Monad_Syntax"
begin

text \<open>
  The state of one game (\<^verbatim>\<open>spectre-engine/src/state.rs\<close>, with \<^verbatim>\<open>send_chat_to\<close> of \<^verbatim>\<open>chat.rs\<close>) and
  the operations on it that every handler uses: broadcasting, feeding a rejoining player,
  sending to one player, chat, slot information and the virtual host.
  A handler takes the environment \<open>env\<close> (the channel's sending operation, the CRC, and the
  other foreign functions), the clock \<open>now\<close> and the state. A panic of the program is the
  result \<open>None\<close>. The handles of the spectator relay and of the store are the lists of
  commands given to them. Left out: \<^verbatim>\<open>w3mmd\<close> (floating-point statistics no other part
  reads), the path of the replay file and the scores of \<^verbatim>\<open>GameConfig\<close> that are never read.
\<close>

section \<open>Configuration\<close>

record map_info =
  mi_path :: bytes
  mi_size :: u32
  mi_info :: u32
  mi_crc :: u32
  mi_sha1 :: bytes
  mi_num_players :: u8
  mi_num_teams :: u8
  mi_width :: u16
  mi_height :: u16
  mi_game_type :: u32
  mi_flags :: u32
  mi_data :: "bytes option"
  mi_layout_style :: u8
  mi_options :: u32
  mi_map_type :: bytes
  mi_matchmaking_category :: bytes
  mi_default_hcl :: bytes
  mi_default_player_score :: u32
  mi_loading_in_game :: bool
  mi_local_path :: bytes
  mi_max_slots :: u32

definition has_fixed_player_settings :: "map_info \<Rightarrow> bool" where
  "has_fixed_player_settings m \<longleftrightarrow> mi_options m AND 0x20 \<noteq> 0"

definition has_custom_forces :: "map_info \<Rightarrow> bool" where
  "has_custom_forces m \<longleftrightarrow> mi_options m AND 0x40 \<noteq> 0"

definition map_observers :: "map_info \<Rightarrow> u8" where
  "map_observers m =
     (if mi_flags m AND 0x40000000 \<noteq> 0 then 4
      else if mi_flags m AND 0x00003000 = 0x00003000 then 3
      else if mi_flags m AND 0x00002000 \<noteq> 0 then 2
      else 1)"

definition has_random_races :: "map_info \<Rightarrow> bool" where
  "has_random_races m \<longleftrightarrow> mi_flags m AND 0x04000000 \<noteq> 0"

definition map_check_valid :: "map_info \<Rightarrow> bytes + unit" where
  "map_check_valid m =
     (if mi_path m = [] \<or> length (mi_path m) > 53
      then Inl (str ''invalid map_path ['' @ mi_path m @ str '']: must not be empty and <= 53 characters'')
      else if mi_width m = 0 \<or> mi_height m = 0
      then Inl (str ''invalid map dimensions: width and height must be > 0'')
      else case mi_data m of
             Some d \<Rightarrow>
               (if mi_size m \<noteq> of_nat (length d)
                then Inl (str ''invalid map_size ['' @ show_word (mi_size m)
                          @ str '']: size mismatch with actual map data ['' @ show_nat (length d) @ str '']'')
                else Inr ())
           | None \<Rightarrow> Inr ())"

record game_config =
  cfg_name :: bytes
  cfg_owner :: bytes
  cfg_host_counter :: u32
  cfg_num_slots :: nat
  cfg_latency :: nat
  cfg_sync_limit :: u32
  cfg_map :: map_info
  cfg_virtual_host_name :: bytes
  cfg_reconnect_wait :: nat
  cfg_custom_slots :: "slot_info list option"
  cfg_has_relay :: bool
  cfg_max_downloaders :: u32
  cfg_max_download_speed :: u32
  cfg_allow_downloads :: u8
  cfg_autokick_ping :: u32
  cfg_lc_pings :: bool
  cfg_spoof_checks :: u8
  cfg_require_spoof_checks :: bool
  cfg_host_port :: u16
  cfg_gproxy_reconnect_port :: u16
  cfg_has_store :: bool
  cfg_stat_string :: bytes
  cfg_lobby_time_limit :: u32
  cfg_creator_name :: bytes
  cfg_creator_server :: bytes
  cfg_matchmaking :: bool
  cfg_hcl_from_game_name :: bool
  cfg_votekick_allowed :: bool
  cfg_votekick_percentage :: u32
  cfg_has_events :: bool

text \<open>Durations, in nanoseconds.\<close>

abbreviation millis :: "nat \<Rightarrow> nat" where
  "millis n \<equiv> n * 1000000"

abbreviation secs :: "nat \<Rightarrow> nat" where
  "secs n \<equiv> n * 1000000000"

abbreviation "COUNTDOWN_STEP \<equiv> millis 500"
abbreviation "COUNTDOWN_STEPS \<equiv> (10 :: u8)"
abbreviation "COUNTDOWN_TOTAL \<equiv> millis 5000"

text \<open>\<^verbatim>\<open>Instant::elapsed\<close>, \<^verbatim>\<open>as_millis\<close> and \<^verbatim>\<open>as_secs\<close>; \<^verbatim>\<open>elapsed\<close> saturates at zero.\<close>

abbreviation elapsed :: "nat \<Rightarrow> nat \<Rightarrow> nat" where
  "elapsed now t \<equiv> now - t"

abbreviation as_millis :: "nat \<Rightarrow> nat" where
  "as_millis d \<equiv> d div 1000000"

abbreviation as_secs :: "nat \<Rightarrow> nat" where
  "as_secs d \<equiv> d div 1000000000"

section \<open>State\<close>

datatype game_phase = Lobby | Countdown nat nat u8 | Loading | Playing | Over

definition is_countdown :: "game_phase \<Rightarrow> bool" where
  "is_countdown ph \<longleftrightarrow> (case ph of Countdown _ _ _ \<Rightarrow> True | _ \<Rightarrow> False)"

text \<open>\<^verbatim>\<open>RelayCmd\<close> and \<^verbatim>\<open>StoreCmd\<close>: the commands a game gives to the relay and to the store.\<close>

datatype relay_cmd =
    GameBlock bytes
  | GameStart game_start_snapshot
  | RelayPlayerInfo u8 bytes u8 u8 u8
  | ViewerChat bytes bytes
  | GameOver

record dota_player_record =
  dr_colour :: u32
  dr_name :: bytes
  dr_hero :: bytes
  dr_kills :: u32
  dr_deaths :: u32
  dr_assists :: u32
  dr_creep_kills :: u32
  dr_creep_denies :: u32
  dr_neutral_kills :: u32
  dr_tower_kills :: u32
  dr_rax_kills :: u32
  dr_courier_kills :: u32

datatype store_cmd =
    AddBan bytes bytes bytes bytes
  | RemoveBan bytes
  | AddAdmin bytes bytes
  | RemoveAdmin bytes
  | IsBanned bytes bytes
  | LogGame bytes bytes int int "bytes list"
  | LogDotAGame bytes u32 u32 u32 u32 "dota_player_record list"
  | RecordDownload bytes u64 bytes bytes u8 u64 u64

text \<open>\<^verbatim>\<open>GameEvent::LobbyStatus\<close>: the host counter, the open slots, all slots and the players.\<close>

datatype game_event = LobbyStatus u32 u32 u32 u32

record download =
  dl_pid :: u8
  dl_sent_upto :: u32
  dl_acked_upto :: u32
  dl_started :: nat

record 'c game =
  gs_cfg :: game_config
  gs_phase :: game_phase
  gs_slots :: slot_table
  gs_players :: "'c player_table"
  gs_tick :: tick_scheduler
  gs_pending :: "(u64 \<times> 'c \<times> bytes) list"
  gs_actions :: "action_block list"
  gs_sync_counter :: u32
  gs_game_ticks :: u32
  gs_random_seed :: u32
  gs_last_tick_at :: "nat option"
  gs_created_at :: nat
  gs_lagging :: bool
  gs_finished :: bool
  gs_downloads :: "download list"
  gs_download_counter :: nat
  gs_last_download_counter_reset :: nat
  gs_last_download_tick :: nat
  gs_relay :: "relay_cmd list option"
  gs_replay :: "replay_body option"
  gs_dotatv :: "unit option"
  gs_dotatv_prologue_sent :: bool
  gs_store :: "store_cmd list option"
  gs_jitter_histogram :: "u64 list"
  gs_last_jitter_report :: nat
  gs_dota :: "stats_dota option"
  gs_game_over_time :: "nat option"
  gs_hcl :: "bytes option"
  gs_muted_all :: bool
  gs_locked :: bool
  gs_draw_votes :: "u8 list"
  gs_start_votes :: "u8 list"
  gs_last_player_left :: "(bytes \<times> bytes) option"
  gs_last_player_left_time :: "nat option"
  gs_holds :: "(u8 \<times> bytes) list"
  gs_votekick_target :: "u8 option"
  gs_votekick_votes :: "u8 list"
  gs_autostart_players :: "nat option"
  gs_announce_message :: "bytes option"
  gs_announce_interval :: nat
  gs_last_announce_time :: "nat option"
  gs_virtual_host_pid :: u8
  gs_started_loading_at :: "nat option"
  gs_last_ping_at :: nat
  gs_last_lag_screen_reset :: nat
  gs_last_reserved_seen :: nat
  gs_start_players :: nat
  gs_mute_lobby :: bool
  gs_local_admin_messages :: bool
  gs_last_game_name :: bytes
  gs_refresh_rehosted :: bool
  gs_fake_player_pid :: "u8 option"
  gs_full_history :: full_history
  gs_pending_full :: "(u64 \<times> (u8 \<times> u32)) list"
  gs_events :: "game_event list option"

text \<open>
  The foreign functions: the channel's \<^verbatim>\<open>try_send\<close>, the CRC of \<^verbatim>\<open>crc32fast\<close>, the channel of the
  virtual host (capacity 1, receiver dropped) and that of the fake player (drained by a
  task), Unicode lower casing, splitting and classification, the formatting of a load time as
  a floating-point number of seconds, and the iteration order of the hash map that
  groups players by checksum.
\<close>

record 'c env =
  env_ts :: "'c try_send"
  env_crc32 :: "bytes \<Rightarrow> u32"
  env_closed_link :: 'c
  env_drained_link :: 'c
  env_lower :: "bytes \<Rightarrow> bytes"
  env_split_whitespace :: "bytes \<Rightarrow> bytes list"
  env_alphanumeric :: "bytes \<Rightarrow> bool"
  env_fmt_secs :: "nat \<Rightarrow> bytes"
  env_bin_order :: "(u32 \<times> u8 list) list \<Rightarrow> (u32 \<times> u8 list) list"

end
