(* ===== verification/Game_Ops.thy ===== *)
theory Game_Ops
  imports Game_State
begin

text \<open>
  The operations of \<^verbatim>\<open>state.rs\<close> that the handlers of a game share, and what they guarantee:
  who receives a broadcast, what a rejoining player is fed, and when sending chat aborts.
\<close>

section \<open>Creation\<close>

definition build_replay_stat_string :: "game_config \<Rightarrow> bytes" where
  "build_replay_stat_string cfg =
     (let m = cfg_map cfg in
      encode_statstring
        (put_u32_le (mi_flags m) @ [0] @ put_u16_le (mi_width m) @ put_u16_le (mi_height m)
         @ put_u32_le (mi_crc m) @ mi_path m @ [0] @ cfg_virtual_host_name cfg @ [0]))"

fun bytes_contains :: "bytes \<Rightarrow> bytes \<Rightarrow> bool" where
  "bytes_contains needle [] = (needle = [])"
| "bytes_contains needle (b # bs) =
     (starts_with needle (b # bs) \<or> bytes_contains needle bs)"

text \<open>\<^verbatim>\<open>GameState::new\<close>; the random seed of \<^verbatim>\<open>rand::random\<close> is the argument \<open>seed\<close>.\<close>

definition game_new :: "'c env \<Rightarrow> nat \<Rightarrow> u32 \<Rightarrow> game_config \<Rightarrow> 'c game" where
  "game_new env now seed cfg =
     \<lparr>gs_cfg = cfg,
      gs_phase = Lobby,
      gs_slots = (case cfg_custom_slots cfg of Some cs \<Rightarrow> cs | None \<Rightarrow> slots_new (cfg_num_slots cfg)),
      gs_players = [],
      gs_tick = tick_new now (cfg_latency cfg),
      gs_pending = [],
      gs_actions = [],
      gs_sync_counter = 0,
      gs_game_ticks = 0,
      gs_random_seed = seed,
      gs_last_tick_at = None,
      gs_created_at = now,
      gs_lagging = False,
      gs_finished = False,
      gs_downloads = [],
      gs_download_counter = 0,
      gs_last_download_counter_reset = now,
      gs_last_download_tick = now,
      gs_relay = (if cfg_has_relay cfg then Some [] else None),
      gs_replay = Some (replay_set_game (replay_new 255 (cfg_virtual_host_name cfg)) (cfg_name cfg)
                          (build_replay_stat_string cfg) (mi_game_type (cfg_map cfg))),
      gs_dotatv = None,
      gs_dotatv_prologue_sent = False,
      gs_store = (if cfg_has_store cfg then Some [] else None),
      gs_jitter_histogram = replicate 5 0,
      gs_last_jitter_report = now,
      gs_dota =
        (if mi_map_type (cfg_map cfg) = str ''dota''
            \<or> mi_map_type (cfg_map cfg) = [] \<and> bytes_contains (str ''dota'') (env_lower env (cfg_name cfg))
         then Some (stats_dota_new (cfg_name cfg)) else None),
      gs_game_over_time = None,
      gs_hcl =
        (case (if cfg_hcl_from_game_name cfg
               then hcl_parse_from_gamename (env_split_whitespace env) (env_alphanumeric env)
                      (env_lower env) (cfg_name cfg)
               else None) of
           Some h \<Rightarrow> Some h
         | None \<Rightarrow> (if mi_default_hcl (cfg_map cfg) \<noteq> [] then Some (mi_default_hcl (cfg_map cfg)) else None)),
      gs_muted_all = False,
      gs_locked = False,
      gs_draw_votes = [],
      gs_start_votes = [],
      gs_last_player_left = None,
      gs_last_player_left_time = None,
      gs_holds = [],
      gs_votekick_target = None,
      gs_votekick_votes = [],
      gs_autostart_players = None,
      gs_announce_message = None,
      gs_announce_interval = 0,
      gs_last_announce_time = None,
      gs_virtual_host_pid = 255,
      gs_started_loading_at = None,
      gs_last_ping_at = now,
      gs_last_lag_screen_reset = now,
      gs_last_reserved_seen = now,
      gs_start_players = 0,
      gs_mute_lobby = False,
      gs_local_admin_messages = True,
      gs_last_game_name = cfg_name cfg,
      gs_refresh_rehosted = False,
      gs_fake_player_pid = None,
      gs_full_history = history_new,
      gs_pending_full = [],
      gs_events = (if cfg_has_events cfg then Some [] else None)\<rparr>"

definition add_conn :: "u64 \<Rightarrow> 'c \<Rightarrow> bytes \<Rightarrow> 'c game \<Rightarrow> 'c game" where
  "add_conn conn_id link external_ip g =
     g\<lparr>gs_pending := gs_pending g @ [(conn_id, link, external_ip)]\<rparr>"

definition host_pid :: "'c game \<Rightarrow> u8" where
  "host_pid g =
     (if gs_virtual_host_pid g \<noteq> 255 then gs_virtual_host_pid g
      else case find (\<lambda>p. pl_left p = None) (gs_players g) of Some p \<Rightarrow> pl_pid p | None \<Rightarrow> 255)"

section \<open>Sending\<close>

abbreviation "MAX_CONSECUTIVE_DROPS \<equiv> (100 :: u32)"

text \<open>
  The \<^verbatim>\<open>match p.link.try_send(..)\<close> that \<^verbatim>\<open>broadcast\<close> and \<^verbatim>\<open>send_to\<close> share.
\<close>

definition link_deliver :: "'c env \<Rightarrow> nat \<Rightarrow> bytes \<Rightarrow> 'c player \<Rightarrow> 'c player" where
  "link_deliver env now bs p =
     (case link_try_send (env_ts env) (pl_link p) bs of
        (Inr _, tx) \<Rightarrow> p\<lparr>pl_link := tx, pl_consecutive_send_failures := 0\<rparr>
      | (Inl Backpressure, tx) \<Rightarrow>
          (let n = saturating_add (pl_consecutive_send_failures p) 1 in
           p\<lparr>pl_link := tx, pl_consecutive_send_failures := n,
             pl_left := (if n \<ge> MAX_CONSECUTIVE_DROPS
                         then Some (str ''lagged out (write queue full)'') else pl_left p)\<rparr>)
      | (Inl Closed, tx) \<Rightarrow>
          (if pl_gproxy p
           then p\<lparr>pl_link := tx,
                  pl_disconnected_since := (if pl_disconnected_since p = None then Some now
                                            else pl_disconnected_since p)\<rparr>
           else p\<lparr>pl_link := tx, pl_left := Some (str ''connection closed'')\<rparr>))"

definition buffer_push :: "bytes \<Rightarrow> 'c player \<Rightarrow> 'c player" where
  "buffer_push bs p = p\<lparr>pl_gproxy_buffer := map_option (\<lambda>b. gproxy_push b bs) (pl_gproxy_buffer p)\<rparr>"

definition broadcast_player :: "'c env \<Rightarrow> nat \<Rightarrow> bytes \<Rightarrow> 'c player \<Rightarrow> 'c player" where
  "broadcast_player env now bs p =
     (if pl_left p \<noteq> None \<or> pl_virtual_host p then p
      else let p = buffer_push bs p in
        if pl_rejoin p \<noteq> RejoinNone then p
        else if pl_catchup_cursor p \<noteq> None then p
        else if pl_disconnected_since p \<noteq> None then p
        else link_deliver env now bs p)"

definition broadcast :: "'c env \<Rightarrow> nat \<Rightarrow> bytes \<Rightarrow> 'c game \<Rightarrow> 'c game" where
  "broadcast env now bs g =
     g\<lparr>gs_full_history := (if gs_phase g = Playing then history_push (gs_full_history g) bs
                           else gs_full_history g),
       gs_players := map (broadcast_player env now bs) (gs_players g)\<rparr>"

text \<open>The sending loop of \<^verbatim>\<open>pump_rejoin_catchup\<close>, with the cursor.\<close>

fun catchup_loop :: "'c env \<Rightarrow> nat \<Rightarrow> 'c player \<Rightarrow> u64 \<Rightarrow> bytes list \<Rightarrow> 'c player \<times> u64" where
  "catchup_loop env now p cur [] = (p, cur)"
| "catchup_loop env now p cur (pkt # pkts) =
     (case link_try_send (env_ts env) (pl_link p) pkt of
        (Inr _, tx) \<Rightarrow>
          catchup_loop env now (p\<lparr>pl_link := tx, pl_consecutive_send_failures := 0\<rparr>) (cur + 1) pkts
      | (Inl Backpressure, tx) \<Rightarrow> (p\<lparr>pl_link := tx\<rparr>, cur)
      | (Inl Closed, tx) \<Rightarrow>
          ((if pl_gproxy p \<and> pl_disconnected_since p = None
            then p\<lparr>pl_link := tx, pl_disconnected_since := Some now, pl_catchup_cursor := None\<rparr>
            else p\<lparr>pl_link := tx, pl_left := Some (str ''connection closed during catch-up''),
                   pl_catchup_cursor := None\<rparr>), cur))"

definition catchup_player :: "'c env \<Rightarrow> nat \<Rightarrow> full_history \<Rightarrow> 'c player \<Rightarrow> 'c player" where
  "catchup_player env now h p =
     (case pl_catchup_cursor p of
        None \<Rightarrow> p
      | Some cursor \<Rightarrow>
          if pl_left p \<noteq> None then p\<lparr>pl_catchup_cursor := None\<rparr>
          else if cursor < first_seq h
          then p\<lparr>pl_left := Some (str ''catch-up fell behind history eviction''),
                 pl_catchup_cursor := None\<rparr>
          else let (p, cur) = catchup_loop env now p cursor (snapshot_from_seq h cursor) in
            if pl_catchup_cursor p \<noteq> None
            then (if cur \<ge> next_seq h then p\<lparr>pl_catchup_cursor := None, pl_catching_up := True\<rparr>
                  else p\<lparr>pl_catchup_cursor := Some cur\<rparr>)
            else p)"

definition pump_rejoin_catchup :: "'c env \<Rightarrow> nat \<Rightarrow> 'c game \<Rightarrow> 'c game" where
  "pump_rejoin_catchup env now g =
     g\<lparr>gs_players := map (catchup_player env now (gs_full_history g)) (gs_players g)\<rparr>"

definition send_to_player :: "'c env \<Rightarrow> nat \<Rightarrow> bytes \<Rightarrow> 'c player \<Rightarrow> 'c player" where
  "send_to_player env now bs p =
     (if pl_left p \<noteq> None then p
      else let p = buffer_push bs p in
        if pl_disconnected_since p \<noteq> None then p else link_deliver env now bs p)"

definition send_to :: "'c env \<Rightarrow> nat \<Rightarrow> u8 \<Rightarrow> bytes \<Rightarrow> 'c game \<Rightarrow> 'c game" where
  "send_to env now pid bs g =
     g\<lparr>gs_players := by_pid_mut (gs_players g) pid (send_to_player env now bs)\<rparr>"

definition kick_player :: "u8 \<Rightarrow> bytes \<Rightarrow> u32 \<Rightarrow> 'c game \<Rightarrow> 'c game" where
  "kick_player pid reason left_code g =
     g\<lparr>gs_players := by_pid_mut (gs_players g) pid
         (\<lambda>p. p\<lparr>pl_left := Some reason, pl_left_code := left_code\<rparr>)\<rparr>"

section \<open>Chat\<close>

text \<open>\<^verbatim>\<open>if message.len() > n { &message[..n] } else { message }\<close>.\<close>

definition chat_cut :: "nat \<Rightarrow> bytes \<Rightarrow> bytes option" where
  "chat_cut n message = (if length message > n then str_prefix message n else Some message)"

definition in_lobby :: "game_phase \<Rightarrow> bool" where
  "in_lobby ph \<longleftrightarrow> ph = Lobby \<or> is_countdown ph"

definition relay_send :: "relay_cmd \<Rightarrow> 'c game \<Rightarrow> 'c game" where
  "relay_send c g = g\<lparr>gs_relay := map_option (\<lambda>cs. cs @ [c]) (gs_relay g)\<rparr>"

definition with_replay :: "(replay_body \<Rightarrow> replay_body) \<Rightarrow> 'c game \<Rightarrow> 'c game" where
  "with_replay f g = g\<lparr>gs_replay := map_option f (gs_replay g)\<rparr>"

definition broadcast_result :: "'c env \<Rightarrow> nat \<Rightarrow> proto_error + bytes \<Rightarrow> 'c game \<Rightarrow> 'c game" where
  "broadcast_result env now r g = (case r of Inr b \<Rightarrow> broadcast env now b g | Inl _ \<Rightarrow> g)"

definition send_chat_all :: "'c env \<Rightarrow> nat \<Rightarrow> bytes \<Rightarrow> 'c game \<Rightarrow> 'c game option" where
  "send_chat_all env now message g =
     (let from_pid = host_pid g;
          to_pids = map pl_pid (filter (\<lambda>p. \<not> pl_virtual_host p \<and> pl_left p = None) (gs_players g))
      in if from_pid = 255 then Some g
         else if to_pids = [] then Some g
         else let g = relay_send (ViewerChat (cfg_virtual_host_name (gs_cfg g)) message) g in
           if in_lobby (gs_phase g)
           then do { msg \<leftarrow> chat_cut 254 message;
                     Some (broadcast_result env now (chat_from_host from_pid to_pids 0x10 [] msg) g) }
           else do { msg \<leftarrow> chat_cut 127 message;
                     Some (broadcast_result env now (chat_from_host from_pid to_pids 0x20 [0, 0, 0, 0] msg)
                             (with_replay (\<lambda>r. replay_add_chat r from_pid 0x20 0 msg) g)) })"

definition send_chat_to :: "'c env \<Rightarrow> nat \<Rightarrow> u8 \<Rightarrow> bytes \<Rightarrow> 'c game \<Rightarrow> 'c game option" where
  "send_chat_to env now pid message g =
     (let from_pid = host_pid g
      in if from_pid = 255 then Some g
         else if in_lobby (gs_phase g)
         then do { msg \<leftarrow> chat_cut 254 message;
                   Some (case chat_from_host from_pid [pid] 0x10 [] msg of
                           Inr b \<Rightarrow> send_to env now pid b g | Inl _ \<Rightarrow> g) }
         else do { msg \<leftarrow> chat_cut 127 message;
                   let colour = (case sid_of_pid (gs_slots g) pid of
                                   Some s \<Rightarrow> (if unat s < length (gs_slots g)
                                              then slot_colour (gs_slots g ! unat s) else 0)
                                 | None \<Rightarrow> 0);
                   Some (case chat_from_host from_pid [pid] 0x20 [3 + colour, 0, 0, 0] msg of
                           Inr b \<Rightarrow> send_to env now pid b g | Inl _ \<Rightarrow> g) })"

section \<open>Slots, jitter and the virtual host\<close>

definition send_all_slot_info :: "'c env \<Rightarrow> nat \<Rightarrow> 'c game \<Rightarrow> 'c game" where
  "send_all_slot_info env now g =
     broadcast_result env now
       (slot_info_packet (gs_slots g) (gs_random_seed g) (mi_layout_style (cfg_map (gs_cfg g)))
          (mi_num_players (cfg_map (gs_cfg g)))) g"

definition record_jitter :: "nat \<Rightarrow> nat \<Rightarrow> 'c game \<Rightarrow> 'c game" where
  "record_jitter now jitter g =
     (let ms = as_millis jitter;
          i = (if ms < 1 then 0 else if ms < 2 then 1 else if ms < 5 then 2 else if ms < 20 then 3 else 4);
          h = gs_jitter_histogram g
      in g\<lparr>gs_jitter_histogram := h[i := h ! i + 1],
           gs_last_jitter_report :=
             (if elapsed now (gs_last_jitter_report g) \<ge> secs 60 then now else gs_last_jitter_report g)\<rparr>)"

definition create_virtual_host :: "'c env \<Rightarrow> nat \<Rightarrow> 'c game \<Rightarrow> 'c game" where
  "create_virtual_host env now g =
     (if gs_virtual_host_pid g \<noteq> 255 then g
      else case next_free_pid (gs_players g) of
             None \<Rightarrow> g
           | Some pid \<Rightarrow>
               (let name = cfg_virtual_host_name (gs_cfg g);
                    p = (player_new pid name (- 1) (env_closed_link env))
                          \<lparr>pl_virtual_host := True, pl_loaded := True\<rparr>;
                    g = g\<lparr>gs_virtual_host_pid := pid\<rparr>;
                    g = broadcast_result env now (player_info pid name [0, 0, 0, 0] [0, 0, 0, 0]) g
                in g\<lparr>gs_players := players_insert (gs_players g) p\<rparr>))"

definition delete_virtual_host :: "'c env \<Rightarrow> nat \<Rightarrow> 'c game \<Rightarrow> 'c game" where
  "delete_virtual_host env now g =
     (if gs_virtual_host_pid g = 255 then g
      else let pid = gs_virtual_host_pid g;
               g = g\<lparr>gs_virtual_host_pid := 255, gs_players := snd (remove_pid (gs_players g) pid)\<rparr>
           in broadcast env now (player_leave_others pid PLAYERLEAVE_LOBBY) g)"

section \<open>What sending changes\<close>

text \<open>The players a broadcast is sent to over their link.\<close>

definition receives_live :: "'c player \<Rightarrow> bool" where
  "receives_live p \<longleftrightarrow> pl_left p = None \<and> \<not> pl_virtual_host p \<and> pl_rejoin p = RejoinNone
     \<and> pl_catchup_cursor p = None \<and> pl_disconnected_since p = None"

definition accepts :: "'c env \<Rightarrow> bytes \<Rightarrow> 'c player \<Rightarrow> bool" where
  "accepts env bs p \<longleftrightarrow> is_ok (fst (link_try_send (env_ts env) (pl_link p) bs))"

lemma link_deliver_link:
  "pl_link (link_deliver env now bs p) = snd (link_try_send (env_ts env) (pl_link p) bs)"
  by (auto simp: link_deliver_def Let_def split: prod.splits sum.splits link_error.splits)

lemma link_deliver_accepted:
  "accepts env bs p \<Longrightarrow> link_deliver env now bs p =
     p\<lparr>pl_link := snd (link_try_send (env_ts env) (pl_link p) bs), pl_consecutive_send_failures := 0\<rparr>"
  by (auto simp: accepts_def link_deliver_def split: prod.splits sum.splits)

lemma link_deliver_keeps [simp]:
  "pl_pid (link_deliver env now bs p) = pl_pid p"
  "pl_name (link_deliver env now bs p) = pl_name p"
  "pl_conn_id (link_deliver env now bs p) = pl_conn_id p"
  "pl_virtual_host (link_deliver env now bs p) = pl_virtual_host p"
  "pl_loaded (link_deliver env now bs p) = pl_loaded p"
  "pl_rejoin (link_deliver env now bs p) = pl_rejoin p"
  "pl_catchup_cursor (link_deliver env now bs p) = pl_catchup_cursor p"
  "pl_catching_up (link_deliver env now bs p) = pl_catching_up p"
  "pl_gproxy_buffer (link_deliver env now bs p) = pl_gproxy_buffer p"
  "pl_sync_counter (link_deliver env now bs p) = pl_sync_counter p"
  "pl_checksums (link_deliver env now bs p) = pl_checksums p"
  "pl_lagging (link_deliver env now bs p) = pl_lagging p"
  "pl_started_lagging (link_deliver env now bs p) = pl_started_lagging p"
  by (auto simp: link_deliver_def Let_def split: prod.splits sum.splits link_error.splits)

lemma buffer_push_keeps [simp]:
  "pl_pid (buffer_push bs p) = pl_pid p"
  "pl_name (buffer_push bs p) = pl_name p"
  "pl_conn_id (buffer_push bs p) = pl_conn_id p"
  "pl_link (buffer_push bs p) = pl_link p"
  "pl_left (buffer_push bs p) = pl_left p"
  "pl_virtual_host (buffer_push bs p) = pl_virtual_host p"
  "pl_loaded (buffer_push bs p) = pl_loaded p"
  "pl_rejoin (buffer_push bs p) = pl_rejoin p"
  "pl_catchup_cursor (buffer_push bs p) = pl_catchup_cursor p"
  "pl_catching_up (buffer_push bs p) = pl_catching_up p"
  "pl_disconnected_since (buffer_push bs p) = pl_disconnected_since p"
  "pl_sync_counter (buffer_push bs p) = pl_sync_counter p"
  "pl_checksums (buffer_push bs p) = pl_checksums p"
  "pl_lagging (buffer_push bs p) = pl_lagging p"
  "pl_started_lagging (buffer_push bs p) = pl_started_lagging p"
  "pl_gproxy_buffer (buffer_push bs p) = map_option (\<lambda>b. gproxy_push b bs) (pl_gproxy_buffer p)"
  by (simp_all add: buffer_push_def)

lemma broadcast_player_cases:
  "broadcast_player env now bs p =
     (if pl_left p \<noteq> None \<or> pl_virtual_host p then p
      else if receives_live p then link_deliver env now bs (buffer_push bs p)
      else buffer_push bs p)"
  by (auto simp: broadcast_player_def receives_live_def Let_def)

lemma broadcast_player_keeps [simp]:
  "pl_pid (broadcast_player env now bs p) = pl_pid p"
  "pl_name (broadcast_player env now bs p) = pl_name p"
  "pl_conn_id (broadcast_player env now bs p) = pl_conn_id p"
  "pl_virtual_host (broadcast_player env now bs p) = pl_virtual_host p"
  "pl_loaded (broadcast_player env now bs p) = pl_loaded p"
  "pl_rejoin (broadcast_player env now bs p) = pl_rejoin p"
  "pl_catchup_cursor (broadcast_player env now bs p) = pl_catchup_cursor p"
  "pl_catching_up (broadcast_player env now bs p) = pl_catching_up p"
  "pl_sync_counter (broadcast_player env now bs p) = pl_sync_counter p"
  "pl_checksums (broadcast_player env now bs p) = pl_checksums p"
  "pl_lagging (broadcast_player env now bs p) = pl_lagging p"
  "pl_started_lagging (broadcast_player env now bs p) = pl_started_lagging p"
  by (simp_all add: broadcast_player_cases)

section \<open>What chat changes\<close>

text \<open>A short message never aborts, and chat changes players only by the broadcast.\<close>

lemma chat_cut_short: "length msg \<le> n \<Longrightarrow> chat_cut n msg = Some msg"
  by (simp add: chat_cut_def)

lemma send_chat_all_short:
  assumes "length msg \<le> 127"
  obtains g1 where "send_chat_all env now msg g = Some g1"
proof -
  have "chat_cut 127 msg = Some msg" "chat_cut 254 msg = Some msg"
    using assms by (simp_all add: chat_cut_short)
  then have "\<exists>g1. send_chat_all env now msg g = Some g1" by (simp add: send_chat_all_def Let_def)
  with that show ?thesis by blast
qed

lemma with_replay_id [simp]: "with_replay (\<lambda>r. r) g = g"
  by (simp add: with_replay_def option.map_ident)

lemma send_chat_all_cases:
  assumes "send_chat_all env now msg g = Some g1"
  obtains "g1 = g" | c f r where "g1 = broadcast_result env now r (with_replay f (relay_send c g))"
proof -
  let ?chat = "relay_send (ViewerChat (cfg_virtual_host_name (gs_cfg g)) msg) g"
  consider "g1 = g" | r where "g1 = broadcast_result env now r ?chat"
    | r f where "g1 = broadcast_result env now r (with_replay f ?chat)"
    using assms by (auto simp: send_chat_all_def Let_def bind_eq_Some_conv split: if_splits)
  then show thesis
  proof cases
    case (2 r)
    then show thesis using that(2) [of r "\<lambda>r. r" "ViewerChat (cfg_virtual_host_name (gs_cfg g)) msg"] by simp
  qed (use that in blast)+
qed

lemma players_broadcast_result:
  obtains "gs_players (broadcast_result env now r g) = gs_players g"
  | b where "gs_players (broadcast_result env now r g) = map (broadcast_player env now b) (gs_players g)"
  by (cases r) (auto simp: broadcast_result_def broadcast_def)

lemma players_send_chat_all:
  assumes "send_chat_all env now msg g = Some g1"
  obtains "gs_players g1 = gs_players g"
  | b where "gs_players g1 = map (broadcast_player env now b) (gs_players g)"
proof -
  have *: "gs_players (with_replay f (relay_send c g)) = gs_players g" for f c
    by (simp add: relay_send_def with_replay_def)
  show thesis
    using assms
  proof (cases rule: send_chat_all_cases)
    case (2 c f r)
    show thesis
      by (rule players_broadcast_result [of env now r "with_replay f (relay_send c g)"])
         (use 2 * that in metis)+
  qed (use that in simp)
qed

section \<open>A small game\<close>

text \<open>The environment, the configuration and the game on which the witnesses evaluate the model.\<close>

definition witness_env :: "(nat \<times> bool \<times> bytes list) env" where
  "witness_env = \<lparr>env_ts = bounded_send, env_crc32 = (\<lambda>_. 0), env_closed_link = (1, True, []),
     env_drained_link = (128, False, []), env_lower = (\<lambda>s. s), env_split_whitespace = (\<lambda>s. [s]),
     env_alphanumeric = (\<lambda>_. True), env_fmt_secs = (\<lambda>_. []), env_bin_order = (\<lambda>xs. xs)\<rparr>"

definition witness_map :: map_info where
  "witness_map = \<lparr>mi_path = str ''a.w3x'', mi_size = 3, mi_info = 1, mi_crc = 2, mi_sha1 = replicate 20 0,
     mi_num_players = 12, mi_num_teams = 2, mi_width = 128, mi_height = 128, mi_game_type = 1,
     mi_flags = 0, mi_data = Some [1, 2, 3], mi_layout_style = 0, mi_options = 0,
     mi_map_type = str ''x'', mi_matchmaking_category = [], mi_default_hcl = [],
     mi_default_player_score = 1000, mi_loading_in_game = False, mi_local_path = [], mi_max_slots = 24\<rparr>"

definition witness_cfg :: game_config where
  "witness_cfg = \<lparr>cfg_name = str ''g'', cfg_owner = str ''o'', cfg_host_counter = 1, cfg_num_slots = 12,
     cfg_latency = millis 100, cfg_sync_limit = 50, cfg_map = witness_map,
     cfg_virtual_host_name = str ''h'', cfg_reconnect_wait = secs 180, cfg_custom_slots = None,
     cfg_has_relay = False, cfg_max_downloaders = 3, cfg_max_download_speed = 100,
     cfg_allow_downloads = 1, cfg_autokick_ping = 400, cfg_lc_pings = True, cfg_spoof_checks = 0,
     cfg_require_spoof_checks = False, cfg_host_port = 6112, cfg_gproxy_reconnect_port = 6114,
     cfg_has_store = False, cfg_stat_string = [], cfg_lobby_time_limit = 10, cfg_creator_name = [],
     cfg_creator_server = [], cfg_matchmaking = False, cfg_hcl_from_game_name = False,
     cfg_votekick_allowed = True, cfg_votekick_percentage = 100, cfg_has_events = False\<rparr>"

text \<open>A small game for the witnesses: the given players in the given phase.\<close>

definition witness_game ::
    "game_phase \<Rightarrow> (nat \<times> bool \<times> bytes list) player list \<Rightarrow> (nat \<times> bool \<times> bytes list) game" where
  "witness_game ph ps =
     (game_new witness_env 0 7 witness_cfg)\<lparr>gs_phase := ph, gs_players := ps\<rparr>"

lemma witness_game_simps [simp]:
  "gs_players (witness_game ph ps) = ps" "gs_phase (witness_game ph ps) = ph"
  "gs_full_history (witness_game ph ps) = history_new"
  by (simp_all add: witness_game_def game_new_def)

end
