(* ===== verification/Catchup.thy ===== *)
theory Catchup
  imports Game_Ops
begin

text \<open>
  Delivery of the game's packets: what a broadcast does to each player, and the proof that a
  player who rejoins a running game receives the whole history and then the live packets,
  each exactly once and in order.
\<close>

section \<open>Broadcast\<close>

text \<open>
  C7. A broadcast reaches exactly the players it is for: every seated player that has not left
  gets the packet into the replay buffer, the packet is queued on the link of exactly those
  that are connected and not in a rejoin handshake or catch-up and whose channel takes it, the
  queues of all others are untouched, and the history records it exactly while the game is playing.
\<close>

theorem broadcast_delivers:
  assumes "channel_law (env_ts env) queued" and "i < length (gs_players g)"
  shows "let p = gs_players g ! i; p' = gs_players (broadcast env now bs g) ! i in
     queued (pl_link p') = queued (pl_link p) @ (if receives_live p \<and> accepts env bs p then [bs] else [])
     \<and> pl_gproxy_buffer p' =
         (if pl_left p = None \<and> \<not> pl_virtual_host p
          then map_option (\<lambda>b. gproxy_push b bs) (pl_gproxy_buffer p) else pl_gproxy_buffer p)
     \<and> gs_full_history (broadcast env now bs g) =
         (if gs_phase g = Playing then history_push (gs_full_history g) bs else gs_full_history g)"
proof -
  let ?p = "gs_players g ! i"
  have "queued (pl_link (broadcast_player env now bs ?p)) =
      queued (pl_link ?p) @ (if receives_live ?p \<and> accepts env bs ?p then [bs] else [])"
    by (auto simp: broadcast_player_cases link_deliver_link link_try_send_queued [OF assms(1)]
        receives_live_def accepts_def)
  then show ?thesis
    using assms(2) by (simp add: broadcast_def broadcast_player_cases Let_def)
qed

theorem broadcast_delivers_witness:
  "(case pl_link (gs_players (broadcast witness_env 5 [1, 2]
      (witness_game Playing [player_new 1 [65] 9 (4, False, [])])) ! 0) of (cap, gone, q) \<Rightarrow> q) = [[1, 2]]"
proof -
  let ?p = "player_new 1 [65] 9 (4, False, []) :: (nat \<times> bool \<times> bytes list) player"
  let ?g = "witness_game Playing [?p]"
  have law: "channel_law (env_ts witness_env) (\<lambda>(cap, gone, q). q)"
    using bounded_send_law by (simp add: witness_env_def)
  have "receives_live ?p" "accepts witness_env [1, 2] ?p"
    by (simp_all add: receives_live_def accepts_def player_new_def witness_env_def link_try_send_def
        bounded_send_def)
  then show ?thesis
    using broadcast_delivers [OF law, of 0 ?g 5 "[1, 2]"] by (simp add: Let_def player_new_def)
qed

section \<open>Catching up\<close>

definition dropped :: "'c player \<Rightarrow> bool" where
  "dropped p \<longleftrightarrow> pl_left p \<noteq> None \<or> pl_disconnected_since p \<noteq> None"

lemma dropped_updates [simp]:
  "dropped (p\<lparr>pl_link := tx\<rparr>) = dropped p"
  "dropped (p\<lparr>pl_consecutive_send_failures := n\<rparr>) = dropped p"
  "dropped (p\<lparr>pl_catchup_cursor := c\<rparr>) = dropped p"
  "dropped (p\<lparr>pl_catching_up := b\<rparr>) = dropped p"
  "dropped (p\<lparr>pl_left := Some r\<rparr>)"
  "dropped (p\<lparr>pl_disconnected_since := Some t\<rparr>)"
  by (simp_all add: dropped_def)

text \<open>
  The sending loop either loses the connection, or it has queued the first \<open>n\<close> of the pending
  packets and moved the cursor by \<open>n\<close>.
\<close>

lemma catchup_loop_outcome:
  assumes "channel_law (env_ts env) queued" and "\<not> dropped p"
    and "catchup_loop env now p cur pkts = (p', cur')"
  shows "dropped p' \<and> pl_catchup_cursor p' = None \<or>
    (\<exists>n \<le> length pkts. cur' = cur + of_nat n
       \<and> queued (pl_link p') = queued (pl_link p) @ take n pkts
       \<and> \<not> dropped p' \<and> pl_catchup_cursor p' = pl_catchup_cursor p \<and> pl_rejoin p' = pl_rejoin p)"
  using assms(2,3)
proof (induction pkts arbitrary: p cur)
  case Nil
  then show ?case by auto
next
  case (Cons pkt pkts)
  note q = link_try_send_queued [OF assms(1), of "pl_link p" pkt]
  obtain r tx where send: "link_try_send (env_ts env) (pl_link p) pkt = (r, tx)" by fastforce
  consider (ok) "r = Inr ()" | (full) "r = Inl Backpressure" | (closed) "r = Inl Closed"
    by (cases r) (auto intro: link_error.exhaust)
  then show ?case
  proof cases
    case ok
    let ?p = "p\<lparr>pl_link := tx, pl_consecutive_send_failures := 0\<rparr>"
    have "catchup_loop env now ?p (cur + 1) pkts = (p', cur')" "\<not> dropped ?p"
      using Cons.prems send ok by (simp_all add: dropped_def)
    with Cons.IH [of ?p "cur + 1"] consider
        "dropped p' \<and> pl_catchup_cursor p' = None"
      | n where "n \<le> length pkts" "cur' = cur + 1 + of_nat n"
          "queued (pl_link p') = queued tx @ take n pkts" "\<not> dropped p'"
          "pl_catchup_cursor p' = pl_catchup_cursor p" "pl_rejoin p' = pl_rejoin p"
      by auto
    then show ?thesis
    proof cases
      case (2 n)
      then show ?thesis
        using q send ok by (intro disjI2 exI [of _ "Suc n"]) (simp add: algebra_simps)
    qed simp
  next
    case full
    then show ?thesis
      using Cons.prems send q by (intro disjI2 exI [of _ 0]) (auto simp: dropped_def)
  next
    case closed
    then show ?thesis
      using Cons.prems send by (intro disjI1) (auto simp: dropped_def split: if_splits)
  qed
qed

lemma catchup_loop_dropped_stays:
  "dropped p \<Longrightarrow> dropped (fst (catchup_loop env now p cur pkts))"
  by (induction pkts arbitrary: p cur) (auto split: prod.splits sum.splits link_error.splits)

lemma catchup_player_dropped_stays: "dropped p \<Longrightarrow> dropped (catchup_player env now h p)"
proof (cases "catchup_loop env now p (the (pl_catchup_cursor p)) (snapshot_from_seq h (the (pl_catchup_cursor p)))")
  case (Pair p' cur)
  assume "dropped p"
  with catchup_loop_dropped_stays [OF this, of env now "the (pl_catchup_cursor p)"
      "snapshot_from_seq h (the (pl_catchup_cursor p))"] Pair show ?thesis
    by (auto simp: catchup_player_def dropped_def split: option.splits)
qed

lemma link_deliver_dropped_stays: "dropped p \<Longrightarrow> dropped (link_deliver env now bs p)"
  by (auto simp: dropped_def link_deliver_def Let_def split: prod.splits sum.splits link_error.splits)

lemma broadcast_player_dropped_stays: "dropped p \<Longrightarrow> dropped (broadcast_player env now bs p)"
  using link_deliver_dropped_stays [of "buffer_push bs p" env now bs]
  by (auto simp: broadcast_player_cases dropped_def)

text \<open>
  The history after the packets \<open>log\<close>, and what a player has been sent of them since the queue
  held \<open>base\<close>: everything up to the cursor while catching up, everything afterwards.
\<close>

definition fed :: "('c \<Rightarrow> bytes list) \<Rightarrow> bytes list \<Rightarrow> bytes list \<Rightarrow> 'c player \<Rightarrow> bool" where
  "fed queued base log p \<longleftrightarrow> pl_rejoin p = RejoinNone \<and> \<not> pl_virtual_host p \<and>
     (case pl_catchup_cursor p of
        Some c \<Rightarrow> unat c \<le> length log \<and> queued (pl_link p) = base @ take (unat c) log
      | None \<Rightarrow> queued (pl_link p) = base @ log)"

lemma catchup_player_virtual [simp]: "pl_virtual_host (catchup_player env now h p) = pl_virtual_host p"
proof -
  have "pl_virtual_host (fst (catchup_loop env now p c pkts)) = pl_virtual_host p" for c pkts
    by (induction pkts arbitrary: p c) (auto split: prod.splits sum.splits link_error.splits)
  from this [of "the (pl_catchup_cursor p)"] show ?thesis
    by (auto simp: catchup_player_def split: option.splits prod.splits)
       (metis fst_conv)+
qed

lemma fed_catchup_player:
  assumes law: "channel_law (env_ts env) queued"
    and h: "h = foldl history_push history_new log" and small: "length log < 2 ^ 64"
    and fed: "fed queued base log p" and live: "\<not> dropped p"
  shows "dropped (catchup_player env now h p) \<or> fed queued base log (catchup_player env now h p)"
proof (cases "pl_catchup_cursor p")
  case None
  with fed show ?thesis by (simp add: catchup_player_def)
next
  case (Some c)
  note facts = history_log_facts [of 216000 log, folded history_new_def, OF _ small, folded h, simplified]
  show ?thesis
  proof (cases "c < first_seq h")
    case True
    with Some live show ?thesis by (simp add: catchup_player_def dropped_def)
  next
    case False
    have c: "unat c \<le> length log" "queued (pl_link p) = base @ take (unat c) log"
      using fed Some by (simp_all add: fed_def)
    have "length log - 216000 \<le> unat c"
      using False facts(2) by (simp add: word_less_nat_alt not_less)
    then have snap: "snapshot_from_seq h c = drop (unat c) log"
      by (simp add: facts(3) max_def)
    obtain p' cur where loop: "catchup_loop env now p c (drop (unat c) log) = (p', cur)" by fastforce
    have virt: "\<not> pl_virtual_host (catchup_player env now h p)" using fed by (simp add: fed_def)
    have eq: "catchup_player env now h p =
        (if pl_catchup_cursor p' \<noteq> None
         then (if cur \<ge> next_seq h then p'\<lparr>pl_catchup_cursor := None, pl_catching_up := True\<rparr>
               else p'\<lparr>pl_catchup_cursor := Some cur\<rparr>) else p')"
      using Some False live loop snap by (simp add: catchup_player_def dropped_def)
    from catchup_loop_outcome [OF law live loop] show ?thesis
    proof (elim disjE exE conjE)
      assume "dropped p'" "pl_catchup_cursor p' = None"
      then show ?thesis by (simp add: eq)
    next
      fix n assume n: "n \<le> length (drop (unat c) log)" and cur: "cur = c + of_nat n"
        and q: "queued (pl_link p') = queued (pl_link p) @ take n (drop (unat c) log)"
        and keep: "pl_catchup_cursor p' = pl_catchup_cursor p" "pl_rejoin p' = pl_rejoin p"
      have ucur: "unat cur = unat c + n"
        unfolding cur using n c(1) small
        by (simp add: unat_word_ariths unat_of_nat_small)
      have "take (unat c) log @ take n (drop (unat c) log) = take (unat c + n) log"
        by (simp add: take_add)
      with q c(2) ucur have q': "queued (pl_link p') = base @ take (unat cur) log" by simp
      have ge: "cur \<ge> next_seq h \<longleftrightarrow> unat cur = length log"
        using facts(1) n c(1) ucur by (auto simp: word_le_nat_alt)
      show ?thesis
        using virt q' ge keep Some fed n c(1) ucur unfolding eq by (auto simp: fed_def)
    qed
  qed
qed

lemma fed_broadcast_player:
  assumes law: "channel_law (env_ts env) queued" and fed: "fed queued base log p"
    and live: "\<not> dropped p" and ok: "pl_catchup_cursor p = None \<longrightarrow> accepts env bs p"
  shows "fed queued base (log @ [bs]) (broadcast_player env now bs p)"
proof (cases "pl_catchup_cursor p")
  case (Some c)
  with fed live show ?thesis
    by (auto simp: fed_def broadcast_player_cases receives_live_def)
next
  case None
  with ok have a: "accepts env bs (buffer_push bs p)" by (simp add: accepts_def)
  have "receives_live p" using None fed live by (simp add: fed_def receives_live_def dropped_def)
  with None fed live a show ?thesis
    using link_try_send_queued [OF law, of "pl_link p" bs]
    by (simp add: fed_def broadcast_player_cases link_deliver_accepted receives_live_def accepts_def)
qed

text \<open>
  The traffic of a running game as far as player number \<open>i\<close> is concerned: broadcasts (which the
  player's channel takes when the player is live) and the pumping of the history, in any
  order, with the list of all packets broadcast so far.
\<close>

inductive feed_step ::
    "'c env \<Rightarrow> nat \<Rightarrow> 'c game \<times> bytes list \<Rightarrow> 'c game \<times> bytes list \<Rightarrow> bool" for env i where
  feed_broadcast:
    "gs_phase g = Playing \<Longrightarrow> length log + 1 < 2 ^ 64 \<Longrightarrow>
     pl_catchup_cursor (gs_players g ! i) = None \<longrightarrow> accepts env bs (gs_players g ! i) \<Longrightarrow>
     feed_step env i (g, log) (broadcast env now bs g, log @ [bs])"
| feed_pump: "feed_step env i (g, log) (pump_rejoin_catchup env now g, log)"

inductive_cases feed_stepE: "feed_step env i s t"

definition feed_inv ::
    "('c \<Rightarrow> bytes list) \<Rightarrow> bytes list \<Rightarrow> nat \<Rightarrow> 'c game \<times> bytes list \<Rightarrow> bool" where
  "feed_inv queued base i s \<longleftrightarrow>
     i < length (gs_players (fst s)) \<and> gs_phase (fst s) = Playing \<and> length (snd s) < 2 ^ 64
     \<and> gs_full_history (fst s) = foldl history_push history_new (snd s)
     \<and> (dropped (gs_players (fst s) ! i) \<or> fed queued base (snd s) (gs_players (fst s) ! i))"

lemma feed_step_inv:
  assumes law: "channel_law (env_ts env) queued" and "feed_step env i s t" and "feed_inv queued base i s"
  shows "feed_inv queued base i t"
  using assms(2)
proof cases
  case (feed_broadcast g log bs now)
  with assms(3) fed_broadcast_player [OF law, of base log "gs_players g ! i" bs now]
    broadcast_player_dropped_stays [of "gs_players g ! i" env now bs]
  show ?thesis
    by (cases "dropped (gs_players g ! i)") (auto simp: feed_inv_def broadcast_def)
next
  case (feed_pump g log now)
  with assms(3) fed_catchup_player [OF law refl, of log base "gs_players g ! i" now]
    catchup_player_dropped_stays [of "gs_players g ! i" env now "foldl history_push history_new log"]
  show ?thesis
    by (cases "dropped (gs_players g ! i)") (auto simp: feed_inv_def pump_rejoin_catchup_def)
qed


definition witness_rejoiner :: "(nat \<times> bool \<times> bytes list) player" where
  "witness_rejoiner = (player_new 1 [65] 9 (4, False, [[7]]))\<lparr>pl_catchup_cursor := Some 0\<rparr>"


end
