(* ===== verification/Desync.thy ===== *)
theory Desync
  imports Game_Ops W3gs_In "HOL-Library.Multiset"
begin

text \<open>
  Desynchronisation checks (\<^verbatim>\<open>handle_keepalive\<close> and \<^verbatim>\<open>check_desync\<close> of
  \<^verbatim>\<open>spectre-engine/src/actions.rs\<close>): every player reports a checksum per turn, players are
  compared turn by turn, and those outside the plurality are removed. The groups by checksum
  are a hash map; its iteration order is the parameter \<open>env_bin_order\<close>, a permutation.
\<close>

section \<open>One round of the loop\<close>

definition desync_active :: "'c player \<Rightarrow> bool" where
  "desync_active p \<longleftrightarrow> pl_left p = None \<and> \<not> pl_virtual_host p \<and> pl_loaded p \<and> \<not> pl_catching_up p"

definition front :: "'c player \<Rightarrow> checksum_entry option" where
  "front p = (case pl_checksums p of [] \<Rightarrow> None | e # _ \<Rightarrow> Some e)"

definition front_of :: "'c player_table \<Rightarrow> u8 \<Rightarrow> checksum_entry option" where
  "front_of ps pid = Option.bind (by_pid ps pid) front"

definition min_turn :: "'c player list \<Rightarrow> u32 option" where
  "min_turn ps =
     foldl (\<lambda>m p. case front p of
              None \<Rightarrow> m
            | Some e \<Rightarrow> Some (case m of None \<Rightarrow> ce_turn e | Some t \<Rightarrow> min t (ce_turn e))) None ps"

definition pop_fronts :: "u8 list \<Rightarrow> 'c game \<Rightarrow> 'c game" where
  "pop_fronts who g =
     g\<lparr>gs_players := foldl (\<lambda>ps pid. by_pid_mut ps pid (\<lambda>p. p\<lparr>pl_checksums := drop 1 (pl_checksums p)\<rparr>))
         (gs_players g) who\<rparr>"

definition checksum_bins :: "'c player_table \<Rightarrow> u8 list \<Rightarrow> (u32 \<times> u8 list) list" where
  "checksum_bins ps participants =
     foldl (\<lambda>bins pid. case front_of ps pid of
              Some e \<Rightarrow> entry_modify (ce_checksum e) [] (\<lambda>l. l @ [pid]) bins
            | None \<Rightarrow> bins) [] participants"

text \<open>The loop over the groups: the largest count, whether it is tied, and its checksum.\<close>

definition largest_bin :: "(u32 \<times> u8 list) list \<Rightarrow> nat \<times> bool \<times> u32" where
  "largest_bin bins =
     foldl (\<lambda>(max_count, tied, largest_cs) (cs, who).
              if length who > max_count then (length who, False, cs)
              else if length who = max_count then (max_count, True, largest_cs)
              else (max_count, tied, largest_cs)) (0, False, 0) bins"

abbreviation "DESYNC_REASON \<equiv> str ''was dropped due to desync''"

definition kick_all :: "u8 list \<Rightarrow> 'c game \<Rightarrow> 'c game" where
  "kick_all who g = foldl (\<lambda>g pid. kick_player pid DESYNC_REASON PLAYERLEAVE_LOST g) g who"

text \<open>The active players whose oldest unchecked report is for the turn.\<close>

definition participants :: "'c player_table \<Rightarrow> u32 \<Rightarrow> u8 list" where
  "participants ps target_turn =
     filter (\<lambda>pid. map_option ce_turn (front_of ps pid) = Some target_turn)
       (map pl_pid (filter desync_active ps))"

definition disagree :: "'c player_table \<Rightarrow> u8 list \<Rightarrow> bool" where
  "disagree ps who =
     (case map (\<lambda>pid. map_option ce_checksum (front_of ps pid)) who of
        [] \<Rightarrow> False | s # ss \<Rightarrow> list_ex (\<lambda>x. x \<noteq> s) ss)"

text \<open>
  One iteration: the new state and whether the loop continues; \<open>None\<close> when sending the chat
  message aborts.
\<close>

definition desync_round :: "'c env \<Rightarrow> nat \<Rightarrow> 'c game \<Rightarrow> ('c game \<times> bool) option" where
  "desync_round env now g =
     (let ps = gs_players g;
          active_pids = map pl_pid (filter desync_active ps)
      in case min_turn (filter desync_active ps) of
           None \<Rightarrow>
             Some (if length active_pids \<le> 1
                   then g\<lparr>gs_players := map (\<lambda>p. if desync_active p then p\<lparr>pl_checksums := []\<rparr> else p) ps\<rparr>
                   else g, False)
         | Some target_turn \<Rightarrow>
             if length active_pids < 2
             then Some (g\<lparr>gs_players := map (\<lambda>p. if desync_active p then p\<lparr>pl_checksums := []\<rparr> else p) ps\<rparr>,
                        False)
             else if list_ex (\<lambda>pid. case by_pid ps pid of Some p \<Rightarrow> pl_sync_counter p < target_turn
                                                         | None \<Rightarrow> False) active_pids
             then Some (g, False)
             else
               let who = participants ps target_turn;
                   has_desync = disagree ps who
               in if length who < 2 \<or> \<not> has_desync
                  then Some (pop_fronts who g, True)
                  else
                    let bins = env_bin_order env (checksum_bins ps who);
                        (max_count, tied, largest_cs) = largest_bin bins
                    in do {
                      g \<leftarrow> send_chat_all env now (str ''Desync detected!'') g;
                      let g = kick_all (if tied then who
                                        else concat (map snd (filter (\<lambda>(cs, pids). cs \<noteq> largest_cs) bins))) g;
                      Some (pop_fronts who g, False)
                    })"

text \<open>\<^verbatim>\<open>check_desync\<close>: the loop, which might not end if two players shared an id.\<close>

partial_function (option) check_desync :: "'c env \<Rightarrow> nat \<Rightarrow> 'c game \<Rightarrow> 'c game option" where
  "check_desync env now g =
     Option.bind (desync_round env now g)
       (\<lambda>(g, again). if again then check_desync env now g else Some g)"

definition handle_keepalive :: "'c env \<Rightarrow> nat \<Rightarrow> u64 \<Rightarrow> bytes \<Rightarrow> 'c game \<Rightarrow> 'c game option" where
  "handle_keepalive env now conn_id payload g =
     (if gs_phase g \<noteq> Playing then Some g
      else case decode_keepalive payload of
             Inl _ \<Rightarrow> Some g
           | Inr checksum \<Rightarrow>
               check_desync env now
                 (g\<lparr>gs_players := by_conn_mut (gs_players g) conn_id (\<lambda>p.
                    let turn = saturating_add (pl_sync_counter p) 1;
                        p = p\<lparr>pl_sync_counter := turn\<rparr>
                    in if pl_catching_up p
                       then (if turn \<ge> gs_sync_counter g then p\<lparr>pl_catching_up := False\<rparr> else p)
                       else p\<lparr>pl_checksums :=
                                (if length (pl_checksums p) \<ge> 512 then drop 1 (pl_checksums p)
                                 else pl_checksums p) @ [\<lparr>ce_turn = turn, ce_checksum = checksum\<rparr>]\<rparr>)\<rparr>))"

section \<open>Groups\<close>

text \<open>The number of participants that reported a checksum.\<close>

definition votes :: "'c player_table \<Rightarrow> u8 list \<Rightarrow> u32 \<Rightarrow> nat" where
  "votes ps who cs = length (filter (\<lambda>pid. map_option ce_checksum (front_of ps pid) = Some cs) who)"

lemma checksum_bins_snoc:
  "checksum_bins ps (who @ [pid]) =
     (case front_of ps pid of
        Some e \<Rightarrow> entry_modify (ce_checksum e) [] (\<lambda>l. l @ [pid]) (checksum_bins ps who)
      | None \<Rightarrow> checksum_bins ps who)"
  by (simp add: checksum_bins_def split: option.split)

lemma distinct_checksum_bins: "distinct (map fst (checksum_bins ps who))"
proof (induction who rule: rev_induct)
  case (snoc pid who)
  then show ?case
    by (simp add: checksum_bins_snoc entry_modify_def distinct_update split: option.split)
qed (simp add: checksum_bins_def)

lemma map_of_checksum_bins:
  "map_of (checksum_bins ps who) cs =
     (let l = filter (\<lambda>pid. map_option ce_checksum (front_of ps pid) = Some cs) who
      in if l = [] then None else Some l)"
proof (induction who rule: rev_induct)
  case (snoc pid who)
  then show ?case
    by (auto simp: checksum_bins_snoc entry_modify_def update_conv' Let_def split: option.splits if_splits)
qed (simp add: checksum_bins_def)

lemma bin_votes:
  "(cs, l) \<in> set (checksum_bins ps who) \<Longrightarrow> length l = votes ps who cs \<and> 0 < votes ps who cs
     \<and> l = filter (\<lambda>pid. map_option ce_checksum (front_of ps pid) = Some cs) who"
  using map_of_is_SomeI [OF distinct_checksum_bins, of cs l ps who] map_of_checksum_bins [of ps who cs]
  by (auto simp: Let_def votes_def split: if_splits)

lemma bin_exists:
  assumes "0 < votes ps who cs"
  shows "\<exists>l. (cs, l) \<in> set (checksum_bins ps who)"
  using map_of_checksum_bins [of ps who cs] assms
  by (auto simp: Let_def votes_def split: if_splits dest: map_of_SomeD)

text \<open>
  The loop over the groups finds the largest count; it is tied exactly when two groups have it.
\<close>

lemma largest_bin_snoc:
  "largest_bin (bins @ [(cs, who)]) =
     (case largest_bin bins of (m, tied, largest) \<Rightarrow>
        if length who > m then (length who, False, cs)
        else if length who = m then (m, True, largest) else (m, tied, largest))"
  by (simp add: largest_bin_def split: prod.split)

lemma largest_bin_correct:
  assumes "distinct (map fst bins)" and "\<forall>(cs, l) \<in> set bins. l \<noteq> []" and "bins \<noteq> []"
    and "largest_bin bins = (m, tied, largest)"
  shows "(\<forall>(cs, l) \<in> set bins. length l \<le> m) \<and> (\<exists>l. (largest, l) \<in> set bins \<and> length l = m)
     \<and> (tied \<longleftrightarrow> (\<exists>cs l. (cs, l) \<in> set bins \<and> cs \<noteq> largest \<and> length l = m))"
  using assms
proof (induction bins arbitrary: m tied largest rule: rev_induct)
  case (snoc b bins)
  obtain cs who where b: "b = (cs, who)" by fastforce
  obtain m0 t0 g0 where lb: "largest_bin bins = (m0, t0, g0)" by (metis prod_cases3)
  show ?case
  proof (cases "bins = []")
    case True
    with snoc b show ?thesis by (auto simp: largest_bin_def split: if_splits)
  next
    case False
    have IH: "\<And>c l. (c, l) \<in> set bins \<Longrightarrow> length l \<le> m0" "\<exists>l. (g0, l) \<in> set bins \<and> length l = m0"
      "t0 \<longleftrightarrow> (\<exists>cs l. (cs, l) \<in> set bins \<and> cs \<noteq> g0 \<and> length l = m0)"
      using snoc.IH [OF _ _ False lb] snoc.prems by auto
    have new: "\<And>l. (cs, l) \<notin> set bins" using snoc.prems(1) b by force
    have res: "(m, tied, largest) = (if length who > m0 then (length who, False, cs)
        else if length who = m0 then (m0, True, g0) else (m0, t0, g0))"
      using snoc.prems(4) lb b by (simp add: largest_bin_snoc)
    consider "length who > m0" | "length who = m0" | "length who < m0" by linarith
    then show ?thesis
    proof cases
      case 1
      then have r: "m = length who" "tied = False" "largest = cs" using res by simp_all
      have "length l \<noteq> m" if "(c, l) \<in> set bins" for c l using IH(1) [OF that] 1 r(1) by simp
      with 1 r b IH(1) show ?thesis by (fastforce intro: less_imp_le le_less_trans)
    next
      case 2
      then have "m = m0" "tied = True" "largest = g0" using res by simp_all
      moreover have "cs \<noteq> g0" using new IH(2) by blast
      ultimately show ?thesis using 2 b IH by auto
    next
      case 3
      then have "m = m0" "tied = t0" "largest = g0" using res by simp_all
      with 3 b IH show ?thesis by auto
    qed
  qed
qed simp

section \<open>The verdict\<close>

text \<open>A participant survives when its checksum has strictly more votes than any other.\<close>

definition survives :: "'c player_table \<Rightarrow> u8 list \<Rightarrow> u8 \<Rightarrow> bool" where
  "survives ps who pid \<longleftrightarrow>
     (case map_option ce_checksum (front_of ps pid) of
        Some c \<Rightarrow> \<forall>cs. cs \<noteq> c \<longrightarrow> votes ps who cs < votes ps who c
      | None \<Rightarrow> False)"

definition bin_order_law :: "'c env \<Rightarrow> bool" where
  "bin_order_law env \<longleftrightarrow> (\<forall>bins. mset (env_bin_order env bins) = mset bins)"

lemma votes_pos: "pid \<in> set who \<Longrightarrow> map_option ce_checksum (front_of ps pid) = Some c \<Longrightarrow> 0 < votes ps who c"
  by (auto simp: votes_def filter_empty_conv)

text \<open>Whom the round removes, whatever the order of the groups.\<close>

lemma verdict:
  assumes ord: "mset bins = mset (checksum_bins ps who)" and lb: "largest_bin bins = (m, tied, largest)"
    and front: "\<forall>pid \<in> set who. front_of ps pid \<noteq> None" and ne: "who \<noteq> []"
  shows "set (if tied then who else concat (map snd (filter (\<lambda>(cs, pids). cs \<noteq> largest) bins)))
     = {pid \<in> set who. \<not> survives ps who pid}"
proof -
  have set_eq: "set bins = set (checksum_bins ps who)" using ord by (metis set_mset_mset)
  have "mset (map fst bins) = mset (map fst (checksum_bins ps who))" using ord by simp
  then have dist: "distinct (map fst bins)"
    using distinct_checksum_bins mset_eq_imp_distinct_iff by blast
  have bin: "length l = votes ps who cs \<and> 0 < votes ps who cs
      \<and> l = filter (\<lambda>pid. map_option ce_checksum (front_of ps pid) = Some cs) who"
    if "(cs, l) \<in> set bins" for cs l
    using bin_votes [of cs l ps who] that unfolding set_eq by blast
  obtain pid0 e0 where "pid0 \<in> set who" "front_of ps pid0 = Some e0" using ne front by (cases who) auto
  then have "0 < votes ps who (ce_checksum e0)" by (intro votes_pos) auto
  then have nonempty: "bins \<noteq> []" using bin_exists [of ps who] set_eq by fastforce
  have ok: "\<forall>(cs, l) \<in> set bins. l \<noteq> []" using bin by fastforce
  note L = largest_bin_correct [OF dist ok nonempty lb]
  have L1: "length l \<le> m" if "(cs, l) \<in> set bins" for cs l using L that by blast
  obtain l0 where l0: "(largest, l0) \<in> set bins" "length l0 = m" using L by blast
  have ex: "\<exists>l. (cs, l) \<in> set bins" if "0 < votes ps who cs" for cs
    using bin_exists [OF that] set_eq by simp
  have max: "votes ps who cs \<le> m" for cs
  proof (cases "votes ps who cs = 0")
    case False
    then obtain l where "(cs, l) \<in> set bins" using ex by auto
    with L1 bin show ?thesis by metis
  qed simp
  have largest: "votes ps who largest = m" "0 < m" using l0 bin [OF l0(1)] by auto
  have tied: "tied \<longleftrightarrow> (\<exists>cs. cs \<noteq> largest \<and> votes ps who cs = m)"
  proof
    assume tied
    then obtain cs l where "(cs, l) \<in> set bins" "cs \<noteq> largest" "length l = m" using L by blast
    with bin show "\<exists>cs. cs \<noteq> largest \<and> votes ps who cs = m" by metis
  next
    assume "\<exists>cs. cs \<noteq> largest \<and> votes ps who cs = m"
    then obtain cs where cs: "cs \<noteq> largest" "votes ps who cs = m" by blast
    with largest(2) obtain l where "(cs, l) \<in> set bins" using ex by auto
    with cs bin L show tied by metis
  qed
  have surv: "survives ps who pid \<longleftrightarrow> \<not> tied \<and> map_option ce_checksum (front_of ps pid) = Some largest"
    if "pid \<in> set who" for pid
  proof -
    obtain c where c: "map_option ce_checksum (front_of ps pid) = Some c"
      using front \<open>pid \<in> set who\<close> by fastforce
    have "(\<forall>cs. cs \<noteq> c \<longrightarrow> votes ps who cs < votes ps who c) \<longleftrightarrow> \<not> tied \<and> c = largest"
      using max largest(1) tied by (metis le_neq_implies_less less_irrefl not_le)
    with c show ?thesis unfolding survives_def c by simp
  qed
  have "set (concat (map snd (filter (\<lambda>(cs, pids). cs \<noteq> largest) bins)))
      = {pid \<in> set who. map_option ce_checksum (front_of ps pid) \<noteq> Some largest}" (is "?A = ?B")
  proof (intro set_eqI iffI)
    fix pid assume "pid \<in> ?A"
    then show "pid \<in> ?B" using bin by fastforce
  next
    fix pid assume pid: "pid \<in> ?B"
    then obtain c where c: "map_option ce_checksum (front_of ps pid) = Some c" "c \<noteq> largest"
      using front by fastforce
    then obtain l where l: "(c, l) \<in> set bins"
      using bin_exists [of ps who c] votes_pos [of pid who ps c] pid set_eq by auto
    then have "pid \<in> set l" using bin [OF l] pid c by auto
    with l c(2) show "pid \<in> ?A" by force
  qed
  with surv show ?thesis by (cases tied) auto
qed

lemma foldl_by_pid_mut:
  assumes "distinct (pids ps)" and "\<And>p. pl_pid (f p) = pl_pid p" and "distinct who"
  shows "foldl (\<lambda>ps pid. by_pid_mut ps pid f) ps who = map (\<lambda>p. if pl_pid p \<in> set who then f p else p) ps"
  using assms(1,3)
proof (induction who arbitrary: ps)
  case (Cons pid who)
  then have "foldl (\<lambda>ps pid. by_pid_mut ps pid f) (by_pid_mut ps pid f) who =
      map (\<lambda>p. if pl_pid p \<in> set who then f p else p) (by_pid_mut ps pid f)"
    using assms(2) by (intro Cons.IH) simp_all
  with Cons.prems assms(2) show ?case by (auto simp: by_pid_mut_map)
qed (simp add: map_idI)

definition desync_kick :: "'c player \<Rightarrow> 'c player" where
  "desync_kick p = p\<lparr>pl_left := Some DESYNC_REASON, pl_left_code := PLAYERLEAVE_LOST\<rparr>"

lemma players_kick_all:
  assumes "distinct (pids (gs_players g))"
  shows "gs_players (kick_all who g) =
     map (\<lambda>p. if pl_pid p \<in> set who then desync_kick p else p) (gs_players g)"
  using assms
proof (induction who arbitrary: g)
  case (Cons pid who)
  let ?g = "kick_player pid DESYNC_REASON PLAYERLEAVE_LOST g"
  have "gs_players (kick_all who ?g) =
      map (\<lambda>p. if pl_pid p \<in> set who then desync_kick p else p) (gs_players ?g)"
    using Cons.prems by (intro Cons.IH) (simp add: kick_player_def)
  then show ?case
    using Cons.prems by (auto simp: kick_all_def kick_player_def by_pid_mut_map desync_kick_def)
qed (simp add: kick_all_def map_idI)

lemma distinct_participants: "distinct (pids ps) \<Longrightarrow> distinct (participants ps t)"
  by (simp add: participants_def distinct_map_filter)

definition pop_front :: "'c player \<Rightarrow> 'c player" where
  "pop_front p = p\<lparr>pl_checksums := drop 1 (pl_checksums p)\<rparr>"

lemma players_pop_fronts:
  assumes "distinct (pids (gs_players g))" and "distinct who"
  shows "gs_players (pop_fronts who g) =
     map (\<lambda>p. if pl_pid p \<in> set who then pop_front p else p) (gs_players g)"
  using foldl_by_pid_mut [OF assms(1) _ assms(2), of pop_front]
  by (simp add: pop_fronts_def pop_front_def [abs_def])

lemma disagree_iff:
  "disagree ps who \<longleftrightarrow>
     (\<exists>a \<in> set who. \<exists>b \<in> set who. map_option ce_checksum (front_of ps a) \<noteq> map_option ce_checksum (front_of ps b))"
proof (cases who)
  case (Cons a list)
  then show ?thesis
    by (simp add: disagree_def list_ex_iff) metis
qed (simp add: disagree_def)

lemma participants_front: "pid \<in> set (participants ps t) \<Longrightarrow> front_of ps pid \<noteq> None"
  by (auto simp: participants_def)

text \<open>
  C11. The verdict on a desynchronised turn does not depend on the order of the hash map: when
  the reports for the oldest turn are complete and disagree, the players are told, and exactly those
  participants are removed whose checksum does not have strictly more votes than every
  other one (so all of them on a tie, and never a member of a strict plurality); nobody else is
  removed, and the compared reports are discarded.
\<close>

theorem desync_verdict:
  assumes "bin_order_law env" and "distinct (pids (gs_players g))"
    and "min_turn (filter desync_active (gs_players g)) = Some t"
    and "\<forall>p \<in> set (gs_players g). desync_active p \<longrightarrow> t \<le> pl_sync_counter p"
    and "disagree (gs_players g) (participants (gs_players g) t)"
  shows "\<exists>g1 g'. send_chat_all env now (str ''Desync detected!'') g = Some g1
     \<and> check_desync env now g = Some g'
     \<and> gs_players g' = map (\<lambda>p.
         if pl_pid p \<in> set (participants (gs_players g) t)
         then pop_front (if survives (gs_players g) (participants (gs_players g) t) (pl_pid p) then p
                         else desync_kick p)
         else p) (gs_players g1)"
proof -
  let ?ps = "gs_players g" and ?who = "participants (gs_players g) t"
  obtain a b where ab: "a \<in> set ?who" "b \<in> set ?who" "a \<noteq> b"
    using assms(5) unfolding disagree_iff by blast
  then have len: "\<not> length ?who < 2"
    by (cases ?who rule: list.exhaust; cases "tl ?who") auto
  have "length ?who \<le> length (map pl_pid (filter desync_active ?ps))"
    unfolding participants_def by (rule length_filter_le)
  with len have act: "\<not> length (map pl_pid (filter desync_active ?ps)) < 2" by simp
  have noflight: "\<not> list_ex (\<lambda>pid. case by_pid ?ps pid of Some p \<Rightarrow> pl_sync_counter p < t | None \<Rightarrow> False)
      (map pl_pid (filter desync_active ?ps))"
  proof -
    have "by_pid ?ps (pl_pid p) = Some p" if "p \<in> set ?ps" for p
      unfolding by_pid_def using assms(2) that by (rule find_key) simp
    with assms(4) show ?thesis by (auto simp: list_ex_iff not_less)
  qed
  obtain g1 where chat: "send_chat_all env now (str ''Desync detected!'') g = Some g1"
    by (rule send_chat_all_short [of "str ''Desync detected!''"]) (simp add: str_def)
  have pids1: "pids (gs_players g1) = pids ?ps"
    using chat by (cases rule: players_send_chat_all) (simp_all add: comp_def)
  let ?bins = "env_bin_order env (checksum_bins ?ps ?who)"
  obtain m tied largest where lb: "largest_bin ?bins = (m, tied, largest)" by (metis prod_cases3)
  let ?K = "if tied then ?who else concat (map snd (filter (\<lambda>(cs, pids). cs \<noteq> largest) ?bins))"
  let ?g2 = "kick_all ?K g1"
  have K: "set ?K = {pid \<in> set ?who. \<not> survives ?ps ?who pid}"
    using assms(1) lb participants_front ab(1)
    by (intro verdict) (auto simp: bin_order_law_def dest: participants_front)
  have round: "desync_round env now g = Some (pop_fronts ?who ?g2, False)"
    using act noflight len assms(3,5) lb chat
    by (simp add: desync_round_def Let_def)
  have d1: "distinct (pids (gs_players g1))" using assms(2) pids1 by simp
  then have p2: "gs_players ?g2 = map (\<lambda>p. if pl_pid p \<in> set ?K then desync_kick p else p) (gs_players g1)"
    by (rule players_kick_all)
  have pk: "pl_pid (desync_kick p) = pl_pid p" for p :: "'a player" by (simp add: desync_kick_def)
  have "pids (gs_players ?g2) = pids (gs_players g1)" unfolding p2 by (simp add: comp_def pk if_distrib cong: if_cong)
  with d1 have d2: "distinct (pids (gs_players ?g2))" by simp
  have "gs_players (pop_fronts ?who ?g2) =
      map (\<lambda>p. if pl_pid p \<in> set ?who then pop_front p else p) (gs_players ?g2)"
    using d2 distinct_participants [OF assms(2)] by (rule players_pop_fronts)
  also have "\<dots> = map (\<lambda>p. if pl_pid p \<in> set ?who
         then pop_front (if survives ?ps ?who (pl_pid p) then p else desync_kick p) else p) (gs_players g1)"
    unfolding p2 K by (auto simp: pk)
  finally show ?thesis
    using chat round by (subst check_desync.simps) auto
qed

section \<open>The loop ends\<close>

lemma min_turn_snoc:
  "min_turn (ps @ [p]) =
     (case front p of None \<Rightarrow> min_turn ps
      | Some e \<Rightarrow> Some (case min_turn ps of None \<Rightarrow> ce_turn e | Some t \<Rightarrow> min t (ce_turn e)))"
  by (simp add: min_turn_def split: option.split)

lemma min_turn_attained: "min_turn ps = Some t \<Longrightarrow> \<exists>p \<in> set ps. map_option ce_turn (front p) = Some t"
proof (induction ps arbitrary: t rule: rev_induct)
  case (snoc p ps)
  show ?case
  proof (cases "front p")
    case None
    with snoc show ?thesis by (auto simp: min_turn_snoc)
  next
    case (Some e)
    note fe = this
    show ?thesis
    proof (cases "min_turn ps")
      case None
      with snoc.prems fe show ?thesis by (auto simp: min_turn_snoc)
    next
      case (Some t0)
      with snoc.prems fe have "t = t0 \<or> t = ce_turn e" by (auto simp: min_turn_snoc min_def split: if_splits)
      with fe snoc.IH [OF Some] show ?thesis by auto
    qed
  qed
qed (simp add: min_turn_def)

lemma by_pid_self: "distinct (pids ps) \<Longrightarrow> p \<in> set ps \<Longrightarrow> by_pid ps (pl_pid p) = Some p"
  unfolding by_pid_def by (rule find_key) simp_all

lemma participant_exists:
  assumes "distinct (pids ps)" and "min_turn (filter desync_active ps) = Some t"
  shows "\<exists>p \<in> set ps. pl_pid p \<in> set (participants ps t) \<and> pl_checksums p \<noteq> []"
proof -
  obtain p where p: "p \<in> set ps" "desync_active p" "map_option ce_turn (front p) = Some t"
    using min_turn_attained [OF assms(2)] by auto
  then have "front_of ps (pl_pid p) = front p" by (simp add: front_of_def by_pid_self [OF assms(1)])
  with p have "pl_pid p \<in> set (participants ps t)" by (auto simp: participants_def)
  with p show ?thesis by (force simp: front_def split: list.splits)
qed

definition reports :: "'c player list \<Rightarrow> nat" where
  "reports ps = sum_list (map (\<lambda>p. length (pl_checksums p)) ps)"

lemma reports_pop:
  assumes "p \<in> set ps" and "pl_pid p \<in> S" and "pl_checksums p \<noteq> []"
  shows "reports (map (\<lambda>p. if pl_pid p \<in> S then pop_front p else p) ps) < reports ps"
proof -
  have le: "length (pl_checksums (if pl_pid q \<in> S then pop_front q else q)) \<le> length (pl_checksums q)" for q :: "'a player"
    by (simp add: pop_front_def)
  have lt: "length (pl_checksums (if pl_pid p \<in> S then pop_front p else p)) < length (pl_checksums p)"
    using assms(2,3) by (simp add: pop_front_def)
  show ?thesis
    using assms(1) lt
  proof (induction ps)
    case (Cons q qs)
    have "reports (map (\<lambda>p. if pl_pid p \<in> S then pop_front p else p) qs) \<le> reports qs"
      unfolding reports_def map_map comp_def using le by (intro sum_list_mono)
    with Cons le [of q] show ?case by (auto simp: reports_def)
  qed simp
qed

text \<open>What one round can do: stop, or discard the agreeing reports of a turn and go on.\<close>

lemma desync_round_cases:
  assumes "distinct (pids (gs_players g))"
  obtains (stop) g' where "desync_round env now g = Some (g', False)"
  | (again) t where "desync_round env now g = Some (pop_fronts (participants (gs_players g) t) g, True)"
      "min_turn (filter desync_active (gs_players g)) = Some t"
proof -
  obtain g1 where chat: "send_chat_all env now (str ''Desync detected!'') g = Some g1"
    by (rule send_chat_all_short [of "str ''Desync detected!''"]) (simp add: str_def)
  show thesis
  proof (cases "min_turn (filter desync_active (gs_players g))")
    case None
    then show thesis using stop by (simp add: desync_round_def Let_def)
  next
    case (Some t)
    with chat have "(\<exists>g'. desync_round env now g = Some (g', False))
        \<or> desync_round env now g = Some (pop_fronts (participants (gs_players g) t) g, True)"
      by (simp add: desync_round_def Let_def split: prod.split)
    with Some that show thesis by blast
  qed
qed

lemma players_pop_participants:
  "distinct (pids (gs_players g)) \<Longrightarrow> gs_players (pop_fronts (participants (gs_players g) t) g) =
     map (\<lambda>p. if pl_pid p \<in> set (participants (gs_players g) t) then pop_front p else p) (gs_players g)"
  by (simp add: players_pop_fronts distinct_participants)

lemma pop_participants_keeps:
  assumes "distinct (pids (gs_players g))"
  shows "distinct (pids (gs_players (pop_fronts (participants (gs_players g) t) g)))"
    and "map pl_left (gs_players (pop_fronts (participants (gs_players g) t) g)) = map pl_left (gs_players g)"
  using assms by (simp_all add: players_pop_participants pop_front_def comp_def if_distrib cong: if_cong)

lemma check_desync_total:
  "distinct (pids (gs_players g)) \<Longrightarrow> \<exists>g'. check_desync env now g = Some g'"
proof (induction "reports (gs_players g)" arbitrary: g rule: less_induct)
  case less
  from less.prems show ?case
  proof (cases rule: desync_round_cases [where env = env and now = now])
    case (stop g')
    then show ?thesis by (subst check_desync.simps) simp
  next
    case (again t)
    let ?g = "pop_fronts (participants (gs_players g) t) g"
    have "reports (gs_players ?g) < reports (gs_players g)"
      using participant_exists [OF less.prems again(2)] reports_pop
      by (auto simp: players_pop_participants [OF less.prems])
    with less.hyps pop_participants_keeps(1) [OF less.prems] obtain g' where "check_desync env now ?g = Some g'"
      by blast
    with again show ?thesis by (subst check_desync.simps) simp
  qed
qed

section \<open>Agreement\<close>

definition in_agreement :: "'c player list \<Rightarrow> bool" where
  "in_agreement ps \<longleftrightarrow> (\<forall>p \<in> set ps. \<forall>q \<in> set ps. \<forall>e \<in> set (pl_checksums p). \<forall>f \<in> set (pl_checksums q).
     desync_active p \<and> desync_active q \<and> ce_turn e = ce_turn f \<longrightarrow> ce_checksum e = ce_checksum f)"

lemma agreement_no_disagree:
  assumes "distinct (pids ps)" and "in_agreement ps"
  shows "\<not> disagree ps (participants ps t)"
proof
  assume "disagree ps (participants ps t)"
  then obtain a b where ab: "a \<in> set (participants ps t)" "b \<in> set (participants ps t)"
    "map_option ce_checksum (front_of ps a) \<noteq> map_option ce_checksum (front_of ps b)"
    unfolding disagree_iff by blast
  have *: "\<exists>p e. p \<in> set ps \<and> desync_active p \<and> e \<in> set (pl_checksums p) \<and> ce_turn e = t \<and> front_of ps c = Some e"
    if "c \<in> set (participants ps t)" for c
  proof -
    from that obtain p where p: "p \<in> set ps" "desync_active p" "c = pl_pid p"
      "map_option ce_turn (front_of ps c) = Some t"
      by (auto simp: participants_def)
    moreover from this have "front_of ps c = front p" by (simp add: front_of_def by_pid_self [OF assms(1)])
    ultimately show ?thesis by (force simp: front_def split: list.splits)
  qed
  obtain p e where pe: "p \<in> set ps" "desync_active p" "e \<in> set (pl_checksums p)" "ce_turn e = t"
    "front_of ps a = Some e" using * [OF ab(1)] by blast
  obtain q f where qf: "q \<in> set ps" "desync_active q" "f \<in> set (pl_checksums q)" "ce_turn f = t"
    "front_of ps b = Some f" using * [OF ab(2)] by blast
  have "ce_checksum e = ce_checksum f"
    using assms(2) [unfolded in_agreement_def, rule_format, OF pe(1) qf(1) pe(3) qf(3)] pe qf by simp
  with ab(3) pe qf show False by simp
qed

lemma in_agreement_sub:
  assumes "in_agreement ps"
    and "\<And>q. q \<in> set qs \<Longrightarrow> \<exists>p \<in> set ps. desync_active q = desync_active p \<and> set (pl_checksums q) \<subseteq> set (pl_checksums p)"
  shows "in_agreement qs"
  unfolding in_agreement_def
proof (intro ballI impI)
  fix p q e f
  assume "p \<in> set qs" "q \<in> set qs" "e \<in> set (pl_checksums p)" "f \<in> set (pl_checksums q)"
    and act: "desync_active p \<and> desync_active q \<and> ce_turn e = ce_turn f"
  then obtain p' q' where "p' \<in> set ps" "q' \<in> set ps" "e \<in> set (pl_checksums p')" "f \<in> set (pl_checksums q')"
    "desync_active p' = desync_active p" "desync_active q' = desync_active q"
    using assms(2) by blast
  with act assms(1) show "ce_checksum e = ce_checksum f" unfolding in_agreement_def by blast
qed

lemma agreement_pop:
  assumes "distinct (pids (gs_players g))" and "in_agreement (gs_players g)"
  shows "in_agreement (gs_players (pop_fronts (participants (gs_players g) t) g))"
proof (rule in_agreement_sub [OF assms(2)])
  fix q assume "q \<in> set (gs_players (pop_fronts (participants (gs_players g) t) g))"
  then obtain p where p: "p \<in> set (gs_players g)" "q = p \<or> q = pop_front p"
    unfolding players_pop_participants [OF assms(1)] by (auto split: if_splits)
  then show "\<exists>p \<in> set (gs_players g). desync_active q = desync_active p
      \<and> set (pl_checksums q) \<subseteq> set (pl_checksums p)"
    by (intro bexI [of _ p]) (auto simp: desync_active_def pop_front_def dest: in_set_dropD)
qed

lemma desync_round_agreement:
  assumes "distinct (pids (gs_players g))" and "in_agreement (gs_players g)"
    and "desync_round env now g = Some (g', False)"
  shows "map pl_left (gs_players g') = map pl_left (gs_players g)"
  using assms(3) agreement_no_disagree [OF assms(1,2)]
  by (auto simp: desync_round_def Let_def split: option.splits if_splits)

text \<open>
  C27. Checking for desync always returns when player ids are distinct, and it never removes
  anyone while the players agree: if no two active players reported different checksums
  for the same turn, then after the check exactly the players that had left before have left.
\<close>

theorem desync_no_false_alarm:
  assumes "distinct (pids (gs_players g))"
  shows "\<exists>g'. check_desync env now g = Some g'
     \<and> (in_agreement (gs_players g) \<longrightarrow> map pl_left (gs_players g') = map pl_left (gs_players g))"
proof -
  obtain g' where g': "check_desync env now g = Some g'" using check_desync_total [OF assms] by blast
  moreover have "map pl_left (gs_players g') = map pl_left (gs_players g)"
    if "in_agreement (gs_players g)"
    using assms that g'
  proof (induction "reports (gs_players g)" arbitrary: g rule: less_induct)
    case less
    from less.prems(1) show ?case
    proof (cases rule: desync_round_cases [where env = env and now = now])
      case (stop h)
      with less.prems show ?thesis
        by (subst (asm) check_desync.simps) (auto dest: desync_round_agreement)
    next
      case (again t)
      let ?g = "pop_fronts (participants (gs_players g) t) g"
      have "reports (gs_players ?g) < reports (gs_players g)"
        using participant_exists [OF less.prems(1) again(2)] reports_pop
        by (auto simp: players_pop_participants [OF less.prems(1)])
      moreover have "check_desync env now ?g = Some g'"
        using less.prems(3) again(1) by (subst (asm) check_desync.simps) simp
      ultimately have "map pl_left (gs_players g') = map pl_left (gs_players ?g)"
        using less pop_participants_keeps(1) [OF less.prems(1)] agreement_pop [OF less.prems(1,2)] by blast
      then show ?thesis using pop_participants_keeps(2) [OF less.prems(1)] by simp
    qed
  qed
  ultimately show ?thesis by blast
qed

definition witness_reporter :: "u8 \<Rightarrow> u32 \<Rightarrow> (nat \<times> bool \<times> bytes list) player" where
  "witness_reporter pid cs = (player_new pid [65] (ucast pid) (9, False, []))
     \<lparr>pl_loaded := True, pl_sync_counter := 1, pl_checksums := [\<lparr>ce_turn = 1, ce_checksum = cs\<rparr>]\<rparr>"

lemmas witness_reporter_simps = witness_reporter_def player_new_def desync_active_def front_def
  front_of_def by_pid_def min_turn_def participants_def

theorem desync_verdict_witness:
  "let ps = [witness_reporter 1 10, witness_reporter 2 10, witness_reporter 3 20];
       g = witness_game Playing ps
   in \<exists>g1 g'. send_chat_all witness_env 0 (str ''Desync detected!'') g = Some g1
     \<and> check_desync witness_env 0 g = Some g'
     \<and> gs_players g' = map (\<lambda>p. if pl_pid p \<in> set (participants ps 1)
         then pop_front (if survives ps (participants ps 1) (pl_pid p) then p else desync_kick p)
         else p) (gs_players g1)"
proof -
  let ?ps = "[witness_reporter 1 10, witness_reporter 2 10, witness_reporter 3 20]"
  have "bin_order_law witness_env" by (simp add: bin_order_law_def witness_env_def)
  moreover have "distinct (pids ?ps)" by (simp add: witness_reporter_simps)
  moreover have "min_turn (filter desync_active ?ps) = Some 1" by (simp add: witness_reporter_simps)
  moreover have "\<forall>p \<in> set ?ps. desync_active p \<longrightarrow> 1 \<le> pl_sync_counter p"
    by (simp add: witness_reporter_simps)
  moreover have "disagree ?ps (participants ?ps 1)"
    by (simp add: witness_reporter_simps disagree_def)
  ultimately show ?thesis
    using desync_verdict [of witness_env "witness_game Playing ?ps" 1 0, unfolded witness_game_simps]
    unfolding Let_def by blast
qed

theorem desync_no_false_alarm_witness:
  "let ps = [witness_reporter 1 10, witness_reporter 2 10] in
   \<exists>g'. check_desync witness_env 0 (witness_game Playing ps) = Some g'
     \<and> (in_agreement ps \<longrightarrow> map pl_left (gs_players g') = map pl_left ps)"
proof -
  let ?ps = "[witness_reporter 1 10, witness_reporter 2 10]"
  have "distinct (pids ?ps)" by (simp add: witness_reporter_simps)
  then show ?thesis
    using desync_no_false_alarm [of "witness_game Playing ?ps" witness_env 0] by (simp add: Let_def)
qed

end
