(* ===== verification/Lag.thy ===== *)
theory Lag
  imports Game_Ops
begin

text \<open>
  The lag screen (\<^verbatim>\<open>spectre-engine/src/lagcheck.rs\<close>): players that fall behind the game's turn
  counter by more than the limit stop the game until they have caught up to half of it.
\<close>

section \<open>Operations\<close>

definition lag_eligible :: "'c player \<Rightarrow> bool" where
  "lag_eligible p \<longleftrightarrow> \<not> pl_virtual_host p \<and> pl_left p = None \<and> pl_rejoin p = RejoinNone
     \<and> pl_catchup_cursor p = None \<and> \<not> pl_catching_up p"

text \<open>
  The body of the first loop for one player: the player, and the entries it adds to the lists of
  recovered and of newly lagging players.
\<close>

definition lag_player ::
    "nat \<Rightarrow> u32 \<Rightarrow> u32 \<Rightarrow> 'c player \<Rightarrow> 'c player \<times> (u8 \<times> u32) list \<times> (u8 \<times> u32) list" where
  "lag_player now limit game_sync p =
     (if \<not> lag_eligible p then (p, [], [])
      else let behind = saturating_sub game_sync (pl_sync_counter p) in
        if pl_lagging p
        then (if behind < limit div 2
              then (p\<lparr>pl_lagging := False, pl_started_lagging := None\<rparr>,
                    [(pl_pid p, case pl_started_lagging p of
                                  Some t \<Rightarrow> of_nat (as_millis (elapsed now t)) | None \<Rightarrow> 0)], [])
              else (p, [], []))
        else if behind > limit
        then (p\<lparr>pl_lagging := True, pl_started_lagging := Some now\<rparr>, [], [(pl_pid p, 0)])
        else (p, [], []))"

definition lag_ms :: "nat \<Rightarrow> 'c player \<Rightarrow> u32" where
  "lag_ms now p =
     (case pl_started_lagging p of Some t \<Rightarrow> of_nat (as_millis (elapsed now t)) | None \<Rightarrow> 0)"

definition stop_lag_all :: "'c env \<Rightarrow> nat \<Rightarrow> (u8 \<times> u32) list \<Rightarrow> 'c game \<Rightarrow> 'c game" where
  "stop_lag_all env now ls g = foldl (\<lambda>g (pid, ms). broadcast env now (stop_lag pid ms) g) g ls"

text \<open>The announcements of the recovered and the newly lagging players.\<close>

definition lag_announce ::
    "'c env \<Rightarrow> nat \<Rightarrow> bool \<Rightarrow> (u8 \<times> u32) list \<Rightarrow> (u8 \<times> u32) list \<Rightarrow> 'c game \<Rightarrow> 'c game" where
  "lag_announce env now was_lagging recovered newly_lagging g =
     (let g = stop_lag_all env now recovered g
      in if newly_lagging \<noteq> []
         then let g = broadcast_result env now (start_lag newly_lagging) g
              in if \<not> was_lagging then g\<lparr>gs_last_lag_screen_reset := now\<rparr> else g
         else g)"

text \<open>The lag screen is taken down and raised again after a minute.\<close>

definition lag_refresh :: "'c env \<Rightarrow> nat \<Rightarrow> 'c game \<Rightarrow> 'c game" where
  "lag_refresh env now g =
     (if gs_lagging g \<and> elapsed now (gs_last_lag_screen_reset g) \<ge> secs 60
      then let laggers = map (\<lambda>p. (pl_pid p, lag_ms now p))
                 (filter (\<lambda>p. pl_lagging p \<and> pl_left p = None \<and> \<not> pl_virtual_host p) (gs_players g))
           in if laggers \<noteq> []
              then let g = stop_lag_all env now laggers g;
                       g = broadcast_result env now (incoming_action (env_crc32 env) [] 0) g;
                       g = broadcast_result env now (start_lag laggers) g
                   in g\<lparr>gs_last_lag_screen_reset := now\<rparr>
              else g
      else g)"

definition check_lag :: "'c env \<Rightarrow> nat \<Rightarrow> 'c game \<Rightarrow> bool \<times> 'c game" where
  "check_lag env now g =
     (let limit = cfg_sync_limit (gs_cfg g);
          rs = map (lag_player now limit (gs_sync_counter g)) (gs_players g);
          recovered = concat (map (\<lambda>(p, r, n). r) rs);
          newly_lagging = concat (map (\<lambda>(p, r, n). n) rs);
          g = lag_announce env now (gs_lagging g) recovered newly_lagging (g\<lparr>gs_players := map fst rs\<rparr>);
          g = g\<lparr>gs_lagging := list_ex (\<lambda>p. \<not> pl_virtual_host p \<and> pl_lagging p) (gs_players g)\<rparr>;
          g = lag_refresh env now g
      in (gs_lagging g, g))"

definition lag_overdue :: "nat \<Rightarrow> nat \<Rightarrow> 'c player \<Rightarrow> bool" where
  "lag_overdue now max_lag p \<longleftrightarrow> \<not> pl_virtual_host p \<and> pl_lagging p \<and> pl_left p = None
     \<and> pl_disconnected_since p = None \<and> pl_rejoin p = RejoinNone \<and> pl_catchup_cursor p = None
     \<and> \<not> pl_catching_up p \<and> (\<exists>t. pl_started_lagging p = Some t \<and> elapsed now t \<ge> max_lag)"

lemma lag_overdue_code [code]:
  "lag_overdue now max_lag p \<longleftrightarrow> \<not> pl_virtual_host p \<and> pl_lagging p \<and> pl_left p = None
     \<and> pl_disconnected_since p = None \<and> pl_rejoin p = RejoinNone \<and> pl_catchup_cursor p = None
     \<and> \<not> pl_catching_up p
     \<and> (case pl_started_lagging p of Some t \<Rightarrow> elapsed now t \<ge> max_lag | None \<Rightarrow> False)"
  by (auto simp: lag_overdue_def split: option.splits)

definition lag_reason :: "nat \<Rightarrow> bytes" where
  "lag_reason max_lag = str ''was dropped after lagging for '' @ show_nat (as_secs max_lag) @ str ''s''"

definition drop_lagging_players :: "nat \<Rightarrow> nat \<Rightarrow> 'c game \<Rightarrow> 'c game" where
  "drop_lagging_players now max_lag g =
     foldl (\<lambda>g pid. kick_player pid (lag_reason max_lag) PLAYERLEAVE_DISCONNECT g) g
       (map pl_pid (filter (lag_overdue now max_lag) (gs_players g)))"

section \<open>Hysteresis\<close>

definition lag_state :: "'c game \<Rightarrow> (u8 \<times> bool \<times> nat option) list" where
  "lag_state g = map (\<lambda>p. (pl_pid p, pl_lagging p, pl_started_lagging p)) (gs_players g)"

lemma lag_state_broadcast [simp]: "lag_state (broadcast env now bs g) = lag_state g"
  by (simp add: lag_state_def broadcast_def comp_def)

lemma lag_state_broadcast_result [simp]: "lag_state (broadcast_result env now r g) = lag_state g"
  by (simp add: broadcast_result_def split: sum.split)

lemma lag_state_reset [simp]:
  "lag_state (g\<lparr>gs_last_lag_screen_reset := t\<rparr>) = lag_state g"
  "lag_state (g\<lparr>gs_lagging := b\<rparr>) = lag_state g"
  by (simp_all add: lag_state_def)

lemma lag_state_stop [simp]: "lag_state (stop_lag_all env now ls g) = lag_state g"
  unfolding stop_lag_all_def by (induction ls arbitrary: g) auto

lemma lag_state_announce [simp]: "lag_state (lag_announce env now w r n g) = lag_state g"
  by (simp add: lag_announce_def Let_def)

lemma lag_state_refresh [simp]: "lag_state (lag_refresh env now g) = lag_state g"
  by (simp add: lag_refresh_def Let_def)

lemma virtual_host_broadcast:
  "map pl_virtual_host (gs_players (broadcast env now bs g)) = map pl_virtual_host (gs_players g)"
  by (simp add: broadcast_def comp_def)

text \<open>Whether a player is lagging after the check.\<close>

definition lag_rule :: "u32 \<Rightarrow> u32 \<Rightarrow> 'c player \<Rightarrow> bool" where
  "lag_rule limit game_sync p \<longleftrightarrow>
     (if \<not> lag_eligible p then pl_lagging p
      else let behind = unat game_sync - unat (pl_sync_counter p) in
        if pl_lagging p then behind \<ge> unat limit div 2 else behind > unat limit)"

lemma behind_iff:
  "saturating_sub sc c < limit div 2 \<longleftrightarrow> unat sc - unat c < unat limit div 2"
  "saturating_sub sc c > limit \<longleftrightarrow> unat sc - unat c > unat limit" for sc c limit :: u32
  by (simp_all add: word_less_nat_alt unat_saturating_sub unat_div_distrib)

lemma lag_player_rule: "pl_lagging (fst (lag_player now limit sc p)) = lag_rule limit sc p"
  by (auto simp: lag_player_def lag_rule_def Let_def behind_iff not_less)

lemma lag_player_keeps [simp]:
  "pl_pid (fst (lag_player now limit sc p)) = pl_pid p"
  "pl_virtual_host (fst (lag_player now limit sc p)) = pl_virtual_host p"
  by (auto simp: lag_player_def Let_def)

lemma check_lag_state:
  "lag_state (snd (check_lag env now g)) =
     lag_state (g\<lparr>gs_players := map (fst \<circ> lag_player now (cfg_sync_limit (gs_cfg g)) (gs_sync_counter g)) (gs_players g)\<rparr>)"
  by (simp add: check_lag_def Let_def comp_def)



section \<open>Dropping\<close>

lemma foldl_kick:
  assumes "distinct (pids (gs_players g))"
  shows "gs_players (foldl (\<lambda>g pid. kick_player pid r c g) g who) =
     map (\<lambda>p. if pl_pid p \<in> set who then p\<lparr>pl_left := Some r, pl_left_code := c\<rparr> else p) (gs_players g)"
  using assms
proof (induction who arbitrary: g)
  case (Cons pid who)
  have "gs_players (foldl (\<lambda>g pid. kick_player pid r c g) (kick_player pid r c g) who) =
      map (\<lambda>p. if pl_pid p \<in> set who then p\<lparr>pl_left := Some r, pl_left_code := c\<rparr> else p)
        (gs_players (kick_player pid r c g))"
    using Cons.prems by (intro Cons.IH) (simp add: kick_player_def)
  then show ?case
    using Cons.prems by (auto simp: kick_player_def by_pid_mut_map)
qed (simp add: map_idI)

lemma mem_pids_filter:
  assumes "distinct (pids ps)" and "p \<in> set ps"
  shows "pl_pid p \<in> set (map pl_pid (filter P ps)) \<longleftrightarrow> P p"
  using assms by (auto simp: distinct_map inj_on_def)



end
