(* ===== verification/Lifecycle.thy ===== *)
theory Lifecycle
  imports Game_Ops W3gs_In
begin

text \<open>
  The life of a game from the countdown to the end (\<^verbatim>\<open>spectre-engine/src/actions.rs\<close> and
  \<^verbatim>\<open>reap_left_players\<close> of \<^verbatim>\<open>state.rs\<close>): loading, the start of play, players that report
  that they have loaded, players that leave, and the fake player of the lobby.
  A load time is kept in nanoseconds where the code compares seconds as floating-point numbers;
  the two orders agree below a month.
\<close>

text \<open>A \<^verbatim>\<open>for\<close> loop whose body may abort.\<close>

fun each :: "('a \<Rightarrow> 'g \<Rightarrow> 'g option) \<Rightarrow> 'a list \<Rightarrow> 'g \<Rightarrow> 'g option" where
  "each f [] g = Some g"
| "each f (x # xs) g = do { g \<leftarrow> f x g; each f xs g }"

section \<open>The start of play\<close>

definition load_time :: "nat \<Rightarrow> 'c player \<Rightarrow> nat" where
  "load_time started p = (case pl_finished_loading_at p of Some t \<Rightarrow> t - started | None \<Rightarrow> 0)"

text \<open>The first player whose load time beats those before it.\<close>

definition load_record ::
    "(nat \<Rightarrow> nat \<Rightarrow> bool) \<Rightarrow> nat \<Rightarrow> 'c player list \<Rightarrow> (bytes \<times> nat) option" where
  "load_record beats started ps =
     foldl (\<lambda>best p. case best of
              Some (_, t) \<Rightarrow> (if beats (load_time started p) t then Some (pl_name p, load_time started p)
                              else best)
            | None \<Rightarrow> Some (pl_name p, load_time started p)) None ps"

definition announce_load_times :: "'c env \<Rightarrow> nat \<Rightarrow> nat \<Rightarrow> 'c game \<Rightarrow> 'c game option" where
  "announce_load_times env now started g =
     (let ps = humans (gs_players g);
          personal = map (\<lambda>p. (pl_pid p, load_time started p)) ps
      in do {
        g \<leftarrow> (case (load_record (<) started ps, load_record (>) started ps) of
                (Some (s_name, s_time), Some (l_name, l_time)) \<Rightarrow> do {
                  g \<leftarrow> send_chat_all env now
                         (str ''Shortest load by player ['' @ s_name @ str ''] was ''
                          @ env_fmt_secs env s_time @ str '' seconds.'') g;
                  send_chat_all env now
                    (str ''Longest load by player ['' @ l_name @ str ''] was ''
                     @ env_fmt_secs env l_time @ str '' seconds.'') g }
              | _ \<Rightarrow> Some g);
        each (\<lambda>(pid, t). send_chat_to env now pid
                (str ''Your loading time was '' @ env_fmt_secs env t @ str '' seconds.'')) personal g
      })"

definition replay_start :: "'c game \<Rightarrow> 'c game" where
  "replay_start g =
     (let h = host_pid g;
          host_name =
            (if gs_virtual_host_pid g \<noteq> 255 \<and> h = gs_virtual_host_pid g
             then cfg_virtual_host_name (gs_cfg g)
             else case by_pid (gs_players g) h of
                    Some p \<Rightarrow> pl_name p | None \<Rightarrow> cfg_virtual_host_name (gs_cfg g))
      in with_replay (\<lambda>rep.
           let rep = replay_set_host rep h host_name;
               rep = foldl (\<lambda>rep p. replay_add_player rep (pl_pid p) (pl_name p)) rep (humans (gs_players g))
           in snd (replay_set_start rep (as_wire_bytes (gs_slots g)) (gs_random_seed g)
                     (mi_layout_style (cfg_map (gs_cfg g))) (mi_num_players (cfg_map (gs_cfg g))))) g)"

definition start_snapshot :: "'c game \<Rightarrow> game_start_snapshot" where
  "start_snapshot g =
     (let m = cfg_map (gs_cfg g);
          raw = put_u32_le (mi_flags m) @ [0] @ put_u16_le (mi_width m) @ put_u16_le (mi_height m)
                @ put_u32_le (mi_crc m) @ mi_path m @ [0]
                @ cfg_virtual_host_name (gs_cfg g) @ [0] @ [0] @ mi_sha1 m
      in \<lparr>snap_game_name = cfg_name (gs_cfg g), snap_map_path = mi_path m, snap_map_size = mi_size m,
          snap_map_info_crc = mi_info m, snap_map_crc = mi_crc m, snap_map_sha1 = mi_sha1 m,
          snap_stat_string = encode_statstring raw, snap_random_seed = gs_random_seed g,
          snap_layout_style = mi_layout_style m, snap_player_slots = mi_num_players m,
          snap_war3_version = 26, snap_is_tft = True, snap_slots = gs_slots g\<rparr>)"

definition relay_start :: "'c game \<Rightarrow> 'c game" where
  "relay_start g =
     foldl (\<lambda>g p.
        let slot = find (\<lambda>s. slot_pid s = pl_pid p) (gs_slots g);
            colour = (case slot of Some s \<Rightarrow> slot_colour s | None \<Rightarrow> 0);
            team = (case slot of Some s \<Rightarrow> slot_team s | None \<Rightarrow> 0);
            race = (case slot of Some s \<Rightarrow> slot_race s | None \<Rightarrow> 0x20)
        in relay_send (RelayPlayerInfo (pl_pid p) (pl_name p) colour team race) g)
       (relay_send (GameStart (start_snapshot g)) g) (humans (gs_players g))"

definition start_player :: "'c player \<Rightarrow> 'c player" where
  "start_player p = p\<lparr>pl_loaded := True, pl_sync_counter := 0, pl_checksums := []\<rparr>"

definition begin_playing :: "'c env \<Rightarrow> nat \<Rightarrow> 'c game \<Rightarrow> 'c game option" where
  "begin_playing env now g =
     (let started_at = gs_started_loading_at g;
          g = g\<lparr>gs_phase := Playing, gs_started_loading_at := None,
                gs_players := map start_player (gs_players g),
                gs_sync_counter := 0, gs_game_ticks := 0\<rparr>
      in do {
        g \<leftarrow> (case started_at of Some started \<Rightarrow> announce_load_times env now started g | None \<Rightarrow> Some g);
        Some (relay_start (replay_start g))
      })"

section \<open>Loading\<close>

definition begin_loading :: "'c env \<Rightarrow> nat \<Rightarrow> 'c game \<Rightarrow> 'c game option" where
  "begin_loading env now g =
     (let g = g\<lparr>gs_phase := Loading, gs_started_loading_at := Some now,
                gs_start_players := human_count (gs_players g)\<rparr>;
          g = (case gs_hcl g of
                 Some hcl \<Rightarrow>
                   (let (ok, ss) = encode_hcl_into_slots hcl (gs_slots g);
                        g = g\<lparr>gs_slots := ss\<rparr>
                    in if ok then send_all_slot_info env now g else g)
               | None \<Rightarrow> g);
          g = broadcast env now countdown_start g;
          g = delete_virtual_host env now g;
          g = broadcast env now countdown_end g;
          g = (case gs_fake_player_pid g of
                 Some fpid \<Rightarrow>
                   broadcast env now (game_loaded_others fpid)
                     (g\<lparr>gs_players := by_pid_mut (gs_players g) fpid (\<lambda>p. p\<lparr>pl_loaded := True\<rparr>)\<rparr>)
               | None \<Rightarrow> g)
      in if list_all pl_loaded (gs_players g) then begin_playing env now g else Some g)"

text \<open>The branch of \<^verbatim>\<open>handle_loaded\<close> for a rejoining player.\<close>

definition rejoin_loaded :: "'c env \<Rightarrow> nat \<Rightarrow> u8 \<Rightarrow> 'c game \<Rightarrow> 'c game" where
  "rejoin_loaded env now pid g =
     (let start_seq = first_seq (gs_full_history g)
      in if start_seq > 0
         then g\<lparr>gs_players := by_pid_mut (gs_players g) pid (\<lambda>p.
                  p\<lparr>pl_rejoin := RejoinNone,
                    pl_left := Some (str ''cannot rejoin: game history too long to replay''),
                    pl_left_code := PLAYERLEAVE_DISCONNECT\<rparr>)\<rparr>
         else let others = map pl_pid (filter (\<lambda>q. pl_pid q \<noteq> pid \<and> \<not> pl_virtual_host q \<and> pl_left q = None)
                                         (gs_players g));
                  g = foldl (\<lambda>g opid. send_to env now pid (game_loaded_others opid) g) g others;
                  g = g\<lparr>gs_players := by_pid_mut (gs_players g) pid (\<lambda>p.
                        p\<lparr>pl_loaded := True, pl_rejoin := RejoinNone,
                          pl_catchup_cursor := Some start_seq, pl_catching_up := True\<rparr>)\<rparr>
              in broadcast env now (game_loaded_others pid) g)"

definition handle_loaded :: "'c env \<Rightarrow> nat \<Rightarrow> u64 \<Rightarrow> 'c game \<Rightarrow> 'c game option" where
  "handle_loaded env now conn_id g =
     (case by_conn (gs_players g) conn_id of
        None \<Rightarrow> Some g
      | Some q \<Rightarrow>
          (let pid = pl_pid q
           in if map_option pl_rejoin (by_pid (gs_players g) pid) = Some AwaitingLoaded
              then Some (rejoin_loaded env now pid g)
              else let g = g\<lparr>gs_players := by_pid_mut (gs_players g) pid (\<lambda>p.
                               p\<lparr>pl_loaded := True, pl_finished_loading_at := Some now\<rparr>)\<rparr>;
                       g = broadcast env now (game_loaded_others pid) g
                   in if list_all pl_loaded (gs_players g) then begin_playing env now g else Some g))"

section \<open>Leaving\<close>

definition reap_one :: "'c env \<Rightarrow> nat \<Rightarrow> 'c game \<Rightarrow> u8 \<times> u32 \<Rightarrow> 'c game" where
  "reap_one env now g = (\<lambda>(pid, left_code).
     let g = (case by_pid (gs_players g) pid of
                Some p \<Rightarrow> g\<lparr>gs_last_player_left := Some (pl_name p, show_ip (pl_external_ip p))\<rparr>
              | None \<Rightarrow> g);
         g = with_replay (\<lambda>rep. if gs_phase g = Loading then replay_add_leaver_loading rep pid 1 left_code
                                else replay_add_leaver rep pid 1 left_code) g;
         g = g\<lparr>gs_players := snd (remove_pid (gs_players g) pid), gs_slots := snd (slot_release (gs_slots g) pid)\<rparr>;
         g = broadcast env now (player_leave_others pid left_code) g
     in if gs_phase g = Lobby then send_all_slot_info env now g else g)"

definition reap_left_players :: "'c env \<Rightarrow> nat \<Rightarrow> 'c game \<Rightarrow> 'c game option" where
  "reap_left_players env now g =
     (let gone = map (\<lambda>p. (pl_pid p, pl_left_code p))
                   (filter (\<lambda>p. \<not> pl_virtual_host p \<and> pl_left p \<noteq> None) (gs_players g))
      in if gone = [] then Some g
         else do {
           g \<leftarrow> (if is_countdown (gs_phase g)
                 then send_chat_all env now (str ''Countdown aborted.'') (g\<lparr>gs_phase := Lobby\<rparr>)
                 else Some g);
           let g = foldl (reap_one env now) (g\<lparr>gs_last_player_left_time := Some now\<rparr>) gone;
           if gs_phase g = Loading \<and> gs_players g \<noteq> [] \<and> list_all pl_loaded (humans (gs_players g))
           then begin_playing env now g else Some g
         })"

section \<open>The fake player and actions\<close>

definition toggle_fake_player :: "'c env \<Rightarrow> nat \<Rightarrow> 'c game \<Rightarrow> bytes option \<times> 'c game" where
  "toggle_fake_player env now g =
     (if gs_phase g \<noteq> Lobby then (None, g)
      else case gs_fake_player_pid g of
             Some fpid \<Rightarrow>
               (let g = g\<lparr>gs_fake_player_pid := None, gs_players := snd (remove_pid (gs_players g) fpid),
                          gs_slots := snd (slot_release (gs_slots g) fpid)\<rparr>;
                    g = broadcast env now (player_leave_others fpid PLAYERLEAVE_LOBBY) g
                in (Some (str ''Fake player removed.''), send_all_slot_info env now g))
           | None \<Rightarrow>
               (case next_free_pid (gs_players g) of
                  None \<Rightarrow> (None, g)
                | Some fpid \<Rightarrow>
                    (case first_open (gs_slots g) of
                       None \<Rightarrow> (None, g)
                     | Some slot_idx \<Rightarrow>
                         (let p = (player_new fpid (str ''FakePlayer'') 0 (env_drained_link env))
                                    \<lparr>pl_virtual_host := False, pl_loaded := True\<rparr>;
                              g = g\<lparr>gs_players := players_insert (gs_players g) p,
                                    gs_slots := snd (occupy_slot (gs_slots g) slot_idx fpid),
                                    gs_fake_player_pid := Some fpid\<rparr>;
                              g = broadcast_result env now
                                    (player_info fpid (str ''FakePlayer'') [0, 0, 0, 0] [0, 0, 0, 0]) g
                          in (Some (str ''Fake player added.''), send_all_slot_info env now g)))))"

definition handle_action :: "u64 \<Rightarrow> bytes \<Rightarrow> 'c game \<Rightarrow> 'c game" where
  "handle_action conn_id payload g =
     (case by_conn (gs_players g) conn_id of
        None \<Rightarrow> g
      | Some q \<Rightarrow>
          (let pid = pl_pid q
           in if gs_phase g \<noteq> Loading \<and> gs_phase g \<noteq> Playing
              then kick_player pid (str ''Invalid action packet'') PLAYERLEAVE_LOST g
              else case outgoing_action_decode payload of
                     Inl _ \<Rightarrow> g
                   | Inr a \<Rightarrow>
                       (if length (oa_data a) + 3 > 1027
                        then kick_player pid (str ''Invalid action packet'') PLAYERLEAVE_LOST g
                        else g\<lparr>gs_actions := gs_actions g @ [\<lparr>ab_pid = pid, ab_data = oa_data a\<rparr>]\<rparr>)))"

end
