(* ===== verification/Actions.thy ===== *)
theory Actions
  imports Lifecycle Desync Lag Catchup
begin

text \<open>
  The action tick (\<^verbatim>\<open>spectre-engine/src/actions.rs\<close>): the queued actions are sent in batches that
  fit a packet, first the overflow packets and then the packet that advances the game
  time; and what the end of a game gives to the store.
\<close>

section \<open>Operations\<close>

abbreviation "MAX_ACTION_PAYLOAD \<equiv> (1452 :: nat)"

definition saturating_mul :: "'a::len word \<Rightarrow> 'a word \<Rightarrow> 'a word" where
  "saturating_mul a b = (if unat a * unat b < 2 ^ LENGTH('a) then a * b else - 1)"

text \<open>The overflow packet: to the relay, to the replay and to every player.\<close>

definition flush_overflow :: "'c env \<Rightarrow> nat \<Rightarrow> action_block list \<Rightarrow> 'c game \<Rightarrow> 'c game" where
  "flush_overflow env now batch g =
     (case incoming_action2 (env_crc32 env) batch of
        Inr b \<Rightarrow> broadcast env now b
                  (with_replay (\<lambda>rep. replay_add_timeslot2 rep (encode_actions_raw batch))
                     (relay_send (GameBlock b) g))
      | Inl _ \<Rightarrow> g)"

definition flush_main :: "'c env \<Rightarrow> nat \<Rightarrow> u16 \<Rightarrow> action_block list \<Rightarrow> 'c game \<Rightarrow> 'c game" where
  "flush_main env now send_interval batch g =
     (case incoming_action (env_crc32 env) batch send_interval of
        Inr b \<Rightarrow> broadcast env now b
                  (with_replay (\<lambda>rep. replay_add_timeslot rep send_interval (encode_actions_raw batch))
                     (relay_send (GameBlock b) g))
      | Inl _ \<Rightarrow> g)"

text \<open>The statistics of an action, and the winner the first time they report one.\<close>

definition feed_stats :: "bytes \<Rightarrow> 'c game \<Rightarrow> bytes option \<Rightarrow> 'c game \<times> bytes option" where
  "feed_stats data g winner =
     (case gs_dota g of
        None \<Rightarrow> (g, winner)
      | Some dota \<Rightarrow>
          (let (over, dota) = dota_process_action dota data
           in (g\<lparr>gs_dota := Some dota\<rparr>,
               if over \<and> gs_game_over_time g = None \<and> winner = None
               then Some (format_winner dota) else winner)))"

fun send_queue ::
    "'c env \<Rightarrow> nat \<Rightarrow> action_block list \<Rightarrow> action_block list \<Rightarrow> nat \<Rightarrow> bytes option \<Rightarrow> 'c game
     \<Rightarrow> 'c game \<times> action_block list \<times> bytes option" where
  "send_queue env now [] batch batch_len winner g = (g, batch, winner)"
| "send_queue env now (action # queued) batch batch_len winner g =
     (let (g, winner) = feed_stats (ab_data action) g winner;
          len = wire_len action
      in if batch_len + len > MAX_ACTION_PAYLOAD \<and> batch \<noteq> []
         then send_queue env now queued [action] len winner (flush_overflow env now batch g)
         else send_queue env now queued (batch @ [action]) (batch_len + len) winner g)"

definition send_all_actions :: "'c env \<Rightarrow> nat \<Rightarrow> u32 \<Rightarrow> 'c game \<Rightarrow> 'c game option" where
  "send_all_actions env now skipped g =
     (let latency_ms = (of_nat (as_millis (ts_period (gs_tick g))) :: u32);
          elapsed = saturating_mul latency_ms (skipped + 1);
          send_interval = (ucast (min elapsed 65535) :: u16);
          queued = gs_actions g;
          g = g\<lparr>gs_game_ticks := gs_game_ticks g + elapsed, gs_sync_counter := gs_sync_counter g + 1,
                gs_actions := []\<rparr>;
          (g, batch, winner) = send_queue env now queued [] 0 None g
      in do {
        g \<leftarrow> (case winner of
                Some w \<Rightarrow>
                  map_option (\<lambda>g. g\<lparr>gs_game_over_time := Some now\<rparr>)
                    (send_chat_all env now
                      (str ''Game over detected! Winner: '' @ w @ str ''. Game will close in 60s.'') g)
              | None \<Rightarrow> Some g);
        Some (flush_main env now send_interval batch g)
      })"

text \<open>\<^verbatim>\<open>save_game_data\<close>; the wall clock in seconds is the argument \<open>now_sec\<close>.\<close>

definition dota_record_of :: "dota_player_stats \<Rightarrow> dota_player_record" where
  "dota_record_of p =
     \<lparr>dr_colour = dp_colour p, dr_name = dp_name p, dr_hero = dp_hero p, dr_kills = dp_kills p,
      dr_deaths = dp_deaths p, dr_assists = dp_assists p, dr_creep_kills = dp_creep_kills p,
      dr_creep_denies = dp_creep_denies p, dr_neutral_kills = dp_neutral_kills p,
      dr_tower_kills = dp_tower_kills p, dr_rax_kills = dp_rax_kills p,
      dr_courier_kills = dp_courier_kills p\<rparr>"

definition save_game_data :: "nat \<Rightarrow> nat \<Rightarrow> 'c game \<Rightarrow> 'c game" where
  "save_game_data now now_sec g =
     (case gs_store g of
        None \<Rightarrow> g
      | Some cmds \<Rightarrow>
          (let started_sec = int now_sec - int (as_secs (elapsed now (gs_created_at g)));
               log = LogGame (cfg_name (gs_cfg g)) (mi_path (cfg_map (gs_cfg g))) started_sec (int now_sec)
                       (map pl_name (humans (gs_players g)));
               dota = (case gs_dota g of
                         None \<Rightarrow> []
                       | Some d \<Rightarrow>
                           [LogDotAGame (cfg_name (gs_cfg g)) (sd_winner d)
                              (sd_duration_min d * 60 + sd_duration_sec d) (sd_tree_hp d) (sd_throne_hp d)
                              (map (dota_record_of \<circ> snd) (sd_players d))])
           in g\<lparr>gs_store := Some (cmds @ [log] @ dota)\<rparr>))"

section \<open>Batches\<close>

text \<open>
  The specification: the queue cut greedily into batches. Every batch but the last is sent in
  an overflow packet, the last one in the packet that advances time.
\<close>

fun cut_batches :: "action_block list \<Rightarrow> action_block list \<Rightarrow> action_block list list" where
  "cut_batches batch [] = [batch]"
| "cut_batches batch (a # as) =
     (if sum_list (map wire_len batch) + wire_len a > MAX_ACTION_PAYLOAD \<and> batch \<noteq> []
      then batch # cut_batches [a] as else cut_batches (batch @ [a]) as)"

definition packet2 :: "'c env \<Rightarrow> action_block list \<Rightarrow> bytes" where
  "packet2 env batch = expect (incoming_action2 (env_crc32 env) batch)"

definition action_packets :: "'c env \<Rightarrow> u16 \<Rightarrow> action_block list \<Rightarrow> bytes list" where
  "action_packets env interval queued =
     (let bs = cut_batches [] queued
      in map (packet2 env) (butlast bs) @ [expect (incoming_action (env_crc32 env) (last bs) interval)])"

definition small_actions :: "action_block list \<Rightarrow> bool" where
  "small_actions as \<longleftrightarrow> (\<forall>a \<in> set as. wire_len a \<le> 1027)"

lemma cut_batches_concat: "concat (cut_batches batch as) = batch @ as"
  by (induction batch as rule: cut_batches.induct) auto

lemma cut_batches_nonempty [simp]: "cut_batches batch as \<noteq> []"
  by (induction batch as rule: cut_batches.induct) auto

lemma cut_batches_bound:
  "small_actions as \<Longrightarrow> sum_list (map wire_len batch) \<le> MAX_ACTION_PAYLOAD \<Longrightarrow>
   b \<in> set (cut_batches batch as) \<Longrightarrow> sum_list (map wire_len b) \<le> MAX_ACTION_PAYLOAD"
proof (induction batch as rule: cut_batches.induct)
  case (2 batch a as)
  then have a: "wire_len a \<le> 1027" "small_actions as" by (simp_all add: small_actions_def)
  consider "sum_list (map wire_len batch) + wire_len a > MAX_ACTION_PAYLOAD" "batch \<noteq> []"
    | "sum_list (map wire_len batch) + wire_len a \<le> MAX_ACTION_PAYLOAD" | "batch = []" by linarith
  then show ?case
  proof cases
    case 1
    then show ?thesis using "2.prems" "2.IH"(1) a by auto
  next
    case 2
    then show ?thesis using "2.prems" "2.IH"(2) a by auto
  next
    case 3
    then show ?thesis using "2.prems" "2.IH"(2) a by auto
  qed
qed simp

lemma cut_batches_no_empty:
  "b \<in> set (butlast (cut_batches batch as)) \<Longrightarrow> b \<noteq> []"
  by (induction batch as rule: cut_batches.induct) (auto split: if_splits)

lemma fit_bounded:
  assumes "sum_list (map wire_len b) \<le> MAX_ACTION_PAYLOAD"
  shows "actions_fit b"
proof -
  have "length (ab_data a) \<le> 65535" if "a \<in> set b" for a
    using that assms member_le_sum_list [of "wire_len a" "map wire_len b"] by (auto simp: wire_len_def)
  with assms show ?thesis by (simp add: actions_fit_def)
qed

lemma batches_fit:
  "small_actions as \<Longrightarrow> b \<in> set (cut_batches [] as) \<Longrightarrow> actions_fit b"
  by (rule fit_bounded, rule cut_batches_bound [of as "[]"]) simp_all

lemma incoming_action2_ok: "actions_fit b \<Longrightarrow> is_ok (incoming_action2 crc b)"
  by (auto simp: incoming_action2_def actions_fit_def action_payload_ok w3gs_frame_ok_iff)

lemma packet2: "actions_fit b \<Longrightarrow> incoming_action2 (env_crc32 env) b = Inr (packet2 env b)"
  unfolding packet2_def by (rule expect_is_ok) (rule incoming_action2_ok)

section \<open>What was sent\<close>

text \<open>
  The broadcasts between two states, oldest first, and the commands given to the relay. Every
  player sees the same broadcasts, and the log a rejoining player is fed from records them.
\<close>

definition sent :: "'c env \<Rightarrow> nat \<Rightarrow> bytes list \<Rightarrow> 'c game \<Rightarrow> 'c game \<Rightarrow> bool" where
  "sent env now log g g' \<longleftrightarrow> gs_phase g' = gs_phase g \<and> gs_actions g' = gs_actions g
     \<and> gs_sync_counter g' = gs_sync_counter g
     \<and> gs_players g' = foldl (\<lambda>ps b. map (broadcast_player env now b) ps) (gs_players g) log
     \<and> gs_full_history g' =
         (if gs_phase g = Playing then foldl history_push (gs_full_history g) log else gs_full_history g)"

definition relayed :: "relay_cmd list \<Rightarrow> 'c game \<Rightarrow> 'c game \<Rightarrow> bool" where
  "relayed cs g g' \<longleftrightarrow> gs_relay g' = map_option (\<lambda>r. r @ cs) (gs_relay g)"

definition game_blocks :: "relay_cmd list \<Rightarrow> bytes list" where
  "game_blocks cs = concat (map (\<lambda>c. case c of GameBlock b \<Rightarrow> [b] | _ \<Rightarrow> []) cs)"

definition is_action_packet :: "bytes \<Rightarrow> bool" where
  "is_action_packet b \<longleftrightarrow> length b \<ge> 4 \<and> (b ! 1 = INCOMING_ACTION \<or> b ! 1 = INCOMING_ACTION2)"

lemma sent_refl: "sent env now [] g g"
  by (simp add: sent_def)

lemma sent_trans: "sent env now l1 g1 g2 \<Longrightarrow> sent env now l2 g2 g3 \<Longrightarrow> sent env now (l1 @ l2) g1 g3"
  by (simp add: sent_def)

lemma relayed_refl: "relayed [] g g"
  by (simp add: relayed_def option.map_ident)

lemma relayed_trans: "relayed c1 g1 g2 \<Longrightarrow> relayed c2 g2 g3 \<Longrightarrow> relayed (c1 @ c2) g1 g3"
  by (simp add: relayed_def option.map_comp comp_def)

lemma game_blocks_append [simp]: "game_blocks (xs @ ys) = game_blocks xs @ game_blocks ys"
  by (simp add: game_blocks_def)

lemma game_blocks_simps [simp]: "game_blocks [] = []" "game_blocks [GameBlock b] = [b]"
  "game_blocks [ViewerChat n m] = []"
  by (simp_all add: game_blocks_def)

lemma sent_broadcast:
  "sent env now [b] g (broadcast env now b (with_replay f (relay_send c g)))"
  by (simp add: sent_def broadcast_def with_replay_def relay_send_def)

lemma relayed_broadcast:
  "relayed [c] g (broadcast env now b (with_replay f (relay_send c g)))"
  by (simp add: relayed_def broadcast_def with_replay_def relay_send_def)

lemma frame_id_at: "w3gs_frame i p = Inr b \<Longrightarrow> length b \<ge> 4 \<and> b ! 1 = i"
  by (auto simp: w3gs_encode_def encode_with_def to_le_2 Let_def split: if_splits)

lemma packet2_is_action: "actions_fit b \<Longrightarrow> is_action_packet (packet2 env b)"
  using packet2 [of b env]
  by (auto simp: incoming_action2_def and_then_eq_Inr_iff is_action_packet_def dest!: frame_id_at)

lemma main_packet:
  assumes "actions_fit b"
  obtains m where "incoming_action (env_crc32 env) b si = Inr m" "is_action_packet m"
proof -
  obtain m where m: "incoming_action (env_crc32 env) b si = Inr m"
    using assms incoming_action_ok_iff [of "env_crc32 env" b si] by (auto simp: is_ok_def split: sum.splits)
  then have "is_action_packet m"
    by (auto simp: incoming_action_def and_then_eq_Inr_iff is_action_packet_def dest!: frame_id_at)
  with m show thesis by (rule that)
qed

lemma flush_overflow_sent:
  assumes "actions_fit b"
  shows "sent env now [packet2 env b] g (flush_overflow env now b g)"
    and "relayed [GameBlock (packet2 env b)] g (flush_overflow env now b g)"
  by (simp_all add: flush_overflow_def packet2 [OF assms] sent_broadcast relayed_broadcast)

lemma feed_stats_sent:
  assumes "feed_stats d g w = (g', w')"
  shows "sent env now [] g g'" and "relayed [] g g'"
  using assms
  by (auto simp: feed_stats_def sent_def relayed_def option.map_ident split: option.splits prod.splits)

lemma send_queue_sent:
  assumes "\<forall>b \<in> set (cut_batches batch queued). actions_fit b"
    and "send_queue env now queued batch (sum_list (map wire_len batch)) w g = (g', rest, w')"
  shows "let ps = map (packet2 env) (butlast (cut_batches batch queued))
         in sent env now ps g g' \<and> relayed (map GameBlock ps) g g' \<and> rest = last (cut_batches batch queued)"
  using assms
proof (induction queued arbitrary: batch w g)
  case Nil
  then show ?case by (simp add: sent_refl relayed_refl)
next
  case (Cons a queued)
  obtain g1 w1 where fs: "feed_stats (ab_data a) g w = (g1, w1)" by (cases "feed_stats (ab_data a) g w")
  note f = feed_stats_sent(1) [OF fs, of env now] feed_stats_sent(2) [OF fs]
  show ?case
  proof (cases "sum_list (map wire_len batch) + wire_len a > MAX_ACTION_PAYLOAD \<and> batch \<noteq> []")
    case True
    let ?g2 = "flush_overflow env now batch g1"
    have fit: "actions_fit batch" using Cons.prems(1) True by simp
    have "let ps = map (packet2 env) (butlast (cut_batches [a] queued))
       in sent env now ps ?g2 g' \<and> relayed (map GameBlock ps) ?g2 g' \<and> rest = last (cut_batches [a] queued)"
      using Cons.prems True fs by (intro Cons.IH [of "[a]" w1]) simp_all
    moreover note flush_overflow_sent(1) [OF fit, of env now g1] flush_overflow_sent(2) [OF fit, of env g1 now]
    ultimately show ?thesis
      using True f sent_trans [OF f(1) sent_trans] relayed_trans [OF f(2) relayed_trans]
      by (fastforce simp: Let_def)
  next
    case False
    have "let ps = map (packet2 env) (butlast (cut_batches (batch @ [a]) queued))
       in sent env now ps g1 g' \<and> relayed (map GameBlock ps) g1 g'
          \<and> rest = last (cut_batches (batch @ [a]) queued)"
      using Cons.prems False fs by (intro Cons.IH [of "batch @ [a]" w1]) (auto simp: Let_def)
    then show ?thesis
      using False sent_trans [OF f(1), simplified] relayed_trans [OF f(2), simplified]
      by (auto simp: Let_def)
  qed
qed

lemma send_chat_all_sent:
  assumes "send_chat_all env now msg g = Some g'"
  obtains log cs where "sent env now log g g'" "relayed cs g g'"
    "\<forall>b \<in> set log. \<not> is_action_packet b" "game_blocks cs = []"
proof -
  note result = that
  let ?c = "ViewerChat (cfg_virtual_host_name (gs_cfg g)) msg"
  have step: thesis if g': "g' = broadcast_result env now (chat_from_host f ps i e m) (with_replay h (relay_send ?c g))"
    for f ps i e m h
  proof (cases "chat_from_host f ps i e m")
    case (Inl x)
    then show thesis
      using result [of "[]" "[?c]"] g'
      by (simp add: broadcast_result_def sent_def relayed_def with_replay_def relay_send_def)
  next
    case (Inr b)
    then have "\<not> is_action_packet b"
      by (auto simp: chat_from_host_def is_action_packet_def split: if_splits dest!: frame_id_at)
    with Inr show thesis
      using result [of "[b]" "[?c]"] g' by (simp add: broadcast_result_def sent_broadcast relayed_broadcast)
  qed
  have same: thesis if "g' = g"
    by (rule result [of "[]" "[]"]) (simp_all add: that sent_refl relayed_refl)
  show thesis
    using assms step [where h = "\<lambda>r. r"] step same
    by (auto simp: send_chat_all_def Let_def bind_eq_Some_conv split: if_splits)
qed

lemma winner_short: "length (format_winner d) \<le> 10"
  by (simp add: format_winner_def str_def)

lemma feed_stats_winner:
  "feed_stats d g w = (g', w') \<Longrightarrow> (\<forall>x. w = Some x \<longrightarrow> length x \<le> 10) \<Longrightarrow> w' = Some x \<Longrightarrow> length x \<le> 10"
  using winner_short
  by (fastforce simp: feed_stats_def Let_def split: option.splits prod.splits if_splits)

lemma send_queue_winner:
  "send_queue env now queued batch n w g = (g', rest, w') \<Longrightarrow> (\<forall>x. w = Some x \<longrightarrow> length x \<le> 10)
   \<Longrightarrow> w' = Some x \<Longrightarrow> length x \<le> 10"
proof (induction queued arbitrary: batch n w g)
  case (Cons a queued)
  obtain g1 w1 where fs: "feed_stats (ab_data a) g w = (g1, w1)" by (cases "feed_stats (ab_data a) g w")
  have "\<forall>x. w1 = Some x \<longrightarrow> length x \<le> 10" using feed_stats_winner [OF fs Cons.prems(2)] by blast
  with Cons fs show ?case by (auto simp: Let_def split: if_splits)
qed simp

text \<open>The announcement of the winner, which always fits.\<close>

lemma announce_winner_sent:
  assumes "\<And>x. w = Some x \<Longrightarrow> length x \<le> 10"
  shows "\<exists>g2 log cs. (case w of
        Some w \<Rightarrow> map_option (\<lambda>g. g\<lparr>gs_game_over_time := Some now\<rparr>)
          (send_chat_all env now (str ''Game over detected! Winner: '' @ w @ str ''. Game will close in 60s.'') g)
      | None \<Rightarrow> Some g) = Some g2
    \<and> sent env now log g g2 \<and> relayed cs g g2 \<and> (\<forall>b \<in> set log. \<not> is_action_packet b) \<and> game_blocks cs = []"
proof (cases w)
  case None
  then show ?thesis by (intro exI [of _ g] exI [of _ "[]"]) (simp add: sent_refl relayed_refl)
next
  case (Some x)
  let ?msg = "str ''Game over detected! Winner: '' @ x @ str ''. Game will close in 60s.''"
  have "length ?msg \<le> 127" using assms [OF Some] by (simp add: str_def)
  then obtain g1 where g1: "send_chat_all env now ?msg g = Some g1" by (rule send_chat_all_short)
  then obtain log cs where "sent env now log g g1" "relayed cs g g1"
    "\<forall>b \<in> set log. \<not> is_action_packet b" "game_blocks cs = []"
    by (rule send_chat_all_sent)
  with g1 Some show ?thesis
    by (intro exI [of _ "g1\<lparr>gs_game_over_time := Some now\<rparr>"] exI [of _ log] exI [of _ cs])
       (simp add: sent_def relayed_def)
qed

section \<open>Every action exactly once\<close>

definition send_interval_of :: "'c game \<Rightarrow> u32 \<Rightarrow> u16" where
  "send_interval_of g skipped =
     ucast (min (saturating_mul (of_nat (as_millis (ts_period (gs_tick g)))) (skipped + 1)) (65535 :: u32))"

text \<open>
  C2. A tick of a playing game sends every queued action exactly once and in order: the queue
  is cut into batches of at most 1452 bytes, every batch but the last one in an overflow packet and
  the last in the packet that advances time; each player, the log for rejoining players and
  the relay get exactly these packets in this order (besides the chat message that announces
  the end of the game), the queue is empty afterwards and the turn counter one higher. Sending
  never aborts.
\<close>

theorem send_all_actions_exact:
  assumes "small_actions (gs_actions g)" and "gs_phase g = Playing"
  shows "\<exists>g' bs log cs.
     send_all_actions env now skipped g = Some g'
     \<and> concat bs = gs_actions g \<and> (\<forall>b \<in> set bs. sum_list (map wire_len b) \<le> 1452) \<and> [] \<notin> set (butlast bs)
     \<and> gs_players g' = foldl (\<lambda>ps b. map (broadcast_player env now b) ps) (gs_players g) log
     \<and> gs_full_history g' = foldl history_push (gs_full_history g) log
     \<and> gs_relay g' = map_option (\<lambda>r. r @ cs) (gs_relay g)
     \<and> map Inr (filter is_action_packet log) =
         map (incoming_action2 (env_crc32 env)) (butlast bs)
         @ [incoming_action (env_crc32 env) (last bs) (send_interval_of g skipped)]
     \<and> game_blocks cs = filter is_action_packet log
     \<and> gs_actions g' = [] \<and> gs_sync_counter g' = gs_sync_counter g + 1"
proof -
  let ?bs = "cut_batches [] (gs_actions g)"
  let ?g0 = "g\<lparr>gs_game_ticks := gs_game_ticks g
                 + saturating_mul (of_nat (as_millis (ts_period (gs_tick g)))) (skipped + 1),
               gs_sync_counter := gs_sync_counter g + 1, gs_actions := []\<rparr>"
  have fit: "\<forall>b \<in> set ?bs. actions_fit b" using batches_fit [OF assms(1)] by blast
  have fit': "actions_fit b" if "b \<in> set (butlast ?bs)" for b
    using that fit in_set_butlastD by fast
  have bound: "\<forall>b \<in> set ?bs. sum_list (map wire_len b) \<le> 1452"
    using cut_batches_bound [OF assms(1), of "[]"] by simp
  obtain g1 rest w where q: "send_queue env now (gs_actions g) [] 0 None ?g0 = (g1, rest, w)"
    by (cases "send_queue env now (gs_actions g) [] 0 None ?g0") auto
  let ?ps = "map (packet2 env) (butlast ?bs)"
  have s1: "sent env now ?ps ?g0 g1" "relayed (map GameBlock ?ps) ?g0 g1" "rest = last ?bs"
    using send_queue_sent [of "[]" "gs_actions g" env now None ?g0 g1 rest w] q fit by (simp_all add: Let_def)
  obtain g2 log cs where g2: "(case w of
        Some w \<Rightarrow> map_option (\<lambda>g. g\<lparr>gs_game_over_time := Some now\<rparr>)
          (send_chat_all env now (str ''Game over detected! Winner: '' @ w @ str ''. Game will close in 60s.'') g1)
      | None \<Rightarrow> Some g1) = Some g2"
    and s2: "sent env now log g1 g2" "relayed cs g1 g2" "\<forall>b \<in> set log. \<not> is_action_packet b" "game_blocks cs = []"
    using announce_winner_sent [where w = w and env = env and now = now and g = g1] send_queue_winner [OF q] by auto
  let ?g3 = "flush_main env now (send_interval_of g skipped) rest g2"
  have fl: "actions_fit (last ?bs)" using fit by (simp add: last_in_set)
  obtain m where m: "incoming_action (env_crc32 env) (last ?bs) (send_interval_of g skipped) = Inr m"
    "is_action_packet m" by (rule main_packet [OF fl])
  have s3: "sent env now [m] g2 ?g3" "relayed [GameBlock m] g2 ?g3"
    by (simp_all add: flush_main_def s1(3) m(1) sent_broadcast relayed_broadcast)
  have eq: "send_all_actions env now skipped g = Some ?g3"
    using q g2 by (simp add: send_all_actions_def send_interval_of_def Let_def)
  note s = sent_trans [OF s1(1) sent_trans [OF s2(1) s3(1)]]
  note r = relayed_trans [OF s1(2) relayed_trans [OF s2(2) s3(2)]]
  have act: "filter is_action_packet (?ps @ log @ [m]) = ?ps @ [m]"
    using s2(3) m(2) by (auto simp: filter_empty_conv intro!: filter_True packet2_is_action fit')
  have "map Inr (?ps @ [m]) = map (incoming_action2 (env_crc32 env)) (butlast ?bs)
      @ [incoming_action (env_crc32 env) (last ?bs) (send_interval_of g skipped)]"
    using m(1) by (auto simp: packet2 fit')
  moreover have "game_blocks (map GameBlock ?ps @ cs @ [GameBlock m]) = ?ps @ [m]"
    using s2(4) by (simp add: game_blocks_def comp_def)
  ultimately show ?thesis
    using eq s r bound cut_batches_concat [of "[]" "gs_actions g"] cut_batches_no_empty [of "[]" "[]"] assms(2)
    by (intro exI [of _ ?g3] exI [of _ ?bs] exI [of _ "?ps @ log @ [m]"]
          exI [of _ "map GameBlock ?ps @ cs @ [GameBlock m]"])
       (auto simp: sent_def relayed_def act simp del: filter_append map_append game_blocks_append)
qed

theorem send_all_actions_exact_witness:
  "\<exists>g' bs. send_all_actions witness_env 5 0
        ((witness_game Playing [])\<lparr>gs_actions := replicate 2 \<lparr>ab_pid = 1, ab_data = replicate 800 7\<rparr>\<rparr>) = Some g'
     \<and> concat bs = replicate 2 \<lparr>ab_pid = 1, ab_data = replicate 800 7\<rparr>
     \<and> list_all (\<lambda>b. sum_list (map wire_len b) \<le> 1452) bs
     \<and> gs_actions g' = [] \<and> gs_sync_counter g' = 1"
proof -
  let ?g = "(witness_game Playing [])\<lparr>gs_actions := replicate 2 \<lparr>ab_pid = 1, ab_data = replicate 800 7\<rparr>\<rparr>"
  have "small_actions (gs_actions ?g)" "gs_phase ?g = Playing" "gs_sync_counter ?g = 0"
    by (simp_all add: small_actions_def wire_len_def) (simp add: witness_game_def game_new_def)
  then show ?thesis
    using send_all_actions_exact [of ?g witness_env 5 0] by (fastforce simp: list_all_iff)
qed

text \<open>What a client sends keeps the queue within the bound the batches need.\<close>

lemma handle_action_small:
  "small_actions (gs_actions g) \<Longrightarrow> small_actions (gs_actions (handle_action conn_id payload g))"
  by (auto simp: handle_action_def kick_player_def small_actions_def wire_len_def Let_def
      split: option.splits sum.splits)

end
