(* ===== verification/Mapxfer.thy ===== *)
theory Mapxfer
  imports Lifecycle
begin

text \<open>
  Map downloads, pings and drop requests (\<^verbatim>\<open>spectre-engine/src/mapxfer.rs\<close>). A download keeps how
  far the map was sent and how far the client acknowledged it; each tick of the lobby
  sends parts within the window, the number of downloaders and the speed limit.
\<close>

section \<open>Operations\<close>

abbreviation "MAP_CHUNK \<equiv> (1442 :: nat)"

definition download_new :: "nat \<Rightarrow> u8 \<Rightarrow> download" where
  "download_new now pid = \<lparr>dl_pid = pid, dl_sent_upto = 0, dl_acked_upto = 0, dl_started = now\<rparr>"

definition update_player :: "u8 \<Rightarrow> ('c player \<Rightarrow> 'c player) \<Rightarrow> 'c game \<Rightarrow> 'c game" where
  "update_player pid f g = g\<lparr>gs_players := by_pid_mut (gs_players g) pid f\<rparr>"

definition handle_map_size :: "'c env \<Rightarrow> nat \<Rightarrow> u64 \<Rightarrow> bytes \<Rightarrow> 'c game \<Rightarrow> 'c game option" where
  "handle_map_size env now conn_id payload g =
     (case by_conn (gs_players g) conn_id of
        None \<Rightarrow> Some g
      | Some q \<Rightarrow>
          (let pid = pl_pid q in
           if map_option pl_rejoin (by_pid (gs_players g) pid) = Some AwaitingMapSize
           then Some (update_player pid (\<lambda>p. p\<lparr>pl_rejoin := AwaitingLoaded\<rparr>)
                       (send_to env now pid countdown_end (send_to env now pid countdown_start g)))
           else case map_size_report_decode payload of
             Inl _ \<Rightarrow> Some g
           | Inr report \<Rightarrow>
               if msr_map_size report \<ge> mi_size (cfg_map (gs_cfg g))
               then Some (update_player pid (\<lambda>p. p\<lparr>pl_download_status := 100\<rparr>) g)
               else if mi_data (cfg_map (gs_cfg g)) = None \<or> cfg_allow_downloads (gs_cfg g) = 0
               then reap_left_players env now
                      (kick_player pid (str ''lacks map and downloads are disabled'') PLAYERLEAVE_DISCONNECT g)
               else if cfg_allow_downloads (gs_cfg g) = 2
                    \<and> \<not> (case by_pid (gs_players g) pid of Some p \<Rightarrow> pl_download_allowed p | None \<Rightarrow> False)
               then Some g
               else if list_ex (\<lambda>d. dl_pid d = pid) (gs_downloads g) then Some g
               else let host = host_pid g;
                        d = (download_new now pid)\<lparr>dl_sent_upto := msr_map_size report,
                                                   dl_acked_upto := msr_map_size report\<rparr>
                    in Some (send_to env now pid (start_download host)
                              (g\<lparr>gs_downloads := gs_downloads g @ [d]\<rparr>))))"

text \<open>The percentage of the map a position stands for, in 64-bit arithmetic.\<close>

definition download_percent :: "u32 \<Rightarrow> u32 \<Rightarrow> u8" where
  "download_percent pos map_len = ucast (min ((ucast pos :: u64) * 100 div ucast map_len) 100)"

definition handle_map_part_ok :: "u64 \<Rightarrow> bytes \<Rightarrow> 'c game \<Rightarrow> 'c game" where
  "handle_map_part_ok conn_id payload g =
     (case by_conn (gs_players g) conn_id of
        None \<Rightarrow> g
      | Some q \<Rightarrow>
          (case decode_map_part_ok payload of
             Inl _ \<Rightarrow> g
           | Inr acked \<Rightarrow>
               (let pid = pl_pid q;
                    total = max (mi_size (cfg_map (gs_cfg g))) 1;
                    g = g\<lparr>gs_downloads := upd_first (\<lambda>d. dl_pid d = pid) (\<lambda>d. d\<lparr>dl_acked_upto := acked\<rparr>)
                                            (gs_downloads g)\<rparr>
                in update_player pid (\<lambda>p. p\<lparr>pl_download_status := download_percent acked total\<rparr>) g)))"

definition handle_map_part_not_ok :: "u64 \<Rightarrow> bytes \<Rightarrow> 'c game \<Rightarrow> 'c game" where
  "handle_map_part_not_ok conn_id payload g =
     (case by_conn (gs_players g) conn_id of
        None \<Rightarrow> g
      | Some q \<Rightarrow>
          (case decode_map_part_not_ok payload of
             Inl _ \<Rightarrow> g
           | Inr nack_pos \<Rightarrow>
               (let pid = pl_pid q;
                    total = max (mi_size (cfg_map (gs_cfg g))) 1;
                    g = g\<lparr>gs_downloads := upd_first (\<lambda>d. dl_pid d = pid)
                            (\<lambda>d. d\<lparr>dl_sent_upto := nack_pos, dl_acked_upto := nack_pos\<rparr>) (gs_downloads g)\<rparr>
                in update_player pid (\<lambda>p. p\<lparr>pl_download_status := download_percent nack_pos total\<rparr>) g)))"

definition pong_reason :: "u32 \<Rightarrow> u32 \<Rightarrow> bytes" where
  "pong_reason avg limit =
     str ''autokicked for high ping ('' @ show_word avg @ str ''ms > '' @ show_word limit @ str ''ms)''"

definition handle_pong :: "nat \<Rightarrow> u64 \<Rightarrow> bytes \<Rightarrow> 'c game \<Rightarrow> 'c game" where
  "handle_pong now conn_id payload g =
     (case decode_pong_to_host payload of
        Inl _ \<Rightarrow> g
      | Inr pong \<Rightarrow>
          if pong = 1 then g
          else let now_ms = (of_nat (as_millis (elapsed now (gs_created_at g))) :: u32);
                   latency_raw = saturating_sub now_ms pong;
                   ping = (if cfg_lc_pings (gs_cfg g) then latency_raw div 2 else latency_raw);
                   limit = cfg_autokick_ping (gs_cfg g);
                   g' = g\<lparr>gs_players := by_conn_mut (gs_players g) conn_id (\<lambda>p. record_ping p ping)\<rparr>
               in case by_conn (gs_players g') conn_id of
                    None \<Rightarrow> g'
                  | Some p \<Rightarrow>
                      if gs_phase g = Lobby \<and> \<not> pl_reserved p \<and> limit > 0 \<and> length (pl_ping_history p) \<ge> 3
                      then (case average_ping p of
                              Some avg \<Rightarrow>
                                (if avg > limit
                                 then kick_player (pl_pid p) (pong_reason avg limit) PLAYERLEAVE_DISCONNECT g'
                                 else g')
                            | None \<Rightarrow> g')
                      else g')"

definition handle_drop_request :: "'c game \<Rightarrow> 'c game" where
  "handle_drop_request g =
     (if \<not> gs_lagging g then g
      else foldl (\<lambda>g lpid. kick_player lpid (str ''was dropped by vote'') PLAYERLEAVE_DISCONNECT g) g
             (map pl_pid (filter (\<lambda>p. pl_lagging p \<and> pl_left p = None) (gs_players g))))"

text \<open>
  The inner loop of \<^verbatim>\<open>pump_downloads\<close> for one download: the position, the bytes counted
  against the speed limit and the packets. For a map of four gigabytes or more the
  position wraps and the loop might not end.
\<close>

record pump_limits =
  pmp_host :: u8
  pmp_data :: bytes
  pmp_total :: u32
  pmp_max_speed :: nat

partial_function (option) send_parts ::
    "'c env \<Rightarrow> pump_limits \<Rightarrow> u8 \<Rightarrow> u32 \<Rightarrow> u32 \<Rightarrow> nat \<Rightarrow> (u8 \<times> bytes) list
     \<Rightarrow> (u32 \<times> nat \<times> (u8 \<times> bytes) list) option" where
  "send_parts env lim pid burst_limit sent_upto counter packets =
     (if sent_upto < burst_limit \<and> sent_upto < pmp_total lim
         \<and> \<not> (pmp_max_speed lim > 0 \<and> counter \<ge> pmp_max_speed lim)
      then let start = unat sent_upto;
               end = min (start + MAP_CHUNK) (length (pmp_data lim))
           in case map_part (env_crc32 env) (pmp_host lim) pid sent_upto
                     (take (end - start) (drop start (pmp_data lim))) of
                Inr b \<Rightarrow> send_parts env lim pid burst_limit (of_nat end) (counter + (end - start))
                          (packets @ [(pid, b)])
              | Inl _ \<Rightarrow> Some (sent_upto, counter, packets)
      else Some (sent_upto, counter, packets))"

fun pump_list ::
    "'c env \<Rightarrow> pump_limits \<Rightarrow> nat \<Rightarrow> download list \<Rightarrow> nat \<Rightarrow> nat \<Rightarrow> (u8 \<times> bytes) list
     \<Rightarrow> (download list \<times> nat \<times> (u8 \<times> bytes) list) option" where
  "pump_list env lim max_downloaders [] busy counter packets = Some ([], counter, packets)"
| "pump_list env lim max_downloaders (d # ds) busy counter packets =
     (if dl_acked_upto d \<ge> pmp_total lim
      then map_option (\<lambda>(ds, r). (d # ds, r)) (pump_list env lim max_downloaders ds busy counter packets)
      else if max_downloaders > 0 \<and> busy + 1 > max_downloaders then Some (d # ds, counter, packets)
      else do {
        (sent, counter, packets) \<leftarrow>
           send_parts env lim (dl_pid d) (saturating_add (dl_acked_upto d) (of_nat (MAP_CHUNK * 100)))
             (dl_sent_upto d) counter packets;
        map_option (\<lambda>(ds, r). (d\<lparr>dl_sent_upto := sent\<rparr> # ds, r))
          (pump_list env lim max_downloaders ds (busy + 1) counter packets)
      })"

definition download_records :: "nat \<Rightarrow> u32 \<Rightarrow> 'c game \<Rightarrow> store_cmd list" where
  "download_records now map_len g =
     concat (map (\<lambda>d.
       if dl_acked_upto d \<ge> map_len
       then case by_pid (gs_players g) (dl_pid d) of
              Some p \<Rightarrow>
                [RecordDownload (mi_path (cfg_map (gs_cfg g))) (ucast (mi_size (cfg_map (gs_cfg g))))
                   (pl_name p) (show_ip (pl_external_ip p)) (if pl_spoofed p then 1 else 0) (ucast map_len)
                   (of_nat (as_secs (elapsed now (dl_started d))))]
            | None \<Rightarrow> []
       else []) (gs_downloads g))"

definition pump_downloads :: "'c env \<Rightarrow> nat \<Rightarrow> 'c game \<Rightarrow> 'c game option" where
  "pump_downloads env now g =
     (if gs_phase g \<noteq> Lobby then Some g
      else case mi_data (cfg_map (gs_cfg g)) of
        None \<Rightarrow> Some (g\<lparr>gs_downloads := []\<rparr>)
      | Some data \<Rightarrow>
          (let total = (of_nat (length data) :: u32);
               g = (if elapsed now (gs_last_download_counter_reset g) \<ge> secs 1
                    then g\<lparr>gs_download_counter := 0, gs_last_download_counter_reset := now\<rparr> else g);
               lim = \<lparr>pmp_host = host_pid g, pmp_data = data, pmp_total = total,
                      pmp_max_speed = unat (cfg_max_download_speed (gs_cfg g)) * 1024\<rparr>
           in do {
             (ds, counter, packets) \<leftarrow>
                pump_list env lim (unat (cfg_max_downloaders (gs_cfg g))) (gs_downloads g) 0
                  (gs_download_counter g) [];
             let g = g\<lparr>gs_downloads := ds, gs_download_counter := counter\<rparr>;
             let g = g\<lparr>gs_store := map_option (\<lambda>cs. cs @ download_records now total g) (gs_store g),
                       gs_downloads := filter (\<lambda>d. \<not> dl_acked_upto d \<ge> total) (gs_downloads g)\<rparr>;
             Some (foldl (\<lambda>g (pid, b). send_to env now pid b g) g packets)
           }))"

section \<open>The parts of the map\<close>

text \<open>The offsets and contents of the parts that cover a range, in pieces of \<open>MAP_CHUNK\<close>.\<close>

fun offsets :: "nat \<Rightarrow> 'a list list \<Rightarrow> (nat \<times> 'a list) list" where
  "offsets s [] = []"
| "offsets s (c # cs) = (s, c) # offsets (s + length c) cs"

lemma map_part_ok: "length c \<le> MAP_CHUNK \<Longrightarrow> is_ok (map_part crc from_pid to_pid pos c)"
  by (simp add: map_part_def w3gs_frame_ok_iff)

lemma map_part_Inr:
  assumes "length c \<le> MAP_CHUNK"
  obtains b where "map_part crc from_pid to_pid pos c = Inr b"
  using map_part_ok [OF assms, of crc from_pid to_pid pos] by (auto simp: is_ok_def split: sum.splits)

text \<open>
  The loop for one download did what it should: the parts \<open>cs\<close> continue where the download stood,
  each one is a packet for this player, and no part was sent beyond the window and the
  speed limit.
\<close>

definition parts_sent ::
    "'c env \<Rightarrow> pump_limits \<Rightarrow> u8 \<Rightarrow> u32 \<Rightarrow> u32 \<Rightarrow> nat \<Rightarrow> (u8 \<times> bytes) list
     \<Rightarrow> u32 \<Rightarrow> bytes list \<Rightarrow> bytes list \<Rightarrow> bool" where
  "parts_sent env lim pid burst sent counter packets sent' cs bs \<longleftrightarrow>
     send_parts env lim pid burst sent counter packets =
       Some (sent', counter + sum_list (map length cs), packets @ map (Pair pid) bs)
     \<and> unat sent' = unat sent + sum_list (map length cs)
     \<and> unat sent' \<le> max (unat sent) (length (pmp_data lim))
     \<and> concat cs = take (sum_list (map length cs)) (drop (unat sent) (pmp_data lim))
     \<and> (\<forall>c \<in> set cs. c \<noteq> [] \<and> length c \<le> MAP_CHUNK)
     \<and> map Inr bs = map (\<lambda>(off, c). map_part (env_crc32 env) (pmp_host lim) pid (of_nat off) c)
                      (offsets (unat sent) cs)
     \<and> (cs \<noteq> [] \<longrightarrow> unat sent' < unat burst + MAP_CHUNK
         \<and> (pmp_max_speed lim > 0 \<longrightarrow> counter + sum_list (map length cs) < pmp_max_speed lim + MAP_CHUNK))"

lemma parts_sent_none:
  assumes "\<not> (sent < burst \<and> sent < pmp_total lim \<and> \<not> (pmp_max_speed lim > 0 \<and> counter \<ge> pmp_max_speed lim))"
  shows "parts_sent env lim pid burst sent counter packets sent [] []"
  using assms by (auto simp: parts_sent_def send_parts.simps)

lemma parts_sent_step:
  assumes "length (pmp_data lim) < 2 ^ 32" and "pmp_total lim = of_nat (length (pmp_data lim))"
    and go: "sent < burst" "sent < pmp_total lim" "\<not> (pmp_max_speed lim > 0 \<and> counter \<ge> pmp_max_speed lim)"
    and e: "e = min (unat sent + MAP_CHUNK) (length (pmp_data lim))"
    and c: "c = take (e - unat sent) (drop (unat sent) (pmp_data lim))"
    and b: "map_part (env_crc32 env) (pmp_host lim) pid sent c = Inr b"
    and rest: "parts_sent env lim pid burst (of_nat e) (counter + (e - unat sent)) (packets @ [(pid, b)]) sent' cs bs"
  shows "parts_sent env lim pid burst sent counter packets sent' (c # cs) (b # bs)"
proof -
  have se: "unat sent < e" "e \<le> length (pmp_data lim)" "e \<le> unat sent + MAP_CHUNK" and lc: "length c = e - unat sent"
    using go(2) assms(1, 2) e c by (auto simp: word_less_nat_alt unat_of_nat_small)
  have ue: "unat (of_nat e :: u32) = e" using se assms(1) by (intro unat_of_nat_small) simp
  have step: "send_parts env lim pid burst sent counter packets =
      send_parts env lim pid burst (of_nat e) (counter + (e - unat sent)) (packets @ [(pid, b)])"
    using go b e c by (subst send_parts.simps) (simp add: Let_def)
  have "concat (c # cs) = take (sum_list (map length (c # cs))) (drop (unat sent) (pmp_data lim))"
  proof -
    have "concat cs = take (sum_list (map length cs)) (drop (e - unat sent) (drop (unat sent) (pmp_data lim)))"
      using rest se ue by (simp add: parts_sent_def)
    then show ?thesis unfolding list.map sum_list.Cons lc take_add concat.simps by (simp add: c)
  qed
  moreover have "unat sent' < unat burst + MAP_CHUNK
       \<and> (pmp_max_speed lim > 0 \<longrightarrow> counter + (e - unat sent) + sum_list (map length cs) < pmp_max_speed lim + MAP_CHUNK)"
    using go rest se ue by (cases "cs = []") (auto simp: parts_sent_def word_less_nat_alt)
  moreover have "c \<noteq> []" "length c \<le> MAP_CHUNK" using se lc by auto
  ultimately show ?thesis
    using rest step se lc b ue unfolding parts_sent_def by (simp add: add.assoc)
qed

lemma send_parts_exact:
  assumes "length (pmp_data lim) < 2 ^ 32" and "pmp_total lim = of_nat (length (pmp_data lim))"
  shows "\<exists>sent' cs bs. parts_sent env lim pid burst sent counter packets sent' cs bs"
proof (induction "length (pmp_data lim) - unat sent" arbitrary: sent counter packets rule: less_induct)
  case less
  show ?case
  proof (cases "sent < burst \<and> sent < pmp_total lim \<and> \<not> (pmp_max_speed lim > 0 \<and> counter \<ge> pmp_max_speed lim)")
    case False
    then show ?thesis using parts_sent_none by blast
  next
    case True
    define e c where "e = min (unat sent + MAP_CHUNK) (length (pmp_data lim))"
      and "c = take (e - unat sent) (drop (unat sent) (pmp_data lim))"
    have se: "unat sent < e" "e \<le> length (pmp_data lim)" "length c \<le> MAP_CHUNK"
      using True assms by (auto simp: word_less_nat_alt unat_of_nat_small e_def c_def)
    obtain b where b: "map_part (env_crc32 env) (pmp_host lim) pid sent c = Inr b"
      using map_part_Inr [OF se(3)] by blast
    have "unat (of_nat e :: u32) = e" using se assms(1) by (intro unat_of_nat_small) simp
    then have "length (pmp_data lim) - unat (of_nat e :: u32) < length (pmp_data lim) - unat sent"
      using se by simp
    from less [OF this] obtain sent' cs bs where
      "parts_sent env lim pid burst (of_nat e) (counter + (e - unat sent)) (packets @ [(pid, b)]) sent' cs bs"
      by blast
    with parts_sent_step [OF assms _ _ _ e_def c_def b] True show ?thesis by blast
  qed
qed

text \<open>
  C12. Sending the parts of a map to one player always ends and loses nothing: starting at the
  position of the download it sends consecutive parts of the map of at most 1442 bytes, each in a
  packet that carries its offset, its checksum and the ids of the host and the player; the new
  position is the old one plus what was sent and stays within the map; nothing is sent further
  than one part beyond the window, nor once the speed limit is reached.
\<close>

theorem map_parts_in_order:
  assumes "length (pmp_data lim) < 2 ^ 32" and "pmp_total lim = of_nat (length (pmp_data lim))"
  shows "\<exists>sent' cs bs.
     send_parts env lim pid burst sent counter packets =
       Some (sent', counter + sum_list (map length cs), packets @ map (Pair pid) bs)
     \<and> unat sent' = unat sent + sum_list (map length cs)
     \<and> unat sent' \<le> max (unat sent) (length (pmp_data lim))
     \<and> concat cs = take (sum_list (map length cs)) (drop (unat sent) (pmp_data lim))
     \<and> (\<forall>c \<in> set cs. c \<noteq> [] \<and> length c \<le> 1442)
     \<and> map Inr bs = map (\<lambda>(off, c). map_part (env_crc32 env) (pmp_host lim) pid (of_nat off) c)
                      (offsets (unat sent) cs)
     \<and> (cs \<noteq> [] \<longrightarrow> unat sent' < unat burst + 1442
         \<and> (pmp_max_speed lim > 0 \<longrightarrow> counter + sum_list (map length cs) < pmp_max_speed lim + 1442))"
  using send_parts_exact [OF assms, of env pid burst sent counter packets] by (simp add: parts_sent_def)

theorem map_parts_in_order_witness:
  "\<exists>cs bs. send_parts witness_env \<lparr>pmp_host = 1, pmp_data = replicate 2000 7, pmp_total = 2000, pmp_max_speed = 0\<rparr>
       3 144200 1442 0 [] = Some (2000, sum_list (map length cs), map (Pair 3) bs)
     \<and> concat cs = replicate 558 (7 :: u8)"
proof -
  let ?lim = "\<lparr>pmp_host = 1, pmp_data = replicate 2000 (7 :: u8), pmp_total = 2000, pmp_max_speed = 0\<rparr>"
  have "length (pmp_data ?lim) < 2 ^ 32" "pmp_total ?lim = of_nat (length (pmp_data ?lim))" by simp_all
  from map_parts_in_order [OF this, of witness_env 3 144200 1442 0 "[]"]
  obtain sent' cs bs where *: "send_parts witness_env ?lim 3 144200 1442 0 [] =
      Some (sent', 0 + sum_list (map length cs), [] @ map (Pair 3) bs)"
    and c: "concat cs = take (sum_list (map length cs)) (drop (unat (1442 :: u32)) (pmp_data ?lim))"
    by blast
  obtain b where b: "map_part (env_crc32 witness_env) 1 3 1442 (replicate 558 7) = Inr b"
    using map_part_Inr [of "replicate 558 7" "env_crc32 witness_env" 1 3 1442] by auto
  have "send_parts witness_env ?lim 3 144200 1442 0 [] = Some (2000, 558, [(3, b)])"
    using b by (subst send_parts.simps, subst send_parts.simps) (simp add: Let_def)
  with * have "sent' = 2000" "sum_list (map length cs) = 558" by simp_all
  with * c show ?thesis by (intro exI [of _ cs] exI [of _ bs]) simp
qed

lemma pump_list_total:
  assumes "length (pmp_data lim) < 2 ^ 32" and "pmp_total lim = of_nat (length (pmp_data lim))"
  shows "pump_list env lim n ds busy counter packets \<noteq> None"
proof (induction ds arbitrary: busy counter packets)
  case (Cons d ds)
  have "send_parts env lim pid burst sent counter packets \<noteq> None" for pid burst sent
    using send_parts_exact [OF assms, of env pid burst sent counter packets] by (auto simp: parts_sent_def)
  then show ?case using Cons by (cases "n = 0") (simp_all del: not_None_eq split: Option.bind_split prod.split)
qed simp

lemma pump_downloads_total:
  assumes "\<And>data. mi_data (cfg_map (gs_cfg g)) = Some data \<Longrightarrow> length data < 2 ^ 32"
  shows "pump_downloads env now g \<noteq> None"
proof (cases "mi_data (cfg_map (gs_cfg g))")
  case (Some data)
  have "pump_list env \<lparr>pmp_host = h, pmp_data = data, pmp_total = of_nat (length data), pmp_max_speed = m\<rparr>
      n ds busy counter packets \<noteq> None" for h m n ds busy counter packets
    using assms [OF Some] by (intro pump_list_total) simp_all
  then show ?thesis
    using Some by (simp add: pump_downloads_def Let_def del: not_None_eq split: Option.bind_split)
qed (simp add: pump_downloads_def)

end
