(* ===== verification/Reconnect.thy ===== *)
theory Reconnect
  imports Lifecycle Gps
begin

text \<open>
  Players that come back: GProxy clients that lost their connection
  (\<^verbatim>\<open>spectre-engine/src/gproxy.rs\<close>) and clients that restarted and replay the whole game
  (\<^verbatim>\<open>full_rejoin.rs\<close>). A connection that is refused ends with the call; the operations return
  its channel so that the answer it got can be stated.
\<close>

section \<open>GProxy reconnects\<close>

definition gproxy_empty_actions :: "'c game \<Rightarrow> u8" where
  "gproxy_empty_actions g =
     (let s = as_secs (cfg_reconnect_wait (gs_cfg g))
      in if s = 0 then 0
         else let mins = (if s \<ge> 60 then s div 60 else s) in of_nat (min (mins - 1) 9))"

text \<open>The packets of the replay, until the channel refuses one.\<close>

fun replay_packets :: "'c env \<Rightarrow> 'c \<Rightarrow> bytes list \<Rightarrow> 'c" where
  "replay_packets env tx [] = tx"
| "replay_packets env tx (pkt # pkts) =
     (case link_try_send (env_ts env) tx pkt of
        (Inr _, tx) \<Rightarrow> replay_packets env tx pkts
      | (Inl _, tx) \<Rightarrow> tx)"

definition send_ignore :: "'c env \<Rightarrow> bytes \<Rightarrow> 'c \<Rightarrow> 'c" where
  "send_ignore env bs tx = snd (link_try_send (env_ts env) tx bs)"

definition handle_gps_reconnect ::
    "'c env \<Rightarrow> u64 \<Rightarrow> reconnect_req \<Rightarrow> 'c \<Rightarrow> 'c game \<Rightarrow> bool \<times> 'c \<times> 'c game" where
  "handle_gps_reconnect env conn_id req link g =
     (case by_pid (gs_players g) (rr_pid req) of
        None \<Rightarrow> (False, send_ignore env (gps_reject NOT_FOUND) link, g)
      | Some p \<Rightarrow>
          if \<not> pl_gproxy p \<or> pl_reconnect_key p \<noteq> rr_reconnect_key req
          then (False, send_ignore env (gps_reject INVALID_KEY) link, g)
          else case Option.bind (pl_gproxy_buffer p) (\<lambda>b. replay_from b (rr_last_packet req)) of
                 None \<Rightarrow> (False, send_ignore env (gps_reject NOT_FOUND) link, g)
               | Some replay \<Rightarrow>
                   (let received = (case pl_gproxy_buffer p of Some b \<Rightarrow> total_sent b | None \<Rightarrow> 0);
                        tx = replay_packets env (send_ignore env (gps_reconnect_ok received) link) replay
                    in (True, tx,
                        g\<lparr>gs_players := by_pid_mut (gs_players g) (rr_pid req) (\<lambda>p.
                           p\<lparr>pl_conn_id := conn_id, pl_link := tx, pl_disconnected_since := None,
                             pl_left := None\<rparr>)\<rparr>)))"

text \<open>One player of \<^verbatim>\<open>reap_gproxy_timeouts\<close>, with the notice it adds.\<close>

definition reap_gproxy_player :: "nat \<Rightarrow> nat \<Rightarrow> 'c player \<Rightarrow> 'c player \<times> bytes list" where
  "reap_gproxy_player now grace p =
     (case pl_disconnected_since p of
        None \<Rightarrow> (p, [])
      | Some since \<Rightarrow>
          (let waited = elapsed now since in
           if waited \<ge> grace
           then (p\<lparr>pl_left := Some (str ''failed to reconnect in time''),
                   pl_left_code := PLAYERLEAVE_GPROXY, pl_disconnected_since := None\<rparr>, [])
           else if \<not> pl_gproxy_disconnect_notice_sent p
           then (p\<lparr>pl_gproxy_disconnect_notice_sent := True, pl_last_gproxy_wait_notice := Some now\<rparr>,
                 [str ''Player ['' @ pl_name p
                  @ str ''] has lost connection but is using GProxy++ and may reconnect.''])
           else if (case pl_last_gproxy_wait_notice p of Some t \<Rightarrow> elapsed now t \<ge> secs 20 | None \<Rightarrow> False)
           then (p\<lparr>pl_last_gproxy_wait_notice := Some now\<rparr>,
                 [str ''Waiting for reconnect ('' @ show_nat (as_secs (grace - waited))
                  @ str '' seconds remain)...''])
           else (p, [])))"

definition reap_gproxy_timeouts :: "'c env \<Rightarrow> nat \<Rightarrow> nat \<Rightarrow> 'c game \<Rightarrow> 'c game option" where
  "reap_gproxy_timeouts env now grace g =
     (let rs = map (reap_gproxy_player now grace) (gs_players g)
      in each (send_chat_all env now) (concat (map snd rs)) (g\<lparr>gs_players := map fst rs\<rparr>))"

section \<open>Full rejoin\<close>

definition send_result_to :: "'c env \<Rightarrow> nat \<Rightarrow> u8 \<Rightarrow> proto_error + bytes \<Rightarrow> 'c game \<Rightarrow> 'c game" where
  "send_result_to env now pid r g = (case r of Inr b \<Rightarrow> send_to env now pid b g | Inl _ \<Rightarrow> g)"

definition rejoin_player :: "u64 \<Rightarrow> 'c \<Rightarrow> 'c player \<Rightarrow> 'c player" where
  "rejoin_player conn_id link p =
     p\<lparr>pl_conn_id := conn_id, pl_link := link, pl_disconnected_since := None, pl_left := None,
       pl_consecutive_send_failures := 0, pl_loaded := False, pl_rejoin := AwaitingMapSize,
       pl_sync_counter := 0, pl_checksums := [], pl_lagging := False, pl_started_lagging := None\<rparr>"

definition rejoin_allowed :: "u64 \<Rightarrow> req_join \<Rightarrow> 'c game \<Rightarrow> u8 option" where
  "rejoin_allowed conn_id req g =
     (if gs_phase g \<noteq> Playing \<and> gs_phase g \<noteq> Loading then None
      else case map_of (gs_pending_full g) conn_id of
             None \<Rightarrow> None
           | Some (token_pid, token_key) \<Rightarrow>
               (case by_pid (gs_players g) token_pid of
                  None \<Rightarrow> None
                | Some p \<Rightarrow>
                    (if pl_disconnected_since p \<noteq> None \<and> pl_left p = None
                        \<and> eq_ignore_ascii_case (pl_name p) (rj_name req) \<and> pl_reconnect_key p = token_key
                     then Some token_pid else None)))"

definition try_full_rejoin ::
    "'c env \<Rightarrow> nat \<Rightarrow> u64 \<Rightarrow> req_join \<Rightarrow> bytes \<Rightarrow> 'c \<Rightarrow> 'c game \<Rightarrow> bool \<times> 'c game" where
  "try_full_rejoin env now conn_id req external_ip link g =
     (case rejoin_allowed conn_id req g of
        None \<Rightarrow> (False, g)
      | Some pid \<Rightarrow>
          (let g = g\<lparr>gs_players := by_pid_mut (gs_players g) pid (rejoin_player conn_id link),
                     gs_pending_full := AList.delete conn_id (gs_pending_full g)\<rparr>;
               m = cfg_map (gs_cfg g);
               g = send_result_to env now pid
                     (slot_info_join pid (rj_listen_port req) external_ip (gs_slots g) (gs_random_seed g)
                        (mi_layout_style m) (mi_num_players m)) g;
               others = filter (\<lambda>q. pl_pid q \<noteq> pid \<and> \<not> pl_virtual_host q \<and> pl_left q = None) (gs_players g);
               g = foldl (\<lambda>g (opid, oname, oext, oint).
                        send_result_to env now pid (player_info opid oname oext oint) g) g
                     (map (\<lambda>q. (pl_pid q, pl_name q, pl_external_ip q, pl_internal_ip q)) others);
               g = send_result_to env now pid
                     (map_check (mi_path m) (mi_size m) (mi_info m) (mi_crc m) (mi_sha1 m)) g
           in (True, g)))"

section \<open>A reconnect closes the gap\<close>

text \<open>A channel with room accepts a message, and one message takes at most one place.\<close>

definition room_law :: "'c try_send \<Rightarrow> ('c \<Rightarrow> nat) \<Rightarrow> bool" where
  "room_law ts room \<longleftrightarrow> (\<forall>tx b. 0 < room tx \<longrightarrow>
     is_ok (fst (link_try_send ts tx b)) \<and> room tx - 1 \<le> room (snd (link_try_send ts tx b)))"

lemma bounded_send_room: "room_law bounded_send (\<lambda>(cap, gone, q). if gone then 0 else cap - length q)"
  by (auto simp: room_law_def bounded_send_def link_try_send_def)

lemma replay_packets_all:
  assumes law: "channel_law (env_ts env) queued" and room: "room_law (env_ts env) room"
  shows "length pkts \<le> room tx \<Longrightarrow> queued (replay_packets env tx pkts) = queued tx @ pkts"
proof (induction pkts arbitrary: tx)
  case (Cons pkt pkts)
  obtain r tx' where s: "link_try_send (env_ts env) tx pkt = (r, tx')"
    by (cases "link_try_send (env_ts env) tx pkt")
  have "0 < room tx" using Cons.prems by simp
  with room have "is_ok r" "room tx - 1 \<le> room tx'" unfolding room_law_def by (metis s fst_conv snd_conv)+
  with link_try_send_queued [OF law, of tx pkt, unfolded s] Cons s show ?case
    by (auto simp: is_ok_def split: sum.splits)
qed simp


definition witness_gproxy_player :: "(nat \<times> bool \<times> bytes list) player" where
  "witness_gproxy_player = (player_new 2 (str ''bob'') 7 (0, True, []))
     \<lparr>pl_gproxy := True, pl_reconnect_key := 99, pl_disconnected_since := Some 0,
       pl_gproxy_buffer := Some (foldl gproxy_push (gproxy_new 500) [[1], [2], [3]])\<rparr>"


end
