(* ===== verification/Lobby.thy ===== *)
theory Lobby
  imports Reconnect
begin

text \<open>
  Joining and leaving (\<^verbatim>\<open>spectre-engine/src/lobby.rs\<close>). A connection waits in the pending list
  until its join request; the request takes a slot and a player id or is refused.
\<close>

section \<open>Operations\<close>

abbreviation "REJECT_FULL \<equiv> (0x09 :: u32)"
abbreviation "REJECT_STARTED \<equiv> (0x0A :: u32)"

text \<open>The first open slot that is not held for somebody; a held slot for its owner while open.\<close>

definition first_unheld :: "'c game \<Rightarrow> u8 option" where
  "first_unheld g =
     map_option of_nat
       (find (\<lambda>i. slot_status (gs_slots g ! i) = SLOT_OPEN \<and> map_of (gs_holds g) (of_nat i) = None)
          [0..<length (gs_slots g)])"

definition reserved_slot :: "bytes \<Rightarrow> 'c game \<Rightarrow> u8 option" where
  "reserved_slot name g =
     map_option fst (find (\<lambda>(sid, held). eq_ignore_ascii_case held name) (gs_holds g))"

definition target_slot :: "bytes \<Rightarrow> 'c game \<Rightarrow> u8 option" where
  "target_slot name g =
     (case reserved_slot name g of
        Some rsid \<Rightarrow> (if slot_is_open (gs_slots g) rsid then Some rsid else first_unheld g)
      | None \<Rightarrow> first_unheld g)"

definition reconnect_port :: "'c game \<Rightarrow> u16" where
  "reconnect_port g =
     (if cfg_gproxy_reconnect_port (gs_cfg g) \<noteq> 0 then cfg_gproxy_reconnect_port (gs_cfg g)
      else if cfg_host_port (gs_cfg g) \<noteq> 0 then cfg_host_port (gs_cfg g) else 6114)"

definition send_result_ignore :: "'c env \<Rightarrow> proto_error + bytes \<Rightarrow> 'c \<Rightarrow> 'c" where
  "send_result_ignore env r tx = (case r of Inr b \<Rightarrow> send_ignore env b tx | Inl _ \<Rightarrow> tx)"

definition new_player :: "u8 \<Rightarrow> req_join \<Rightarrow> u64 \<Rightarrow> bytes \<Rightarrow> u32 \<Rightarrow> 'c \<Rightarrow> 'c game \<Rightarrow> 'c player" where
  "new_player pid req conn_id external_ip key link g =
     (player_new pid (rj_name req) conn_id link)
       \<lparr>pl_external_ip := external_ip, pl_internal_ip := rj_internal_ip req, pl_reconnect_key := key,
        pl_reserved := (reserved_slot (rj_name req) g \<noteq> None),
        pl_spoofed := (cfg_spoof_checks (gs_cfg g) = 0 \<or> external_ip = [127, 0, 0, 1]
                       \<or> external_ip ! 0 = 192 \<or> external_ip ! 0 = 10)\<rparr>"

text \<open>What the joining player is told after its slot: the other players, the map and its token.\<close>

definition welcome_player :: "'c env \<Rightarrow> u8 \<Rightarrow> u32 \<Rightarrow> 'c game \<Rightarrow> 'c \<Rightarrow> 'c" where
  "welcome_player env pid key g tx =
     (let m = cfg_map (gs_cfg g);
          tx = foldl (\<lambda>tx p. send_result_ignore env
                  (player_info (pl_pid p) (pl_name p) (pl_external_ip p) (pl_internal_ip p)) tx)
                tx (gs_players g);
          tx = send_result_ignore env (map_check (mi_path m) (mi_size m) (mi_info m) (mi_crc m) (mi_sha1 m)) tx
      in send_result_ignore env
           (rejoin_token pid key (reconnect_port g) (mi_crc m) (mi_sha1 m) (cfg_name (gs_cfg g)) (mi_path m)) tx)"

text \<open>
  The part of \<^verbatim>\<open>handle_req_join\<close> from the chosen slot and id on; \<open>key\<close> is the random reconnect
  key. The result has the channel of the connection.
\<close>

definition seat_player ::
    "'c env \<Rightarrow> nat \<Rightarrow> u32 \<Rightarrow> u64 \<Rightarrow> req_join \<Rightarrow> 'c \<Rightarrow> bytes \<Rightarrow> u8 \<Rightarrow> u8 \<Rightarrow> 'c game \<Rightarrow> 'c \<times> 'c game" where
  "seat_player env now key conn_id req link external_ip sid pid g0 =
     (let g = g0\<lparr>gs_slots := snd (occupy_slot (gs_slots g0) sid pid)\<rparr>;
          m = cfg_map (gs_cfg g);
          released = g\<lparr>gs_slots := snd (slot_release (gs_slots g) pid)\<rparr>
      in case slot_info_join pid (rj_listen_port req) external_ip (gs_slots g) (gs_random_seed g)
                (mi_layout_style m) (mi_num_players m) of
           Inl _ \<Rightarrow> (link, released)
         | Inr b \<Rightarrow>
             (case link_try_send (env_ts env) link b of
                (Inl _, tx) \<Rightarrow> (tx, released)
              | (Inr _, tx) \<Rightarrow>
                  (let tx = welcome_player env pid key g tx;
                       player = new_player pid req conn_id external_ip key tx g0;
                       g = g\<lparr>gs_players := players_insert (gs_players g) player\<rparr>;
                       g = (case player_info pid (rj_name req) external_ip (rj_internal_ip req) of
                              Inr b \<Rightarrow> g\<lparr>gs_players := map (\<lambda>p. if pl_pid p \<noteq> pid
                                            then p\<lparr>pl_link := send_ignore env b (pl_link p)\<rparr> else p) (gs_players g)\<rparr>
                            | Inl _ \<Rightarrow> g);
                       g = send_all_slot_info env now g
                   in (tx, if human_count (gs_players g) \<ge> MAX_SLOTS - 1
                           then delete_virtual_host env now g else g))))"

definition handle_req_join ::
    "'c env \<Rightarrow> nat \<Rightarrow> u32 \<Rightarrow> u64 \<Rightarrow> bytes \<Rightarrow> 'c game \<Rightarrow> 'c option \<times> 'c game" where
  "handle_req_join env now key conn_id payload g =
     (case position (\<lambda>(cid, _, _). cid = conn_id) (gs_pending g) of
        None \<Rightarrow> (None, g)
      | Some idx \<Rightarrow>
          (case gs_pending g ! idx of (_, link, external_ip) \<Rightarrow>
             let g = g\<lparr>gs_pending := take idx (gs_pending g) @ drop (Suc idx) (gs_pending g)\<rparr>;
                 refuse = (\<lambda>reason. (Some (send_ignore env (reject_join reason) link), g))
             in case req_join_decode payload of
                  Inl _ \<Rightarrow> (Some link, g)
                | Inr req \<Rightarrow>
                    if gs_phase g \<noteq> Lobby
                    then (case try_full_rejoin env now conn_id req external_ip link g of
                            (True, g') \<Rightarrow> (None, g')
                          | (False, g') \<Rightarrow> refuse REJECT_STARTED)
                    else if list_ex (\<lambda>p. eq_ignore_ascii_case (pl_name p) (rj_name req)) (gs_players g)
                    then refuse REJECT_FULL
                    else case (target_slot (rj_name req) g, next_free_pid (gs_players g)) of
                           (Some sid, Some pid) \<Rightarrow>
                             (let (tx, g) = seat_player env now key conn_id req link external_ip sid pid g
                              in (Some tx, g))
                         | _ \<Rightarrow> refuse REJECT_FULL))"

definition leave_reason :: "u32 \<Rightarrow> bytes" where
  "leave_reason code = str ''left the game voluntarily (code '' @ show_word code @ str '')''"

definition drop_pending :: "u64 \<Rightarrow> 'c game \<Rightarrow> 'c game" where
  "drop_pending conn_id g = g\<lparr>gs_pending := filter (\<lambda>(cid, _, _). cid \<noteq> conn_id) (gs_pending g)\<rparr>"

definition handle_leave :: "u64 \<Rightarrow> u32 \<Rightarrow> 'c game \<Rightarrow> 'c game" where
  "handle_leave conn_id reason_code g =
     (case by_conn (gs_players g) conn_id of
        Some _ \<Rightarrow> g\<lparr>gs_players := by_conn_mut (gs_players g) conn_id (\<lambda>p.
                     p\<lparr>pl_left := Some (leave_reason reason_code),
                       pl_left_code := (if in_lobby (gs_phase g) then PLAYERLEAVE_LOBBY else PLAYERLEAVE_LOST)\<rparr>)\<rparr>
      | None \<Rightarrow> drop_pending conn_id g)"

definition handle_conn_closed :: "nat \<Rightarrow> u64 \<Rightarrow> bytes \<Rightarrow> 'c game \<Rightarrow> 'c game" where
  "handle_conn_closed now conn_id reason g =
     (let g = g\<lparr>gs_pending_full := AList.delete conn_id (gs_pending_full g)\<rparr>
      in case by_conn (gs_players g) conn_id of
           Some _ \<Rightarrow> g\<lparr>gs_players := by_conn_mut (gs_players g) conn_id (\<lambda>p.
                        if pl_gproxy p
                        then (if pl_disconnected_since p = None then p\<lparr>pl_disconnected_since := Some now\<rparr> else p)
                        else if pl_left p = None
                        then p\<lparr>pl_left := Some reason,
                               pl_left_code := (if in_lobby (gs_phase g) then PLAYERLEAVE_LOBBY
                                                else PLAYERLEAVE_DISCONNECT)\<rparr>
                        else p)\<rparr>
         | None \<Rightarrow> drop_pending conn_id g)"

end
