(* ===== verification/Chat_Parse.thy ===== *)
theory Chat_Parse
  imports Utf8 "HOL-Library.Monad_Syntax"
begin

text \<open>
  The chat commands and their parser (\<^verbatim>\<open>spectre-engine/src/chat.rs\<close>). The splitting at Unicode white
  space and the Unicode lower casing of the standard library are parameters.
\<close>

section \<open>Commands\<close>

datatype (plugins only: size) chat_command =
    Start bool
  | Abort
  | Open u8
  | Close u8
  | OpenAll
  | CloseAll
  | Swap u8 u8
  | Hold bytes "u8 option"
  | ClearHold
  | Kick bytes
  | Ban bytes bytes
  | Unban bytes
  | CheckBan bytes
  | BanLast bytes
  | CheckAdmin bytes
  | AddAdminCmd bytes
  | DelAdmin bytes
  | Ping
  | Mute bytes
  | Unmute bytes
  | MuteAll
  | UnmuteAll
  | VoteStart
  | VoteCancel
  | VoteKick bytes
  | Yes
  | SyncLimit "u32 option"
  | Latency "u32 option"
  | ShufflePlayers
  | Version
  | Say bytes
  | Whisper bytes bytes
  | Stats bytes
  | StatsDotA bytes
  | Drop
  | Draw
  | HclCmd bytes
  | ClearHcl
  | Owner "bytes option"
  | Unhost
  | End
  | Lock
  | Unlock
  | Check bytes
  | CheckMe
  | Announce bytes
  | AutoStart "nat option"
  | Refresh
  | VirtualHost bytes
  | Comp u8 u8 u8 u8 u8 u8
  | CompColour u8 u8
  | CompRace u8 u8
  | CompHandicap u8 u8
  | CompTeam u8 u8
  | Download bytes
  | DbStatus
  | FakePlayer
  | FpPause
  | FpResume
  | From
  | Messages "bool option"
  | SendLan bytes "u16 option"
  | Pub bytes
  | Priv bytes
  | MuteLobby "bool option"
  | Unknown bytes

section \<open>Parsing\<close>

text \<open>\<^verbatim>\<open>str::parse\<close> for an unsigned integer below \<open>bound\<close>: an optional plus sign and digits.\<close>

fun parse_dec :: "nat \<Rightarrow> nat \<Rightarrow> bytes \<Rightarrow> nat option" where
  "parse_dec bound acc [] = Some acc"
| "parse_dec bound acc (b # bs) =
     (if 48 \<le> b \<and> b \<le> 57
      then let acc = acc * 10 + unat (b - 48) in if acc < bound then parse_dec bound acc bs else None
      else None)"

definition parse_nat :: "nat \<Rightarrow> bytes \<Rightarrow> nat option" where
  "parse_nat bound s =
     (let ds = (case s of b # bs \<Rightarrow> (if b = 43 then bs else s) | [] \<Rightarrow> [])
      in if ds = [] then None else parse_dec bound 0 ds)"

definition parse_word :: "bytes \<Rightarrow> 'a::len word option" where
  "parse_word s = map_option of_nat (parse_nat (2 ^ LENGTH('a)) s)"

definition slot_arg :: "bytes \<Rightarrow> u8 option" where
  "slot_arg s = Option.bind (parse_word s) (\<lambda>n :: u8. if n = 0 then None else Some (n - 1))"

definition arg :: "bytes list \<Rightarrow> nat \<Rightarrow> bytes option" where
  "arg args i = (if i < length args then Some (args ! i) else None)"

fun join :: "bytes \<Rightarrow> bytes list \<Rightarrow> bytes" where
  "join sep [] = []"
| "join sep [x] = x"
| "join sep (x # y # ys) = x @ sep @ join sep (y # ys)"

text \<open>\<^verbatim>\<open>args.get(i).and_then(|s| s.parse().ok())\<close>.\<close>

definition word_arg :: "bytes list \<Rightarrow> nat \<Rightarrow> 'a::len word option" where
  "word_arg args i = Option.bind (arg args i) parse_word"

definition on_off :: "bytes option \<Rightarrow> bool option" where
  "on_off a = Option.bind a (\<lambda>s.
     if eq_ignore_ascii_case s (str ''on'') \<or> eq_ignore_ascii_case s (str ''1'') then Some True
     else if eq_ignore_ascii_case s (str ''off'') \<or> eq_ignore_ascii_case s (str ''0'') then Some False
     else None)"

definition verb_is :: "bytes \<Rightarrow> string list \<Rightarrow> bool" where
  "verb_is verb names \<longleftrightarrow> verb \<in> set (map str names)"

definition or_default :: "'a option \<Rightarrow> 'a \<Rightarrow> 'a" where
  "or_default x d = (case x of Some v \<Rightarrow> v | None \<Rightarrow> d)"

text \<open>
  The arms of the \<^verbatim>\<open>match\<close> on the verb, in four groups. In \<^verbatim>\<open>ban\<close> and \<^verbatim>\<open>w\<close>,
  \<^verbatim>\<open>args.get(1..)\<close> is never \<^verbatim>\<open>None\<close>, since there is a first argument.
\<close>

definition parse_slots_verb :: "bytes \<Rightarrow> bytes list \<Rightarrow> chat_command option option" where
  "parse_slots_verb verb args =
     (if verb_is verb [''open'', ''o''] then Some (map_option Open (Option.bind (arg args 0) slot_arg))
      else if verb_is verb [''close'', ''c''] then Some (map_option Close (Option.bind (arg args 0) slot_arg))
      else if verb_is verb [''openall''] then Some (Some OpenAll)
      else if verb_is verb [''closeall''] then Some (Some CloseAll)
      else if verb_is verb [''swap'']
      then Some (do { a \<leftarrow> Option.bind (arg args 0) slot_arg; b \<leftarrow> Option.bind (arg args 1) slot_arg; Some (Swap a b) })
      else if verb_is verb [''hold'', ''h'']
      then Some (map_option (\<lambda>name. Hold name (Option.bind (arg args 1) slot_arg)) (arg args 0))
      else if verb_is verb [''clearhold''] then Some (Some ClearHold)
      else if verb_is verb [''comp'']
      then Some (map_option (\<lambda>slot. Comp slot (or_default (word_arg args 1) 1) (or_default (word_arg args 2) (slot + 1))
                    (or_default (word_arg args 3) 0x20) 1 (or_default (word_arg args 4) 100))
                  (Option.bind (arg args 0) slot_arg))
      else if verb_is verb [''compcolour'']
      then Some (do { s \<leftarrow> Option.bind (arg args 0) slot_arg; v \<leftarrow> word_arg args 1; Some (CompColour s v) })
      else if verb_is verb [''comprace'']
      then Some (do { s \<leftarrow> Option.bind (arg args 0) slot_arg; v \<leftarrow> word_arg args 1; Some (CompRace s v) })
      else if verb_is verb [''comphandicap'']
      then Some (do { s \<leftarrow> Option.bind (arg args 0) slot_arg; v \<leftarrow> word_arg args 1; Some (CompHandicap s v) })
      else if verb_is verb [''compteam'']
      then Some (do { s \<leftarrow> Option.bind (arg args 0) slot_arg; v \<leftarrow> word_arg args 1; Some (CompTeam s v) })
      else None)"

definition parse_people_verb :: "bytes \<Rightarrow> bytes list \<Rightarrow> chat_command option option" where
  "parse_people_verb verb args =
     (if verb_is verb [''kick'', ''k''] then Some (map_option Kick (arg args 0))
      else if verb_is verb [''ban''] then Some (map_option (\<lambda>name. Ban name (join (str '' '') (drop 1 args))) (arg args 0))
      else if verb_is verb [''unban''] then Some (map_option Unban (arg args 0))
      else if verb_is verb [''checkban''] then Some (map_option CheckBan (arg args 0))
      else if verb_is verb [''banlast'']
      then Some (Some (BanLast (let reason = join (str '' '') args
                                in if reason = [] then str ''banned by host'' else reason)))
      else if verb_is verb [''checkadmin''] then Some (map_option CheckAdmin (arg args 0))
      else if verb_is verb [''addadmin''] then Some (map_option AddAdminCmd (arg args 0))
      else if verb_is verb [''deladmin''] then Some (map_option DelAdmin (arg args 0))
      else if verb_is verb [''mute''] then Some (map_option Mute (arg args 0))
      else if verb_is verb [''unmute''] then Some (map_option Unmute (arg args 0))
      else if verb_is verb [''muteall''] then Some (Some MuteAll)
      else if verb_is verb [''unmuteall''] then Some (Some UnmuteAll)
      else if verb_is verb [''votestart''] then Some (Some VoteStart)
      else if verb_is verb [''votecancel''] then Some (Some VoteCancel)
      else if verb_is verb [''votekick'', ''vk''] then Some (map_option VoteKick (arg args 0))
      else if verb_is verb [''w'', ''whisper'']
      then Some (map_option (\<lambda>user. Whisper user (join (str '' '') (drop 1 args))) (arg args 0))
      else if verb_is verb [''check''] then Some (map_option Check (arg args 0))
      else if verb_is verb [''checkme''] then Some (Some CheckMe)
      else None)"

definition parse_game_verb :: "bytes \<Rightarrow> bytes list \<Rightarrow> chat_command option option" where
  "parse_game_verb verb args =
     (if verb_is verb [''start'', ''s'']
      then Some (Some (Start (case arg args 0 of
              Some s \<Rightarrow> eq_ignore_ascii_case s (str ''force'') \<or> eq_ignore_ascii_case s (str ''f'')
            | None \<Rightarrow> False)))
      else if verb_is verb [''sf'', ''startforce''] then Some (Some (Start True))
      else if verb_is verb [''abort'', ''a''] then Some (Some Abort)
      else if verb_is verb [''ping'', ''p''] then Some (Some Ping)
      else if verb_is verb [''unhost''] then Some (Some Unhost)
      else if verb_is verb [''end''] then Some (Some End)
      else if verb_is verb [''lock''] then Some (Some Lock)
      else if verb_is verb [''unlock''] then Some (Some Unlock)
      else if verb_is verb [''synclimit'', ''sl''] then Some (Some (SyncLimit (word_arg args 0)))
      else if verb_is verb [''latency'', ''lat'', ''l''] then Some (Some (Latency (word_arg args 0)))
      else if verb_is verb [''sp''] then Some (Some ShufflePlayers)
      else if verb_is verb [''version''] then Some (Some Version)
      else if verb_is verb [''say''] then Some (Some (Say (join (str '' '') args)))
      else if verb_is verb [''announce''] then Some (Some (Announce (join (str '' '') args)))
      else if verb_is verb [''autostart'']
      then Some (Some (AutoStart (Option.bind (arg args 0) (parse_nat (2 ^ 64)))))
      else if verb_is verb [''refresh''] then Some (Some Refresh)
      else if verb_is verb [''virtualhost''] then Some (map_option VirtualHost (arg args 0))
      else if verb_is verb [''dl'', ''download''] then Some (Some (Download (or_default (arg args 0) [])))
      else None)"

definition parse_other_verb :: "bytes \<Rightarrow> bytes list \<Rightarrow> chat_command option" where
  "parse_other_verb verb args =
     (if verb_is verb [''stats''] then Some (Stats (or_default (arg args 0) []))
      else if verb_is verb [''statsdota'', ''sd''] then Some (StatsDotA (or_default (arg args 0) []))
      else if verb_is verb [''drop''] then Some Drop
      else if verb_is verb [''draw''] then Some Draw
      else if verb_is verb [''hcl''] then Some (HclCmd (join (str '' '') args))
      else if verb_is verb [''clearhcl''] then Some ClearHcl
      else if verb_is verb [''owner''] then Some (Owner (arg args 0))
      else if verb_is verb [''dbstatus''] then Some DbStatus
      else if verb_is verb [''fakeplayer'', ''fp''] then Some FakePlayer
      else if verb_is verb [''fppause''] then Some FpPause
      else if verb_is verb [''fpresume''] then Some FpResume
      else if verb_is verb [''from''] then Some From
      else if verb_is verb [''messages''] then Some (Messages (on_off (arg args 0)))
      else if verb_is verb [''sendlan''] then map_option (\<lambda>ip. SendLan ip (word_arg args 1)) (arg args 0)
      else if verb_is verb [''pub''] then Some (Pub (join (str '' '') args))
      else if verb_is verb [''priv''] then Some (Priv (join (str '' '') args))
      else if verb_is verb [''mutelobby''] then Some (MuteLobby (on_off (arg args 0)))
      else Some (Unknown verb))"

definition parse_command ::
    "(bytes \<Rightarrow> bytes list) \<Rightarrow> (bytes \<Rightarrow> bytes) \<Rightarrow> u8 \<Rightarrow> bytes \<Rightarrow> chat_command option" where
  "parse_command split_whitespace lower trigger msg =
     (case msg of
        [] \<Rightarrow> None
      | b # rest \<Rightarrow>
          if b \<noteq> trigger then None
          else case split_whitespace rest of
                 [] \<Rightarrow> None
               | v # args \<Rightarrow>
                   (let verb = lower v in
                    case parse_game_verb verb args of Some r \<Rightarrow> r
                    | None \<Rightarrow> case parse_slots_verb verb args of Some r \<Rightarrow> r
                    | None \<Rightarrow> case parse_people_verb verb args of Some r \<Rightarrow> r
                    | None \<Rightarrow> parse_other_verb verb args))"

end
