(* ===== verification/Chat.thy ===== *)
theory Chat
  imports Chat_Parse Lobby Mapxfer
begin

text \<open>
  What a chat message of a player does (\<^verbatim>\<open>spectre-engine/src/chat.rs\<close>): requests for a team, colour, race
  or handicap, commands, and text that is passed on. The random numbers of the shuffle are the argument
  \<open>rnd\<close>.
\<close>

section \<open>Slot requests\<close>

text \<open>\<^verbatim>\<open>colour_slot\<close>: the last slot that has the colour gives it up unless it is occupied.\<close>

definition colour_slot :: "u8 \<Rightarrow> u8 \<Rightarrow> slot_table \<Rightarrow> bool \<times> slot_table" where
  "colour_slot sid colour ss =
     (if unat sid \<ge> length ss \<or> colour \<ge> of_nat MAX_SLOTS then (False, ss)
      else case find (\<lambda>i. slot_colour (ss ! i) = colour) (rev [0..<length ss]) of
             Some tsid \<Rightarrow>
               (if slot_status (ss ! tsid) \<noteq> SLOT_OCCUPIED
                then let old_colour = slot_colour (ss ! unat sid);
                         ss = snd (set_colour ss (of_nat tsid) old_colour)
                     in (True, snd (set_colour ss sid colour))
                else (False, ss))
           | None \<Rightarrow> (True, snd (set_colour ss sid colour)))"

text \<open>The change of team of a map without custom forces.\<close>

definition team_request :: "map_info \<Rightarrow> u8 \<Rightarrow> u8 \<Rightarrow> u8 \<Rightarrow> slot_table \<Rightarrow> bool \<times> slot_table" where
  "team_request m pid sid target_team ss =
     (let slots24 = (of_nat MAX_SLOTS :: u8);
          num_other = (of_nat (length (filter (\<lambda>s. slot_status s = SLOT_OCCUPIED \<and> slot_team s \<noteq> slots24
                                                  \<and> slot_pid s \<noteq> pid) ss)) :: u8)
      in if target_team > slots24 then (False, ss)
         else if target_team = slots24 \<and> map_observers m \<noteq> 3 \<and> map_observers m \<noteq> 4 then (False, ss)
         else if target_team \<noteq> slots24 \<and> (target_team \<ge> mi_num_players m \<or> num_other \<ge> mi_num_players m)
         then (False, ss)
         else if unat sid \<ge> length ss then (False, ss)
         else let s = (ss ! unat sid)\<lparr>slot_team := target_team\<rparr>;
                  s = (if target_team = slots24 then s\<lparr>slot_colour := slots24\<rparr>
                       else if slot_colour s = slots24 then s\<lparr>slot_colour := unused_colour ss\<rparr> else s)
              in (True, snd (slot_replace ss sid s)))"

definition apply_slot_request :: "map_info \<Rightarrow> u8 \<Rightarrow> u8 \<Rightarrow> u8 \<Rightarrow> slot_table \<Rightarrow> bool \<times> slot_table" where
  "apply_slot_request m pid flag v ss =
     (case sid_of_pid ss pid of
        None \<Rightarrow> (False, ss)
      | Some sid \<Rightarrow>
          (let fixed_settings = has_fixed_player_settings m;
               custom_forces = has_custom_forces m
           in if flag = 0x11
              then (if custom_forces
                    then (case first_open_in_team_from ss sid v of
                            Some target_sid \<Rightarrow> (True, snd (swap_slots ss sid target_sid fixed_settings custom_forces))
                          | None \<Rightarrow> (False, ss))
                    else team_request m pid sid v ss)
              else if flag = 0x12
              then (if fixed_settings \<or> v > of_nat MAX_SLOTS - 1 \<or> unat sid \<ge> length ss
                       \<or> slot_team (ss ! unat sid) = of_nat MAX_SLOTS
                    then (False, ss) else colour_slot sid v ss)
              else if flag = 0x13
              then (if fixed_settings \<or> has_random_races m \<or> v \<notin> {1, 2, 4, 8, 32} \<or> unat sid \<ge> length ss
                    then (False, ss)
                    else (True, snd (slot_replace ss sid ((ss ! unat sid)\<lparr>slot_race := v OR 0x40\<rparr>))))
              else if flag = 0x14
              then (if fixed_settings \<or> v \<notin> {50, 60, 70, 80, 90, 100} \<or> unat sid \<ge> length ss
                    then (False, ss)
                    else (True, snd (slot_replace ss sid ((ss ! unat sid)\<lparr>slot_handicap := v\<rparr>))))
              else (False, ss)))"

section \<open>Starting\<close>

definition start_countdown :: "nat \<Rightarrow> 'c game \<Rightarrow> 'c game" where
  "start_countdown now g =
     (if gs_phase g = Lobby then g\<lparr>gs_phase := Countdown now COUNTDOWN_TOTAL (COUNTDOWN_STEPS + 1)\<rparr> else g)"

text \<open>The checks before a start that is not forced: the message of the first one that fails.\<close>

definition start_obstacle :: "nat \<Rightarrow> 'c game \<Rightarrow> bytes option" where
  "start_obstacle now g =
     (let names = \<lambda>ps. join (str '', '') (map pl_name ps);
          bypass = str ''. Use !start force to bypass.'';
          downloading = concat (map (\<lambda>d. if dl_sent_upto d < mi_size (cfg_map (gs_cfg g))
                                      then (case by_pid (gs_players g) (dl_pid d) of Some p \<Rightarrow> [p] | None \<Rightarrow> [])
                                      else []) (gs_downloads g));
          unverified = filter (\<lambda>p. \<not> pl_virtual_host p \<and> \<not> pl_spoofed p) (gs_players g);
          unpinged = filter (\<lambda>p. \<not> pl_virtual_host p \<and> \<not> pl_reserved p \<and> length (pl_ping_history p) < 3)
                       (gs_players g)
      in if human_count (gs_players g) < 1
         then Some (str ''Unable to start: only '' @ show_nat (human_count (gs_players g))
                    @ str '' player(s) in the lobby.'')
         else if (case gs_hcl g of Some h \<Rightarrow> length h > length (gs_slots g) | None \<Rightarrow> False)
         then Some (str ''Unable to start: HCL string is too long for map slots. Use !start force to bypass.'')
         else if downloading \<noteq> []
         then Some (str ''Unable to start: players still downloading map: '' @ names downloading @ bypass)
         else if cfg_require_spoof_checks (gs_cfg g) \<and> unverified \<noteq> []
         then Some (str ''Unable to start: unverified spoofcheck: '' @ names unverified @ bypass)
         else if unpinged \<noteq> []
         then Some (str ''Unable to start: players ping not checked: '' @ names unpinged @ bypass)
         else if (case gs_last_player_left_time g of Some t \<Rightarrow> elapsed now t < secs 2 | None \<Rightarrow> False)
         then Some (str ''Unable to start: a player left within the last 2 seconds. Use !start force to bypass.'')
         else None)"

section \<open>Commands\<close>

definition store_send :: "store_cmd \<Rightarrow> 'c game \<Rightarrow> 'c game" where
  "store_send c g = g\<lparr>gs_store := map_option (\<lambda>cs. cs @ [c]) (gs_store g)\<rparr>"

definition kick_code :: "'c game \<Rightarrow> u32" where
  "kick_code g = (if in_lobby (gs_phase g) then PLAYERLEAVE_LOBBY else PLAYERLEAVE_LOST)"

definition find_player :: "'c env \<Rightarrow> bytes \<Rightarrow> 'c game \<Rightarrow> name_match + 'c player" where
  "find_player env name g = by_name_partial (env_lower env) (gs_players g) name"

definition no_match :: "bytes \<Rightarrow> bytes" where
  "no_match name = str ''No player matching ['' @ name @ str ''].''"

text \<open>The slot operations that announce the slots when they changed something.\<close>

definition with_slots :: "'c env \<Rightarrow> nat \<Rightarrow> bool \<times> slot_table \<Rightarrow> 'c game \<Rightarrow> 'c game" where
  "with_slots env now r g =
     (let g = g\<lparr>gs_slots := snd r\<rparr> in if fst r then send_all_slot_info env now g else g)"

definition computer_update :: "u8 \<Rightarrow> (slot_info \<Rightarrow> slot_info) \<Rightarrow> slot_table \<Rightarrow> bool \<times> slot_table" where
  "computer_update sid f ss =
     (if unat sid < length ss \<and> slot_computer (ss ! unat sid) = 1 then slot_update ss sid f else (False, ss))"

definition run_slot_command :: "'c env \<Rightarrow> nat \<Rightarrow> chat_command \<Rightarrow> 'c game \<Rightarrow> 'c game" where
  "run_slot_command env now cmd g =
     (let ss = gs_slots g; m = cfg_map (gs_cfg g)
      in case cmd of
           Open sid \<Rightarrow> with_slots env now (slot_open ss sid) g
         | Close sid \<Rightarrow> with_slots env now (slot_close ss sid) g
         | Swap a b \<Rightarrow>
             with_slots env now (swap_slots ss a b (has_fixed_player_settings m) (has_custom_forces m)) g
         | _ \<Rightarrow> g)"

definition run_computer_command :: "'c env \<Rightarrow> nat \<Rightarrow> chat_command \<Rightarrow> 'c game \<Rightarrow> 'c game" where
  "run_computer_command env now cmd g =
     (let ss = gs_slots g
      in case cmd of
           Comp sid team colour race ctype handicap \<Rightarrow>
             with_slots env now (add_computer ss sid team colour race ctype handicap) g
         | CompColour sid v \<Rightarrow> with_slots env now (computer_update sid (\<lambda>s. s\<lparr>slot_colour := v\<rparr>) ss) g
         | CompRace sid v \<Rightarrow> with_slots env now (computer_update sid (\<lambda>s. s\<lparr>slot_race := v\<rparr>) ss) g
         | CompHandicap sid v \<Rightarrow> with_slots env now (computer_update sid (\<lambda>s. s\<lparr>slot_handicap := v\<rparr>) ss) g
         | CompTeam sid v \<Rightarrow> with_slots env now (computer_update sid (\<lambda>s. s\<lparr>slot_team := v\<rparr>) ss) g
         | _ \<Rightarrow> g)"

fun shuffle_slots :: "(nat \<Rightarrow> u16) \<Rightarrow> nat list \<Rightarrow> slot_table \<Rightarrow> slot_table" where
  "shuffle_slots rnd [] ss = ss"
| "shuffle_slots rnd (i # is) ss =
     shuffle_slots rnd is (snd (slot_swap ss (of_nat i) (of_nat (unat (rnd i) mod length ss))))"

definition start_command :: "'c env \<Rightarrow> nat \<Rightarrow> u8 \<Rightarrow> bool \<Rightarrow> 'c game \<Rightarrow> 'c game option" where
  "start_command env now pid force g =
     (case (if force then None else start_obstacle now g) of
        Some msg \<Rightarrow> send_chat_to env now pid msg g
      | None \<Rightarrow> Some (start_countdown now g))"

definition kick_command :: "'c env \<Rightarrow> nat \<Rightarrow> u8 \<Rightarrow> bytes \<Rightarrow> 'c game \<Rightarrow> 'c game option" where
  "kick_command env now pid name g =
     (case find_player env name g of
        Inr target \<Rightarrow> Some (kick_player (pl_pid target) (str ''was kicked'') (kick_code g) g)
      | Inl NoMatch \<Rightarrow> send_chat_to env now pid (no_match name) g
      | Inl (Ambiguous n) \<Rightarrow>
          send_chat_to env now pid
            (str ''['' @ name @ str ''] matches '' @ show_nat n @ str '' players, be more specific.'') g)"

definition ban_command :: "'c env \<Rightarrow> nat \<Rightarrow> bytes \<Rightarrow> bytes \<Rightarrow> bytes \<Rightarrow> 'c game \<Rightarrow> 'c game option" where
  "ban_command env now caller name reason g = do {
     g \<leftarrow> send_chat_all env now (str ''Banned ['' @ name @ str '']: '' @ reason @ str ''.'')
            (store_send (AddBan name [] caller reason) g);
     Some (case find_player env name g of
             Inr target \<Rightarrow> kick_player (pl_pid target) (str ''banned: '' @ reason) (kick_code g) g
           | Inl _ \<Rightarrow> g) }"

definition ban_last_command :: "'c env \<Rightarrow> nat \<Rightarrow> u8 \<Rightarrow> bytes \<Rightarrow> bytes \<Rightarrow> 'c game \<Rightarrow> 'c game option" where
  "ban_last_command env now pid caller reason g =
     (case gs_last_player_left g of
        Some (name, ip) \<Rightarrow>
          send_chat_all env now (str ''Banned last leaver ['' @ name @ str '']: '' @ reason @ str ''.'')
            (store_send (AddBan name ip caller reason) g)
      | None \<Rightarrow> send_chat_to env now pid (str ''No player has left the game yet.'') g)"

definition mute_command :: "'c env \<Rightarrow> nat \<Rightarrow> bool \<Rightarrow> bytes \<Rightarrow> 'c game \<Rightarrow> 'c game option" where
  "mute_command env now muted name g =
     (case find_player env name g of
        Inr target \<Rightarrow>
          send_chat_all env now (str ''['' @ pl_name target
              @ (if muted then str ''] has been muted.'' else str ''] has been unmuted.''))
            (update_player (pl_pid target) (\<lambda>p. p\<lparr>pl_muted := muted\<rparr>) g)
      | Inl _ \<Rightarrow> Some g)"

section \<open>Votes\<close>

definition vote_start :: "'c env \<Rightarrow> nat \<Rightarrow> u8 \<Rightarrow> 'c game \<Rightarrow> 'c game option" where
  "vote_start env now pid g =
     (if pid \<in> set (gs_start_votes g) then Some g
      else let g = g\<lparr>gs_start_votes := gs_start_votes g @ [pid]\<rparr>;
               votes = length (gs_start_votes g);
               needed = human_count (gs_players g) div 2 + 1
           in map_option (\<lambda>g. if votes \<ge> needed then start_countdown now g else g)
                (send_chat_all env now (str ''Vote start: '' @ show_nat votes @ str ''/''
                   @ show_nat needed @ str '' votes.'') g))"

definition votes_needed :: "'c game \<Rightarrow> nat" where
  "votes_needed g =
     (let pct = max 1 (min 100 (cfg_votekick_percentage (gs_cfg g)));
          n = unat ((of_nat (human_count (gs_players g)) :: u32) * pct)
      in max ((n + 99) div 100) 1)"

definition vote_kick :: "'c env \<Rightarrow> nat \<Rightarrow> u8 \<Rightarrow> bytes \<Rightarrow> 'c game \<Rightarrow> 'c game option" where
  "vote_kick env now pid name g =
     (if \<not> cfg_votekick_allowed (gs_cfg g) then send_chat_to env now pid (str ''Votekick is disabled.'') g
      else case find_player env name g of
             Inr target \<Rightarrow>
               send_chat_all env now (str ''Votekick started against ['' @ pl_name target @ str ''] (1/''
                   @ show_nat (votes_needed g) @ str '' votes). Type !yes to vote.'')
                 (g\<lparr>gs_votekick_target := Some (pl_pid target), gs_votekick_votes := [pid]\<rparr>)
           | Inl _ \<Rightarrow> send_chat_to env now pid (no_match name) g)"

definition vote_yes :: "'c env \<Rightarrow> nat \<Rightarrow> u8 \<Rightarrow> 'c game \<Rightarrow> 'c game option" where
  "vote_yes env now pid g =
     (case gs_votekick_target g of
        None \<Rightarrow> Some g
      | Some target_pid \<Rightarrow>
          (if pid \<in> set (gs_votekick_votes g) then Some g
           else let g = g\<lparr>gs_votekick_votes := gs_votekick_votes g @ [pid]\<rparr>;
                    votes = length (gs_votekick_votes g);
                    needed = votes_needed g
                in map_option (\<lambda>g. if votes \<ge> needed
                      then (kick_player target_pid (str ''voted out'') (kick_code g) g)
                             \<lparr>gs_votekick_target := None, gs_votekick_votes := []\<rparr>
                      else g)
                     (send_chat_all env now (str ''Votekick: '' @ show_nat votes @ str ''/''
                        @ show_nat needed @ str '' votes.'') g)))"

definition vote_draw :: "'c env \<Rightarrow> nat \<Rightarrow> u8 \<Rightarrow> 'c game \<Rightarrow> 'c game option" where
  "vote_draw env now pid g =
     (if pid \<in> set (gs_draw_votes g) then Some g
      else let g = g\<lparr>gs_draw_votes := gs_draw_votes g @ [pid]\<rparr>;
               votes = length (gs_draw_votes g);
               everyone = human_count (gs_players g)
           in do {
             g \<leftarrow> send_chat_all env now (str ''Draw vote: '' @ show_nat votes @ str ''/''
                     @ show_nat everyone @ str '' players agreed.'') g;
             if votes \<ge> everyone
             then map_option (\<lambda>g. g\<lparr>gs_finished := True\<rparr>) (send_chat_all env now (str ''Game ended in a draw.'') g)
             else Some g })"

section \<open>Settings and information\<close>

definition set_cfg :: "(game_config \<Rightarrow> game_config) \<Rightarrow> 'c game \<Rightarrow> 'c game" where
  "set_cfg f g = g\<lparr>gs_cfg := f (gs_cfg g)\<rparr>"

definition sync_limit_command :: "'c env \<Rightarrow> nat \<Rightarrow> u8 \<Rightarrow> u32 option \<Rightarrow> 'c game \<Rightarrow> 'c game option" where
  "sync_limit_command env now pid maybe_limit g =
     (case maybe_limit of
        Some limit \<Rightarrow>
          (let g = set_cfg (\<lambda>c. c\<lparr>cfg_sync_limit := max 10 (min 500 limit)\<rparr>) g
           in send_chat_to env now pid (str ''Sync limit set to '' @ show_word (cfg_sync_limit (gs_cfg g)) @ str ''.'') g)
      | None \<Rightarrow>
          send_chat_to env now pid
            (str ''Current sync limit is '' @ show_word (cfg_sync_limit (gs_cfg g)) @ str ''.'') g)"

definition latency_command :: "'c env \<Rightarrow> nat \<Rightarrow> u8 \<Rightarrow> u32 option \<Rightarrow> 'c game \<Rightarrow> 'c game option" where
  "latency_command env now pid maybe_lat g =
     (case maybe_lat of
        Some lat \<Rightarrow>
          (let clamped = max 10 (min 500 lat);
               d = millis (unat clamped);
               g = set_cfg (\<lambda>c. c\<lparr>cfg_latency := d\<rparr>) (g\<lparr>gs_tick := tick_set_period (gs_tick g) d\<rparr>)
           in send_chat_to env now pid (str ''Latency set to '' @ show_word clamped @ str '' ms.'') g)
      | None \<Rightarrow>
          send_chat_to env now pid
            (str ''Current latency is '' @ show_nat (as_millis (cfg_latency (gs_cfg g))) @ str '' ms.'') g)"

definition shuffle_command :: "'c env \<Rightarrow> nat \<Rightarrow> (nat \<Rightarrow> u16) \<Rightarrow> 'c game \<Rightarrow> 'c game option" where
  "shuffle_command env now rnd g =
     (if gs_phase g = Lobby
      then send_chat_all env now (str ''Slots shuffled.'')
             (send_all_slot_info env now
               (g\<lparr>gs_slots := shuffle_slots rnd [0..<length (gs_slots g)] (gs_slots g)\<rparr>))
      else Some g)"

definition ping_command :: "'c env \<Rightarrow> nat \<Rightarrow> u8 \<Rightarrow> 'c game \<Rightarrow> 'c game option" where
  "ping_command env now pid g =
     (let body = map (\<lambda>p. case average_ping p of
                          Some ms \<Rightarrow> pl_name p @ str '': '' @ show_word ms @ str ''ms''
                        | None \<Rightarrow> pl_name p @ str '': N/A'') (humans (gs_players g))
      in send_chat_to env now pid (str ''Pings: '' @ join (str '', '') body) g)"

definition player_report :: "bytes \<Rightarrow> 'c player \<Rightarrow> bytes" where
  "player_report who p =
     who @ str '' ['' @ pl_name p @ str '']: Ping: ''
     @ show_word (case average_ping p of Some ms \<Rightarrow> ms | None \<Rightarrow> 0) @ str ''ms, Spoofed: ''
     @ (if pl_spoofed p then str ''Yes'' else str ''No'') @ str '', Realm: [''
     @ (if pl_joined_realm p = [] then str ''LAN'' else pl_joined_realm p) @ str '']''"

definition check_command :: "'c env \<Rightarrow> nat \<Rightarrow> u8 \<Rightarrow> bytes \<Rightarrow> 'c game \<Rightarrow> 'c game option" where
  "check_command env now pid name g =
     (case find_player env name g of
        Inr target \<Rightarrow> send_chat_to env now pid (player_report (str ''Player'') target) g
      | Inl _ \<Rightarrow> send_chat_to env now pid (no_match name) g)"

definition check_me_command :: "'c env \<Rightarrow> nat \<Rightarrow> u8 \<Rightarrow> 'c game \<Rightarrow> 'c game option" where
  "check_me_command env now pid g =
     (case by_pid (gs_players g) pid of
        Some target \<Rightarrow> send_chat_to env now pid (player_report (str ''You'') target) g
      | None \<Rightarrow> Some g)"

definition announce_command :: "'c env \<Rightarrow> nat \<Rightarrow> u8 \<Rightarrow> bytes \<Rightarrow> 'c game \<Rightarrow> 'c game option" where
  "announce_command env now pid msg g =
     (case env_split_whitespace env msg of
        [] \<Rightarrow> send_chat_to env now pid (str ''Announcement cleared.'')
                (g\<lparr>gs_announce_message := None, gs_announce_interval := 0\<rparr>)
      | first # parts \<Rightarrow>
          if eq_ignore_ascii_case first (str ''off'')
          then send_chat_to env now pid (str ''Announcement disabled.'')
                 (g\<lparr>gs_announce_message := None, gs_announce_interval := 0\<rparr>)
          else case parse_nat (2 ^ 64) first of
                 Some interval_sec \<Rightarrow>
                   (let text = join (str '' '') parts
                    in send_chat_all env now (str ''Announcement (every '' @ show_nat interval_sec @ str ''s): '' @ text)
                         (g\<lparr>gs_announce_interval := secs interval_sec, gs_announce_message := Some text,
                            gs_last_announce_time := Some now\<rparr>))
               | None \<Rightarrow>
                   send_chat_all env now (str ''Announcement: '' @ msg) (g\<lparr>gs_announce_message := Some msg\<rparr>))"

definition auto_start_command :: "'c env \<Rightarrow> nat \<Rightarrow> nat option \<Rightarrow> 'c game \<Rightarrow> 'c game option" where
  "auto_start_command env now num g =
     send_chat_all env now
       (case num of Some n \<Rightarrow> str ''Autostart enabled when '' @ show_nat n @ str '' players join.''
        | None \<Rightarrow> str ''Autostart disabled.'')
       (g\<lparr>gs_autostart_players := num\<rparr>)"

definition download_command :: "'c env \<Rightarrow> nat \<Rightarrow> u8 \<Rightarrow> bytes \<Rightarrow> 'c game \<Rightarrow> 'c game option" where
  "download_command env now pid name g =
     (let target_pid = (if name = [] then Some pid
                        else case find_player env name g of Inr p \<Rightarrow> Some (pl_pid p) | Inl _ \<Rightarrow> None)
      in case target_pid of
           Some tpid \<Rightarrow> do {
             g \<leftarrow> (case by_pid (gs_players g) tpid of
                     Some p \<Rightarrow> send_chat_to env now pid
                                 (str ''Map download allowed for player ['' @ pl_name p @ str ''].'')
                                 (update_player tpid (\<lambda>p. p\<lparr>pl_download_allowed := True\<rparr>) g)
                   | None \<Rightarrow> Some g);
             Some (send_to env now tpid (start_download (host_pid g)) g) }
         | None \<Rightarrow> send_chat_to env now pid (no_match name) g)"

definition stats_command :: "'c env \<Rightarrow> nat \<Rightarrow> u8 \<Rightarrow> bytes \<Rightarrow> bytes \<Rightarrow> 'c game \<Rightarrow> 'c game option" where
  "stats_command env now pid caller name g =
     (if (case by_pid (gs_players g) pid of
            Some p \<Rightarrow> (case pl_stats_sent_time p of Some t \<Rightarrow> elapsed now t < secs 5 | None \<Rightarrow> False)
          | None \<Rightarrow> False)
      then Some g
      else send_chat_to env now pid
             (str ''Querying stats for ['' @ (if name = [] then caller else name) @ str '']...'')
             (update_player pid (\<lambda>p. p\<lparr>pl_stats_sent_time := Some now\<rparr>) g))"

definition stats_dota_command :: "'c env \<Rightarrow> nat \<Rightarrow> u8 \<Rightarrow> bytes \<Rightarrow> bytes \<Rightarrow> 'c game \<Rightarrow> 'c game option" where
  "stats_dota_command env now pid caller name g =
     (if (case by_pid (gs_players g) pid of
            Some p \<Rightarrow> (case pl_stats_dota_sent_time p of Some t \<Rightarrow> elapsed now t < secs 5 | None \<Rightarrow> False)
          | None \<Rightarrow> False)
      then Some g
      else let g = update_player pid (\<lambda>p. p\<lparr>pl_stats_dota_sent_time := Some now\<rparr>) g;
               target_name = (if name = [] then caller else name)
           in send_chat_to env now pid
                (case gs_dota g of
                   Some dota \<Rightarrow>
                     (case format_player_stats dota target_name of
                        Some summary \<Rightarrow> summary
                      | None \<Rightarrow> str ''No DotA stats found for ['' @ target_name @ str ''].'')
                 | None \<Rightarrow> str ''Not a DotA map.'') g)"

definition owner_command :: "'c env \<Rightarrow> nat \<Rightarrow> u8 \<Rightarrow> bytes option \<Rightarrow> 'c game \<Rightarrow> 'c game option" where
  "owner_command env now pid new_owner g =
     (case new_owner of
        Some owner \<Rightarrow>
          send_chat_all env now (str ''Game owner transferred to ['' @ owner @ str ''].'')
            (set_cfg (\<lambda>c. c\<lparr>cfg_owner := owner\<rparr>) g)
      | None \<Rightarrow> send_chat_to env now pid (str ''Current owner is ['' @ cfg_owner (gs_cfg g) @ str ''].'') g)"

definition fake_player_command :: "'c env \<Rightarrow> nat \<Rightarrow> u8 \<Rightarrow> 'c game \<Rightarrow> 'c game option" where
  "fake_player_command env now pid g =
     (case toggle_fake_player env now g of
        (Some msg, g) \<Rightarrow> send_chat_to env now pid msg g
      | (None, g) \<Rightarrow> Some g)"

definition fake_action :: "'c env \<Rightarrow> nat \<Rightarrow> u8 \<Rightarrow> u8 \<Rightarrow> bytes \<Rightarrow> 'c game \<Rightarrow> 'c game option" where
  "fake_action env now pid code msg g =
     (case gs_fake_player_pid g of
        Some fake_pid \<Rightarrow>
          (if gs_phase g = Playing
           then send_chat_to env now pid msg
                  (g\<lparr>gs_actions := gs_actions g @ [\<lparr>ab_pid = fake_pid, ab_data = [code]\<rparr>]\<rparr>)
           else Some g)
      | None \<Rightarrow> Some g)"

definition from_command :: "'c env \<Rightarrow> nat \<Rightarrow> u8 \<Rightarrow> 'c game \<Rightarrow> 'c game option" where
  "from_command env now pid g =
     each (send_chat_to env now pid)
       (map (\<lambda>p. str ''Player ['' @ pl_name p @ str ''] is from [''
               @ (if pl_joined_realm p \<noteq> [] then pl_joined_realm p else show_ip (pl_external_ip p)) @ str '']'')
          (filter (\<lambda>p. \<not> pl_virtual_host p \<and> pl_left p = None) (gs_players g))) g"

definition messages_command :: "'c env \<Rightarrow> nat \<Rightarrow> u8 \<Rightarrow> bool option \<Rightarrow> 'c game \<Rightarrow> 'c game option" where
  "messages_command env now pid opt g =
     (case opt of
        Some True \<Rightarrow> send_chat_to env now pid (str ''Local admin messages enabled.'')
                       (g\<lparr>gs_local_admin_messages := True\<rparr>)
      | Some False \<Rightarrow> send_chat_to env now pid (str ''Local admin messages disabled.'')
                       (g\<lparr>gs_local_admin_messages := False\<rparr>)
      | None \<Rightarrow> send_chat_to env now pid (str ''Local admin messages are ''
                  @ (if gs_local_admin_messages g then str ''enabled'' else str ''disabled'') @ str ''.'') g)"

definition lobby_status :: "'c game \<Rightarrow> game_event" where
  "lobby_status g = LobbyStatus (cfg_host_counter (gs_cfg g)) (count_open (gs_slots g))
     (of_nat (length (gs_slots g))) (of_nat (human_count (gs_players g)))"

definition send_event :: "game_event \<Rightarrow> 'c game \<Rightarrow> 'c game" where
  "send_event e g = g\<lparr>gs_events := map_option (\<lambda>es. es @ [e]) (gs_events g)\<rparr>"

definition rehost_command :: "'c env \<Rightarrow> nat \<Rightarrow> bytes \<Rightarrow> bytes \<Rightarrow> 'c game \<Rightarrow> 'c game option" where
  "rehost_command env now kind name g =
     (if gs_phase g = Lobby \<and> name \<noteq> []
      then let g = g\<lparr>gs_last_game_name := cfg_name (gs_cfg g), gs_refresh_rehosted := True\<rparr>;
               g = set_cfg (\<lambda>c. c\<lparr>cfg_name := name, cfg_host_counter := cfg_host_counter c + 1\<rparr>) g
           in map_option (\<lambda>g. send_event (lobby_status g) g)
                (send_chat_all env now (str ''Rehosted game as '' @ kind @ str '' ['' @ name @ str ''].'') g)
      else Some g)"

definition mute_lobby_command :: "'c env \<Rightarrow> nat \<Rightarrow> bool option \<Rightarrow> 'c game \<Rightarrow> 'c game option" where
  "mute_lobby_command env now opt g =
     (let new_state = (case opt of Some b \<Rightarrow> b | None \<Rightarrow> \<not> gs_mute_lobby g)
      in send_chat_all env now
           (if new_state then str ''Lobby chat has been muted.'' else str ''Lobby chat has been unmuted.'')
           (g\<lparr>gs_mute_lobby := new_state\<rparr>))"

definition whisper_command :: "'c env \<Rightarrow> nat \<Rightarrow> u8 \<Rightarrow> bytes \<Rightarrow> bytes \<Rightarrow> bytes \<Rightarrow> 'c game \<Rightarrow> 'c game option" where
  "whisper_command env now pid caller user message g =
     (case find_player env user g of
        Inr target \<Rightarrow> do {
          g \<leftarrow> send_chat_to env now (pl_pid target)
                 (str ''[Whisper from '' @ caller @ str '']: '' @ message) g;
          send_chat_to env now pid (str ''[Whisper to '' @ pl_name target @ str '']: '' @ message) g }
      | Inl _ \<Rightarrow> send_chat_to env now pid (no_match user) g)"

section \<open>Dispatch\<close>

definition run_command ::
    "'c env \<Rightarrow> nat \<Rightarrow> (nat \<Rightarrow> u16) \<Rightarrow> u8 \<Rightarrow> bytes \<Rightarrow> chat_command \<Rightarrow> 'c game \<Rightarrow> 'c game option" where
  "run_command env now rnd pid caller cmd g =
     (let all = send_chat_all env now; to = send_chat_to env now pid
      in case cmd of
        Start force \<Rightarrow> start_command env now pid force g
      | Abort \<Rightarrow> (if is_countdown (gs_phase g) then all (str ''Countdown aborted.'') (g\<lparr>gs_phase := Lobby\<rparr>) else Some g)
      | Open _ \<Rightarrow> Some (run_slot_command env now cmd g)
      | Close _ \<Rightarrow> Some (run_slot_command env now cmd g)
      | OpenAll \<Rightarrow> all (str ''Opened all closed slots.'')
                     (send_all_slot_info env now (g\<lparr>gs_slots := open_all (gs_slots g)\<rparr>))
      | CloseAll \<Rightarrow> all (str ''Closed all open slots.'')
                     (send_all_slot_info env now (g\<lparr>gs_slots := close_all (gs_slots g)\<rparr>))
      | Swap _ _ \<Rightarrow> Some (run_slot_command env now cmd g)
      | Hold name slot \<Rightarrow>
          all (str ''Slot reserved for ['' @ name @ str ''].'')
            (case slot of Some s \<Rightarrow> g\<lparr>gs_holds := AList.update s name (gs_holds g)\<rparr> | None \<Rightarrow> g)
      | ClearHold \<Rightarrow> all (str ''Held slots cleared.'') (g\<lparr>gs_holds := []\<rparr>)
      | Kick name \<Rightarrow> kick_command env now pid name g
      | Ban name reason \<Rightarrow> ban_command env now caller name reason g
      | Unban name \<Rightarrow> to (str ''Unbanned ['' @ name @ str ''].'') (store_send (RemoveBan name) g)
      | CheckBan name \<Rightarrow> to (str ''Checking ban for ['' @ name @ str '']...'') (store_send (IsBanned name []) g)
      | BanLast reason \<Rightarrow> ban_last_command env now pid caller reason g
      | CheckAdmin name \<Rightarrow> to (str ''Checking admin status for ['' @ name @ str '']...'') g
      | AddAdminCmd name \<Rightarrow> to (str ''Added admin ['' @ name @ str ''].'') (store_send (AddAdmin name []) g)
      | DelAdmin name \<Rightarrow> to (str ''Removed admin ['' @ name @ str ''].'') (store_send (RemoveAdmin name) g)
      | Ping \<Rightarrow> ping_command env now pid g
      | Mute name \<Rightarrow> mute_command env now True name g
      | Unmute name \<Rightarrow> mute_command env now False name g
      | MuteAll \<Rightarrow> all (str ''Global chat mute enabled.'') (g\<lparr>gs_muted_all := True\<rparr>)
      | UnmuteAll \<Rightarrow> all (str ''Global chat mute disabled.'') (g\<lparr>gs_muted_all := False\<rparr>)
      | VoteStart \<Rightarrow> vote_start env now pid g
      | VoteCancel \<Rightarrow> all (str ''Active votes cancelled.'')
          (g\<lparr>gs_start_votes := [], gs_votekick_target := None, gs_votekick_votes := []\<rparr>)
      | VoteKick name \<Rightarrow> vote_kick env now pid name g
      | Yes \<Rightarrow> vote_yes env now pid g
      | SyncLimit limit \<Rightarrow> sync_limit_command env now pid limit g
      | Latency lat \<Rightarrow> latency_command env now pid lat g
      | ShufflePlayers \<Rightarrow> shuffle_command env now rnd g
      | Version \<Rightarrow> to (str ''Spectre v0.2.0 (High-Performance Async Warcraft III Hostbot)'') g
      | Say msg \<Rightarrow> all msg g
      | Whisper user message \<Rightarrow> whisper_command env now pid caller user message g
      | Stats name \<Rightarrow> stats_command env now pid caller name g
      | StatsDotA name \<Rightarrow> stats_dota_command env now pid caller name g
      | Drop \<Rightarrow> Some (handle_drop_request g)
      | Draw \<Rightarrow> vote_draw env now pid g
      | HclCmd mode \<Rightarrow> all (str ''HCL set to ['' @ mode @ str ''].'') (g\<lparr>gs_hcl := Some mode\<rparr>)
      | ClearHcl \<Rightarrow> all (str ''HCL settings cleared.'') (g\<lparr>gs_hcl := None\<rparr>)
      | Owner new_owner \<Rightarrow> owner_command env now pid new_owner g
      | Unhost \<Rightarrow> Some (if gs_phase g = Lobby then g\<lparr>gs_finished := True\<rparr> else g)
      | End \<Rightarrow> map_option (\<lambda>g. g\<lparr>gs_phase := Over, gs_finished := True\<rparr>) (all (str ''Game ended by host.'') g)
      | Lock \<Rightarrow> all (str ''Game locked.'') (g\<lparr>gs_locked := True\<rparr>)
      | Unlock \<Rightarrow> all (str ''Game unlocked.'') (g\<lparr>gs_locked := False\<rparr>)
      | Check name \<Rightarrow> check_command env now pid name g
      | CheckMe \<Rightarrow> check_me_command env now pid g
      | Announce msg \<Rightarrow> announce_command env now pid msg g
      | AutoStart num \<Rightarrow> auto_start_command env now num g
      | Refresh \<Rightarrow> to (str ''Refreshed slot info.'') (send_all_slot_info env now g)
      | VirtualHost vname \<Rightarrow> all (str ''Virtual host name set to ['' @ vname @ str ''].'')
          (set_cfg (\<lambda>c. c\<lparr>cfg_virtual_host_name := vname\<rparr>) g)
      | Comp _ _ _ _ _ _ \<Rightarrow> Some (run_computer_command env now cmd g)
      | CompColour _ _ \<Rightarrow> Some (run_computer_command env now cmd g)
      | CompRace _ _ \<Rightarrow> Some (run_computer_command env now cmd g)
      | CompHandicap _ _ \<Rightarrow> Some (run_computer_command env now cmd g)
      | CompTeam _ _ \<Rightarrow> Some (run_computer_command env now cmd g)
      | Download name \<Rightarrow> download_command env now pid name g
      | DbStatus \<Rightarrow> to (str ''DB STATUS --- OK'') g
      | FakePlayer \<Rightarrow> fake_player_command env now pid g
      | FpPause \<Rightarrow> fake_action env now pid 1 (str ''Game paused by fake player.'') g
      | FpResume \<Rightarrow> fake_action env now pid 2 (str ''Game resumed by fake player.'') g
      | From \<Rightarrow> from_command env now pid g
      | Messages opt \<Rightarrow> messages_command env now pid opt g
      | SendLan ip port \<Rightarrow>
          to (str ''Sending LAN broadcast to ['' @ ip @ str '':''
              @ show_word (case port of Some p \<Rightarrow> p | None \<Rightarrow> 6112) @ str ''].'') g
      | Pub name \<Rightarrow> rehost_command env now (str ''public'') name g
      | Priv name \<Rightarrow> rehost_command env now (str ''private'') name g
      | MuteLobby opt \<Rightarrow> mute_lobby_command env now opt g
      | Unknown v \<Rightarrow> to (str ''Unknown command ['' @ v @ str ''].'') g)"

definition public_command :: "chat_command \<Rightarrow> bool" where
  "public_command cmd =
     (case cmd of Ping \<Rightarrow> True | VoteStart \<Rightarrow> True | VoteCancel \<Rightarrow> True | VoteKick _ \<Rightarrow> True | Yes \<Rightarrow> True
      | Draw \<Rightarrow> True | Stats _ \<Rightarrow> True | StatsDotA _ \<Rightarrow> True | Version \<Rightarrow> True | CheckMe \<Rightarrow> True
      | Whisper _ _ \<Rightarrow> True | _ \<Rightarrow> False)"

definition is_owner :: "bytes \<Rightarrow> 'c game \<Rightarrow> bool" where
  "is_owner name g \<longleftrightarrow> eq_ignore_ascii_case name (cfg_owner (gs_cfg g))
     \<or> eq_ignore_ascii_case (cfg_owner (gs_cfg g)) (str ''BOT'') \<or> cfg_owner (gs_cfg g) = []"

text \<open>The branch of \<^verbatim>\<open>handle_chat_to_host\<close> for a message that is not a command.\<close>

definition forward_chat :: "'c env \<Rightarrow> nat \<Rightarrow> u8 \<Rightarrow> bytes \<Rightarrow> chat_to_host \<Rightarrow> 'c game \<Rightarrow> 'c game" where
  "forward_chat env now pid name chat g =
     (let extra = cth_extra chat;
          extra_u32 = (if length extra \<ge> 4 then from_le (take 4 extra) else 0);
          g = (if gs_phase g = Loading \<or> gs_phase g = Playing
               then relay_send (ViewerChat name (cth_message chat))
                      (with_replay (\<lambda>rep. replay_add_chat rep pid (cth_flag chat) extra_u32 (cth_message chat)) g)
               else g)
      in if gs_phase g = Lobby \<and> gs_mute_lobby g then g
         else let to_pids = (if cth_to_pids chat = []
                             then map pl_pid (filter (\<lambda>p. \<not> pl_virtual_host p \<and> pl_left p = None \<and> pl_pid p \<noteq> pid)
                                    (gs_players g))
                             else filter (\<lambda>to. case by_pid (gs_players g) to of
                                            Some p \<Rightarrow> \<not> pl_virtual_host p | None \<Rightarrow> False) (cth_to_pids chat))
              in case chat_from_host pid to_pids (cth_flag chat) extra (cth_message chat) of
                   Inl _ \<Rightarrow> g
                 | Inr b \<Rightarrow>
                     if in_lobby (gs_phase g) then foldl (\<lambda>g to. send_to env now to b g) g to_pids
                     else broadcast env now b g)"

definition handle_chat_to_host ::
    "'c env \<Rightarrow> nat \<Rightarrow> (nat \<Rightarrow> u16) \<Rightarrow> u64 \<Rightarrow> bytes \<Rightarrow> 'c game \<Rightarrow> 'c game option" where
  "handle_chat_to_host env now rnd conn_id payload g =
     (case by_conn (gs_players g) conn_id of
        None \<Rightarrow> Some g
      | Some p \<Rightarrow>
          (case chat_to_host_decode payload of
             Inl _ \<Rightarrow> Some g
           | Inr chat \<Rightarrow>
               (let pid = pl_pid p; name = pl_name p
                in if cth_from_pid chat \<noteq> pid then Some g
                   else do {
                     g \<leftarrow> (if cth_message chat = str ''?trigger''
                           then send_chat_to env now pid (str ''Command trigger: !'') g else Some g);
                     if 0x11 \<le> cth_flag chat \<and> cth_flag chat \<le> 0x14
                     then Some (if gs_phase g = Lobby
                                then with_slots env now (apply_slot_request (cfg_map (gs_cfg g)) pid
                                       (cth_flag chat) (cth_byte chat) (gs_slots g)) g
                                else g)
                     else case parse_command (env_split_whitespace env) (env_lower env) 33 (cth_message chat) of
                            Some cmd \<Rightarrow>
                              (if \<not> is_owner name g \<and> \<not> public_command cmd
                               then send_chat_to env now pid (str ''You are not the owner of this game.'') g
                               else run_command env now rnd pid name cmd g)
                          | None \<Rightarrow>
                              (if (pl_muted p \<or> gs_muted_all g) \<and> \<not> is_owner name g then Some g
                               else Some (forward_chat env now pid name chat g)) })))"

end
