(* ===== verification/Actor.thy ===== *)
theory Actor
  imports Actions Chat
begin

text \<open>
  The actor of one game (\<^verbatim>\<open>spectre-engine/src/actor.rs\<close> and \<^verbatim>\<open>on_tick\<close> of \<^verbatim>\<open>actions.rs\<close>): the
  commands of its queue, the frames of its connections and the ticks of its timer, each followed by the removal of the
  players that left.
\<close>

section \<open>Ticks\<close>

definition tick_ping :: "'c env \<Rightarrow> nat \<Rightarrow> 'c game \<Rightarrow> 'c game" where
  "tick_ping env now g =
     (if (in_lobby (gs_phase g) \<or> gs_phase g = Loading) \<and> elapsed now (gs_last_ping_at g) \<ge> secs 5
      then (broadcast env now (ping_from_host (of_nat (as_millis (elapsed now (gs_created_at g))))) g)
             \<lparr>gs_last_ping_at := now\<rparr>
      else g)"

definition tick_announce :: "'c env \<Rightarrow> nat \<Rightarrow> 'c game \<Rightarrow> 'c game option" where
  "tick_announce env now g =
     (case gs_announce_message g of
        Some msg \<Rightarrow>
          (if gs_announce_interval g > 0
              \<and> (case gs_last_announce_time g of Some t \<Rightarrow> elapsed now t \<ge> gs_announce_interval g | None \<Rightarrow> True)
           then map_option (\<lambda>g. g\<lparr>gs_last_announce_time := Some now\<rparr>) (send_chat_all env now msg g)
           else Some g)
      | None \<Rightarrow> Some g)"

definition tick_lobby_limit :: "nat \<Rightarrow> 'c game \<Rightarrow> 'c game" where
  "tick_lobby_limit now g =
     (if (case gs_autostart_players g of Some n \<Rightarrow> n | None \<Rightarrow> 0) = 0 \<and> cfg_lobby_time_limit (gs_cfg g) > 0
      then let g = (if list_ex (\<lambda>p. \<not> pl_virtual_host p \<and> pl_reserved p \<and> pl_left p = None) (gs_players g)
                    then g\<lparr>gs_last_reserved_seen := now\<rparr> else g)
           in if elapsed now (gs_last_reserved_seen g) \<ge> secs (unat (cfg_lobby_time_limit (gs_cfg g)) * 60)
              then g\<lparr>gs_phase := Over\<rparr> else g
      else g)"

definition tick_countdown :: "'c env \<Rightarrow> nat \<Rightarrow> nat \<Rightarrow> nat \<Rightarrow> u8 \<Rightarrow> 'c game \<Rightarrow> 'c game option" where
  "tick_countdown env now started_at duration last_step g =
     (let passed = elapsed now started_at
      in if passed \<ge> duration then begin_loading env now g
         else let steps_elapsed = (of_nat (as_millis passed div as_millis COUNTDOWN_STEP) :: u8);
                  step = saturating_sub COUNTDOWN_STEPS steps_elapsed
              in if step < last_step \<and> 1 \<le> step \<and> step \<le> COUNTDOWN_STEPS
                 then send_chat_all env now (show_word step @ str ''. . .'')
                        (g\<lparr>gs_phase := Countdown started_at duration step\<rparr>)
                 else Some g)"

definition drop_unready :: "bytes \<Rightarrow> ('c player \<Rightarrow> bool) \<Rightarrow> 'c game \<Rightarrow> 'c game" where
  "drop_unready reason unready g =
     g\<lparr>gs_players := map (\<lambda>p. if unready p \<and> pl_left p = None \<and> \<not> pl_virtual_host p
          then p\<lparr>pl_left := Some reason, pl_left_code := PLAYERLEAVE_DISCONNECT\<rparr> else p) (gs_players g)\<rparr>"

definition tick_loading :: "'c env \<Rightarrow> nat \<Rightarrow> 'c game \<Rightarrow> 'c game option" where
  "tick_loading env now g =
     (case gs_started_loading_at g of
        Some started \<Rightarrow>
          (if elapsed now started \<ge> secs 60
           then reap_left_players env now (drop_unready (str ''loading timed out (60s)'') (\<lambda>p. \<not> pl_loaded p) g)
           else Some g)
      | None \<Rightarrow> Some g)"

definition real_players_count :: "'c game \<Rightarrow> nat" where
  "real_players_count g = length (filter (\<lambda>p. \<not> pl_virtual_host p \<and> pl_left p = None) (gs_players g))"

definition game_over_timer :: "nat \<Rightarrow> 'c game \<Rightarrow> 'c game" where
  "game_over_timer now g =
     (let g = (if real_players_count g = 1 \<and> gs_start_players g > 1 \<and> gs_game_over_time g = None
               then g\<lparr>gs_game_over_time := Some now\<rparr> else g)
      in case gs_game_over_time g of
           Some over_at \<Rightarrow>
             (if elapsed now over_at \<ge> secs 60
              then drop_unready (str ''was disconnected (gameover timer finished)'') (\<lambda>p. True) g else g)
         | None \<Rightarrow> g)"

text \<open>The arm of a playing game; the flag tells whether the tick returns early.\<close>

definition tick_playing :: "'c env \<Rightarrow> nat \<Rightarrow> u32 \<Rightarrow> 'c game \<Rightarrow> (bool \<times> 'c game) option" where
  "tick_playing env now skipped g =
     (let g = pump_rejoin_catchup env now g;
          g = (case gs_fake_player_pid g of
                 Some fpid \<Rightarrow> update_player fpid (\<lambda>p. p\<lparr>pl_sync_counter := gs_sync_counter g\<rparr>) g
               | None \<Rightarrow> g)
      in do {
        g \<leftarrow> check_desync env now g;
        let (lag, g) = check_lag env now g;
        if lag then Some (True, drop_lagging_players now (secs 60) g)
        else do {
          g \<leftarrow> send_all_actions env now skipped g;
          Some (False, game_over_timer now g) } })"

definition reconnectable :: "nat \<Rightarrow> 'c game \<Rightarrow> bool" where
  "reconnectable now g = list_ex (\<lambda>p. \<not> pl_virtual_host p \<and> pl_gproxy p
      \<and> (case pl_disconnected_since p of Some t \<Rightarrow> elapsed now t < cfg_reconnect_wait (gs_cfg g) | None \<Rightarrow> False))
     (gs_players g)"

definition end_if_empty :: "nat \<Rightarrow> nat \<Rightarrow> 'c game \<Rightarrow> 'c game" where
  "end_if_empty now now_sec g =
     (if real_players_count g = 0 \<and> \<not> reconnectable now g \<and> (gs_phase g = Playing \<or> gs_phase g = Loading)
      then save_game_data now now_sec
             ((relay_send GameOver (g\<lparr>gs_phase := Over\<rparr>))\<lparr>gs_finished := True\<rparr>)
      else g)"

definition on_tick :: "'c env \<Rightarrow> nat \<Rightarrow> nat \<Rightarrow> u32 \<Rightarrow> 'c game \<Rightarrow> 'c game option" where
  "on_tick env now now_sec skipped g = do {
     g \<leftarrow> pump_downloads env now g;
     g \<leftarrow> reap_gproxy_timeouts env now (cfg_reconnect_wait (gs_cfg g)) g;
     let g = tick_ping env now g;
     (early, g) \<leftarrow>
       (case gs_phase g of
          Lobby \<Rightarrow> map_option (\<lambda>g. (False, tick_lobby_limit now g)) (tick_announce env now g)
        | Countdown started_at duration last_step \<Rightarrow>
            map_option (Pair False) (tick_countdown env now started_at duration last_step g)
        | Loading \<Rightarrow> map_option (Pair False) (tick_loading env now g)
        | Playing \<Rightarrow> tick_playing env now skipped g
        | Over \<Rightarrow> Some (False, g\<lparr>gs_finished := True\<rparr>));
     Some (if early then g else end_if_empty now now_sec g) }"

section \<open>Frames\<close>

definition enable_gproxy :: "'c player \<Rightarrow> 'c player" where
  "enable_gproxy p =
     p\<lparr>pl_gproxy := True,
       pl_gproxy_buffer := (case pl_gproxy_buffer p of None \<Rightarrow> Some (gproxy_new 500) | Some b \<Rightarrow> Some b)\<rparr>"

definition take_pending :: "u64 \<Rightarrow> 'c game \<Rightarrow> ('c \<times> 'c game) option" where
  "take_pending conn_id g =
     (case position (\<lambda>(cid, _, _). cid = conn_id) (gs_pending g) of
        None \<Rightarrow> None
      | Some idx \<Rightarrow>
          Some (fst (snd (gs_pending g ! idx)),
                g\<lparr>gs_pending := take idx (gs_pending g) @ drop (Suc idx) (gs_pending g)\<rparr>))"

definition gps_reconnect_frame :: "'c env \<Rightarrow> u64 \<Rightarrow> bytes \<Rightarrow> 'c game \<Rightarrow> 'c game" where
  "gps_reconnect_frame env conn_id payload g =
     (case decode_reconnect payload of
        Inl _ \<Rightarrow> g
      | Inr req \<Rightarrow>
          (case take_pending conn_id g of
             None \<Rightarrow> g
           | Some (link, g) \<Rightarrow> snd (snd (handle_gps_reconnect env conn_id req link g))))"

definition on_gps_frame :: "'c env \<Rightarrow> u64 \<Rightarrow> frame \<Rightarrow> 'c game \<Rightarrow> 'c game" where
  "on_gps_frame env conn_id f g =
     (if frame_id f = GPS_INIT
      then g\<lparr>gs_players := by_conn_mut (gs_players g) conn_id (\<lambda>p.
              let p = enable_gproxy p
              in p\<lparr>pl_link := send_ignore env (gps_init (ucast (reconnect_port g)) (pl_pid p) (pl_reconnect_key p)
                                (gproxy_empty_actions g)) (pl_link p)\<rparr>)\<rparr>
      else if frame_id f = GPS_ACK
      then g\<lparr>gs_players := by_conn_mut (gs_players g) conn_id enable_gproxy\<rparr>
      else if frame_id f = GPS_RECONNECT then gps_reconnect_frame env conn_id (frame_payload f) g
      else if frame_id f = GPS_FULL
      then (case decode_full (frame_payload f) of
              Inr (pid, key) \<Rightarrow> g\<lparr>gs_pending_full := AList.update conn_id (pid, key) (gs_pending_full g)\<rparr>
            | Inl _ \<Rightarrow> g)
      else g)"

definition on_iccup_gps_frame :: "'c env \<Rightarrow> u64 \<Rightarrow> frame \<Rightarrow> 'c game \<Rightarrow> 'c game" where
  "on_iccup_gps_frame env conn_id f g =
     (if frame_id f = ICCUP_INIT
      then g\<lparr>gs_players := by_conn_mut (gs_players g) conn_id (\<lambda>p.
              let p = enable_gproxy p; m = cfg_map (gs_cfg g);
                  tx = send_ignore env (iccup_init (reconnect_port g) (pl_pid p) (pl_reconnect_key p)
                         (gproxy_empty_actions g)) (pl_link p)
              in p\<lparr>pl_link := send_result_ignore env
                     (rejoin_token (pl_pid p) (pl_reconnect_key p) (reconnect_port g) (mi_crc m) (mi_sha1 m)
                        (cfg_name (gs_cfg g)) (mi_path m)) tx\<rparr>)\<rparr>
      else if frame_id f = ICCUP_ACK
      then g\<lparr>gs_players := by_conn_mut (gs_players g) conn_id enable_gproxy\<rparr>
      else if frame_id f = ICCUP_RECONNECT then gps_reconnect_frame env conn_id (frame_payload f) g
      else g)"

text \<open>
  The random choices a frame may need: the reconnect key of a joining player and the numbers of the
  shuffle.
\<close>

record random_choice =
  rc_key :: u32
  rc_shuffle :: "nat \<Rightarrow> u16"

definition on_w3gs_frame :: "'c env \<Rightarrow> nat \<Rightarrow> random_choice \<Rightarrow> u64 \<Rightarrow> frame \<Rightarrow> 'c game \<Rightarrow> 'c game option" where
  "on_w3gs_frame env now rc conn_id f g =
     (let i = frame_id f; payload = frame_payload f
      in if i = REQ_JOIN then Some (snd (handle_req_join env now (rc_key rc) conn_id payload g))
         else if i = LEAVE_GAME
         then Some (handle_leave conn_id (case decode_leave_game payload of Inr c \<Rightarrow> c | Inl _ \<Rightarrow> 0) g)
         else if i = OUTGOING_ACTION then Some (handle_action conn_id payload g)
         else if i = OUTGOING_KEEPALIVE then handle_keepalive env now conn_id payload g
         else if i = CHAT_TO_HOST then handle_chat_to_host env now (rc_shuffle rc) conn_id payload g
         else if i = GAME_LOADED_SELF then handle_loaded env now conn_id g
         else if i = PONG_TO_HOST then Some (handle_pong now conn_id payload g)
         else if i = MAP_SIZE then handle_map_size env now conn_id payload g
         else if i = MAP_PART_OK then Some (handle_map_part_ok conn_id payload g)
         else if i = MAP_PART_NOT_OK then Some (handle_map_part_not_ok conn_id payload g)
         else if i = DROP_REQ then Some (handle_drop_request g)
         else Some g)"

definition on_frame :: "'c env \<Rightarrow> nat \<Rightarrow> random_choice \<Rightarrow> u64 \<Rightarrow> any_frame \<Rightarrow> 'c game \<Rightarrow> 'c game option" where
  "on_frame env now rc conn_id f g =
     (case f of
        W3gs f \<Rightarrow> on_w3gs_frame env now rc conn_id f g
      | Gps f \<Rightarrow> Some (on_gps_frame env conn_id f g)
      | IccupGps f \<Rightarrow> Some (on_iccup_gps_frame env conn_id f g)
      | DotaTv _ \<Rightarrow> Some g)"

section \<open>Commands\<close>

datatype 'c game_cmd =
    ToggleFakePlayer
  | AttachDotaTv
  | NewConn u64 'c bytes
  | AdoptReconnect u64 u8 u32 u32 'c
  | ConnFrame u64 any_frame
  | ConnClosed u64 bytes
  | StartCmd
  | ChatCmd bytes
  | UnhostCmd
  | Shutdown
  | CreateVirtualHost

fun handle_cmd :: "'c env \<Rightarrow> nat \<Rightarrow> random_choice \<Rightarrow> 'c game_cmd \<Rightarrow> 'c game \<Rightarrow> 'c game option" where
  "handle_cmd env now rc (NewConn conn_id link ip) g = Some (add_conn conn_id link ip g)"
| "handle_cmd env now rc (AdoptReconnect conn_id pid key lp link) g =
     Some (snd (snd (handle_gps_reconnect env conn_id \<lparr>rr_pid = pid, rr_reconnect_key = key, rr_last_packet = lp\<rparr> link g)))"
| "handle_cmd env now rc (ConnFrame conn_id f) g = on_frame env now rc conn_id f g"
| "handle_cmd env now rc (ConnClosed conn_id reason) g = Some (handle_conn_closed now conn_id reason g)"
| "handle_cmd env now rc StartCmd g = Some (start_countdown now g)"
| "handle_cmd env now rc (ChatCmd msg) g = send_chat_all env now msg g"
| "handle_cmd env now rc UnhostCmd g = Some (if gs_phase g = Lobby then g\<lparr>gs_finished := True\<rparr> else g)"
| "handle_cmd env now rc AttachDotaTv g = Some (g\<lparr>gs_dotatv := Some ()\<rparr>)"
| "handle_cmd env now rc ToggleFakePlayer g = Some (snd (toggle_fake_player env now g))"
| "handle_cmd env now rc Shutdown g = Some (g\<lparr>gs_finished := True\<rparr>)"
| "handle_cmd env now rc CreateVirtualHost g = Some (create_virtual_host env now g)"

end
