(* ===== verification/Seating.thy ===== *)
theory Seating
  imports Actor
begin

text \<open>
  The invariant that ties the player table, the slot table and the virtual host together, and that
  every operation of a game keeps it. What it talks about is a small view of the state; most operations leave the
  view as it is, which the collection \<open>keeps_view\<close> says of each of them.
\<close>

named_theorems keeps_view \<open>operations that leave players, slots and the virtual host as they are\<close>

section \<open>The invariant\<close>

type_synonym roster = "(u8 \<times> bool) list"

record seat_view =
  sv_roster :: roster
  sv_slots :: slot_table
  sv_host :: u8
  sv_fake :: "u8 option"
  sv_actions :: "action_block list"

definition view :: "'c game \<Rightarrow> seat_view" where
  "view g = \<lparr>sv_roster = map (\<lambda>p. (pl_pid p, pl_virtual_host p)) (gs_players g), sv_slots = gs_slots g,
     sv_host = gs_virtual_host_pid g, sv_fake = gs_fake_player_pid g, sv_actions = gs_actions g\<rparr>"

definition humans_of :: "roster \<Rightarrow> u8 set" where
  "humans_of r = set (map fst (filter (\<lambda>x. \<not> snd x) r))"

definition view_ok :: "seat_view \<Rightarrow> bool" where
  "view_ok v \<longleftrightarrow> distinct (map fst (sv_roster v))
     \<and> (\<forall>(pid, vh) \<in> set (sv_roster v). pid \<noteq> 0 \<and> pid \<noteq> 255 \<and> (vh \<longleftrightarrow> pid = sv_host v))
     \<and> (sv_host v \<noteq> 255 \<longrightarrow> sv_host v \<in> fst ` set (sv_roster v))
     \<and> slots_inv (sv_slots v) \<and> set (seated (sv_slots v)) \<subseteq> humans_of (sv_roster v)
     \<and> sv_fake v = None \<and> small_actions (sv_actions v)"

text \<open>
  Player ids are distinct and neither 0 nor 255; the virtual host is exactly the player the game names; the slot
  table is well formed and every seat belongs to a player of the game; queued actions fit a packet.
\<close>

definition game_inv :: "'c game \<Rightarrow> bool" where
  "game_inv g \<longleftrightarrow> view_ok (view g)"

lemma game_inv_cong: "view g' = view g \<Longrightarrow> game_inv g' \<longleftrightarrow> game_inv g"
  by (simp add: game_inv_def)

section \<open>What leaves the view alone\<close>

definition same_seat :: "('c player \<Rightarrow> 'c player) \<Rightarrow> bool" where
  "same_seat f \<longleftrightarrow> (\<forall>p. pl_pid (f p) = pl_pid p \<and> pl_virtual_host (f p) = pl_virtual_host p)"

lemma same_seatI: "(\<And>p. pl_pid (f p) = pl_pid p) \<Longrightarrow> (\<And>p. pl_virtual_host (f p) = pl_virtual_host p) \<Longrightarrow> same_seat f"
  by (simp add: same_seat_def)

lemma map_same_seat: "same_seat f \<Longrightarrow>
  map (\<lambda>p. (pl_pid p, pl_virtual_host p)) (map f ps) = map (\<lambda>p. (pl_pid p, pl_virtual_host p)) ps"
  by (simp add: same_seat_def)

lemma upd_first_same_seat: "same_seat f \<Longrightarrow>
  map (\<lambda>p. (pl_pid p, pl_virtual_host p)) (upd_first P f ps) = map (\<lambda>p. (pl_pid p, pl_virtual_host p)) ps"
  by (rule map_upd_first) (simp add: same_seat_def)

lemma view_players_map [keeps_view]: "same_seat f \<Longrightarrow> ps = gs_players g \<Longrightarrow> view (g\<lparr>gs_players := map f ps\<rparr>) = view g"
  by (simp add: view_def map_same_seat del: map_map)

lemma view_by_pid_mut [keeps_view]:
  "same_seat f \<Longrightarrow> ps = gs_players g \<Longrightarrow> view (g\<lparr>gs_players := by_pid_mut ps pid f\<rparr>) = view g"
  by (simp add: view_def by_pid_mut_def upd_first_same_seat)

lemma view_by_conn_mut [keeps_view]:
  "same_seat f \<Longrightarrow> ps = gs_players g \<Longrightarrow> view (g\<lparr>gs_players := by_conn_mut ps c f\<rparr>) = view g"
  by (simp add: view_def by_conn_mut_def upd_first_same_seat)

lemma view_fields [keeps_view]:
  "view (g\<lparr>gs_cfg := a\<rparr>) = view g" "view (g\<lparr>gs_phase := b\<rparr>) = view g" "view (g\<lparr>gs_tick := c\<rparr>) = view g"
  "view (g\<lparr>gs_pending := d\<rparr>) = view g" "view (g\<lparr>gs_sync_counter := e\<rparr>) = view g"
  "view (g\<lparr>gs_game_ticks := f\<rparr>) = view g" "view (g\<lparr>gs_lagging := h\<rparr>) = view g"
  "view (g\<lparr>gs_finished := i\<rparr>) = view g" "view (g\<lparr>gs_downloads := j\<rparr>) = view g"
  "view (g\<lparr>gs_download_counter := k\<rparr>) = view g" "view (g\<lparr>gs_last_download_counter_reset := l\<rparr>) = view g"
  "view (g\<lparr>gs_relay := m\<rparr>) = view g" "view (g\<lparr>gs_replay := n\<rparr>) = view g" "view (g\<lparr>gs_dotatv := p\<rparr>) = view g"
  "view (g\<lparr>gs_store := q\<rparr>) = view g" "view (g\<lparr>gs_jitter_histogram := r\<rparr>) = view g"
  "view (g\<lparr>gs_last_jitter_report := s\<rparr>) = view g" "view (g\<lparr>gs_dota := t\<rparr>) = view g"
  "view (g\<lparr>gs_game_over_time := u\<rparr>) = view g" "view (g\<lparr>gs_hcl := w\<rparr>) = view g"
  by (simp_all add: view_def)

lemma view_fields2 [keeps_view]:
  "view (g\<lparr>gs_muted_all := a\<rparr>) = view g" "view (g\<lparr>gs_locked := a\<rparr>) = view g"
  "view (g\<lparr>gs_draw_votes := b\<rparr>) = view g" "view (g\<lparr>gs_start_votes := b\<rparr>) = view g"
  "view (g\<lparr>gs_last_player_left := c\<rparr>) = view g" "view (g\<lparr>gs_last_player_left_time := d\<rparr>) = view g"
  "view (g\<lparr>gs_holds := e\<rparr>) = view g" "view (g\<lparr>gs_votekick_target := f\<rparr>) = view g"
  "view (g\<lparr>gs_votekick_votes := b\<rparr>) = view g" "view (g\<lparr>gs_autostart_players := h\<rparr>) = view g"
  "view (g\<lparr>gs_announce_message := i\<rparr>) = view g" "view (g\<lparr>gs_announce_interval := j\<rparr>) = view g"
  "view (g\<lparr>gs_last_announce_time := k\<rparr>) = view g" "view (g\<lparr>gs_started_loading_at := k\<rparr>) = view g"
  "view (g\<lparr>gs_last_ping_at := j\<rparr>) = view g" "view (g\<lparr>gs_last_lag_screen_reset := j\<rparr>) = view g"
  "view (g\<lparr>gs_last_reserved_seen := j\<rparr>) = view g" "view (g\<lparr>gs_start_players := j\<rparr>) = view g"
  "view (g\<lparr>gs_mute_lobby := a\<rparr>) = view g" "view (g\<lparr>gs_local_admin_messages := a\<rparr>) = view g"
  "view (g\<lparr>gs_last_game_name := l\<rparr>) = view g" "view (g\<lparr>gs_refresh_rehosted := a\<rparr>) = view g"
  "view (g\<lparr>gs_full_history := m\<rparr>) = view g" "view (g\<lparr>gs_pending_full := n\<rparr>) = view g"
  "view (g\<lparr>gs_events := p\<rparr>) = view g"
  by (simp_all add: view_def)

lemma same_seat_simps [simp]: "same_seat (broadcast_player env now b)" "same_seat (link_deliver env now b)"
  "same_seat (buffer_push b)"
  by (simp_all add: same_seat_def)

lemma same_seat_send_to [simp]: "same_seat (send_to_player env now b)"
  by (simp add: same_seat_def send_to_player_def Let_def)

lemma view_broadcast [keeps_view]: "view (broadcast env now b g) = view g"
  by (simp add: broadcast_def view_def same_seat_def comp_def)

lemma view_broadcast_result [keeps_view]: "view (broadcast_result env now r g) = view g"
  by (simp add: broadcast_result_def keeps_view split: sum.split)

lemma view_send_to [keeps_view]: "view (send_to env now pid b g) = view g"
  by (simp add: send_to_def keeps_view)

lemma view_send_result_to [keeps_view]: "view (send_result_to env now pid r g) = view g"
  by (simp add: send_result_to_def keeps_view split: sum.split)

lemma view_kick_player [keeps_view]: "view (kick_player pid r c g) = view g"
  by (simp add: kick_player_def keeps_view same_seat_def)

lemma view_small_ops [keeps_view]: "view (relay_send c g) = view g" "view (with_replay f g) = view g"
  "view (send_all_slot_info env now g) = view g" "view (record_jitter now j g) = view g"
  "view (store_send s g) = view g" "view (send_event e g) = view g" "view (set_cfg h g) = view g"
  "view (add_conn conn l ip g) = view g" "view (drop_pending conn g) = view g"
  by (simp_all add: relay_send_def with_replay_def send_all_slot_info_def record_jitter_def Let_def keeps_view
      store_send_def send_event_def set_cfg_def add_conn_def drop_pending_def)

lemma view_update_player [keeps_view]: "same_seat f \<Longrightarrow> view (update_player pid f g) = view g"
  by (simp add: update_player_def keeps_view)

lemma view_foldl [keeps_view]: "(\<And>g x. view (f g x) = view g) \<Longrightarrow> view (foldl f g xs) = view g"
  by (induction xs arbitrary: g) simp_all

text \<open>Through the branches of a handler.\<close>

lemma view_branch:
  "view x = v \<Longrightarrow> view y = v \<Longrightarrow> view (if b then x else y) = v"
  "view x = v \<Longrightarrow> (\<And>p. view (f p) = v) \<Longrightarrow> view (case_option x f r) = v"
  "(\<And>e. view (h e) = v) \<Longrightarrow> (\<And>p. view (f p) = v) \<Longrightarrow> view (case_sum h f s) = v"
  by (simp_all split: option.split sum.split)

lemma view_each: "(\<And>x g g'. f x g = Some g' \<Longrightarrow> view g' = view g) \<Longrightarrow> each f xs g = Some g' \<Longrightarrow> view g' = view g"
  by (induction xs arbitrary: g) (auto simp: bind_eq_Some_conv)

lemma view_send_chat_all: "send_chat_all env now m g = Some g' \<Longrightarrow> view g' = view g"
  by (erule send_chat_all_cases) (simp_all add: keeps_view)

lemma view_send_chat_to: "send_chat_to env now pid m g = Some g' \<Longrightarrow> view g' = view g"
  by (auto simp: send_chat_to_def Let_def bind_eq_Some_conv keeps_view send_result_to_def [symmetric] split: if_splits)

lemmas view_chat = view_send_chat_all view_send_chat_to

section \<open>Operations that change the view\<close>

lemma roster_pids [simp]: "map fst (sv_roster (view g)) = pids (gs_players g)"
  by (simp add: view_def comp_def)

lemma view_simps [simp]: "sv_slots (view g) = gs_slots g" "sv_host (view g) = gs_virtual_host_pid g"
  "sv_fake (view g) = gs_fake_player_pid g" "sv_actions (view g) = gs_actions g"
  by (simp_all add: view_def)

lemma game_inv_distinct: "game_inv g \<Longrightarrow> distinct (pids (gs_players g))"
  by (simp add: game_inv_def view_ok_def)

text \<open>A change of slots that adds no seat.\<close>

lemma inv_slots:
  assumes "game_inv g" and "slots_inv ss" and "set (seated ss) \<subseteq> set (seated (gs_slots g))"
  shows "game_inv (g\<lparr>gs_slots := ss\<rparr>)"
  using assms by (auto simp: game_inv_def view_ok_def view_def)

text \<open>A player with a fresh id takes a slot, a human player leaves, the virtual host comes and goes.\<close>

lemma humans_of_append: "humans_of (r @ [(pid, vh)]) = humans_of r \<union> (if vh then {} else {pid})"
  by (auto simp: humans_of_def)

lemma view_ok_seat:
  assumes v: "view_ok v" and pid: "pid \<notin> fst ` set (sv_roster v)" "pid \<noteq> 0" "pid \<noteq> 255"
    and ss: "slots_inv ss" "set (seated ss) \<subseteq> insert pid (set (seated (sv_slots v)))"
  shows "view_ok (v\<lparr>sv_roster := sv_roster v @ [(pid, False)], sv_slots := ss\<rparr>)"
proof -
  have "pid \<noteq> sv_host v" using v pid unfolding view_ok_def by blast
  moreover have "set (seated ss) \<subseteq> humans_of (sv_roster v @ [(pid, False)])"
    using v ss(2) unfolding humans_of_append view_ok_def by auto
  ultimately show ?thesis
    using v pid ss(1) by (simp add: view_ok_def)
qed

lemma view_ok_leave:
  assumes v: "view_ok v" and pid: "pid \<noteq> sv_host v"
    and ss: "slots_inv ss" "set (seated ss) \<subseteq> set (seated (sv_slots v)) - {pid}"
  shows "view_ok (v\<lparr>sv_roster := filter (\<lambda>x. fst x \<noteq> pid) (sv_roster v), sv_slots := ss\<rparr>)"
proof -
  have "humans_of (sv_roster v) - {pid} \<subseteq> humans_of (filter (\<lambda>x. fst x \<noteq> pid) (sv_roster v))"
    by (auto simp: humans_of_def)
  then have "set (seated ss) \<subseteq> humans_of (filter (\<lambda>x. fst x \<noteq> pid) (sv_roster v))"
    using v ss(2) unfolding view_ok_def by blast
  moreover have "sv_host v \<noteq> 255 \<longrightarrow> sv_host v \<in> fst ` set (filter (\<lambda>x. fst x \<noteq> pid) (sv_roster v))"
    using v pid unfolding view_ok_def by auto
  ultimately show ?thesis
    using v ss(1) by (simp add: view_ok_def distinct_map_filter)
qed

lemma view_ok_host_gone:
  assumes v: "view_ok v"
  shows "view_ok (v\<lparr>sv_roster := filter (\<lambda>x. fst x \<noteq> sv_host v) (sv_roster v), sv_host := 255\<rparr>)"
proof -
  have "filter (\<lambda>x. \<not> snd x \<and> fst x \<noteq> sv_host v) (sv_roster v) = filter (\<lambda>x. \<not> snd x) (sv_roster v)"
    using v by (intro filter_cong refl) (auto simp: view_ok_def)
  then have "humans_of (filter (\<lambda>x. fst x \<noteq> sv_host v) (sv_roster v)) = humans_of (sv_roster v)"
    by (simp add: humans_of_def conj_commute)
  with v show ?thesis by (auto simp: view_ok_def distinct_map_filter)
qed

lemma view_ok_host_comes:
  assumes v: "view_ok v" and pid: "pid \<notin> fst ` set (sv_roster v)" "pid \<noteq> 0" "pid \<noteq> 255" and host: "sv_host v = 255"
  shows "view_ok (v\<lparr>sv_roster := sv_roster v @ [(pid, True)], sv_host := pid\<rparr>)"
proof -
  have old: "\<forall>x \<in> set (sv_roster v). fst x \<noteq> 0 \<and> fst x \<noteq> 255 \<and> \<not> snd x"
    using v host unfolding view_ok_def by fastforce
  have "\<forall>x \<in> set (sv_roster v). fst x \<noteq> pid" using pid(1) by auto
  then have 1: "\<forall>(x, vh) \<in> set (sv_roster v @ [(pid, True)]). x \<noteq> 0 \<and> x \<noteq> 255 \<and> (vh \<longleftrightarrow> x = pid)"
    using old pid(2,3) by auto
  have 2: "distinct (map fst (sv_roster v @ [(pid, True)]))" using v pid(1) by (simp add: view_ok_def)
  have 3: "pid \<in> fst ` set (sv_roster v @ [(pid, True)])" by simp
  have 4: "slots_inv (sv_slots v)" "set (seated (sv_slots v)) \<subseteq> humans_of (sv_roster v @ [(pid, True)])"
    "sv_fake v = None" "small_actions (sv_actions v)" using v unfolding view_ok_def humans_of_append by auto
  define w where "w = v\<lparr>sv_roster := sv_roster v @ [(pid, True)], sv_host := pid\<rparr>"
  have w: "sv_roster w = sv_roster v @ [(pid, True)]" "sv_host w = pid" "sv_slots w = sv_slots v"
    "sv_fake w = sv_fake v" "sv_actions w = sv_actions v" by (simp_all add: w_def)
  have "view_ok w" unfolding view_ok_def w by (intro conjI impI 1 2 3 4)
  then show ?thesis by (simp only: w_def)
qed

lemma view_ok_actions:
  "view_ok v \<Longrightarrow> small_actions as \<Longrightarrow> view_ok (v\<lparr>sv_actions := as\<rparr>)"
  by (simp add: view_ok_def)

lemma view_ok_slots:
  "view_ok v \<Longrightarrow> slots_inv ss \<Longrightarrow> set (seated ss) \<subseteq> set (seated (sv_slots v)) \<Longrightarrow> view_ok (v\<lparr>sv_slots := ss\<rparr>)"
  by (auto simp: view_ok_def)

lemma seated_release_set:
  assumes "slots_inv ss" and "pid \<noteq> 0"
  shows "set (seated (snd (slot_release ss pid))) \<subseteq> set (seated ss) - {pid}"
proof (cases "sid_of_pid ss pid")
  case None
  then show ?thesis using assms(2) sid_of_pid_None_iff [of pid ss] by (simp add: slot_release_def)
next
  case (Some sid)
  let ?s = "snd (slot_release ss pid)"
  have m: "mset (seated ss) = add_mset pid (mset (seated ?s))" by (rule seated_release [OF assms Some])
  then have "distinct (pid # seated ?s)"
    using assms(1) by (metis distinct.simps(2) mset.simps(2) mset_eq_imp_distinct_iff slots_inv_def)
  moreover have "set (seated ss) = insert pid (set (seated ?s))" using m by (metis set_mset_add_mset_insert set_mset_mset)
  ultimately show ?thesis by auto
qed


section \<open>The start of play and leavers\<close>

lemma view_announce_load_times: "announce_load_times env now started g = Some g' \<Longrightarrow> view g' = view g"
  by (auto simp: announce_load_times_def Let_def bind_eq_Some_conv split: option.splits prod.splits
      dest!: view_send_chat_all view_each [rotated] intro: view_send_chat_to)

lemma view_replay_start [keeps_view]: "view (replay_start g) = view g"
  by (simp add: replay_start_def Let_def keeps_view)

lemma view_relay_start [keeps_view]: "view (relay_start g) = view g"
  by (simp add: relay_start_def Let_def keeps_view)

lemma same_seat_start [simp]: "same_seat start_player"
  by (simp add: same_seat_def start_player_def)

lemma view_begin_playing: "begin_playing env now g = Some g' \<Longrightarrow> view g' = view g"
proof -
  assume bp: "begin_playing env now g = Some g'"
  let ?g = "g\<lparr>gs_phase := Playing, gs_started_loading_at := None, gs_players := map start_player (gs_players g),
                gs_sync_counter := 0, gs_game_ticks := 0\<rparr>"
  have v: "view ?g = view g"
    by (simp add: view_def start_player_def comp_def)
  from bp obtain h where "view h = view ?g" "g' = relay_start (replay_start h)"
    by (auto simp: begin_playing_def Let_def bind_eq_Some_conv split: option.splits dest!: view_announce_load_times)
  then show ?thesis using v by (simp add: keeps_view)
qed

lemma view_remove_pid:
  assumes "distinct (pids (gs_players g))"
  shows "view (g\<lparr>gs_players := snd (remove_pid (gs_players g) pid)\<rparr>) =
    (view g)\<lparr>sv_roster := filter (\<lambda>x. fst x \<noteq> pid) (sv_roster (view g))\<rparr>"
  by (simp add: view_def remove_pid_snd [OF assms] filter_map comp_def)

lemma view_slots: "view (g\<lparr>gs_slots := ss\<rparr>) = (view g)\<lparr>sv_slots := ss\<rparr>"
  by (simp add: view_def)

lemma inv_delete_virtual_host:
  assumes "game_inv g" shows "game_inv (delete_virtual_host env now g)"
proof (cases "gs_virtual_host_pid g = 255")
  case True
  then show ?thesis using assms by (simp add: delete_virtual_host_def)
next
  case False
  let ?g = "g\<lparr>gs_virtual_host_pid := 255, gs_players := snd (remove_pid (gs_players g) (gs_virtual_host_pid g))\<rparr>"
  have "view ?g = (view g)\<lparr>sv_roster := filter (\<lambda>x. fst x \<noteq> sv_host (view g)) (sv_roster (view g)), sv_host := 255\<rparr>"
    using game_inv_distinct [OF assms] by (simp add: view_def remove_pid_snd filter_map comp_def)
  then have "game_inv ?g" using view_ok_host_gone [of "view g"] assms by (simp add: game_inv_def)
  then show ?thesis using False by (simp add: delete_virtual_host_def Let_def game_inv_def keeps_view)
qed

lemma roster_range: "fst ` set (sv_roster (view g)) = set (pids (gs_players g))"
  by (simp add: view_def image_image)

lemma inv_create_virtual_host:
  assumes inv: "game_inv g" shows "game_inv (create_virtual_host env now g)"
proof (cases "gs_virtual_host_pid g = 255 \<and> next_free_pid (gs_players g) \<noteq> None")
  case True
  then obtain pid where host: "gs_virtual_host_pid g = 255" and pid: "next_free_pid (gs_players g) = Some pid" by auto
  define h where "h = broadcast_result env now (player_info pid (cfg_virtual_host_name (gs_cfg g)) [0, 0, 0, 0] [0, 0, 0, 0])
    (g\<lparr>gs_virtual_host_pid := pid\<rparr>)"
  have "view h = (view g)\<lparr>sv_host := pid\<rparr>" unfolding h_def by (simp add: keeps_view) (simp add: view_def)
  then have "view (create_virtual_host env now g) =
      (view g)\<lparr>sv_roster := sv_roster (view g) @ [(pid, True)], sv_host := pid\<rparr>"
    using host pid
    by (simp add: create_virtual_host_def Let_def players_insert_def player_new_def flip: h_def) (simp add: view_def)
  moreover have "sv_host (view g) = 255" using host by (simp add: view_def)
  ultimately show ?thesis
    using view_ok_host_comes [of "view g" pid] inv next_free_pid_SomeD [OF pid]
    by (simp add: game_inv_def roster_range)
next
  case False
  then show ?thesis using inv by (auto simp: create_virtual_host_def)
qed

text \<open>Changes of the slot table that add no seat.\<close>

definition slots_sub :: "slot_table \<Rightarrow> slot_table \<Rightarrow> bool" where
  "slots_sub ss ss' \<longleftrightarrow> (slots_inv ss \<longrightarrow> slots_inv ss' \<and> set (seated ss') \<subseteq> set (seated ss))"

lemma inv_slots_sub: "game_inv g \<Longrightarrow> slots_sub (gs_slots g) ss \<Longrightarrow> game_inv (g\<lparr>gs_slots := ss\<rparr>)"
  by (rule inv_slots) (auto simp: slots_sub_def game_inv_def view_ok_def view_def)

lemma slots_sub_refl [simp]: "slots_sub ss ss"
  by (simp add: slots_sub_def)

lemma slots_sub_trans: "slots_sub a b \<Longrightarrow> slots_sub b c \<Longrightarrow> slots_sub a c"
  by (auto simp: slots_sub_def)

lemma seated_update_set:
  assumes "\<And>s. s = ss ! unat sid \<Longrightarrow> set (seated [f s]) \<subseteq> set (seated [s])"
  shows "set (seated (snd (slot_update ss sid f))) \<subseteq> set (seated ss)"
proof (cases "unat sid < length ss")
  case True
  then show ?thesis
  proof (rule slot_update_split)
    fix xs ys assume ss: "ss = xs @ ss ! unat sid # ys"
      and upd: "\<And>f. slot_update ss sid f = (True, xs @ f (ss ! unat sid) # ys)"
    have "seated ss = seated xs @ seated [ss ! unat sid] @ seated ys" by (subst ss) (simp add: seated_Cons)
    moreover have "seated (snd (slot_update ss sid f)) = seated xs @ seated [f (ss ! unat sid)] @ seated ys"
      by (simp add: upd seated_Cons)
    ultimately show ?thesis using assms by auto
  qed
qed (simp add: slot_update_outside)

lemma slots_sub_update:
  assumes "\<And>s. unat sid < length ss \<Longrightarrow> s = ss ! unat sid \<Longrightarrow> seated [f s] = [] \<or> seated [f s] = seated [s]"
    and "\<And>s. unat sid < length ss \<Longrightarrow> s = ss ! unat sid \<Longrightarrow> (slot_status s \<noteq> SLOT_OCCUPIED \<longrightarrow> slot_pid s = 0) \<Longrightarrow>
      slot_status (f s) \<noteq> SLOT_OCCUPIED \<Longrightarrow> slot_pid (f s) = 0"
  shows "slots_sub ss (snd (slot_update ss sid f))"
proof (cases "unat sid < length ss")
  case True
  have "set (seated [f s]) \<subseteq> set (seated [s])" if "s = ss ! unat sid" for s using assms(1) [OF True that] by auto
  moreover have "slots_inv ss \<Longrightarrow> slots_inv (snd (slot_update ss sid f))"
    by (rule slots_inv_slot_update) (use True assms slots_inv_slotD in auto)
  ultimately show ?thesis by (simp add: slots_sub_def seated_update_set)
qed (simp add: slot_update_outside)

named_theorems adds_no_seat \<open>slot operations that add no seat\<close>

lemma sub_open [adds_no_seat]: "slots_sub ss (snd (slot_open ss sid))"
  unfolding slot_open_def by (rule slots_sub_update) (auto simp: seated_Cons is_seat_def)

lemma sub_close [adds_no_seat]: "slots_sub ss (snd (slot_close ss sid))"
  unfolding slot_close_def by (rule slots_sub_update) (auto simp: seated_Cons is_seat_def)

lemma sub_set_colour [adds_no_seat]: "slots_sub ss (snd (set_colour ss sid c))"
  unfolding set_colour_def by (rule slots_sub_update) (auto simp: seated_Cons is_seat_def)

lemma sub_release [adds_no_seat]: "slots_sub ss (snd (slot_release ss pid))"
  by (auto simp: slot_release_def adds_no_seat split: option.splits)

lemma sub_swap [adds_no_seat]: "slots_sub ss (snd (swap_slots ss a b fs cf))"
  using swap_slots_inv [of ss a b fs cf] by (auto simp: slots_sub_def dest: mset_eq_setD)

lemma sub_add_computer [adds_no_seat]: "slots_sub ss (snd (add_computer ss sid team colour race ct handicap))"
proof -
  have "set (seated (snd (add_computer ss sid team colour race ct handicap))) \<subseteq> set (seated ss)" if "slots_inv ss"
  proof (cases "unat sid < length ss \<and> slot_status (ss ! unat sid) \<noteq> SLOT_OCCUPIED")
    case True
    then have "slot_pid (ss ! unat sid) = 0" using that slots_inv_slotD by blast
    then show ?thesis
      using True unfolding add_computer_def by (simp add: seated_update_set seated_Cons is_seat_def)
  next
    case False
    then show ?thesis by (auto simp: add_computer_def)
  qed
  then show ?thesis using slots_inv_add_computer by (simp add: slots_sub_def)
qed

lemma sub_map:
  assumes "\<And>s. is_seat (f s) = is_seat s \<and> (is_seat s \<longrightarrow> slot_pid (f s) = slot_pid s)"
    and "\<And>s. (slot_status s \<noteq> SLOT_OCCUPIED \<longrightarrow> slot_pid s = 0) \<Longrightarrow> slot_status (f s) \<noteq> SLOT_OCCUPIED \<Longrightarrow> slot_pid (f s) = 0"
  shows "slots_sub ss (map f ss)"
  using slots_inv_map [of ss f] seated_map_same [of ss f] assms by (auto simp: slots_sub_def slots_inv_def)

lemma sub_open_all [adds_no_seat]: "slots_sub ss (open_all ss)"
  unfolding open_all_def by (rule sub_map) (auto simp: is_seat_def)

lemma sub_close_all [adds_no_seat]: "slots_sub ss (close_all ss)"
  unfolding close_all_def by (rule sub_map) (auto simp: is_seat_def)

lemma sub_computer_update [adds_no_seat]:
  assumes "\<And>s. is_seat (f s) = is_seat s \<and> slot_pid (f s) = slot_pid s \<and> slot_status (f s) = slot_status s"
  shows "slots_sub ss (snd (computer_update sid f ss))"
  unfolding computer_update_def by (auto intro!: slots_sub_update simp: seated_Cons assms)

lemma sub_replace [adds_no_seat]:
  assumes "slot_pid info = slot_pid (ss ! unat sid)" and "slot_status info = slot_status (ss ! unat sid)"
  shows "slots_sub ss (snd (slot_replace ss sid info))"
  unfolding slot_replace_def by (rule slots_sub_update) (use assms in \<open>auto simp: seated_Cons is_seat_def\<close>)

text \<open>Through the branches of a request.\<close>

lemma sub_branch:
  "slots_sub ss (snd x) \<Longrightarrow> slots_sub ss (snd y) \<Longrightarrow> slots_sub ss (snd (if b then x else y))"
  "slots_sub ss t \<Longrightarrow> slots_sub ss (snd (b, t))"
  "slots_sub ss (snd x) \<Longrightarrow> (\<And>v. slots_sub ss (snd (f v))) \<Longrightarrow> slots_sub ss (snd (case_option x f r))"
  by (simp_all split: option.split)

lemma sub_colour_slot [adds_no_seat]: "slots_sub ss (snd (colour_slot sid colour ss))"
  unfolding colour_slot_def Let_def
  by (intro sub_branch slots_sub_refl sub_set_colour slots_sub_trans [OF sub_set_colour sub_set_colour])

lemma sub_team_request [adds_no_seat]: "slots_sub ss (snd (team_request m pid sid team ss))"
  unfolding team_request_def Let_def by (intro sub_branch slots_sub_refl sub_replace) simp_all

lemma sub_apply_slot_request [adds_no_seat]: "slots_sub ss (snd (apply_slot_request m pid flag v ss))"
  unfolding apply_slot_request_def Let_def
  by (intro sub_branch slots_sub_refl sub_colour_slot sub_team_request sub_swap sub_replace) simp_all

lemma sub_shuffle [adds_no_seat]: "slots_sub ss (shuffle_slots rnd is ss)"
  by (induction rnd "is" ss rule: shuffle_slots.induct) (simp, metis shuffle_slots.simps(2) slot_swap_def slots_sub_trans sub_swap)

lemma hcl_fill_slot:
  "list_all2 (\<lambda>s t. slot_pid t = slot_pid s \<and> slot_status t = slot_status s) ss (hcl_fill hcl ss)"
  by (induction hcl ss rule: hcl_fill.induct) (simp_all add: list_all2_same)

lemma seated_cong:
  "list_all2 (\<lambda>s t. slot_pid t = slot_pid s \<and> slot_status t = slot_status s) ss ts \<Longrightarrow>
   seated ts = seated ss \<and> slots_inv ts = slots_inv ss"
proof -
  assume same: "list_all2 (\<lambda>s t. slot_pid t = slot_pid s \<and> slot_status t = slot_status s) ss ts"
  then have "seated ts = seated ss" by induction (simp_all add: seated_Cons is_seat_def)
  moreover from same have "(\<forall>t \<in> set ts. slot_status t \<noteq> SLOT_OCCUPIED \<longrightarrow> slot_pid t = 0) \<longleftrightarrow>
      (\<forall>s \<in> set ss. slot_status s \<noteq> SLOT_OCCUPIED \<longrightarrow> slot_pid s = 0)" by induction simp_all
  ultimately show ?thesis using list_all2_lengthD [OF same] by (simp add: slots_inv_def)
qed

lemma sub_encode_hcl [adds_no_seat]: "slots_sub ss (snd (encode_hcl_into_slots hcl ss))"
  unfolding encode_hcl_into_slots_def Let_def
  by (intro sub_branch slots_sub_refl) (simp add: slots_sub_def seated_cong [OF hcl_fill_slot])


section \<open>Every operation keeps the invariant\<close>

lemma inv_view: "game_inv g \<Longrightarrow> view g' = view g \<Longrightarrow> game_inv g'"
  by (simp add: game_inv_def)

lemma inv_branch:
  "game_inv x \<Longrightarrow> game_inv y \<Longrightarrow> game_inv (if b then x else y)"
  "game_inv y \<Longrightarrow> game_inv (snd (z, y))"
  "(\<And>a b. game_inv (snd (f a b))) \<Longrightarrow> game_inv (snd (case_prod f p))"
  "game_inv (snd x') \<Longrightarrow> (\<And>v. game_inv (snd (f' v))) \<Longrightarrow> game_inv (snd (case_option x' f' r))"
  "(\<And>e. game_inv (snd (h'' e))) \<Longrightarrow> (\<And>v. game_inv (snd (f'' v))) \<Longrightarrow> game_inv (snd (case_sum h'' f'' s))"
  by (simp_all split: option.split sum.split prod.split)

lemma inv_begin_playing: "game_inv g \<Longrightarrow> begin_playing env now g = Some g' \<Longrightarrow> game_inv g'"
  using inv_view view_begin_playing by blast

lemma inv_no_fake: "game_inv g \<Longrightarrow> gs_fake_player_pid g = None"
  by (simp add: game_inv_def view_ok_def view_def)

lemma inv_begin_loading:
  assumes inv: "game_inv g" and run: "begin_loading env now g = Some g'"
  shows "game_inv g'"
proof -
  define g0 where "g0 = g\<lparr>gs_phase := Loading, gs_started_loading_at := Some now,
                gs_start_players := human_count (gs_players g)\<rparr>"
  define g1 where "g1 = (case gs_hcl g0 of
                 Some hcl \<Rightarrow> (let (ok, ss) = encode_hcl_into_slots hcl (gs_slots g0);
                        g = g0\<lparr>gs_slots := ss\<rparr> in if ok then send_all_slot_info env now g else g)
               | None \<Rightarrow> g0)"
  define g2 where "g2 = broadcast env now countdown_end (delete_virtual_host env now (broadcast env now countdown_start g1))"
  have g0: "game_inv g0" using inv by (simp add: g0_def game_inv_def keeps_view)
  have "game_inv (g0\<lparr>gs_slots := snd (encode_hcl_into_slots hcl (gs_slots g0))\<rparr>)" for hcl
    by (rule inv_slots_sub [OF g0 sub_encode_hcl])
  then have "game_inv g1" using g0
    by (auto simp: g1_def Let_def split_beta game_inv_def keeps_view split: option.split)
  then have "game_inv (broadcast env now countdown_start g1)" by (simp add: game_inv_def keeps_view)
  then have "game_inv (delete_virtual_host env now (broadcast env now countdown_start g1))"
    by (rule inv_delete_virtual_host)
  then have g2: "game_inv g2" by (simp add: g2_def game_inv_def keeps_view)
  have "g' = g2 \<or> begin_playing env now g2 = Some g'"
    using run inv_no_fake [OF g2] unfolding begin_loading_def Let_def g0_def [symmetric] g1_def [symmetric, unfolded Let_def]
      g2_def [symmetric] by (auto split: if_splits)
  then show ?thesis using g2 inv_begin_playing by blast
qed

lemma view_rejoin_loaded [keeps_view]: "view (rejoin_loaded env now pid g) = view g"
  by (simp add: rejoin_loaded_def Let_def keeps_view same_seat_def)

lemma view_handle_loaded: "handle_loaded env now conn g = Some g' \<Longrightarrow> view g' = view g"
  by (auto simp: handle_loaded_def Let_def keeps_view same_seat_def split: option.splits if_splits dest!: view_begin_playing)

text \<open>Leavers: each of them is a human player, and the ones still to go stay so.\<close>

lemma host_not_human:
  assumes "game_inv g" and "p \<in> set (gs_players g)" and "\<not> pl_virtual_host p"
  shows "pl_pid p \<noteq> gs_virtual_host_pid g" "pl_pid p \<noteq> 0"
proof -
  have "(pl_pid p, pl_virtual_host p) \<in> set (sv_roster (view g))" using assms(2) by (auto simp: view_def)
  then show "pl_pid p \<noteq> gs_virtual_host_pid g" "pl_pid p \<noteq> 0"
    using assms(1,3) by (auto simp: game_inv_def view_ok_def view_def)
qed

lemma inv_reap_one:
  assumes inv: "game_inv g" and pid: "pid \<noteq> gs_virtual_host_pid g" "pid \<noteq> 0"
  shows "game_inv (reap_one env now g (pid, code)) \<and> gs_virtual_host_pid (reap_one env now g (pid, code)) = gs_virtual_host_pid g"
proof -
  let ?v = "(view g)\<lparr>sv_roster := filter (\<lambda>x. fst x \<noteq> pid) (sv_roster (view g)), sv_slots := snd (slot_release (gs_slots g) pid)\<rparr>"
  define k where "k = (case by_pid (gs_players g) pid of
                Some p \<Rightarrow> g\<lparr>gs_last_player_left := Some (pl_name p, show_ip (pl_external_ip p))\<rparr> | None \<Rightarrow> g)"
  have k: "view k = view g" by (simp add: k_def keeps_view split: option.split)
  define h where "h = with_replay (\<lambda>rep. if gs_phase k = Loading then replay_add_leaver_loading rep pid 1 code
                                else replay_add_leaver rep pid 1 code) k"
  have h: "view h = view g" by (simp add: h_def k keeps_view)
  then have "distinct (pids (gs_players h))" using inv by (metis game_inv_def game_inv_distinct)
  moreover have "gs_slots h = gs_slots g" using arg_cong [OF h, of sv_slots] by (simp add: view_def)
  ultimately have "view (h\<lparr>gs_players := snd (remove_pid (gs_players h) pid), gs_slots := snd (slot_release (gs_slots h) pid)\<rparr>) = ?v"
    by (simp only: view_slots view_remove_pid h)
  then have "view (reap_one env now g (pid, code)) = ?v"
    by (simp add: reap_one_def Let_def keeps_view flip: k_def h_def)
  moreover have "slots_inv (gs_slots g)" using inv by (simp add: game_inv_def view_ok_def)
  then have "view_ok ?v"
    using inv [unfolded game_inv_def] pid seated_release_set [of "gs_slots g" pid]
    by (intro view_ok_leave slots_inv_release) simp_all
  moreover have "sv_host ?v = gs_virtual_host_pid g" by (simp add: view_def)
  ultimately show ?thesis by (metis game_inv_def view_def seat_view.select_convs(3))
qed

lemma inv_reap_all:
  "game_inv g \<Longrightarrow> \<forall>(pid, code) \<in> set gone. pid \<noteq> gs_virtual_host_pid g \<and> pid \<noteq> 0 \<Longrightarrow> game_inv (foldl (reap_one env now) g gone)"
proof (induction gone arbitrary: g)
  case (Cons x gone)
  obtain pid code where x: "x = (pid, code)" by fastforce
  then have "pid \<noteq> gs_virtual_host_pid g" "pid \<noteq> 0" using Cons.prems(2) by auto
  note step = inv_reap_one [OF Cons.prems(1) this, of env now code]
  then show ?case using Cons.IH [of "reap_one env now g x"] Cons.prems(2) by (simp add: x)
qed simp

lemma inv_reap_left_players:
  assumes inv: "game_inv g" and run: "reap_left_players env now g = Some g'"
  shows "game_inv g'"
proof -
  let ?gone = "map (\<lambda>p. (pl_pid p, pl_left_code p)) (filter (\<lambda>p. \<not> pl_virtual_host p \<and> pl_left p \<noteq> None) (gs_players g))"
  have gone: "\<forall>(pid, code) \<in> set ?gone. pid \<noteq> gs_virtual_host_pid g \<and> pid \<noteq> 0"
    using host_not_human [OF inv] by auto
  have all: "game_inv (foldl (reap_one env now) (h\<lparr>gs_last_player_left_time := Some now\<rparr>) ?gone)"
    if h: "view h = view g" for h
  proof (rule inv_reap_all)
    show "game_inv (h\<lparr>gs_last_player_left_time := Some now\<rparr>)"
      using inv h by (simp add: game_inv_def keeps_view)
    have "gs_virtual_host_pid h = gs_virtual_host_pid g" using arg_cong [OF h, of sv_host] by (simp add: view_def)
    then show "\<forall>(pid, code) \<in> set ?gone. pid \<noteq> gs_virtual_host_pid (h\<lparr>gs_last_player_left_time := Some now\<rparr>) \<and> pid \<noteq> 0"
      using gone by simp
  qed
  show ?thesis
  proof (cases "?gone = []")
    case True
    then show ?thesis using run inv by (simp add: reap_left_players_def)
  next
    case False
    then obtain h where h: "(if is_countdown (gs_phase g) then send_chat_all env now (str ''Countdown aborted.'') (g\<lparr>gs_phase := Lobby\<rparr>)
        else Some g) = Some h"
      and rest: "(let g = foldl (reap_one env now) (h\<lparr>gs_last_player_left_time := Some now\<rparr>) ?gone in
          if gs_phase g = Loading \<and> gs_players g \<noteq> [] \<and> list_all pl_loaded (humans (gs_players g))
          then begin_playing env now g else Some g) = Some g'"
      using run unfolding reap_left_players_def Let_def by (auto simp: bind_eq_Some_conv)
    have "view h = view g" using h view_send_chat_all by (fastforce simp: keeps_view split: if_splits)
    note inv_h = all [OF this]
    from rest show ?thesis
      unfolding Let_def by (split if_splits) (use inv_h inv_begin_playing [OF inv_h] in blast)+
  qed
qed


text \<open>The handlers that leave the view as it is.\<close>

lemma view_actions: "view (g\<lparr>gs_actions := as\<rparr>) = (view g)\<lparr>sv_actions := as\<rparr>"
  by (simp add: view_def)

lemma inv_small_actions: "game_inv g \<Longrightarrow> small_actions (gs_actions g)"
  by (simp add: game_inv_def view_ok_def)

lemma inv_actions: "game_inv g \<Longrightarrow> small_actions as \<Longrightarrow> game_inv (g\<lparr>gs_actions := as\<rparr>)"
  unfolding game_inv_def view_actions by (rule view_ok_actions)

lemma inv_handle_action:
  assumes inv: "game_inv g" shows "game_inv (handle_action conn payload g)"
proof -
  have "view (handle_action conn payload g) = view g
      \<or> (\<exists>as. handle_action conn payload g = g\<lparr>gs_actions := as\<rparr>)"
    unfolding handle_action_def Let_def by (simp add: keeps_view split: option.split sum.split) blast
  moreover have "small_actions (gs_actions (handle_action conn payload g))"
    by (rule handle_action_small [OF inv_small_actions [OF inv]])
  ultimately show ?thesis using inv inv_actions inv_view by fastforce
qed

lemma view_flush [keeps_view]: "view (flush_overflow env now b g) = view g" "view (flush_main env now i b g) = view g"
  by (simp_all add: flush_overflow_def flush_main_def keeps_view split: sum.split)

lemma view_feed_stats [keeps_view]: "view (fst (feed_stats data g w)) = view g"
  by (simp add: feed_stats_def keeps_view split_beta Let_def split: option.split)

lemma view_send_queue: "view (fst (send_queue env now as b n w g)) = view g"
  by (induction env now as b n w g rule: send_queue.induct) (auto simp: split_beta Let_def keeps_view)

lemma inv_send_all_actions:
  assumes inv: "game_inv g" and run: "send_all_actions env now skipped g = Some g'"
  shows "game_inv g'"
proof -
  obtain h ticks sync w where "view h = view (g\<lparr>gs_game_ticks := ticks, gs_sync_counter := sync, gs_actions := []\<rparr>)"
    and g': "g' = flush_main env now w (fst (snd (send_queue env now (gs_actions g) [] 0 None
        (g\<lparr>gs_game_ticks := ticks, gs_sync_counter := sync, gs_actions := []\<rparr>)))) h"
  proof -
    let ?g = "g\<lparr>gs_game_ticks := gs_game_ticks g + saturating_mul (of_nat (as_millis (ts_period (gs_tick g)))) (skipped + 1),
      gs_sync_counter := gs_sync_counter g + 1, gs_actions := []\<rparr>"
    let ?q = "send_queue env now (gs_actions g) [] 0 None ?g"
    obtain h where "(case snd (snd ?q) of
                Some w \<Rightarrow> map_option (\<lambda>g. g\<lparr>gs_game_over_time := Some now\<rparr>)
                    (send_chat_all env now (str ''Game over detected! Winner: '' @ w @ str ''. Game will close in 60s.'') (fst ?q))
              | None \<Rightarrow> Some (fst ?q)) = Some h"
      and "g' = flush_main env now (ucast (min (saturating_mul (of_nat (as_millis (ts_period (gs_tick g)))) (skipped + 1)) 65535))
         (fst (snd ?q)) h"
      using run unfolding send_all_actions_def Let_def split_beta by (auto simp: bind_eq_Some_conv)
    moreover from this(1) have "view h = view ?g"
      using view_send_queue [of env now "gs_actions g" "[]" 0 None ?g]
      by (auto simp: keeps_view split: option.splits dest!: view_send_chat_all)
    ultimately show thesis using that by blast
  qed
  then have "view g' = (view g)\<lparr>sv_actions := []\<rparr>" by (simp add: keeps_view) (simp add: view_def)
  then show ?thesis using inv view_ok_actions [of "view g" "[]"] by (simp add: game_inv_def small_actions_def)
qed

lemma inv_handle_map_size:
  assumes "handle_map_size env now conn payload g = Some g'" and "game_inv g"
  shows "game_inv g'"
proof -
  from assms(1) have "view g' = view g \<or> (\<exists>pid why code. reap_left_players env now (kick_player pid why code g) = Some g')"
    unfolding handle_map_size_def Let_def
    by (simp split: option.split_asm sum.split_asm if_split_asm)
       (blast | (hypsubst, simp add: keeps_view same_seat_def))+
  then show ?thesis
    using assms(2) inv_reap_left_players inv_view by (metis view_kick_player)
qed

lemma same_seat_record_ping [simp]: "same_seat (\<lambda>p. record_ping p n)"
  by (simp add: same_seat_def record_ping_def Let_def)

lemma same_seat_download [simp]: "same_seat (\<lambda>p. p\<lparr>pl_download_status := n\<rparr>)"
  by (simp add: same_seat_def)

lemma view_map_part [keeps_view]: "view (handle_map_part_ok conn payload g) = view g"
  "view (handle_map_part_not_ok conn payload g) = view g"
  by (simp_all add: handle_map_part_ok_def handle_map_part_not_ok_def Let_def keeps_view split: option.split sum.split)

lemma view_handle_pong [keeps_view]: "view (handle_pong now conn payload g) = view g"
  unfolding handle_pong_def Let_def
  by (intro view_branch) (simp_all only: keeps_view same_seat_record_ping)

lemma view_drop_request [keeps_view]: "view (handle_drop_request g) = view g"
  by (simp add: handle_drop_request_def keeps_view)

lemma view_pump_downloads: "pump_downloads env now g = Some g' \<Longrightarrow> view g' = view g"
  by (auto simp: pump_downloads_def Let_def bind_eq_Some_conv keeps_view split_beta split: option.splits if_splits)


text \<open>Desyncs, lag and reconnects.\<close>

lemma foldl_by_pid_mut_seats: "same_seat f \<Longrightarrow>
  map (\<lambda>p. (pl_pid p, pl_virtual_host p)) (foldl (\<lambda>ps pid. by_pid_mut ps pid f) ps who) = map (\<lambda>p. (pl_pid p, pl_virtual_host p)) ps"
  by (induction who arbitrary: ps) (simp_all add: by_pid_mut_def upd_first_same_seat)

lemma view_pop_fronts [keeps_view]: "view (pop_fronts who g) = view g"
proof -
  have "same_seat (\<lambda>p. p\<lparr>pl_checksums := drop 1 (pl_checksums p)\<rparr>)" by (simp add: same_seat_def)
  from foldl_by_pid_mut_seats [OF this] show ?thesis by (simp add: pop_fronts_def view_def)
qed

lemma view_kick_all [keeps_view]: "view (kick_all who g) = view g"
  by (simp add: kick_all_def keeps_view)

lemma view_clear_checksums [keeps_view]:
  "view (g\<lparr>gs_players := map (\<lambda>p. if desync_active p then p\<lparr>pl_checksums := []\<rparr> else p) (gs_players g)\<rparr>) = view g"
  by (simp add: view_def comp_def if_distrib cong: if_cong)

lemma view_desync_round: "desync_round env now g = Some (g', again) \<Longrightarrow> view g' = view g"
  by (auto simp: desync_round_def Let_def bind_eq_Some_conv keeps_view split_beta split: option.splits if_splits
      dest!: view_send_chat_all)

lemma view_check_desync:
  assumes "check_desync env now g = Some g'" shows "view g' = view g"
proof (rule check_desync.raw_induct [where P = "\<lambda>env now g g'. view g' = view g", OF _ assms])
  fix cd :: "'a env \<Rightarrow> nat \<Rightarrow> 'a game \<Rightarrow> 'a game option" and env now g g'
  assume IH: "\<And>env now g g'. cd env now g = Some g' \<Longrightarrow> view g' = view g"
    and run: "Option.bind (desync_round env now g) (\<lambda>(g, again). if again then cd env now g else Some g) = Some g'"
  then obtain h again where h: "desync_round env now g = Some (h, again)"
    and rest: "(if again then cd env now h else Some h) = Some g'" by (auto simp: bind_eq_Some_conv)
  then have "view g' = view h" using IH by (auto split: if_splits)
  then show "view g' = view g" using view_desync_round [OF h] by simp
qed

lemma view_handle_keepalive: "handle_keepalive env now conn payload g = Some g' \<Longrightarrow> view g' = view g"
  by (auto simp: handle_keepalive_def keeps_view same_seat_def Let_def split: if_splits sum.splits dest!: view_check_desync)

lemma view_stop_lag [keeps_view]: "view (stop_lag_all env now ls g) = view g"
  by (simp add: stop_lag_all_def keeps_view split_beta)

lemma view_lag_announce [keeps_view]: "view (lag_announce env now w r n g) = view g"
  by (simp add: lag_announce_def Let_def keeps_view)

lemma view_lag_refresh [keeps_view]: "view (lag_refresh env now g) = view g"
  by (simp add: lag_refresh_def Let_def keeps_view)

lemma same_seat_lag [simp]: "same_seat (\<lambda>p. fst (lag_player now limit sc p))"
  by (simp add: same_seat_def lag_player_def Let_def)

lemma view_check_lag [keeps_view]: "view (snd (check_lag env now g)) = view g"
  by (simp add: check_lag_def Let_def keeps_view comp_def)

lemma view_drop_lagging [keeps_view]: "view (drop_lagging_players now m g) = view g"
  by (simp add: drop_lagging_players_def Let_def keeps_view)

lemma catchup_loop_seat:
  "pl_pid (fst (catchup_loop env now p cur pkts)) = pl_pid p
   \<and> pl_virtual_host (fst (catchup_loop env now p cur pkts)) = pl_virtual_host p"
  by (induction env now p cur pkts rule: catchup_loop.induct) (auto split: sum.splits link_error.splits prod.splits)

lemma same_seat_catchup [simp]: "same_seat (catchup_player env now h)"
  by (simp add: same_seat_def catchup_player_def Let_def split_beta catchup_loop_seat split: option.split)

lemma view_pump_rejoin [keeps_view]: "view (pump_rejoin_catchup env now g) = view g"
  by (simp add: pump_rejoin_catchup_def keeps_view)

lemma view_gps_reconnect [keeps_view]: "view (snd (snd (handle_gps_reconnect env conn req link g))) = view g"
  by (simp add: handle_gps_reconnect_def Let_def keeps_view same_seat_def split: option.split)

lemma same_seat_reap [simp]: "same_seat (\<lambda>p. fst (reap_gproxy_player now grace p))"
  by (simp add: same_seat_def reap_gproxy_player_def Let_def split: option.split)

lemma view_reap_gproxy: "reap_gproxy_timeouts env now grace g = Some g' \<Longrightarrow> view g' = view g"
  by (auto simp: reap_gproxy_timeouts_def Let_def comp_def keeps_view dest!: view_each [rotated] intro: view_send_chat_all)

lemma same_seat_rejoin [simp]: "same_seat (rejoin_player conn link)"
  by (simp add: same_seat_def rejoin_player_def)

lemma view_full_rejoin [keeps_view]: "view (snd (try_full_rejoin env now conn req ip link g)) = view g"
  by (simp add: try_full_rejoin_def Let_def keeps_view split_beta split: option.split)


text \<open>Joining: the id is fresh, so the seat is one more and the table of players grows by one.\<close>

lemma seated_occupy: "set (seated (snd (occupy_slot ss sid pid))) \<subseteq> insert pid (set (seated ss))"
proof (cases "unat sid < length ss")
  case True
  then show ?thesis
  proof (rule slot_update_split)
    fix xs ys assume ss: "ss = xs @ ss ! unat sid # ys"
      and upd: "\<And>f. slot_update ss sid f = (True, xs @ f (ss ! unat sid) # ys)"
    have "seated ss = seated xs @ seated [ss ! unat sid] @ seated ys" by (subst ss) (simp add: seated_Cons)
    then show ?thesis by (auto simp: occupy_slot_def upd seated_Cons)
  qed
qed (auto simp: occupy_slot_def slot_update_outside)

lemma inv_fresh_not_seated:
  assumes "game_inv g" and "pid \<notin> set (pids (gs_players g))"
  shows "pid \<notin> set (seated (gs_slots g))" "slots_inv (gs_slots g)"
proof -
  have "humans_of (sv_roster (view g)) \<subseteq> set (pids (gs_players g))" by (auto simp: humans_of_def view_def)
  moreover have "set (seated (gs_slots g)) \<subseteq> humans_of (sv_roster (view g))" "slots_inv (gs_slots g)"
    using assms(1) by (simp_all add: game_inv_def view_ok_def)
  ultimately show "pid \<notin> set (seated (gs_slots g))" "slots_inv (gs_slots g)" using assms(2) by auto
qed

lemma view_insert: "\<not> pl_virtual_host p \<Longrightarrow> ps = gs_players g \<Longrightarrow>
  view (g\<lparr>gs_players := players_insert ps p\<rparr>) = (view g)\<lparr>sv_roster := sv_roster (view g) @ [(pl_pid p, False)]\<rparr>"
  by (simp add: view_def players_insert_def)

lemma same_seat_announce [simp]:
  "same_seat (\<lambda>p. if pl_pid p \<noteq> pid then p\<lparr>pl_link := f p\<rparr> else p)"
  by (simp add: same_seat_def)

lemma inv_seat_player:
  assumes inv: "game_inv g" and pid: "pid \<notin> set (pids (gs_players g))" "pid \<noteq> 0" "pid \<noteq> 255"
  shows "game_inv (snd (seat_player env now key conn req link ip sid pid g))"
proof -
  let ?ss = "snd (occupy_slot (gs_slots g) sid pid)"
  let ?g = "g\<lparr>gs_slots := ?ss\<rparr>"
  note fresh = inv_fresh_not_seated [OF inv pid(1)]
  have ss: "slots_inv ?ss" by (rule slots_inv_occupy_slot [OF fresh(2,1)])
  have "set (seated (snd (slot_release ?ss pid))) \<subseteq> set (seated (gs_slots g))"
    using seated_release_set [OF ss pid(2)] seated_occupy [of "gs_slots g" sid pid] by blast
  then have released: "game_inv (?g\<lparr>gs_slots := snd (slot_release (gs_slots ?g) pid)\<rparr>)"
    using inv_slots [OF inv slots_inv_release [OF ss]] by simp
  define h where "h = (\<lambda>tx. ?g\<lparr>gs_players := players_insert (gs_players ?g) (new_player pid req conn ip key tx g)\<rparr>)"
  have "\<not> pl_virtual_host (new_player pid req conn ip key tx g) \<and> pl_pid (new_player pid req conn ip key tx g) = pid" for tx
    by (simp add: new_player_def player_new_def)
  then have "view (h tx) = (view g)\<lparr>sv_roster := sv_roster (view g) @ [(pid, False)], sv_slots := ?ss\<rparr>" for tx
    unfolding h_def by (simp add: view_insert view_slots)
  moreover have "view_ok ((view g)\<lparr>sv_roster := sv_roster (view g) @ [(pid, False)], sv_slots := ?ss\<rparr>)"
    by (rule view_ok_seat) (use inv pid ss seated_occupy in \<open>simp_all add: game_inv_def roster_range\<close>)
  ultimately have h: "game_inv (h tx)" for tx by (simp add: game_inv_def)
  then have seated: "game_inv (send_all_slot_info env now (case r of
         Inr b \<Rightarrow> (h tx)\<lparr>gs_players := map (\<lambda>p. if pl_pid p \<noteq> pid then p\<lparr>pl_link := send_ignore env b (pl_link p)\<rparr> else p)
                     (gs_players (h tx))\<rparr> | Inl _ \<Rightarrow> h tx))" for r tx
    by (simp add: game_inv_def keeps_view split: sum.split)
  show ?thesis
    unfolding seat_player_def Let_def
    by (intro inv_branch released seated [unfolded h_def] inv_delete_virtual_host)
qed

lemma inv_handle_req_join:
  assumes inv: "game_inv g" shows "game_inv (snd (handle_req_join env now key conn payload g))"
proof -
  have h: "game_inv (g\<lparr>gs_pending := ps\<rparr>)" for ps using inv by (simp add: game_inv_def keeps_view)
  have rejoin: "game_inv (snd (try_full_rejoin env now conn req ip link (g\<lparr>gs_pending := ps\<rparr>)))" for req ip link ps
    using h by (simp add: game_inv_def keeps_view)
  have seat: "game_inv (snd (seat_player env now key conn req link ip sid pid (g\<lparr>gs_pending := ps\<rparr>)))"
    if "next_free_pid (gs_players g) = Some pid" for req link ip sid pid ps
    using next_free_pid_SomeD [OF that] by (intro inv_seat_player h) auto
  show ?thesis
    by (simp add: handle_req_join_def Let_def split_beta inv h rejoin seat split: option.split sum.split bool.split)
qed

lemma view_handle_leave [keeps_view]: "view (handle_leave conn code g) = view g"
  by (simp add: handle_leave_def keeps_view same_seat_def split: option.split)

lemma view_conn_closed [keeps_view]: "view (handle_conn_closed now conn reason g) = view g"
  by (simp add: handle_conn_closed_def Let_def keeps_view same_seat_def split: option.split)


text \<open>Chat: commands change slots without adding a seat, settings, or nothing of the view.\<close>

lemma view_start_countdown [keeps_view]: "view (start_countdown now g) = view g"
  by (simp add: start_countdown_def keeps_view)

lemma inv_with_slots: "game_inv g \<Longrightarrow> slots_sub (gs_slots g) (snd r) \<Longrightarrow> game_inv (with_slots env now r g)"
  using inv_slots_sub [of g "snd r"] by (simp add: with_slots_def Let_def game_inv_def keeps_view)

lemma inv_slot_commands:
  assumes "game_inv g"
  shows "game_inv (run_slot_command env now cmd g)" "game_inv (run_computer_command env now cmd g)"
  using assms by (simp_all add: run_slot_command_def run_computer_command_def Let_def inv_with_slots adds_no_seat
      is_seat_def split: chat_command.split)

lemmas command_defs = start_command_def kick_command_def ban_command_def ban_last_command_def mute_command_def
  vote_start_def vote_kick_def vote_yes_def vote_draw_def sync_limit_command_def latency_command_def
  ping_command_def check_command_def check_me_command_def announce_command_def auto_start_command_def
  download_command_def stats_command_def stats_dota_command_def owner_command_def from_command_def
  messages_command_def rehost_command_def mute_lobby_command_def whisper_command_def

text \<open>An operation that, when it does not abort, leaves the view as it is; and that through the branches of a command.\<close>

definition stays :: "seat_view \<Rightarrow> 'c game option \<Rightarrow> bool" where
  "stays v r \<longleftrightarrow> (\<forall>g'. r = Some g' \<longrightarrow> view g' = v)"

named_theorems stays_intros \<open>how an operation leaves the view as it is\<close>

lemma stays_basic [stays_intros]:
  "view g = v \<Longrightarrow> stays v (Some g)"
  "view g = v \<Longrightarrow> stays v (send_chat_all env now m g)"
  "view g = v \<Longrightarrow> stays v (send_chat_to env now pid m g)"
  by (auto simp: stays_def dest: view_chat)

lemma stays_branch [stays_intros]:
  "stays v x \<Longrightarrow> stays v y \<Longrightarrow> stays v (if b then x else y)"
  "stays v x \<Longrightarrow> (\<And>a. stays v (f1 a)) \<Longrightarrow> stays v (case_option x f1 r1)"
  "(\<And>a. stays v (f2 a)) \<Longrightarrow> (\<And>a. stays v (f3 a)) \<Longrightarrow> stays v (case_sum f2 f3 r2)"
  "(\<And>a b. stays v (f4 a b)) \<Longrightarrow> stays v (case_prod f4 r3)"
  "stays v x \<Longrightarrow> stays v y \<Longrightarrow> stays v (case_bool x y b)"
  "stays v x \<Longrightarrow> (\<And>n. stays v (f5 n)) \<Longrightarrow> stays v (case_name_match x f5 r4)"
  "stays v x \<Longrightarrow> (\<And>a as. stays v (f6 a as)) \<Longrightarrow> stays v (case_list x f6 r5)"
  by (simp_all split: option.split sum.split prod.split name_match.split list.split bool.split)

lemma stays_bind [stays_intros]:
  "stays v x \<Longrightarrow> (\<And>g. view g = v \<Longrightarrow> stays v (f g)) \<Longrightarrow> stays v (Option.bind x f)"
  "stays v x \<Longrightarrow> (\<And>g. view g = v \<Longrightarrow> view (h g) = v) \<Longrightarrow> stays v (map_option h x)"
  by (auto simp: stays_def bind_eq_Some_conv)

lemma stays_each [stays_intros]:
  "view g = v \<Longrightarrow> (\<And>x g. view g = v \<Longrightarrow> stays v (f x g)) \<Longrightarrow> stays v (each f xs g)"
proof (induction xs arbitrary: g)
  case Nil
  then show ?case unfolding each.simps by (intro stays_basic(1))
next
  case (Cons x xs)
  show ?case unfolding each.simps by (rule stays_bind(1)) (use Cons in blast)+
qed

lemma view_branches [keeps_view]:
  "view g = v \<Longrightarrow> view h = v \<Longrightarrow> view (if b then g else h) = v"
  "view g = v \<Longrightarrow> (\<And>x. view (f x) = v) \<Longrightarrow> view (case_option g f r) = v"
  "(\<And>x. view (f' x) = v) \<Longrightarrow> (\<And>x. view (h' x) = v) \<Longrightarrow> view (case_sum f' h' r') = v"
  by (simp_all split: option.split sum.split)

lemma same_seat_settings [simp]: "same_seat (\<lambda>p. p\<lparr>pl_muted := b\<rparr>)" "same_seat (\<lambda>p. p\<lparr>pl_download_allowed := b\<rparr>)"
  "same_seat (\<lambda>p. p\<lparr>pl_stats_sent_time := t\<rparr>)" "same_seat (\<lambda>p. p\<lparr>pl_stats_dota_sent_time := t\<rparr>)"
  by (simp_all add: same_seat_def)

lemma stays_commands [stays_intros]:
  "stays (view g) (start_command env now pid force g)"
  "stays (view g) (kick_command env now pid name g)"
  "stays (view g) (ban_command env now caller name reason g)"
  "stays (view g) (ban_last_command env now pid caller reason g)"
  "stays (view g) (mute_command env now b name g)"
  "stays (view g) (vote_start env now pid g)"
  "stays (view g) (vote_kick env now pid name g)"
  "stays (view g) (vote_yes env now pid g)"
  "stays (view g) (vote_draw env now pid g)"
  "stays (view g) (sync_limit_command env now pid limit g)"
  "stays (view g) (latency_command env now pid limit g)"
  "stays (view g) (ping_command env now pid g)"
  "stays (view g) (check_command env now pid name g)"
  "stays (view g) (check_me_command env now pid g)"
  "stays (view g) (announce_command env now pid msg g)"
  "stays (view g) (auto_start_command env now num g)"
  "stays (view g) (download_command env now pid name g)"
  "stays (view g) (stats_command env now pid caller name g)"
  "stays (view g) (stats_dota_command env now pid caller name g)"
  "stays (view g) (owner_command env now pid new_owner g)"
  "stays (view g) (from_command env now pid g)"
  "stays (view g) (messages_command env now pid opt g)"
  "stays (view g) (rehost_command env now kind name g)"
  "stays (view g) (mute_lobby_command env now opt g)"
  "stays (view g) (whisper_command env now pid caller user message g)"
  unfolding command_defs Let_def by (intro stays_intros; simp add: keeps_view)+


text \<open>An operation that, when it does not abort, ends in a state with the invariant.\<close>

definition safe :: "'c game option \<Rightarrow> bool" where
  "safe r \<longleftrightarrow> (\<forall>g'. r = Some g' \<longrightarrow> game_inv g')"

named_theorems safe_intros \<open>how an operation keeps the invariant\<close>

lemma safe_stays: "stays (view g) r \<Longrightarrow> game_inv g \<Longrightarrow> safe r"
  by (auto simp: stays_def safe_def game_inv_def)

lemma safe_basic [safe_intros]:
  "game_inv g \<Longrightarrow> safe (Some g)"
  "game_inv g \<Longrightarrow> safe (send_chat_all env now m g)"
  "game_inv g \<Longrightarrow> safe (send_chat_to env now pid m g)"
  by (simp add: safe_def) (auto intro: safe_stays stays_intros)

lemma safe_branch [safe_intros]:
  "safe x \<Longrightarrow> safe y \<Longrightarrow> safe (if b then x else y)"
  "safe x \<Longrightarrow> (\<And>a. safe (f1 a)) \<Longrightarrow> safe (case_option x f1 r1)"
  "(\<And>a. safe (f2 a)) \<Longrightarrow> (\<And>a. safe (f3 a)) \<Longrightarrow> safe (case_sum f2 f3 r2)"
  "(\<And>a b. safe (f4 a b)) \<Longrightarrow> safe (case_prod f4 r3)"
  by (simp_all split: option.split sum.split prod.split)

lemma safe_bind [safe_intros]:
  "safe x \<Longrightarrow> (\<And>g. game_inv g \<Longrightarrow> safe (f g)) \<Longrightarrow> safe (Option.bind x f)"
  "safe x \<Longrightarrow> (\<And>g. game_inv g \<Longrightarrow> game_inv (h g)) \<Longrightarrow> safe (map_option h x)"
  by (auto simp: safe_def bind_eq_Some_conv)

lemma inv_new_slots: "game_inv g \<Longrightarrow> slots_sub (gs_slots g) ss \<Longrightarrow> game_inv (send_all_slot_info env now (g\<lparr>gs_slots := ss\<rparr>))"
  by (rule inv_view [OF inv_slots_sub]) (simp_all add: keeps_view)

lemma safe_fake_action: "game_inv g \<Longrightarrow> safe (fake_action env now pid code msg g)"
  by (simp add: fake_action_def inv_no_fake safe_def)

lemma safe_shuffle: "game_inv g \<Longrightarrow> safe (shuffle_command env now rnd g)"
  unfolding shuffle_command_def by (intro safe_intros inv_new_slots sub_shuffle)

text \<open>The commands that change slots or the queue of actions; all others leave the view as it is.\<close>

definition touches_seats :: "chat_command \<Rightarrow> bool" where
  "touches_seats cmd = (case cmd of Open _ \<Rightarrow> True | Close _ \<Rightarrow> True | OpenAll \<Rightarrow> True | CloseAll \<Rightarrow> True
     | Swap _ _ \<Rightarrow> True | Comp _ _ _ _ _ _ \<Rightarrow> True | CompColour _ _ \<Rightarrow> True | CompRace _ _ \<Rightarrow> True
     | CompHandicap _ _ \<Rightarrow> True | CompTeam _ _ \<Rightarrow> True | ShufflePlayers \<Rightarrow> True | FakePlayer \<Rightarrow> True
     | FpPause \<Rightarrow> True | FpResume \<Rightarrow> True | _ \<Rightarrow> False)"

lemma stays_run_command:
  "\<not> touches_seats cmd \<Longrightarrow> stays (view g) (run_command env now rnd pid caller cmd g)"
  unfolding run_command_def Let_def touches_seats_def
  by (cases cmd; simp only: chat_command.case simp_thms;
      (intro stays_commands | (intro stays_basic stays_branch stays_bind; simp add: keeps_view)))

lemma safe_run_command:
  assumes inv: "game_inv g" and "cmd \<noteq> FakePlayer"
  shows "safe (run_command env now rnd pid caller cmd g)"
proof (cases "touches_seats cmd")
  case True
  then show ?thesis
    using assms(2) inv_slot_commands [OF inv]
      inv_new_slots [OF inv sub_open_all] inv_new_slots [OF inv sub_close_all]
    unfolding run_command_def Let_def touches_seats_def
    by (cases cmd) (simp_all add: safe_basic safe_fake_action safe_shuffle inv)
qed (use safe_stays [OF stays_run_command inv] in blast)

lemma view_forward_chat [keeps_view]: "view (forward_chat env now pid name chat g) = view g"
  unfolding forward_chat_def Let_def by (intro view_branch) (simp_all add: keeps_view)

text \<open>Whether a chat message asks for the fake player.\<close>

definition asks_fake :: "'c env \<Rightarrow> bytes \<Rightarrow> bool" where
  "asks_fake env payload \<longleftrightarrow> (case chat_to_host_decode payload of
     Inr chat \<Rightarrow> parse_command (env_split_whitespace env) (env_lower env) 33 (cth_message chat) = Some FakePlayer
   | Inl _ \<Rightarrow> False)"

lemma safe_handle_chat:
  assumes inv: "game_inv g" and fake: "\<not> asks_fake env payload"
  shows "safe (handle_chat_to_host env now rnd conn payload g)"
proof (cases "chat_to_host_decode payload")
  case (Inl e)
  then show ?thesis using inv by (simp add: handle_chat_to_host_def safe_basic split: option.split)
next
  case (Inr chat)
  have C: "safe (case parse_command (env_split_whitespace env) (env_lower env) 33 (cth_message chat) of
        None \<Rightarrow> (if b' then Some g' else Some (forward_chat env now pid name chat g'))
      | Some cmd \<Rightarrow> (if b cmd then send_chat_to env now pid m g' else run_command env now rnd pid name cmd g'))"
    if "game_inv g'" for g' b b' m pid name
    using fake Inr inv_view [OF that, of "forward_chat env now pid name chat g'"] that
    by (auto simp: asks_fake_def keeps_view split: option.split intro!: safe_run_command safe_basic)
  have S: "game_inv (with_slots env now (apply_slot_request m pid a b (gs_slots g')) g')" if "game_inv g'" for m pid a b g'
    by (intro inv_with_slots that sub_apply_slot_request)
  show ?thesis
  proof (cases "by_conn (gs_players g) conn")
    case (Some p)
    show ?thesis
      unfolding handle_chat_to_host_def Inr Some sum.case option.case Let_def
      by (intro safe_branch(1) safe_bind(1) C inv safe_basic inv_branch(1) S; assumption)
  qed (simp add: handle_chat_to_host_def safe_basic inv)
qed


section \<open>Ticks, frames and commands\<close>

lemma safe_some: "(\<And>g'. r = Some g' \<Longrightarrow> view g' = view g) \<Longrightarrow> game_inv g \<Longrightarrow> safe r"
  using inv_view by (auto simp: safe_def)

lemma safe_ops [safe_intros]:
  assumes "game_inv g"
  shows "safe (pump_downloads env now g)" "safe (reap_gproxy_timeouts env now grace g)"
    "safe (handle_keepalive env now conn payload g)" "safe (handle_loaded env now conn g)"
    "safe (check_desync env now g)" "safe (begin_loading env now g)" "safe (reap_left_players env now g)"
    "safe (send_all_actions env now skipped g)" "safe (handle_map_size env now conn payload g)"
  using assms by (auto simp: safe_def
      dest: view_pump_downloads view_reap_gproxy view_handle_keepalive view_handle_loaded view_check_desync inv_view
      inv_begin_loading inv_reap_left_players inv_send_all_actions inv_handle_map_size)

lemma safe_bind_pair [safe_intros]:
  "safe (map_option snd x) \<Longrightarrow> (\<And>e g. game_inv g \<Longrightarrow> safe (f e g)) \<Longrightarrow> safe (Option.bind x (case_prod f))"
  by (fastforce simp: safe_def bind_eq_Some_conv)

lemma view_tick_ping [keeps_view]: "view (tick_ping env now g) = view g"
  by (simp add: tick_ping_def keeps_view)

lemma view_tick_lobby [keeps_view]: "view (tick_lobby_limit now g) = view g"
  by (simp add: tick_lobby_limit_def Let_def keeps_view)

lemma safe_tick_announce [safe_intros]: "game_inv g \<Longrightarrow> safe (tick_announce env now g)"
  by (rule safe_stays, unfold tick_announce_def)
     (intro stays_basic stays_branch stays_bind; simp add: keeps_view)

lemma safe_tick_countdown [safe_intros]:
  assumes inv: "game_inv g" shows "safe (tick_countdown env now s d l g)"
  unfolding tick_countdown_def Let_def
  by (intro safe_branch safe_ops safe_basic inv inv_view [OF inv]; simp add: keeps_view)

lemma same_seat_drop [simp]: "same_seat (\<lambda>p. if Q p then p\<lparr>pl_left := a, pl_left_code := c\<rparr> else p)"
  by (simp add: same_seat_def)

lemma view_drop_unready [keeps_view]: "view (drop_unready reason Q g) = view g"
  by (simp add: drop_unready_def keeps_view)

lemma safe_tick_loading [safe_intros]:
  assumes inv: "game_inv g" shows "safe (tick_loading env now g)"
  unfolding tick_loading_def
  by (intro safe_branch safe_ops(7) safe_basic inv inv_view [OF inv]; simp add: keeps_view)

lemma view_game_over_timer [keeps_view]: "view (game_over_timer now g) = view g"
  unfolding game_over_timer_def Let_def by (intro view_branch) (simp_all add: keeps_view)

lemma view_save [keeps_view]: "view (save_game_data now sec g) = view g"
  by (simp add: save_game_data_def Let_def keeps_view split: option.split)

lemma view_end_if_empty [keeps_view]: "view (end_if_empty now sec g) = view g"
  by (simp add: end_if_empty_def keeps_view)

lemma safe_tick_playing: "game_inv g \<Longrightarrow> safe (map_option snd (tick_playing env now skipped g))"
proof -
  assume inv: "game_inv g"
  define h where "h = (let g = pump_rejoin_catchup env now g in case gs_fake_player_pid g of
       Some fpid \<Rightarrow> update_player fpid (\<lambda>p. p\<lparr>pl_sync_counter := gs_sync_counter g\<rparr>) g | None \<Rightarrow> g)"
  have "game_inv (pump_rejoin_catchup env now g)" using inv by (simp add: game_inv_def keeps_view)
  then have h: "game_inv h" by (simp add: h_def Let_def inv_no_fake)
  have rest: "game_inv (game_over_timer now g')" if "game_inv g'" for g' using that by (simp add: game_inv_def keeps_view)
  have lag: "game_inv (snd (check_lag env now g'))" "game_inv (drop_lagging_players now t (snd (check_lag env now g')))"
    if "game_inv g'" for g' t using that by (simp_all add: game_inv_def keeps_view)
  have run: "tick_playing env now skipped g = Option.bind (check_desync env now h) (\<lambda>g.
      let (lag, g) = check_lag env now g in
      if lag then Some (True, drop_lagging_players now (secs 60) g)
      else Option.bind (send_all_actions env now skipped g) (\<lambda>g. Some (False, game_over_timer now g)))"
    by (simp add: tick_playing_def h_def Let_def)
  show ?thesis unfolding safe_def
  proof (intro allI impI)
    fix g' assume "map_option snd (tick_playing env now skipped g) = Some g'"
    then obtain d where d: "check_desync env now h = Some d"
      and "g' = drop_lagging_players now (secs 60) (snd (check_lag env now d))
         \<or> (\<exists>a. send_all_actions env now skipped (snd (check_lag env now d)) = Some a \<and> g' = game_over_timer now a)"
      unfolding run by (auto simp: bind_eq_Some_conv Let_def split_beta split: if_splits)
    moreover have "game_inv d" using safe_ops(5) [OF h] d by (auto simp: safe_def)
    ultimately show "game_inv g'" using lag rest inv_send_all_actions by blast
  qed
qed

lemma safe_on_tick [safe_intros]: "game_inv g \<Longrightarrow> safe (on_tick env now sec skipped g)"
proof -
  assume inv: "game_inv g"
  have keep: "game_inv (tick_ping env now h)" "game_inv (end_if_empty now sec h)" "game_inv (tick_lobby_limit now h)"
    "game_inv (h\<lparr>gs_finished := True\<rparr>)" if "game_inv h" for h
    using that by (simp_all add: game_inv_def keeps_view)
  have phase: "safe (map_option snd (case gs_phase h of
          Lobby \<Rightarrow> map_option (\<lambda>g. (False, tick_lobby_limit now g)) (tick_announce env now h)
        | Countdown s d l \<Rightarrow> map_option (Pair False) (tick_countdown env now s d l h)
        | Loading \<Rightarrow> map_option (Pair False) (tick_loading env now h)
        | Playing \<Rightarrow> tick_playing env now skipped h
        | Over \<Rightarrow> Some (False, h\<lparr>gs_finished := True\<rparr>)))" if h: "game_inv h" for h
    using safe_tick_playing [OF h] safe_tick_countdown [OF h] safe_tick_loading [OF h] safe_tick_announce [OF h] keep(3,4) h
    by (cases "gs_phase h") (auto simp: option.map_comp comp_def safe_def)
  show ?thesis unfolding on_tick_def Let_def
    by (intro safe_bind(1) safe_bind_pair safe_ops safe_basic inv_branch(1) phase inv keep; assumption)
qed

end
