(* ===== verification/Crc.thy ===== *)
theory Crc
  imports Prelude
begin

text \<open>
  The checksum of the live stream (\<^verbatim>\<open>spectre-spectator/src/dotatv.rs\<close>): a table of 256 entries and
  one lookup per byte, which computes the CRC-32 that feeds the message bit by bit into a
  shift register.
\<close>

section \<open>Operations\<close>

abbreviation "CRC_POLY \<equiv> (0xEDB88320 :: u32)"

text \<open>The inner loop of \<^verbatim>\<open>crc_table\<close>.\<close>

definition crc_bit :: "u32 \<Rightarrow> u32" where
  "crc_bit c = (if c AND 1 \<noteq> 0 then CRC_POLY XOR drop_bit 1 c else drop_bit 1 c)"

definition crc_table :: "u32 list" where
  "crc_table = map (\<lambda>i. (crc_bit ^^ 8) (of_nat i)) [0..<256]"

fun crc_push :: "u32 \<Rightarrow> bytes \<Rightarrow> u32" where
  "crc_push reg [] = reg"
| "crc_push reg (b # bs) = crc_push (crc_table ! unat ((reg XOR ucast b) AND 0xFF) XOR drop_bit 8 reg) bs"

definition crc32 :: "bytes \<Rightarrow> u32" where
  "crc32 data = crc_push 0xFFFFFFFF data XOR 0xFFFFFFFF"

section \<open>The shift register\<close>

text \<open>The reference: one bit at a time, least significant bit of each byte first.\<close>

definition lfsr :: "u32 \<Rightarrow> bool \<Rightarrow> u32" where
  "lfsr reg x = (if odd reg \<noteq> x then CRC_POLY XOR drop_bit 1 reg else drop_bit 1 reg)"

definition message_bits :: "bytes \<Rightarrow> bool list" where
  "message_bits bs = concat (map (\<lambda>b. map (bit b) [0..<8]) bs)"

definition crc32_serial :: "bytes \<Rightarrow> u32" where
  "crc32_serial data = foldl lfsr 0xFFFFFFFF (message_bits data) XOR 0xFFFFFFFF"

lemma crc_bit_odd: "crc_bit c = (if odd c then CRC_POLY XOR drop_bit 1 c else drop_bit 1 c)"
  by (simp add: crc_bit_def and_one_eq odd_iff_mod_2_eq_one)

lemma crc_bit_xor: "crc_bit (x XOR y) = crc_bit x XOR crc_bit y"
  by (cases "odd x"; cases "odd y")
     (simp_all add: crc_bit_odd drop_bit_xor even_xor_iff xor.left_commute xor.assoc)

lemma crc_bits_xor: "(crc_bit ^^ n) (x XOR y) = (crc_bit ^^ n) x XOR (crc_bit ^^ n) y"
  by (induction n) (simp_all add: crc_bit_xor)

text \<open>Zeros at the low end are shifted out.\<close>

lemma crc_bits_low_zero: "take_bit n y = 0 \<Longrightarrow> (crc_bit ^^ n) y = drop_bit n (y :: u32)"
proof (induction n arbitrary: y)
  case (Suc n)
  have "even y" using Suc.prems by (metis bit_0 bit_take_bit_iff even_take_bit_eq even_zero nat.distinct(1))
  then have "crc_bit y = drop_bit 1 y" by (simp add: crc_bit_odd)
  moreover have "take_bit n (drop_bit 1 y) = 0"
    using Suc.prems by (simp add: take_bit_drop_bit)
  ultimately show ?case using Suc.IH [of "drop_bit 1 y"]
    by (simp add: funpow_Suc_right del: funpow.simps(2))
qed simp

text \<open>One table lookup is eight steps of the register.\<close>

lemma mask8: "x AND 0xFF = take_bit 8 (x :: u32)"
  by (simp add: take_bit_eq_mask mask_eq_exp_minus_1)

lemma crc_table_nth: "crc_table ! unat (x AND 0xFF) = (crc_bit ^^ 8) (take_bit 8 x)"
proof -
  have "unat (take_bit 8 x) < 256"
    using take_bit_nat_less_exp [of 8 "unat x"] by (simp add: unsigned_take_bit_eq)
  then show ?thesis by (simp add: crc_table_def mask8)
qed

lemma table_step: "crc_table ! unat (x AND 0xFF) XOR drop_bit 8 x = (crc_bit ^^ 8) (x :: u32)"
proof -
  have split: "x = take_bit 8 x XOR (x AND NOT (mask 8))"
    by (rule bit_eqI) (auto simp: bit_simps)
  have "(crc_bit ^^ 8) (x AND NOT (mask 8)) = drop_bit 8 (x AND NOT (mask 8))"
    by (rule crc_bits_low_zero) (rule bit_eqI, auto simp: bit_simps)
  also have "\<dots> = drop_bit 8 x" by (rule bit_eqI) (auto simp: bit_simps dest: bit_imp_le_length)
  finally show ?thesis by (subst (3) split) (simp add: crc_table_nth crc_bits_xor)
qed


lemma lfsr_crc_bit: "lfsr reg x = crc_bit (reg XOR of_bool x)"
  by (cases "odd reg"; cases x) (simp_all add: lfsr_def crc_bit_odd drop_bit_xor even_xor_iff)

lemma crc_bits_lfsr:
  "(crc_bit ^^ n) (reg XOR y) = foldl lfsr reg (map (bit y) [0..<n]) XOR drop_bit n (y :: u32)"
proof (induction n)
  case (Suc n)
  let ?r = "foldl lfsr reg (map (bit y) [0..<n])"
  let ?h = "2 * drop_bit (Suc n) y"
  have "drop_bit n y = of_bool (bit y n) XOR ?h"
  proof (rule bit_eqI)
    fix i show "bit (drop_bit n y) i = bit (of_bool (bit y n) XOR ?h) i"
      by (cases i) (auto simp: bit_simps bit_1_iff bit_double_iff dest: bit_imp_le_length)
  qed
  moreover have "drop_bit 1 ?h = drop_bit (Suc n) y"
    by (rule bit_eqI) (auto simp: bit_drop_bit_eq bit_double_iff dest: bit_imp_le_length)
  then have "crc_bit ?h = drop_bit (Suc n) y" by (simp add: crc_bit_odd)
  ultimately have "crc_bit (?r XOR drop_bit n y) = crc_bit (?r XOR of_bool (bit y n)) XOR drop_bit (Suc n) y"
    by (simp only: crc_bit_xor xor.assoc)
  then have "crc_bit (?r XOR drop_bit n y) = lfsr ?r (bit y n) XOR drop_bit (Suc n) y"
    by (simp only: lfsr_crc_bit)
  then show ?case using Suc by simp
qed simp

lemma byte_step: "crc_table ! unat ((reg XOR ucast (b :: u8)) AND 0xFF) XOR drop_bit 8 reg = foldl lfsr reg (map (bit b) [0..<8])"
proof -
  let ?y = "ucast b :: u32"
  have "\<not> bit b (8 + i)" for i using bit_imp_le_length [of b "8 + i"] by auto
  then have "drop_bit 8 ?y = 0" by (intro bit_eqI) (simp add: bit_simps)
  moreover have "map (bit ?y) [0..<8] = map (bit b) [0..<8]" by (rule map_cong) (auto simp: bit_simps)
  ultimately show ?thesis
    using table_step [of "reg XOR ?y"] crc_bits_lfsr [of 8 reg ?y] by (simp only: drop_bit_xor xor.right_neutral)
qed

lemma crc_push_serial: "crc_push reg data = foldl lfsr reg (message_bits data)"
  by (induction reg data rule: crc_push.induct) (simp_all only: crc_push.simps byte_step, simp_all add: message_bits_def)

lemma crc_push_append: "crc_push reg (xs @ ys) = crc_push (crc_push reg xs) ys"
  by (induction reg xs rule: crc_push.induct) simp_all

text \<open>
  C35. The table-driven checksum of the live stream is the CRC-32 that feeds the message bit by
  bit into the shift register: for every message both give the same value, and the
  checksum of a message is computed correctly when it arrives in pieces.
\<close>

theorem crc32_equivalence:
  "crc32 (concat pieces) = crc32_serial (concat pieces)
   \<and> foldl crc_push 0xFFFFFFFF pieces XOR 0xFFFFFFFF = crc32 (concat pieces)"
proof -
  have "foldl crc_push reg pieces = crc_push reg (concat pieces)" for reg
    by (induction pieces arbitrary: reg) (simp_all add: crc_push_append)
  then show ?thesis by (simp add: crc32_def crc32_serial_def crc_push_serial)
qed

end
