(* ===== verification/W3g.thy ===== *)
theory W3g
  imports Wire
begin

text \<open>
  The replay file (\<^verbatim>\<open>spectre-spectator/src/w3g.rs\<close>): the body cut into blocks of 8192 bytes, each
  compressed and framed with its checksum, after a header of 68 bytes. The compressor of
  \<^verbatim>\<open>flate2\<close> and the checksum of \<^verbatim>\<open>crc32fast\<close> are parameters.
\<close>

section \<open>Operations\<close>

abbreviation "HEADER_SIZE \<equiv> (68 :: nat)"
abbreviation "BLOCK_SIZE \<equiv> (8192 :: nat)"
abbreviation "FLAGS_MULTIPLAYER \<equiv> (0xC000 :: u16)"

record w3g_writer =
  ww_war3_version :: u32
  ww_build :: u16
  ww_tft :: bool
  ww_replay_length_ms :: u32

definition w3g_new :: "u32 \<Rightarrow> u16 \<Rightarrow> bool \<Rightarrow> w3g_writer" where
  "w3g_new war3_version build tft =
     \<lparr>ww_war3_version = war3_version, ww_build = build, ww_tft = tft, ww_replay_length_ms = 0\<rparr>"

definition w3g_set_replay_length :: "w3g_writer \<Rightarrow> u32 \<Rightarrow> w3g_writer" where
  "w3g_set_replay_length w ms = w\<lparr>ww_replay_length_ms := ms\<rparr>"

text \<open>The two foreign functions.\<close>

record codec =
  cd_zlib :: "bytes \<Rightarrow> bytes"
  cd_hash :: "bytes \<Rightarrow> u32"

definition w3g_magic :: bytes where
  "w3g_magic = map of_char ''Warcraft III recorded game'' @ [0x1A, 0]"

text \<open>The header with a given checksum in its last four bytes.\<close>

definition w3g_header :: "w3g_writer \<Rightarrow> nat \<Rightarrow> nat \<Rightarrow> nat \<Rightarrow> u32 \<Rightarrow> bytes" where
  "w3g_header w file_size declared_len nblocks crc =
     w3g_magic @ put_u32_le (of_nat HEADER_SIZE) @ put_u32_le (of_nat file_size) @ put_u32_le 1
     @ put_u32_le (of_nat declared_len) @ put_u32_le (of_nat nblocks)
     @ map of_char (if ww_tft w then ''PX3W'' else ''3RAW'')
     @ put_u32_le (ww_war3_version w) @ put_u16_le (ww_build w) @ put_u16_le FLAGS_MULTIPLAYER
     @ put_u32_le (ww_replay_length_ms w) @ put_u32_le crc"

definition w3g_block :: "codec \<Rightarrow> bytes \<Rightarrow> bytes" where
  "w3g_block cd block =
     (let bh = put_u16_le (of_nat (length block)) @ put_u16_le (of_nat BLOCK_SIZE);
          crc1 = (let c = cd_hash cd (bh @ put_u32_le 0) in c XOR drop_bit 16 c);
          crc2 = (let c = cd_hash cd block in c XOR drop_bit 16 c);
          block_crc = (crc1 AND 0xFFFF) OR push_bit 16 crc2
      in bh @ put_u32_le block_crc @ block)"

text \<open>\<^verbatim>\<open>chunks_exact\<close> leaves out a shorter last piece.\<close>

definition chunks_exact :: "nat \<Rightarrow> 'a list \<Rightarrow> 'a list list" where
  "chunks_exact n xs = filter (\<lambda>c. length c = n) (chunks n xs)"

definition w3g_emit :: "codec \<Rightarrow> w3g_writer \<Rightarrow> bytes \<Rightarrow> nat \<Rightarrow> bytes" where
  "w3g_emit cd w padded declared_len =
     (let blocks = map (cd_zlib cd) (chunks_exact BLOCK_SIZE padded);
          file_size = HEADER_SIZE + sum_list (map length blocks) + length blocks * 8;
          crc = cd_hash cd (w3g_header w file_size declared_len (length blocks) 0)
      in w3g_header w file_size declared_len (length blocks) crc @ concat (map (w3g_block cd) blocks))"

definition w3g_pack :: "codec \<Rightarrow> w3g_writer \<Rightarrow> bytes \<Rightarrow> bytes" where
  "w3g_pack cd w decompressed =
     (let pad = BLOCK_SIZE - length decompressed mod BLOCK_SIZE
      in w3g_emit cd w (decompressed @ replicate pad 0) (length decompressed))"

definition pack_chunk_aligned_declaring :: "codec \<Rightarrow> w3g_writer \<Rightarrow> bytes \<Rightarrow> nat \<Rightarrow> bytes option" where
  "pack_chunk_aligned_declaring cd w decompressed declared_len =
     (if length decompressed mod BLOCK_SIZE \<noteq> 0 then None
      else if declared_len > length decompressed then None
      else Some (w3g_emit cd w decompressed declared_len))"

definition pack_chunk_aligned :: "codec \<Rightarrow> w3g_writer \<Rightarrow> bytes \<Rightarrow> bytes option" where
  "pack_chunk_aligned cd w decompressed = pack_chunk_aligned_declaring cd w decompressed (length decompressed)"

section \<open>What a reader finds\<close>

text \<open>A reader of the format: the sizes in the header, then one compressed block per frame.\<close>

fun read_blocks :: "nat \<Rightarrow> bytes \<Rightarrow> bytes list option" where
  "read_blocks 0 bs = (if bs = [] then Some [] else None)"
| "read_blocks (Suc n) bs =
     (let len = unat (from_le (take 2 bs) :: u16)
      in if length bs < 8 + len then None
         else map_option (Cons (take len (drop 8 bs))) (read_blocks n (drop (8 + len) bs)))"

definition read_w3g :: "bytes \<Rightarrow> (nat \<times> nat \<times> bytes list) option" where
  "read_w3g bs =
     (let file_size = unat (from_le (take 4 (drop 32 bs)) :: u32);
          declared = unat (from_le (take 4 (drop 40 bs)) :: u32);
          n = unat (from_le (take 4 (drop 44 bs)) :: u32)
      in if length bs < HEADER_SIZE then None
         else map_option (\<lambda>blocks. (file_size, declared, blocks)) (read_blocks n (drop HEADER_SIZE bs)))"

lemma length_w3g_magic [simp]: "length w3g_magic = 28"
  by (simp add: w3g_magic_def)

lemma length_w3g_header: "length (w3g_header w f d n c) = HEADER_SIZE"
  by (simp add: w3g_header_def)

lemma header_fields:
  "take 4 (drop 32 (w3g_header w f d n c)) = put_u32_le (of_nat f)"
  "take 4 (drop 40 (w3g_header w f d n c)) = put_u32_le (of_nat d)"
  "take 4 (drop 44 (w3g_header w f d n c)) = put_u32_le (of_nat n)"
  by (simp_all add: w3g_header_def)

lemma length_w3g_block: "length (w3g_block cd b) = 8 + length b"
  by (simp add: w3g_block_def Let_def)

lemma read_blocks_frames:
  "\<forall>b \<in> set bs. length b < 2 ^ 16 \<Longrightarrow> read_blocks (length bs) (concat (map (w3g_block cd) bs)) = Some bs"
proof (induction bs)
  case (Cons b bs)
  then have "unat (of_nat (length b) :: u16) = length b" by (simp add: unat_of_nat)
  then show ?case using Cons by (simp add: w3g_block_def Let_def)
qed simp

lemma concat_chunks: "0 < n \<Longrightarrow> concat (chunks n xs) = xs"
proof (induction n xs rule: chunks.induct)
  case (1 n xs)
  then show ?case by (subst chunks.simps) simp
qed

lemma chunks_full: "length xs = k * n \<Longrightarrow> 0 < n \<Longrightarrow> (\<forall>c \<in> set (chunks n xs). length c = n) \<and> length (chunks n xs) = k"
proof (induction k arbitrary: xs)
  case (Suc k)
  have len: "length (take n xs) = n" "length (drop n xs) = k * n" using Suc.prems by simp_all
  then have "chunks n xs = take n xs # chunks n (drop n xs)"
    using chunks_append [of "take n xs" n "drop n xs"] Suc.prems(2) by simp
  then show ?case using Suc.IH [OF len(2) Suc.prems(2)] len(1) by simp
qed simp

lemma chunks_exact_aligned:
  assumes "length xs = k * n" and "0 < n"
  shows "concat (chunks_exact n xs) = xs" "\<forall>c \<in> set (chunks_exact n xs). length c = n" "length (chunks_exact n xs) = k"
proof -
  have "chunks_exact n xs = chunks n xs" using chunks_full [OF assms] by (simp add: chunks_exact_def filter_id_conv)
  then show "concat (chunks_exact n xs) = xs" "\<forall>c \<in> set (chunks_exact n xs). length c = n" "length (chunks_exact n xs) = k"
    using chunks_full [OF assms] concat_chunks [OF assms(2), of xs] by simp_all
qed




end
