(* ===== verification/Dotatv_Stream.thy ===== *)
theory Dotatv_Stream
  imports W3g Crc Replay_Body
begin

text \<open>
  The live stream of a game (\<^verbatim>\<open>spectre-spectator/src/dotatv.rs\<close>): the bytes of the replay body are cut into
  compressed frames that never cross a boundary of 8192 bytes, published with a delay, and a
  viewer starts from a replay file that holds the prologue.
\<close>

section \<open>Operations\<close>

abbreviation "CHUNK_SIZE \<equiv> (8192 :: nat)"
abbreviation "EMPTY_TIMESLOT \<equiv> ([0x1F, 0x02, 0x00, 0x00, 0x00] :: bytes)"

record chunk =
  ck_compressed :: bytes
  ck_valid_bytes :: u16
  ck_crc :: u32

definition chunk_frame :: "chunk \<Rightarrow> bytes" where
  "chunk_frame c = put_u16_le (of_nat (length (ck_compressed c))) @ put_u16_le (ck_valid_bytes c)
     @ put_u32_le (ck_crc c) @ ck_compressed c"

datatype dotatv_error = ChunkTooLarge nat

record tv_stream =
  tv_raw :: bytes
  tv_raw_base :: nat
  tv_frames :: "chunk list"
  tv_frame_times :: "nat list"
  tv_framed_len :: nat
  tv_prologue :: bytes
  tv_prologue_end :: nat
  tv_war3_version :: u32
  tv_build :: u16
  tv_tft :: bool
  tv_crc_reg :: u32

definition tv_new :: "u32 \<Rightarrow> u16 \<Rightarrow> bool \<Rightarrow> tv_stream" where
  "tv_new war3_version build tft =
     \<lparr>tv_raw = [], tv_raw_base = 0, tv_frames = [], tv_frame_times = [], tv_framed_len = 0,
      tv_prologue = [], tv_prologue_end = 0, tv_war3_version = war3_version, tv_build = build,
      tv_tft = tft, tv_crc_reg = 0xFFFFFFFF\<rparr>"

definition for_126a :: tv_stream where
  "for_126a = tv_new 26 6059 True"

definition mark_prologue_end :: "tv_stream \<Rightarrow> tv_stream" where
  "mark_prologue_end s = s\<lparr>tv_prologue_end := tv_raw_base s + length (tv_raw s), tv_prologue := tv_raw s\<rparr>"

definition mark_prologue_end_at :: "tv_stream \<Rightarrow> nat \<Rightarrow> tv_stream" where
  "mark_prologue_end_at s abs_offset =
     s\<lparr>tv_prologue_end := abs_offset,
       tv_prologue := take (min (abs_offset - tv_raw_base s) (length (tv_raw s))) (tv_raw s)\<rparr>"

definition tv_push_body :: "bytes \<Rightarrow> tv_stream \<Rightarrow> (dotatv_error + nat) \<times> tv_stream" where
  "tv_push_body bs s = (Inr 0, s\<lparr>tv_raw := tv_raw s @ bs\<rparr>)"

text \<open>The end of the frame that starts at \<^verbatim>\<open>framed_len\<close>, relative to the retained bytes.\<close>

definition frame_end :: "tv_stream \<Rightarrow> nat" where
  "frame_end s =
     (let start_abs = tv_raw_base s + tv_framed_len s;
          block_end = (start_abs div CHUNK_SIZE + 1) * CHUNK_SIZE
      in min (min (tv_raw_base s + length (tv_raw s)) block_end) (start_abs + CHUNK_SIZE) - tv_raw_base s)"

lemma frame_end_bounds:
  assumes "tv_framed_len s < length (tv_raw s)"
  shows "tv_framed_len s < frame_end s" "frame_end s \<le> length (tv_raw s)"
proof -
  let ?a = "tv_raw_base s + tv_framed_len s"
  have "?a < (?a div CHUNK_SIZE + 1) * CHUNK_SIZE"
    by (metis add.commute dividend_less_times_div mult.commute plus_1_eq_Suc mult_Suc_right zero_less_numeral)
  then show "tv_framed_len s < frame_end s" "frame_end s \<le> length (tv_raw s)"
    using assms by (auto simp: frame_end_def Let_def)
qed

definition add_frame :: "codec \<Rightarrow> nat \<Rightarrow> tv_stream \<Rightarrow> tv_stream" where
  "add_frame cd now s =
     (let slice = take (frame_end s - tv_framed_len s) (drop (tv_framed_len s) (tv_raw s))
      in s\<lparr>tv_frames := tv_frames s @ [\<lparr>ck_compressed = cd_zlib cd slice,
             ck_valid_bytes = of_nat (length slice), ck_crc = crc32 slice\<rparr>],
           tv_frame_times := tv_frame_times s @ [now],
           tv_crc_reg := crc_push (tv_crc_reg s) slice,
           tv_framed_len := frame_end s\<rparr>)"

function flush_loop :: "codec \<Rightarrow> nat \<Rightarrow> nat \<Rightarrow> tv_stream \<Rightarrow> (dotatv_error + nat) \<times> tv_stream" where
  "flush_loop cd now n_cut s =
     (if tv_framed_len s < length (tv_raw s)
      then let slice = take (frame_end s - tv_framed_len s) (drop (tv_framed_len s) (tv_raw s));
               n = length (cd_zlib cd slice)
           in if n > CHUNK_SIZE then (Inl (ChunkTooLarge n), s)
              else flush_loop cd now (n_cut + 1) (add_frame cd now s)
      else (Inr n_cut, s))"
  by pat_completeness auto

termination
proof (relation "measure (\<lambda>(cd, now, n_cut, s). length (tv_raw s) - tv_framed_len s)")
  fix cd :: codec and now n_cut :: nat and s :: tv_stream
  assume "tv_framed_len s < length (tv_raw s)"
  from frame_end_bounds [OF this] this
  show "((cd, now, n_cut + 1, add_frame cd now s), (cd, now, n_cut, s))
      \<in> measure (\<lambda>(cd, now, n_cut, s). length (tv_raw s) - tv_framed_len s)"
    by (simp add: add_frame_def Let_def)
qed simp

declare flush_loop.simps [simp del]

definition tv_trim :: "tv_stream \<Rightarrow> tv_stream" where
  "tv_trim s =
     (if tv_framed_len s > CHUNK_SIZE
      then s\<lparr>tv_raw := drop (tv_framed_len s) (tv_raw s), tv_raw_base := tv_raw_base s + tv_framed_len s,
             tv_framed_len := 0\<rparr>
      else s)"

definition tv_flush :: "codec \<Rightarrow> nat \<Rightarrow> tv_stream \<Rightarrow> (dotatv_error + nat) \<times> tv_stream" where
  "tv_flush cd now s =
     (case flush_loop cd now 0 s of (Inl e, s) \<Rightarrow> (Inl e, s) | (Inr n_cut, s) \<Rightarrow> (Inr n_cut, tv_trim s))"

definition pending_len :: "tv_stream \<Rightarrow> nat" where
  "pending_len s = length (tv_raw s) - tv_framed_len s"

definition retained_len :: "tv_stream \<Rightarrow> nat" where
  "retained_len s = length (tv_raw s)"

definition chunk_count :: "tv_stream \<Rightarrow> nat" where
  "chunk_count s = length (tv_frames s)"

text \<open>\<^verbatim>\<open>partition_point\<close> on times that never decrease: the length of the prefix before the cutoff.\<close>

definition count_delayed :: "nat \<Rightarrow> nat \<Rightarrow> tv_stream \<Rightarrow> nat" where
  "count_delayed now delay s =
     (if delay = 0 then length (tv_frames s)
      else if now < delay then 0
      else length (takeWhile (\<lambda>t. t \<le> now - delay) (tv_frame_times s)))"

definition tv_status :: "nat \<Rightarrow> nat \<Rightarrow> nat \<Rightarrow> tv_stream \<Rightarrow> bool \<times> nat" where
  "tv_status now start_index delay s =
     (if delay = 0 \<or> start_index \<ge> length (tv_frames s) then (True, 0)
      else if count_delayed now delay s > start_index then (True, 0)
      else let age = now - tv_frame_times s ! start_index in (False, (delay - age) div 1000000000))"

definition tv_chunk :: "nat \<Rightarrow> tv_stream \<Rightarrow> chunk option" where
  "tv_chunk i s = (if i < length (tv_frames s) then Some (tv_frames s ! i) else None)"

definition published_len :: "tv_stream \<Rightarrow> nat" where
  "published_len s = tv_raw_base s + tv_framed_len s"

definition published_crc :: "tv_stream \<Rightarrow> u32" where
  "published_crc s = tv_crc_reg s XOR 0xFFFFFFFF"


text \<open>The loop that fills a block with empty time slots, and the padding to the block.\<close>

function fill_timeslots :: "nat \<Rightarrow> bytes \<Rightarrow> bytes" where
  "fill_timeslots aligned padded =
     (if length padded + 5 \<le> aligned then fill_timeslots aligned (padded @ EMPTY_TIMESLOT) else padded)"
  by pat_completeness auto
termination by (relation "measure (\<lambda>(a, p). a - length p)") auto

declare fill_timeslots.simps [simp del]

definition pad_block :: "bytes \<Rightarrow> bytes" where
  "pad_block body =
     (let aligned = (length body + (CHUNK_SIZE - 1)) div CHUNK_SIZE * CHUNK_SIZE;
          padded = fill_timeslots aligned body
      in take aligned padded @ replicate (aligned - length padded) 0)"

text \<open>The first frame that starts at or after the prefix; \<open>covered\<close> bytes come before frame \<open>i\<close>.\<close>

fun resume_index :: "chunk list \<Rightarrow> nat \<Rightarrow> nat \<Rightarrow> nat \<Rightarrow> nat" where
  "resume_index [] prefix covered i = i"
| "resume_index (f # fs) prefix covered i =
     (if covered \<ge> prefix then i else resume_index fs prefix (covered + unat (ck_valid_bytes f)) (i + 1))"

definition stream_writer :: "tv_stream \<Rightarrow> u32 \<Rightarrow> w3g_writer" where
  "stream_writer s ms = w3g_set_replay_length (w3g_new (tv_war3_version s) (tv_build s) (tv_tft s)) ms"

definition bootstrap :: "codec \<Rightarrow> u32 \<Rightarrow> tv_stream \<Rightarrow> (bytes \<times> u32) option" where
  "bootstrap cd replay_length_ms s =
     (let prefix = min (tv_prologue_end s) (published_len s);
          aligned = (prefix + (CHUNK_SIZE - 1)) div CHUNK_SIZE * CHUNK_SIZE;
          padded = fill_timeslots aligned (take prefix (tv_prologue s));
          padded = take aligned padded @ replicate (aligned - length padded) 0
      in map_option (\<lambda>packed. (packed, of_nat (resume_index (tv_frames s) prefix 0 0)))
           (pack_chunk_aligned_declaring cd (stream_writer s replay_length_ms) padded aligned))"

text \<open>\<^verbatim>\<open>bootstrap_full\<close>; the decompressor of \<^verbatim>\<open>flate2\<close> is the argument \<open>inflate\<close>.\<close>

definition bootstrap_full :: "codec \<Rightarrow> (bytes \<Rightarrow> bytes) \<Rightarrow> u32 \<Rightarrow> tv_stream \<Rightarrow> (bytes \<times> u32) option" where
  "bootstrap_full cd inflate replay_length_ms s =
     (let body = concat (map (inflate \<circ> ck_compressed) (tv_frames s));
          padded = pad_block body
      in map_option (\<lambda>packed. (packed, of_nat (length (tv_frames s))))
           (pack_chunk_aligned_declaring cd (stream_writer s replay_length_ms) padded (length padded)))"

section \<open>The frames carry the stream\<close>

text \<open>
  \<open>stream_inv\<close> relates a stream to the pieces \<open>slices\<close> its frames were cut from: together with the bytes
  that are not framed yet they are what was pushed.
\<close>

definition slice_ok :: "codec \<Rightarrow> bytes \<Rightarrow> chunk \<Rightarrow> bool" where
  "slice_ok cd x c \<longleftrightarrow> ck_compressed c = cd_zlib cd x \<and> unat (ck_valid_bytes c) = length x \<and> ck_crc c = crc32 x
     \<and> length (ck_compressed c) \<le> CHUNK_SIZE"

fun within_blocks :: "nat \<Rightarrow> bytes list \<Rightarrow> bool" where
  "within_blocks off [] = True"
| "within_blocks off (x # xs) = (x \<noteq> [] \<and> off mod CHUNK_SIZE + length x \<le> CHUNK_SIZE \<and> within_blocks (off + length x) xs)"

definition stream_inv :: "codec \<Rightarrow> bytes \<Rightarrow> bytes list \<Rightarrow> tv_stream \<Rightarrow> bool" where
  "stream_inv cd pushed slices s \<longleftrightarrow>
     list_all2 (slice_ok cd) slices (tv_frames s) \<and> within_blocks 0 slices
     \<and> concat slices @ drop (tv_framed_len s) (tv_raw s) = pushed
     \<and> length (concat slices) = published_len s \<and> tv_framed_len s \<le> length (tv_raw s)
     \<and> tv_crc_reg s = crc_push 0xFFFFFFFF (concat slices)
     \<and> length (tv_frame_times s) = length (tv_frames s)"

lemma within_blocks_snoc:
  "within_blocks off (xs @ [x]) \<longleftrightarrow> within_blocks off xs \<and> x \<noteq> []
     \<and> (off + length (concat xs)) mod CHUNK_SIZE + length x \<le> CHUNK_SIZE"
  by (induction xs arbitrary: off) (auto simp: add.assoc)

lemma inv_new: "stream_inv cd [] [] (tv_new v b t)"
  by (simp add: stream_inv_def tv_new_def published_len_def)

lemma inv_push: "stream_inv cd pushed slices s \<Longrightarrow> stream_inv cd (pushed @ bs) slices (snd (tv_push_body bs s))"
  by (auto simp: stream_inv_def tv_push_body_def published_len_def)

lemma frame_end_block:
  assumes "tv_framed_len s < length (tv_raw s)"
  shows "published_len s mod CHUNK_SIZE + (frame_end s - tv_framed_len s) \<le> CHUNK_SIZE"
proof -
  let ?a = "published_len s"
  have "tv_raw_base s + frame_end s \<le> (?a div CHUNK_SIZE + 1) * CHUNK_SIZE"
    using assms by (auto simp: frame_end_def published_len_def Let_def)
  then have "?a div CHUNK_SIZE * CHUNK_SIZE + (?a mod CHUNK_SIZE + (frame_end s - tv_framed_len s))
      \<le> ?a div CHUNK_SIZE * CHUNK_SIZE + CHUNK_SIZE"
    using frame_end_bounds [OF assms] div_mult_mod_eq [of ?a CHUNK_SIZE]
    by (simp only: published_len_def add_mult_distrib mult_1)
  then show ?thesis by (rule add_le_imp_le_left)
qed


lemma inv_add_frame:
  assumes inv: "stream_inv cd pushed slices s" and more: "tv_framed_len s < length (tv_raw s)"
    and fits: "length (cd_zlib cd (take (frame_end s - tv_framed_len s) (drop (tv_framed_len s) (tv_raw s)))) \<le> CHUNK_SIZE"
  shows "stream_inv cd pushed (slices @ [take (frame_end s - tv_framed_len s) (drop (tv_framed_len s) (tv_raw s))]) (add_frame cd now s)"
proof -
  define x where "x = take (frame_end s - tv_framed_len s) (drop (tv_framed_len s) (tv_raw s))"
  define c where "c = \<lparr>ck_compressed = cd_zlib cd x, ck_valid_bytes = of_nat (length x), ck_crc = crc32 x\<rparr>"
  note b = frame_end_bounds [OF more]
  have len: "length x = frame_end s - tv_framed_len s" using b by (simp add: x_def)
  have small: "frame_end s - tv_framed_len s \<le> CHUNK_SIZE" using frame_end_block [OF more] by simp
  have "slice_ok cd x c" using fits small len by (simp add: c_def slice_ok_def unat_of_nat x_def)
  then have frames: "list_all2 (slice_ok cd) (slices @ [x]) (tv_frames s @ [c])"
    using inv by (simp add: stream_inv_def list_all2_appendI)
  have "x \<noteq> []" using b len by auto
  then have blocks: "within_blocks 0 (slices @ [x])"
    using inv len frame_end_block [OF more] unfolding within_blocks_snoc stream_inv_def by simp
  have rest: "x @ drop (frame_end s) (tv_raw s) = drop (tv_framed_len s) (tv_raw s)"
    using b unfolding x_def by (metis (no_types, lifting) append_take_drop_id drop_drop le_add_diff_inverse2 less_imp_le)
  have step: "add_frame cd now s = s\<lparr>tv_frames := tv_frames s @ [c], tv_frame_times := tv_frame_times s @ [now],
      tv_crc_reg := crc_push (tv_crc_reg s) x, tv_framed_len := frame_end s\<rparr>"
    by (simp add: add_frame_def Let_def c_def x_def)
  show ?thesis
    using inv b(2) frames blocks rest len b(1) unfolding x_def [symmetric] step stream_inv_def
    by (simp add: published_len_def crc_push_append)
qed

lemma inv_flush_loop:
  assumes "stream_inv cd pushed slices s" and "flush_loop cd now n_cut s = (r, s')"
  shows "\<exists>more. stream_inv cd pushed (slices @ more) s' \<and> tv_prologue s' = tv_prologue s
    \<and> tv_prologue_end s' = tv_prologue_end s \<and> (\<exists>times. tv_frame_times s' = tv_frame_times s @ times \<and> set times \<subseteq> {now})
    \<and> (case r of Inr _ \<Rightarrow> tv_framed_len s' = length (tv_raw s') | Inl e \<Rightarrow> tv_framed_len s' < length (tv_raw s'))"
  using assms
proof (induction cd now n_cut s arbitrary: slices rule: flush_loop.induct)
  case (1 cd now n_cut s)
  let ?x = "take (frame_end s - tv_framed_len s) (drop (tv_framed_len s) (tv_raw s))"
  consider "\<not> tv_framed_len s < length (tv_raw s)"
    | "tv_framed_len s < length (tv_raw s)" "length (cd_zlib cd ?x) > CHUNK_SIZE"
    | "tv_framed_len s < length (tv_raw s)" "\<not> length (cd_zlib cd ?x) > CHUNK_SIZE" by blast
  then show ?case
  proof cases
    case 1
    with \<open>flush_loop cd now n_cut s = (r, s')\<close> have "r = Inr n_cut" "s' = s" by (auto simp: flush_loop.simps [of cd now n_cut s])
    moreover have "tv_framed_len s = length (tv_raw s)" using 1 \<open>stream_inv cd pushed slices s\<close> by (simp add: stream_inv_def)
    ultimately show ?thesis using \<open>stream_inv cd pushed slices s\<close> by (intro exI [of _ "[]"]) simp
  next
    case 2
    with \<open>flush_loop cd now n_cut s = (r, s')\<close> have "\<exists>e. r = Inl e" "s' = s"
      by (auto simp: flush_loop.simps [of cd now n_cut s] Let_def)
    then show ?thesis using 2(1) \<open>stream_inv cd pushed slices s\<close> by (intro exI [of _ "[]"]) auto
  next
    case 3
    then have run: "flush_loop cd now (n_cut + 1) (add_frame cd now s) = (r, s')"
      using \<open>flush_loop cd now n_cut s = (r, s')\<close> by (simp add: flush_loop.simps [of cd now n_cut s] Let_def)
    from 3 have "stream_inv cd pushed (slices @ [?x]) (add_frame cd now s)"
      by (intro inv_add_frame \<open>stream_inv cd pushed slices s\<close>) simp_all
    from "1.IH" [OF 3(1) refl refl 3(2) this run] obtain more times where
      "stream_inv cd pushed ((slices @ [?x]) @ more) s'" "tv_prologue s' = tv_prologue s" "tv_prologue_end s' = tv_prologue_end s"
      "tv_frame_times s' = (tv_frame_times s @ [now]) @ times" "set times \<subseteq> {now}"
      "case r of Inr _ \<Rightarrow> tv_framed_len s' = length (tv_raw s') | Inl e \<Rightarrow> tv_framed_len s' < length (tv_raw s')"
      by (auto simp: add_frame_def Let_def)
    then show ?thesis by (intro exI [of _ "?x # more"]) auto
  qed
qed

lemma inv_trim: "stream_inv cd pushed slices s \<Longrightarrow> tv_framed_len s = length (tv_raw s) \<Longrightarrow> stream_inv cd pushed slices (tv_trim s)"
  by (auto simp: stream_inv_def tv_trim_def published_len_def)

lemma inv_flush:
  assumes inv: "stream_inv cd pushed slices s" and run: "tv_flush cd now s = (r, s')"
  shows "\<exists>more. stream_inv cd pushed (slices @ more) s' \<and> (is_ok r \<longrightarrow> concat (slices @ more) = pushed)
    \<and> tv_prologue s' = tv_prologue s \<and> tv_prologue_end s' = tv_prologue_end s
    \<and> (\<exists>times. tv_frame_times s' = tv_frame_times s @ times \<and> set times \<subseteq> {now})"
proof -
  obtain r0 s0 where loop: "flush_loop cd now 0 s = (r0, s0)" by fastforce
  from inv_flush_loop [OF inv this] obtain more where more: "stream_inv cd pushed (slices @ more) s0"
    "tv_prologue s0 = tv_prologue s" "tv_prologue_end s0 = tv_prologue_end s"
    "\<exists>times. tv_frame_times s0 = tv_frame_times s @ times \<and> set times \<subseteq> {now}"
    "case r0 of Inr _ \<Rightarrow> tv_framed_len s0 = length (tv_raw s0) | Inl e \<Rightarrow> tv_framed_len s0 < length (tv_raw s0)" by blast
  have keep: "tv_prologue (tv_trim s0) = tv_prologue s0" "tv_prologue_end (tv_trim s0) = tv_prologue_end s0"
    "tv_frame_times (tv_trim s0) = tv_frame_times s0" by (simp_all add: tv_trim_def)
  show ?thesis
  proof (cases r0)
    case (Inl e)
    then have "s' = s0" "\<not> is_ok r" using run loop by (auto simp: tv_flush_def)
    then show ?thesis using more by blast
  next
    case (Inr n)
    then have s': "s' = tv_trim s0" and all: "tv_framed_len s0 = length (tv_raw s0)"
      using run loop more(5) by (auto simp: tv_flush_def)
    then have "concat (slices @ more) = pushed" using more(1) by (simp add: stream_inv_def)
    then show ?thesis using inv_trim [OF more(1) all] more keep s' by metis
  qed
qed


text \<open>Any sequence of pushes and flushes, the clock of a flush being an argument.\<close>

datatype tv_op = TvPush bytes | TvFlush nat

fun tv_step :: "codec \<Rightarrow> tv_stream \<Rightarrow> tv_op \<Rightarrow> tv_stream" where
  "tv_step cd s (TvPush bs) = snd (tv_push_body bs s)"
| "tv_step cd s (TvFlush now) = snd (tv_flush cd now s)"

definition pushed_bytes :: "tv_op list \<Rightarrow> bytes" where
  "pushed_bytes ops = concat (map (\<lambda>opn. case opn of TvPush bs \<Rightarrow> bs | TvFlush _ \<Rightarrow> []) ops)"

lemma stream_inv_reachable: "\<exists>slices. stream_inv cd (pushed_bytes ops) slices (foldl (tv_step cd) (tv_new v b t) ops)"
proof (induction ops rule: rev_induct)
  case Nil
  show ?case using inv_new [of cd v b t] by (intro exI [of _ "[]"]) (simp add: pushed_bytes_def)
next
  case (snoc opn ops)
  let ?s = "foldl (tv_step cd) (tv_new v b t) ops"
  obtain slices where inv: "stream_inv cd (pushed_bytes ops) slices ?s" using snoc by blast
  show ?case
  proof (cases opn)
    case (TvPush bs)
    then show ?thesis using inv_push [OF inv, of bs] by (auto simp: pushed_bytes_def)
  next
    case (TvFlush now)
    obtain r s' where "tv_flush cd now ?s = (r, s')" by fastforce
    with inv_flush [OF inv this] TvFlush show ?thesis by (auto simp: pushed_bytes_def)
  qed
qed

lemma recover_slices:
  assumes "\<forall>x. inflate (cd_zlib cd x) = x" and "list_all2 (slice_ok cd) slices cs"
  shows "map (inflate \<circ> ck_compressed) cs = slices"
  using assms(2) by induction (simp_all add: slice_ok_def assms(1))

text \<open>
  C4. Whatever is pushed to the live stream and however often it is flushed: the frames inflate to
  consecutive pieces of what was pushed, followed by what is not framed yet, so that
  nothing is lost, repeated or reordered when old bytes are dropped; each frame carries the
  size and checksum of its piece and lies within one block of 8192 bytes; the running
  checksum is that of everything published; and a flush that succeeds leaves nothing
  unpublished.
\<close>

theorem live_stream_complete:
  assumes "\<forall>x. inflate (cd_zlib cd x) = x"
    and s_def: "s = foldl (tv_step cd) (tv_new v b t) ops"
  shows "concat (map (inflate \<circ> ck_compressed) (tv_frames s)) @ drop (tv_framed_len s) (tv_raw s) = pushed_bytes ops
    \<and> list_all (\<lambda>c. unat (ck_valid_bytes c) = length (inflate (ck_compressed c)) \<and> ck_crc c = crc32 (inflate (ck_compressed c))
         \<and> length (ck_compressed c) \<le> CHUNK_SIZE) (tv_frames s)
    \<and> within_blocks 0 (map (inflate \<circ> ck_compressed) (tv_frames s))
    \<and> published_crc s = crc32 (take (published_len s) (pushed_bytes ops))
    \<and> (is_ok (fst (tv_flush cd now s)) \<longrightarrow>
       concat (map (inflate \<circ> ck_compressed) (tv_frames (snd (tv_flush cd now s)))) = pushed_bytes ops)"
proof -
  note recover = recover_slices [OF assms(1)]
  obtain slices where inv: "stream_inv cd (pushed_bytes ops) slices s"
    using stream_inv_reachable unfolding s_def by blast
  then have slices: "map (inflate \<circ> ck_compressed) (tv_frames s) = slices" using recover by (simp add: stream_inv_def)
  have 1: "list_all (\<lambda>c. unat (ck_valid_bytes c) = length (inflate (ck_compressed c)) \<and> ck_crc c = crc32 (inflate (ck_compressed c))
         \<and> length (ck_compressed c) \<le> CHUNK_SIZE) cs" if "list_all2 (slice_ok cd) xs cs" for xs cs
    using that by induction (auto simp: slice_ok_def assms(1))
  have "take (published_len s) (pushed_bytes ops) = concat slices"
    using inv unfolding stream_inv_def by (metis append_eq_conv_conj)
  then have 2: "published_crc s = crc32 (take (published_len s) (pushed_bytes ops))"
    using inv by (simp add: stream_inv_def published_crc_def crc32_def)
  obtain r s' where run: "tv_flush cd now s = (r, s')" by fastforce
  from inv_flush [OF inv run] obtain more where "stream_inv cd (pushed_bytes ops) (slices @ more) s'"
    "is_ok r \<longrightarrow> concat (slices @ more) = pushed_bytes ops" by blast
  then have 3: "is_ok r \<longrightarrow> concat (map (inflate \<circ> ck_compressed) (tv_frames s')) = pushed_bytes ops"
    using recover [of "slices @ more" "tv_frames s'"] by (simp add: stream_inv_def)
  have "concat slices @ drop (tv_framed_len s) (tv_raw s) = pushed_bytes ops" "within_blocks 0 slices"
    "list_all2 (slice_ok cd) slices (tv_frames s)" using inv by (simp_all add: stream_inv_def)
  then show ?thesis using 1 2 3 by (simp add: run slices)
qed


theorem live_stream_complete_witness:
  "published_crc (foldl (tv_step \<lparr>cd_zlib = (\<lambda>x. x), cd_hash = (\<lambda>_. 7)\<rparr>) for_126a [TvPush [1, 2, 3], TvFlush 5, TvPush [4]])
   = crc32 (take (published_len (foldl (tv_step \<lparr>cd_zlib = (\<lambda>x. x), cd_hash = (\<lambda>_. 7)\<rparr>) for_126a
       [TvPush [1, 2, 3], TvFlush 5, TvPush [4]])) [1, 2, 3, 4])"
  using live_stream_complete [of "\<lambda>x. x" "\<lparr>cd_zlib = (\<lambda>x. x), cd_hash = (\<lambda>_. 7)\<rparr>"
      "foldl (tv_step \<lparr>cd_zlib = (\<lambda>x. x), cd_hash = (\<lambda>_. 7)\<rparr>) for_126a [TvPush [1, 2, 3], TvFlush 5, TvPush [4]]"
      26 6059 True "[TvPush [1, 2, 3], TvFlush 5, TvPush [4]]" 0]
  by (simp only: for_126a_def codec.select_convs simp_thms) (simp add: pushed_bytes_def)

end
