(* ===== verification/Dotatv_Server.thy ===== *)
theory Dotatv_Server
  imports Dotatv_Stream Dotatv_Proto Game_State
begin

text \<open>
  The server of the live stream (\<^verbatim>\<open>spectre-spectator/src/dotatv_server.rs\<close>): publishing what a game
  recorded, and what a viewer is sent in each of the modes it may ask for. Sockets, tasks and
  locks are not modelled: an operation takes the clock and the shared state and returns the
  bytes it writes.
\<close>

section \<open>Shared state and publishing\<close>

record tv_shared =
  sh_stream :: tv_stream
  sh_replay_length_ms :: u32
  sh_last_marker_ms :: u32
  sh_heartbeat_enabled :: u32
  sh_heartbeat_pid :: u32
  sh_stream_delay_ms :: u32
  sh_next_chat_id :: u32

definition shared_new :: "tv_stream \<Rightarrow> tv_shared" where
  "shared_new stream =
     \<lparr>sh_stream = stream, sh_replay_length_ms = 0, sh_last_marker_ms = 0, sh_heartbeat_enabled = 0,
      sh_heartbeat_pid = 0xFF, sh_stream_delay_ms = 0, sh_next_chat_id = 1\<rparr>"

definition stream_delay :: "tv_shared \<Rightarrow> nat" where
  "stream_delay sh = millis (unat (sh_stream_delay_ms sh))"

definition set_stream_delay :: "nat \<Rightarrow> tv_shared \<Rightarrow> tv_shared" where
  "set_stream_delay delay sh = sh\<lparr>sh_stream_delay_ms := of_nat (as_millis delay)\<rparr>"

definition enable_heartbeat :: "u8 \<Rightarrow> tv_shared \<Rightarrow> tv_shared" where
  "enable_heartbeat pid sh = sh\<lparr>sh_heartbeat_pid := ucast pid, sh_heartbeat_enabled := 1\<rparr>"

definition alloc_chat_id :: "tv_shared \<Rightarrow> u32 \<times> tv_shared" where
  "alloc_chat_id sh = (sh_next_chat_id sh, sh\<lparr>sh_next_chat_id := sh_next_chat_id sh + 1\<rparr>)"

definition shared_push :: "bytes \<Rightarrow> tv_shared \<Rightarrow> tv_shared" where
  "shared_push bs sh = sh\<lparr>sh_stream := snd (tv_push_body bs (sh_stream sh))\<rparr>"

definition shared_flush :: "codec \<Rightarrow> nat \<Rightarrow> tv_shared \<Rightarrow> (dotatv_error + nat) \<times> tv_shared" where
  "shared_flush cd now sh =
     (let (r, s) = tv_flush cd now (sh_stream sh) in (r, sh\<lparr>sh_stream := s\<rparr>))"

text \<open>The formats \<^verbatim>\<open>{:02}\<close> and \<^verbatim>\<open>{:08X}\<close>.\<close>

definition pad2 :: "nat \<Rightarrow> bytes" where
  "pad2 n = (if n < 10 then [48] else []) @ show_nat n"

definition hex_digit :: "u32 \<Rightarrow> u8" where
  "hex_digit d = (if d < 10 then 48 + ucast d else 55 + ucast d)"

definition hex8 :: "u32 \<Rightarrow> bytes" where
  "hex8 w = map (\<lambda>i. hex_digit (drop_bit (4 * i) w AND 0xF)) (rev [0..<8])"

definition heartbeat_text :: "u32 \<Rightarrow> tv_shared \<Rightarrow> bytes" where
  "heartbeat_text now_ms sh =
     str ''[DTV] t='' @ pad2 (unat (now_ms div 60000)) @ str '':'' @ pad2 (unat (now_ms mod 60000 div 1000))
     @ str '' pub='' @ show_nat (published_len (sh_stream sh)) @ str '' crc='' @ hex8 (published_crc (sh_stream sh))"

definition heartbeat :: "tv_shared \<Rightarrow> replay_body \<Rightarrow> tv_shared \<times> replay_body" where
  "heartbeat sh body =
     (let now_ms = rb_replay_length_ms body
      in if sh_heartbeat_enabled sh \<noteq> 0 \<and> saturating_sub now_ms (sh_last_marker_ms sh) \<ge> 5000
         then (sh\<lparr>sh_last_marker_ms := now_ms\<rparr>,
               replay_add_server_chat body (ucast (sh_heartbeat_pid sh)) (heartbeat_text now_ms sh))
         else (sh, body))"

text \<open>The prologue, once it is known.\<close>

definition publish_prologue ::
    "codec \<Rightarrow> nat \<Rightarrow> bytes \<Rightarrow> tv_shared \<Rightarrow> (dotatv_error + unit) \<times> tv_shared" where
  "publish_prologue cd now prologue sh =
     (case shared_flush cd now (shared_push prologue sh) of
        (Inl e, sh) \<Rightarrow> (Inl e, sh)
      | (Inr _, sh) \<Rightarrow> (Inr (), sh\<lparr>sh_stream := mark_prologue_end (sh_stream sh)\<rparr>))"

definition publish_blocks ::
    "codec \<Rightarrow> nat \<Rightarrow> tv_shared \<Rightarrow> replay_body \<Rightarrow> (dotatv_error + unit) \<times> tv_shared \<times> replay_body" where
  "publish_blocks cd now sh body =
     (let (sh, body) = heartbeat sh body;
          (fresh, body) = drain_new_blocks body
      in case (if fresh \<noteq> [] then shared_flush cd now (shared_push fresh sh) else (Inr 0, sh)) of
           (Inl e, sh) \<Rightarrow> (Inl e, sh, body)
         | (Inr _, sh) \<Rightarrow> (Inr (), sh\<lparr>sh_replay_length_ms := rb_replay_length_ms body\<rparr>, body))"

definition publish_pending ::
    "codec \<Rightarrow> nat \<Rightarrow> tv_shared \<Rightarrow> replay_body \<Rightarrow> bool
     \<Rightarrow> (dotatv_error + unit) \<times> tv_shared \<times> replay_body \<times> bool" where
  "publish_pending cd now sh body prologue_sent =
     (let go = (\<lambda>sh. let (r, sh, body) = publish_blocks cd now sh body in (r, sh, body, True))
      in if prologue_sent then go sh
         else case replay_prologue body of
                Inl _ \<Rightarrow> (Inr (), sh, body, False)
              | Inr prologue \<Rightarrow>
                  (case publish_prologue cd now prologue sh of
                     (Inl e, sh) \<Rightarrow> (Inl e, sh, body, False)
                   | (Inr _, sh) \<Rightarrow> go sh))"

section \<open>Viewers\<close>

abbreviation "MODE_BOOTSTRAP \<equiv> (0 :: u8)"
abbreviation "MODE_STREAM \<equiv> (1 :: u8)"
abbreviation "MODE_BOOTSTRAP_FULL \<equiv> (2 :: u8)"
abbreviation "MODE_CHAT \<equiv> (3 :: u8)"
abbreviation "MODE_STREAM_LIVE \<equiv> (4 :: u8)"
abbreviation "MODE_STREAM_STATUS \<equiv> (5 :: u8)"

datatype serve_error = NotConnected | InvalidData | Aborted

datatype viewer_mode = BootstrapMode | BootstrapFullMode | ChatMode | StreamMode nat | StatusMode nat

text \<open>The dispatch on the mode byte, with the delay a stream is served with.\<close>

definition viewer_mode_of :: "tv_shared \<Rightarrow> bool \<Rightarrow> u8 \<Rightarrow> serve_error + viewer_mode" where
  "viewer_mode_of sh force_live mode =
     (let delay = (if force_live then 0 else stream_delay sh)
      in if mode = MODE_BOOTSTRAP then Inr BootstrapMode
         else if mode = MODE_BOOTSTRAP_FULL then Inr BootstrapFullMode
         else if mode = MODE_CHAT then Inr ChatMode
         else if mode = MODE_STREAM then Inr (StreamMode delay)
         else if mode = MODE_STREAM_LIVE then Inr (StreamMode 0)
         else if mode = MODE_STREAM_STATUS then Inr (StatusMode delay)
         else Inl InvalidData)"

definition serve_status :: "nat \<Rightarrow> nat \<Rightarrow> u32 \<Rightarrow> tv_shared \<Rightarrow> bytes" where
  "serve_status now delay start_index sh =
     (let (ready, s) = tv_status now (unat start_index) delay (sh_stream sh)
      in (if ready then 1 else 0) # put_u32_le (of_nat (min s (2 ^ 32 - 1))))"

text \<open>\<^verbatim>\<open>expect\<close> in the bootstrap would abort; then nothing is served.\<close>

definition bootstrap_reply :: "(bytes \<times> u32) option \<Rightarrow> serve_error + bytes" where
  "bootstrap_reply r =
     (case r of
        None \<Rightarrow> Inl Aborted
      | Some (packed, start_index) \<Rightarrow>
          Inr (put_u32_le start_index @ put_u32_le (of_nat (length packed)) @ packed))"

definition serve_bootstrap :: "codec \<Rightarrow> nat \<Rightarrow> tv_shared \<Rightarrow> (serve_error + bytes) \<times> tv_shared" where
  "serve_bootstrap cd now sh =
     (let sh = snd (shared_flush cd now sh)
      in (if chunk_count (sh_stream sh) = 0 then Inl NotConnected
          else bootstrap_reply (bootstrap cd (sh_replay_length_ms sh) (sh_stream sh)), sh))"

definition serve_bootstrap_full ::
    "codec \<Rightarrow> (bytes \<Rightarrow> bytes) \<Rightarrow> nat \<Rightarrow> tv_shared \<Rightarrow> (serve_error + bytes) \<times> tv_shared" where
  "serve_bootstrap_full cd inflate now sh =
     (let sh = snd (shared_flush cd now sh)
      in (if chunk_count (sh_stream sh) = 0 then Inl NotConnected
          else bootstrap_reply (bootstrap_full cd inflate (sh_replay_length_ms sh) (sh_stream sh)), sh))"

definition stream_start :: "u32 \<Rightarrow> tv_shared \<Rightarrow> serve_error + nat" where
  "stream_start idx sh =
     (if unat idx > chunk_count (sh_stream sh) then Inl InvalidData else Inr (unat idx))"

text \<open>One round of the loop of \<^verbatim>\<open>serve_stream_with\<close>: the frames it writes and the new cursor.\<close>

definition stream_batch :: "nat \<Rightarrow> nat \<Rightarrow> nat \<Rightarrow> tv_shared \<Rightarrow> chunk list" where
  "stream_batch now delay cursor sh =
     concat (map (\<lambda>i. case tv_chunk i (sh_stream sh) of Some c \<Rightarrow> [c] | None \<Rightarrow> [])
       [cursor..<count_delayed now delay (sh_stream sh)])"

definition stream_round :: "nat \<Rightarrow> nat \<Rightarrow> nat \<Rightarrow> tv_shared \<Rightarrow> bytes \<times> nat" where
  "stream_round now delay cursor sh =
     (let batch = stream_batch now delay cursor sh
      in (concat (map chunk_frame batch), cursor + length batch))"


section \<open>What a viewer receives\<close>

lemma flush_frames: "\<exists>more. tv_frames (snd (tv_flush cd now s)) = tv_frames s @ more"
proof -
  have "\<exists>more. tv_frames (snd (flush_loop cd now n s)) = tv_frames s @ more" for n
  proof (induction cd now n s rule: flush_loop.induct)
    case (1 cd now n s)
    show ?case by (subst flush_loop.simps) (use 1 in \<open>auto simp: Let_def add_frame_def\<close>)
  qed
  then show ?thesis by (auto simp: tv_flush_def tv_trim_def split: prod.split sum.split) (metis snd_conv)+
qed

lemma step_frames: "\<exists>more. tv_frames (tv_step cd s opn) = tv_frames s @ more"
  by (cases opn) (simp_all add: tv_push_body_def flush_frames)

text \<open>The rounds of one viewer between pushes and flushes of the game: the cursor and the bytes written.\<close>

datatype viewer_event = Recorded tv_op | Round nat

fun viewer_step :: "codec \<Rightarrow> nat \<Rightarrow> tv_shared \<times> nat \<times> bytes \<Rightarrow> viewer_event \<Rightarrow> tv_shared \<times> nat \<times> bytes" where
  "viewer_step cd delay (sh, cursor, out) (Recorded opn) = (sh\<lparr>sh_stream := tv_step cd (sh_stream sh) opn\<rparr>, cursor, out)"
| "viewer_step cd delay (sh, cursor, out) (Round now) =
     (let (bs, cursor) = stream_round now delay cursor sh in (sh, cursor, out @ bs))"

lemma count_delayed_le: "length (tv_frame_times s) = length (tv_frames s) \<Longrightarrow> count_delayed now delay s \<le> length (tv_frames s)"
  unfolding count_delayed_def by (simp, metis length_takeWhile_le)

lemma batch_slice:
  assumes "count_delayed now delay (sh_stream sh) \<le> length (tv_frames (sh_stream sh))"
  shows "stream_batch now delay cursor sh =
    take (count_delayed now delay (sh_stream sh) - cursor) (drop cursor (tv_frames (sh_stream sh)))"
proof -
  let ?fs = "tv_frames (sh_stream sh)" and ?n = "count_delayed now delay (sh_stream sh)"
  have "stream_batch now delay cursor sh = concat (map (\<lambda>i. [?fs ! i]) [cursor..<?n])"
    unfolding stream_batch_def using assms by (intro arg_cong [where f = concat] map_cong refl) (auto simp: tv_chunk_def)
  also have "\<dots> = map ((!) ?fs) [cursor..<?n]" by (induction "[cursor..<?n]") simp_all
  also have "\<dots> = take (?n - cursor) (drop cursor ?fs)"
    using assms by (intro nth_equalityI) auto
  finally show ?thesis .
qed


definition viewer_inv :: "codec \<Rightarrow> nat \<Rightarrow> tv_shared \<times> nat \<times> bytes \<Rightarrow> bool" where
  "viewer_inv cd start st \<longleftrightarrow> (case st of (sh, cursor, out) \<Rightarrow>
     (\<exists>pushed slices. stream_inv cd pushed slices (sh_stream sh)) \<and> start \<le> cursor
     \<and> cursor \<le> length (tv_frames (sh_stream sh))
     \<and> out = concat (map chunk_frame (take (cursor - start) (drop start (tv_frames (sh_stream sh))))))"

lemma inv_step: "stream_inv cd pushed slices s \<Longrightarrow> \<exists>pushed' slices'. stream_inv cd pushed' slices' (tv_step cd s opn)"
  using inv_push inv_flush by (cases opn) (simp, blast, metis prod.collapse tv_step.simps(2))

lemma inv_times: "stream_inv cd pushed slices s \<Longrightarrow> length (tv_frame_times s) = length (tv_frames s)"
  by (simp add: stream_inv_def)

lemma viewer_inv_step: "viewer_inv cd start st \<Longrightarrow> viewer_inv cd start (viewer_step cd delay st ev)"
proof -
  assume inv: "viewer_inv cd start st"
  obtain sh cursor out where st: "st = (sh, cursor, out)" by (cases st)
  let ?fs = "tv_frames (sh_stream sh)"
  from inv obtain pushed slices where s: "stream_inv cd pushed slices (sh_stream sh)" and c: "start \<le> cursor" "cursor \<le> length ?fs"
    and out: "out = concat (map chunk_frame (take (cursor - start) (drop start ?fs)))" by (auto simp: viewer_inv_def st)
  show ?thesis
  proof (cases ev)
    case (Recorded opn)
    obtain more where "tv_frames (tv_step cd (sh_stream sh) opn) = ?fs @ more" using step_frames by blast
    then show ?thesis using inv_step [OF s, of opn] c out by (simp add: viewer_inv_def st Recorded)
  next
    case (Round now)
    let ?n = "count_delayed now delay (sh_stream sh)"
    have n: "?n \<le> length ?fs" by (rule count_delayed_le [OF inv_times [OF s]])
    have "cursor + (?n - cursor) - start = (cursor - start) + (?n - cursor)" using c(1) by simp
    then have "take (cursor + (?n - cursor) - start) (drop start ?fs)
        = take (cursor - start) (drop start ?fs) @ take (?n - cursor) (drop cursor ?fs)"
      using c(1) by (simp only: take_add) simp
    then have "concat (map chunk_frame (take (cursor + (?n - cursor) - start) (drop start ?fs)))
        = out @ concat (map chunk_frame (take (?n - cursor) (drop cursor ?fs)))"
      unfolding out by (simp only: concat_append map_append)
    moreover have "length (take (?n - cursor) (drop cursor ?fs)) = ?n - cursor" using n by simp
    ultimately have "concat (map chunk_frame (take (cursor + length (take (?n - cursor) (drop cursor ?fs)) - start) (drop start ?fs)))
        = out @ concat (map chunk_frame (take (?n - cursor) (drop cursor ?fs)))" by simp
    then show ?thesis
      using s c n by (auto simp: viewer_inv_def st Round stream_round_def batch_slice [OF n] Let_def)
  qed
qed

lemma viewer_inv_run: "viewer_inv cd start st \<Longrightarrow> viewer_inv cd start (foldl (viewer_step cd delay) st events)"
  by (induction events arbitrary: st) (simp_all add: viewer_inv_step)

text \<open>
  C8. A viewer that starts at a valid index is sent the frames from that index on, each exactly once and
  in order, whatever is pushed and flushed meanwhile and however its rounds are timed; no
  round sends a frame that is younger than the delay; and a round after which every frame is
  old enough leaves the viewer with the whole stream.
\<close>

theorem viewer_receives_stream:
  assumes "sh_stream sh0 = foldl (tv_step cd) (tv_new v b t) ops" and "stream_start idx sh0 = Inr start"
    and "foldl (viewer_step cd delay) (sh0, start, []) events = (sh, cursor, out)"
  shows "out = concat (map chunk_frame (take (cursor - start) (drop start (tv_frames (sh_stream sh)))))
    \<and> start \<le> cursor \<and> cursor \<le> length (tv_frames (sh_stream sh))
    \<and> (\<forall>i. cursor \<le> i \<and> i < snd (stream_round now delay cursor sh) \<and> 0 < delay \<longrightarrow>
         tv_frame_times (sh_stream sh) ! i + delay \<le> now)
    \<and> (list_all (\<lambda>at. at + delay \<le> now) (tv_frame_times (sh_stream sh)) \<longrightarrow>
         snd (stream_round now delay cursor sh) = length (tv_frames (sh_stream sh)))"
proof -
  obtain pushed slices where "stream_inv cd pushed slices (sh_stream sh0)"
    using stream_inv_reachable assms(1) by metis
  then have "viewer_inv cd start (sh0, start, [])"
    using assms(2) by (auto simp: viewer_inv_def stream_start_def chunk_count_def split: if_splits)
  then have inv: "viewer_inv cd start (sh, cursor, out)" using viewer_inv_run assms(3) by metis
  then obtain pushed slices where s: "stream_inv cd pushed slices (sh_stream sh)"
    and c: "start \<le> cursor" "cursor \<le> length (tv_frames (sh_stream sh))" by (auto simp: viewer_inv_def)
  let ?s = "sh_stream sh" and ?n = "count_delayed now delay (sh_stream sh)"
  have n: "?n \<le> length (tv_frames ?s)" by (rule count_delayed_le [OF inv_times [OF s]])
  have round: "snd (stream_round now delay cursor sh) = max cursor ?n"
    using c n by (simp add: stream_round_def batch_slice [OF n] Let_def max_def)
  have young: "tv_frame_times ?s ! i + delay \<le> now" if "cursor \<le> i" "i < max cursor ?n" "0 < delay" for i
  proof -
    have i: "i < length (takeWhile (\<lambda>t. t \<le> now - delay) (tv_frame_times ?s))" "delay \<le> now"
      using that by (auto simp: count_delayed_def split: if_splits)
    from nth_mem [OF i(1)] have "takeWhile (\<lambda>t. t \<le> now - delay) (tv_frame_times ?s) ! i \<le> now - delay"
      by (auto dest: set_takeWhileD)
    then show ?thesis using i by (simp add: takeWhile_nth)
  qed
  have "max cursor ?n = length (tv_frames ?s)" if "list_all (\<lambda>at. at + delay \<le> now) (tv_frame_times ?s)"
  proof (cases "delay = 0 \<or> tv_frames ?s = []")
    case False
    then have "tv_frame_times ?s \<noteq> []" using inv_times [OF s] by auto
    then have "delay \<le> now" using that by (cases "tv_frame_times ?s") auto
    have all: "takeWhile (\<lambda>t. t \<le> now - delay) (tv_frame_times ?s) = tv_frame_times ?s"
      using that by (auto simp: takeWhile_eq_all_conv list_all_iff)
    show ?thesis using False c inv_times [OF s] \<open>delay \<le> now\<close> by (simp add: count_delayed_def all)
  next
    case True
    then show ?thesis using c n by (auto simp: count_delayed_def)
  qed
  with young inv c round show ?thesis by (simp add: viewer_inv_def)
qed

theorem viewer_receives_stream_witness:
  "snd (stream_round 9 2 0 (shared_new (foldl (tv_step \<lparr>cd_zlib = (\<lambda>x. x), cd_hash = (\<lambda>_. 7)\<rparr>) for_126a
      [TvPush [1, 2], TvFlush 5]))) = length (tv_frames (foldl (tv_step \<lparr>cd_zlib = (\<lambda>x. x), cd_hash = (\<lambda>_. 7)\<rparr>) for_126a
      [TvPush [1, 2], TvFlush 5]))"
proof -
  let ?cd = "\<lparr>cd_zlib = (\<lambda>x. x), cd_hash = (\<lambda>_. 7)\<rparr> :: codec"
  let ?s = "foldl (tv_step ?cd) (tv_new 26 6059 True) [TvPush [1, 2], TvFlush 5]"
  have loop: "flush_loop ?cd 5 0 ((tv_new 26 6059 True)\<lparr>tv_raw := [1, 2]\<rparr>) = (Inr 1, add_frame ?cd 5 ((tv_new 26 6059 True)\<lparr>tv_raw := [1, 2]\<rparr>))"
    by (subst flush_loop.simps, subst flush_loop.simps) (simp add: tv_new_def frame_end_def add_frame_def Let_def)
  have "list_all (\<lambda>at. at + 2 \<le> 9) (tv_frame_times ?s)"
    using loop by (simp add: tv_push_body_def tv_flush_def tv_trim_def add_frame_def Let_def tv_new_def)
  then show ?thesis
    using viewer_receives_stream [of "shared_new ?s" ?cd 26 6059 True "[TvPush [1, 2], TvFlush 5]" 0 0 2 "[]" "shared_new ?s" 0 "[]" 9]
    by (simp add: for_126a_def shared_new_def stream_start_def)
qed

end
