(* ===== verification/Actor_Run.thy ===== *)
theory Actor_Run
  imports Seating Dotatv_Server
begin

text \<open>
  The loop of a game actor (\<^verbatim>\<open>spectre-engine/src/actor.rs\<close>): commands and the timer, the players that left,
  the status of the lobby and the live stream. A run is a sequence of events; the seating invariant holds at every
  point of it.
\<close>

section \<open>The loop\<close>

text \<open>
  The live stream a game publishes to is shared with its server: it is a field of its own beside the game. The
  command that attaches it only sets the reference.
\<close>

record 'c actor =
  ac_game :: "'c game"
  ac_tv :: tv_shared
  ac_last_status :: "(u32 \<times> u32 \<times> u32) option"
  ac_running :: bool

definition publish_dotatv :: "codec \<Rightarrow> nat \<Rightarrow> tv_shared \<Rightarrow> 'c game \<Rightarrow> tv_shared \<times> 'c game" where
  "publish_dotatv cd now sh g =
     (case gs_dotatv g of
        None \<Rightarrow> (sh, g)
      | Some _ \<Rightarrow>
          (case gs_replay g of
             None \<Rightarrow> (sh, g)
           | Some body \<Rightarrow>
               (let (r, sh, body, sent) = publish_pending cd now sh body (gs_dotatv_prologue_sent g);
                    g = g\<lparr>gs_replay := Some body, gs_dotatv_prologue_sent := sent\<rparr>
                in case r of Inl _ \<Rightarrow> (sh, g\<lparr>gs_dotatv := None\<rparr>) | Inr _ \<Rightarrow> (sh, g))))"

definition finish_dotatv :: "codec \<Rightarrow> nat \<Rightarrow> tv_shared \<Rightarrow> 'c game \<Rightarrow> tv_shared \<times> 'c game" where
  "finish_dotatv cd now sh g =
     (case gs_dotatv g of
        None \<Rightarrow> (sh, g)
      | Some _ \<Rightarrow>
          (case gs_replay g of
             None \<Rightarrow> (sh, g)
           | Some body \<Rightarrow>
               (let (r, sh, body, sent) = publish_pending cd now sh body (gs_dotatv_prologue_sent g);
                    g = g\<lparr>gs_replay := Some body, gs_dotatv_prologue_sent := sent\<rparr>
                in case r of Inl _ \<Rightarrow> (sh, g) | Inr _ \<Rightarrow> (snd (shared_flush cd now sh), g))))"

definition report_lobby :: "'c actor \<Rightarrow> 'c actor" where
  "report_lobby a =
     (let g = ac_game a;
          status = (count_open (gs_slots g), of_nat (length (gs_slots g)), of_nat (human_count (gs_players g)))
      in if gs_phase g = Lobby \<and> ac_last_status a \<noteq> Some status
         then a\<lparr>ac_last_status := Some status, ac_game := send_event (lobby_status g) g\<rparr>
         else a)"

text \<open>What every round of the loop does after the command or the tick; a finished game ends the loop.\<close>

definition stop_actor :: "codec \<Rightarrow> nat \<Rightarrow> 'c actor \<Rightarrow> 'c actor" where
  "stop_actor cd now a =
     (let (sh, g) = finish_dotatv cd now (ac_tv a) (ac_game a)
      in a\<lparr>ac_tv := sh, ac_game := g, ac_running := False\<rparr>)"

definition end_round :: "'c env \<Rightarrow> codec \<Rightarrow> nat \<Rightarrow> 'c actor \<Rightarrow> 'c actor option" where
  "end_round env cd now a =
     map_option (\<lambda>g. let a = report_lobby (a\<lparr>ac_game := g\<rparr>)
                     in if gs_finished (ac_game a) then stop_actor cd now a else a)
       (reap_left_players env now (ac_game a))"

definition timer_round :: "'c env \<Rightarrow> codec \<Rightarrow> nat \<Rightarrow> nat \<Rightarrow> 'c actor \<Rightarrow> 'c actor option" where
  "timer_round env cd now now_sec a = do {
     let g = ac_game a;
     let g = record_jitter now (now - tick_deadline (gs_tick g)) g;
     (skipped, tick) \<leftarrow> tick_advance (gs_tick g) now;
     g \<leftarrow> on_tick env now now_sec skipped (g\<lparr>gs_tick := tick\<rparr>);
     let (sh, g) = publish_dotatv cd now (ac_tv a) g;
     end_round env cd now (a\<lparr>ac_tv := sh, ac_game := g\<rparr>) }"

datatype 'c actor_event =
    Received nat random_choice "'c game_cmd"
  | Timer nat nat
  | Disconnected nat

fun actor_step :: "'c env \<Rightarrow> codec \<Rightarrow> 'c actor_event \<Rightarrow> 'c actor \<Rightarrow> 'c actor option" where
  "actor_step env cd (Received now rc cmd) a =
     (case cmd of
        Shutdown \<Rightarrow> Some (stop_actor cd now a)
      | _ \<Rightarrow> Option.bind (handle_cmd env now rc cmd (ac_game a))
               (\<lambda>g. end_round env cd now (a\<lparr>ac_game := g\<rparr>)))"
| "actor_step env cd (Timer now now_sec) a = timer_round env cd now now_sec a"
| "actor_step env cd (Disconnected now) a = Some (stop_actor cd now a)"

fun actor_run :: "'c env \<Rightarrow> codec \<Rightarrow> 'c actor_event list \<Rightarrow> 'c actor \<Rightarrow> 'c actor option" where
  "actor_run env cd [] a = Some a"
| "actor_run env cd (e # es) a =
     (if ac_running a then Option.bind (actor_step env cd e a) (actor_run env cd es) else Some a)"

definition spawn_game :: "'c env \<Rightarrow> nat \<Rightarrow> u32 \<Rightarrow> tv_shared \<Rightarrow> game_config \<Rightarrow> 'c actor" where
  "spawn_game env now seed sh cfg =
     \<lparr>ac_game = game_new env now seed cfg, ac_tv = sh, ac_last_status = None, ac_running = True\<rparr>"

section \<open>Frames and commands keep the invariant\<close>

lemma view_dotatv [keeps_view]: "view (g\<lparr>gs_dotatv_prologue_sent := b\<rparr>) = view g"
  by (simp add: view_def)

lemma same_seat_gproxy [simp]: "same_seat enable_gproxy"
  "same_seat (\<lambda>p. (enable_gproxy p)\<lparr>pl_link := f p\<rparr>)"
  by (simp_all add: same_seat_def enable_gproxy_def)

lemma view_gps_reconnect_frame [keeps_view]: "view (gps_reconnect_frame env conn payload g) = view g"
  by (simp add: gps_reconnect_frame_def take_pending_def keeps_view split: sum.split option.split)

lemma view_gps_frames [keeps_view]:
  "view (on_gps_frame env conn f g) = view g" "view (on_iccup_gps_frame env conn f' g) = view g"
  by (simp_all add: on_gps_frame_def on_iccup_gps_frame_def Let_def keeps_view split: sum.split)

text \<open>The commands that may bring in the fake player, which stands outside the invariant.\<close>

fun asks_fake_player :: "'c env \<Rightarrow> 'c game_cmd \<Rightarrow> bool" where
  "asks_fake_player env ToggleFakePlayer = True"
| "asks_fake_player env (ConnFrame conn (W3gs f)) = (frame_id f = CHAT_TO_HOST \<and> asks_fake env (frame_payload f))"
| "asks_fake_player env cmd = False"

lemma safe_on_w3gs_frame:
  assumes inv: "game_inv g" and "\<not> (frame_id f = CHAT_TO_HOST \<and> asks_fake env (frame_payload f))"
  shows "safe (on_w3gs_frame env now rc conn f g)"
proof -
  have keep: "game_inv (handle_leave conn c g)" "game_inv (handle_pong now conn pl g)"
    "game_inv (handle_map_part_ok conn pl g)" "game_inv (handle_map_part_not_ok conn pl g)"
    "game_inv (handle_drop_request g)" for c pl
    using inv by (simp_all add: game_inv_def keeps_view)
  have "safe (handle_chat_to_host env now (rc_shuffle rc) conn (frame_payload f) g)" if "frame_id f = CHAT_TO_HOST"
    using assms that by (intro safe_handle_chat) auto
  then show ?thesis
    unfolding on_w3gs_frame_def Let_def
    using keep inv_handle_req_join [OF inv] inv_handle_action [OF inv] safe_ops [OF inv] inv by (auto simp: safe_def)
qed

lemma safe_handle_cmd:
  assumes inv: "game_inv g" and "\<not> asks_fake_player env cmd"
  shows "safe (handle_cmd env now rc cmd g)"
proof (cases cmd)
  case (ConnFrame conn f)
  have "game_inv (on_gps_frame env conn d g)" "game_inv (on_iccup_gps_frame env conn d g)" for d
    using inv by (simp_all add: game_inv_def keeps_view)
  then show ?thesis using assms safe_on_w3gs_frame [OF inv] ConnFrame
    by (cases f) (auto simp: on_frame_def safe_def)
next
  case CreateVirtualHost
  then show ?thesis using inv_create_virtual_host [OF inv] by (simp add: safe_def)
qed (use assms in \<open>auto simp: add_conn_def keeps_view intro!: safe_basic inv_view [OF inv]\<close>)

section \<open>Every run keeps the invariant\<close>

lemma view_send_event [keeps_view]: "view (send_event e g) = view g"
  by (simp add: send_event_def keeps_view)

lemma inv_report_lobby: "game_inv (ac_game a) \<Longrightarrow> game_inv (ac_game (report_lobby a))"
  by (simp add: report_lobby_def Let_def inv_view keeps_view)

lemma view_publish [keeps_view]: "view (snd (publish_dotatv cd now sh g)) = view g"
  "view (snd (finish_dotatv cd now sh g)) = view g"
  by (simp_all add: publish_dotatv_def finish_dotatv_def Let_def split_beta keeps_view split: option.split sum.split)

lemma inv_stop_actor: "game_inv (ac_game a) \<Longrightarrow> game_inv (ac_game (stop_actor cd now a))"
  by (simp add: stop_actor_def Let_def split_beta inv_view keeps_view)

lemma inv_end_round:
  assumes "end_round env cd now a = Some a'" "game_inv (ac_game a)"
  shows "game_inv (ac_game a')"
  using assms safe_ops(7) [OF assms(2)]
  by (fastforce simp: end_round_def safe_def Let_def intro: inv_stop_actor inv_report_lobby)

lemma inv_timer_round:
  assumes "timer_round env cd now sec a = Some a'" "game_inv (ac_game a)"
  shows "game_inv (ac_game a')"
proof -
  obtain skipped tick h where
    h: "on_tick env now sec skipped ((record_jitter now (now - tick_deadline (gs_tick (ac_game a))) (ac_game a))\<lparr>gs_tick := tick\<rparr>) = Some h"
    and a': "end_round env cd now (a\<lparr>ac_tv := fst (publish_dotatv cd now (ac_tv a) h),
                ac_game := snd (publish_dotatv cd now (ac_tv a) h)\<rparr>) = Some a'"
    using assms(1) by (auto simp: timer_round_def Let_def bind_eq_Some_conv split_beta)
  have "game_inv ((record_jitter now (now - tick_deadline (gs_tick (ac_game a))) (ac_game a))\<lparr>gs_tick := tick\<rparr>)"
    using assms(2) by (simp add: game_inv_def keeps_view)
  then have "game_inv h" using safe_on_tick h unfolding safe_def by blast
  then show ?thesis using inv_end_round [OF a'] by (simp add: inv_view keeps_view)
qed

fun allowed_event :: "'c env \<Rightarrow> 'c actor_event \<Rightarrow> bool" where
  "allowed_event env (Received now rc cmd) = (\<not> asks_fake_player env cmd)"
| "allowed_event env _ = True"

lemma inv_actor_step:
  assumes "actor_step env cd e a = Some a'" "game_inv (ac_game a)" "allowed_event env e"
  shows "game_inv (ac_game a')"
proof (cases e)
  case (Received now rc cmd)
  have "game_inv (ac_game a')" if "cmd \<noteq> Shutdown"
    using that assms Received safe_handle_cmd [OF assms(2), of env cmd now rc]
    by (cases cmd) (fastforce simp: bind_eq_Some_conv safe_def simp del: handle_cmd.simps dest!: inv_end_round)+
  then show ?thesis using assms Received by (cases "cmd = Shutdown") (auto intro: inv_stop_actor)
qed (use assms in \<open>auto intro: inv_timer_round inv_stop_actor\<close>)

lemma inv_actor_run:
  "actor_run env cd es a = Some a' \<Longrightarrow> game_inv (ac_game a) \<Longrightarrow> list_all (allowed_event env) es \<Longrightarrow> game_inv (ac_game a')"
  by (induction es arbitrary: a) (auto simp: bind_eq_Some_conv split: if_splits dest: inv_actor_step)

text \<open>The slots a game is created with: none of them seats a player.\<close>

definition config_ok :: "game_config \<Rightarrow> bool" where
  "config_ok cfg = (case cfg_custom_slots cfg of
      Some cs \<Rightarrow> slots_inv cs \<and> seated cs = []
    | None \<Rightarrow> cfg_num_slots cfg \<le> 255)"

lemma inv_game_new:
  assumes "config_ok cfg" shows "game_inv (game_new env now seed cfg)"
proof -
  have "seated (slots_new n) = []" for n by (simp add: slots_new_def seated_def is_seat_def)
  then show ?thesis using assms
    by (auto simp: game_inv_def view_ok_def view_def game_new_def config_ok_def humans_of_def slots_inv_new
        small_actions_def split: option.splits)
qed

lemma game_inv_seats:
  assumes "game_inv g"
  shows "distinct (pids (gs_players g)) \<and> distinct (seated (gs_slots g))
    \<and> (\<forall>p \<in> set (gs_players g). pl_pid p \<noteq> 0 \<and> pl_pid p \<noteq> 255 \<and> (pl_virtual_host p \<longleftrightarrow> pl_pid p = gs_virtual_host_pid g))
    \<and> (\<forall>pid \<in> set (seated (gs_slots g)). \<exists>p \<in> set (gs_players g). pl_pid p = pid \<and> \<not> pl_virtual_host p)"
proof -
  have roster: "sv_roster (view g) = map (\<lambda>p. (pl_pid p, pl_virtual_host p)) (gs_players g)" by (simp add: view_def)
  have "set (seated (gs_slots g)) \<subseteq> humans_of (sv_roster (view g))" "slots_inv (gs_slots g)"
    and marks: "\<forall>(pid, vh) \<in> set (sv_roster (view g)). pid \<noteq> 0 \<and> pid \<noteq> 255 \<and> (vh \<longleftrightarrow> pid = sv_host (view g))"
    using assms unfolding game_inv_def view_ok_def view_simps by blast+
  moreover have "humans_of (sv_roster (view g)) = pl_pid ` {p \<in> set (gs_players g). \<not> pl_virtual_host p}"
    by (force simp: roster humans_of_def)
  ultimately have "\<exists>p \<in> set (gs_players g). pl_pid p = pid \<and> \<not> pl_virtual_host p" if "pid \<in> set (seated (gs_slots g))" for pid
    using that by (auto dest!: subsetD)
  moreover have "\<forall>p \<in> set (gs_players g). pl_pid p \<noteq> 0 \<and> pl_pid p \<noteq> 255 \<and> (pl_virtual_host p \<longleftrightarrow> pl_pid p = gs_virtual_host_pid g)"
    using marks by (simp add: roster)
  ultimately show ?thesis
    using game_inv_distinct [OF assms] \<open>slots_inv (gs_slots g)\<close> by (simp add: slots_inv_def)
qed

text \<open>
  C1. At every point of every run of a game actor, from its creation with slots that seat nobody and for every
  sequence of commands, frames and timer events other than those that ask for the fake player: player ids are
  distinct, none is 0 or 255, the player marked as virtual host is exactly the one the game names, no two slots seat
  the same player, and every seated slot belongs to a player of the game who is not the virtual host.
\<close>

theorem actor_keeps_seating:
  assumes "config_ok cfg" "list_all (allowed_event env) es"
    and "actor_run env cd es (spawn_game env now seed sh cfg) = Some a"
  shows "let players = gs_players (ac_game a); seats = seated (gs_slots (ac_game a))
     in distinct (pids players) \<and> distinct seats
       \<and> (\<forall>p \<in> set players. pl_pid p \<noteq> 0 \<and> pl_pid p \<noteq> 255
            \<and> (pl_virtual_host p \<longleftrightarrow> pl_pid p = gs_virtual_host_pid (ac_game a)))
       \<and> (\<forall>pid \<in> set seats. \<exists>p \<in> set players. pl_pid p = pid \<and> \<not> pl_virtual_host p)"
proof -
  have "game_inv (ac_game a)"
    using inv_actor_run [OF assms(3)] assms(1,2) by (simp add: spawn_game_def inv_game_new)
  then show ?thesis unfolding Let_def by (rule game_inv_seats)
qed

text \<open>Seating players in the lobby never aborts the actor, so such a run goes through.\<close>

named_theorems lobby_stays \<open>operations that leave the phase as it is\<close>

lemma phase_sends [lobby_stays]: "gs_phase (broadcast env now b g) = gs_phase g"
  "gs_phase (broadcast_result env now r g) = gs_phase g" "gs_phase (send_all_slot_info env now g) = gs_phase g"
  "gs_phase (with_replay f g) = gs_phase g" "gs_phase (send_event e g) = gs_phase g"
  by (simp_all add: broadcast_def broadcast_result_def send_all_slot_info_def with_replay_def send_event_def Let_def
      split: sum.split option.split)

lemma phase_hosts [lobby_stays]: "gs_phase (create_virtual_host env now g) = gs_phase g"
  "gs_phase (delete_virtual_host env now g) = gs_phase g"
  by (simp_all add: create_virtual_host_def delete_virtual_host_def Let_def lobby_stays split: option.split)

lemma phase_seat_player [lobby_stays]:
  "gs_phase (snd (seat_player env now key conn req link ip sid pid g)) = gs_phase g"
  by (simp add: seat_player_def Let_def lobby_stays split: sum.split prod.split)

lemma phase_req_join: "gs_phase g = Lobby \<Longrightarrow> gs_phase (snd (handle_req_join env now key conn payload g)) = Lobby"
  by (simp add: handle_req_join_def Let_def split_beta lobby_stays split: sum.split option.split)

lemma phase_reap_one [lobby_stays]: "gs_phase (reap_one env now g x) = gs_phase g"
  by (cases x) (simp add: reap_one_def Let_def lobby_stays split: option.split)

lemma phase_reap_all [lobby_stays]: "gs_phase (foldl (reap_one env now) g xs) = gs_phase g"
  by (induction xs arbitrary: g) (simp_all add: lobby_stays)

lemma end_round_lobby:
  assumes "gs_phase (ac_game a) = Lobby"
  shows "\<exists>a'. end_round env cd now a = Some a' \<and> (ac_running a' \<longrightarrow> gs_phase (ac_game a') = Lobby)"
proof -
  have "\<exists>g. reap_left_players env now (ac_game a) = Some g \<and> gs_phase g = Lobby"
    using assms by (simp add: reap_left_players_def Let_def lobby_stays is_countdown_def)
  then obtain g where g: "reap_left_players env now (ac_game a) = Some g" "gs_phase g = Lobby" by blast
  have "gs_phase (ac_game (report_lobby (a\<lparr>ac_game := g\<rparr>))) = Lobby"
    using g(2) by (simp add: report_lobby_def Let_def lobby_stays)
  moreover have "\<not> ac_running (stop_actor cd now b)" for b :: "'a actor" by (simp add: stop_actor_def split: prod.split)
  ultimately show ?thesis using g(1) by (simp add: end_round_def Let_def)
qed

lemma lobby_run:
  assumes "gs_phase (ac_game a) = Lobby"
    and "list_all (\<lambda>e. case e of
        Received _ _ CreateVirtualHost \<Rightarrow> True | Received _ _ (NewConn _ _ _) \<Rightarrow> True
      | Received _ _ (ConnFrame _ (W3gs f)) \<Rightarrow> frame_id f = REQ_JOIN | _ \<Rightarrow> False) es"
  shows "\<exists>a'. actor_run env cd es a = Some a'"
  using assms
proof (induction es arbitrary: a)
  case (Cons e es)
  obtain now rc cmd where e: "e = Received now rc cmd" using Cons.prems(2) by (cases e) auto
  obtain g where g: "handle_cmd env now rc cmd (ac_game a) = Some g" "gs_phase g = Lobby" "cmd \<noteq> Shutdown"
  proof (cases cmd)
    case (ConnFrame conn f)
    then show ?thesis using Cons.prems that e
      by (cases f) (auto simp: on_frame_def on_w3gs_frame_def phase_req_join)
  qed (use Cons.prems that e in \<open>auto simp: add_conn_def lobby_stays\<close>)
  obtain a' where a': "end_round env cd now (a\<lparr>ac_game := g\<rparr>) = Some a'" "ac_running a' \<longrightarrow> gs_phase (ac_game a') = Lobby"
    using end_round_lobby [of "a\<lparr>ac_game := g\<rparr>" env cd now] g(2) by auto
  have "actor_step env cd e a = Some a'" using g a'(1) by (cases cmd) (simp_all add: e)
  moreover have "\<exists>b. actor_run env cd es a' = Some b"
  proof (cases "ac_running a'")
    case True
    then show ?thesis using Cons.IH [of a'] Cons.prems(2) a'(2) by simp
  qed (cases es; simp)
  ultimately show ?case by simp
qed simp

theorem actor_keeps_seating_witness:
  "\<exists>a. actor_run witness_env \<lparr>cd_zlib = (\<lambda>x. x), cd_hash = (\<lambda>_. 7)\<rparr>
        [Received 1 \<lparr>rc_key = 4, rc_shuffle = \<lambda>_. 0\<rparr> CreateVirtualHost,
         Received 2 \<lparr>rc_key = 4, rc_shuffle = \<lambda>_. 0\<rparr> (NewConn 5 (128, False, []) [127, 0, 0, 1]),
         Received 3 \<lparr>rc_key = 4, rc_shuffle = \<lambda>_. 0\<rparr> (ConnFrame 5 (W3gs \<lparr>frame_id = REQ_JOIN,
           frame_payload = replicate 4 0 @ [0,0,0,0] @ [0] @ [0,0] @ [0,0,0,0] @ str ''bob'' @ [0] @ replicate 10 0\<rparr>))]
        (spawn_game witness_env 0 7 (shared_new (tv_new 26 6059 True)) witness_cfg) = Some a
     \<and> distinct (pids (gs_players (ac_game a)))"
    (is "\<exists>a. actor_run _ ?cd ?es ?s = _ \<and> _")
proof -
  have "gs_phase (ac_game ?s) = Lobby" by (simp add: spawn_game_def game_new_def)
  then obtain a where a: "actor_run witness_env ?cd ?es ?s = Some a" using lobby_run [of ?s ?es] by auto
  have "config_ok witness_cfg" by (simp add: config_ok_def witness_cfg_def)
  moreover have "list_all (allowed_event witness_env) ?es" by simp
  ultimately have "distinct (pids (gs_players (ac_game a)))"
    using actor_keeps_seating [OF _ _ a] unfolding Let_def by blast
  then show ?thesis using a by blast
qed

end
