(* ===== verification/Dotatv_Chat.thy ===== *)
theory Dotatv_Chat
  imports Dotatv_Server
begin

text \<open>
  The chat of the viewers (\<^verbatim>\<open>serve_chat\<close> of \<^verbatim>\<open>spectre-spectator/src/dotatv_server.rs\<close>): messages read
  from a viewer's connection, stamped with the id of the viewer and published to all, at most one per window of five
  seconds.
\<close>

section \<open>Reading messages\<close>

abbreviation (input) "CHAT_KIND_CHAT \<equiv> (0 :: u8)"
abbreviation (input) "CHAT_KIND_PING \<equiv> (1 :: u8)"
abbreviation (input) "CHAT_MAX_TEXT \<equiv> (255 :: nat)"
abbreviation (input) "CHAT_RATE_WINDOW \<equiv> secs 5"
abbreviation (input) "CHAT_RATE_MAX \<equiv> (1 :: u32)"

text \<open>
  What the bytes of a connection hold next: its end (a message cut short is the end as well), a message that ends
  the session with an error, or a message and the bytes after it.
\<close>

datatype chat_read = ChatEnd | ChatBad serve_error | ChatMsg u8 bytes bytes

definition read_chat :: "bytes \<Rightarrow> chat_read" where
  "read_chat bs =
     (case bs of
        [] \<Rightarrow> ChatEnd
      | kind # rest \<Rightarrow>
          if kind = CHAT_KIND_CHAT
          then (if length rest < 2 then ChatEnd
                else let len = unat (from_le (take 2 rest) :: u16)
                     in if len > CHAT_MAX_TEXT then ChatBad InvalidData
                        else if length (drop 2 rest) < len then ChatEnd
                        else ChatMsg kind (take 2 rest @ take len (drop 2 rest)) (drop len (drop 2 rest)))
          else if kind = CHAT_KIND_PING
          then (if length rest < 4 then ChatEnd else ChatMsg kind (take 4 rest) (drop 4 rest))
          else ChatBad InvalidData)"

section \<open>The session of a viewer\<close>

record chat_window =
  cw_start :: nat
  cw_count :: u32

text \<open>The limit on the rate of messages: whether a message that arrives now is published.\<close>

definition chat_rate :: "nat \<Rightarrow> chat_window \<Rightarrow> bool \<times> chat_window" where
  "chat_rate now w =
     (let w = (if now - cw_start w \<ge> CHAT_RATE_WINDOW then \<lparr>cw_start = now, cw_count = 0\<rparr> else w);
          w = w\<lparr>cw_count := cw_count w + 1\<rparr>
      in (cw_count w \<le> CHAT_RATE_MAX, w))"

definition chat_stamp :: "u32 \<Rightarrow> u8 \<Rightarrow> bytes \<Rightarrow> bytes" where
  "chat_stamp cid kind payload = kind # put_u32_le cid @ payload"

text \<open>
  The loop over the bytes of a connection: \<open>clock i\<close> is the time at which message \<open>i\<close> has been read. The result
  holds what was published, with its times, and the error that ended the session, if any.
\<close>

function chat_loop ::
    "(nat \<Rightarrow> nat) \<Rightarrow> u32 \<Rightarrow> nat \<Rightarrow> chat_window \<Rightarrow> bytes \<Rightarrow> (nat \<times> bytes) list \<times> serve_error option" where
  "chat_loop clock cid i w bs =
     (case read_chat bs of
        ChatEnd \<Rightarrow> ([], None)
      | ChatBad e \<Rightarrow> ([], Some e)
      | ChatMsg kind payload rest \<Rightarrow>
          (let (ok, w) = chat_rate (clock i) w;
               (out, e) = chat_loop clock cid (Suc i) w rest
           in (if ok then (clock i, chat_stamp cid kind payload) # out else out, e)))"
  by pat_completeness auto

lemma read_chat_shorter: "read_chat bs = ChatMsg kind payload rest \<Longrightarrow> length rest < length bs"
  by (auto simp: read_chat_def Let_def split: list.splits if_splits)

termination chat_loop
  by (relation "measure (\<lambda>(_, _, _, _, bs). length bs)") (auto dest: read_chat_shorter)

declare chat_loop.simps [simp del]

definition serve_chat ::
    "(nat \<Rightarrow> nat) \<Rightarrow> nat \<Rightarrow> bytes \<Rightarrow> tv_shared \<Rightarrow> ((nat \<times> bytes) list \<times> serve_error option) \<times> bytes \<times> tv_shared" where
  "serve_chat clock now bs sh =
     (let (cid, sh) = alloc_chat_id sh
      in (chat_loop clock cid 0 \<lparr>cw_start = now, cw_count = 0\<rparr> bs, put_u32_le cid, sh))"

section \<open>The rate of a viewer\<close>

abbreviation apart :: "nat list \<Rightarrow> bool" where
  "apart \<equiv> sorted_wrt (\<lambda>s t. s + CHAT_RATE_WINDOW \<le> t)"

lemma chat_rate_new_window:
  assumes "cw_start w + CHAT_RATE_WINDOW \<le> now"
  shows "chat_rate now w = (True, \<lparr>cw_start = now, cw_count = 1\<rparr>)"
proof -
  have "CHAT_RATE_WINDOW \<le> now - cw_start w" using assms by arith
  then show ?thesis by (simp add: chat_rate_def Let_def)
qed

lemma chat_rate_same_window:
  assumes "now < cw_start w + CHAT_RATE_WINDOW" "0 < cw_count w" "unat (cw_count w) + 1 < 2 ^ 32"
  obtains w' where "chat_rate now w = (False, w')" "cw_start w' = cw_start w" "unat (cw_count w') = unat (cw_count w) + 1"
proof -
  have count: "unat (cw_count w + 1) = unat (cw_count w) + 1" using assms(3) by (simp add: unat_word_ariths)
  moreover have "\<not> cw_count w + 1 \<le> 1"
    using count assms(2) by (simp add: word_le_nat_alt word_less_nat_alt)
  ultimately show ?thesis using assms(1)
    by (intro that [of "w\<lparr>cw_count := cw_count w + 1\<rparr>"]) (simp_all add: chat_rate_def Let_def)
qed

lemma apart_later: "apart (t # ts) \<Longrightarrow> s + CHAT_RATE_WINDOW \<le> t \<Longrightarrow> apart (s # t # ts)"
  by auto

lemma chat_loop_apart:
  assumes "mono clock" "cw_start w \<le> clock i" "0 < cw_count w" "unat (cw_count w) + length bs < 2 ^ 32"
  shows "apart (cw_start w # map fst (fst (chat_loop clock cid i w bs)))"
  using assms
proof (induction "length bs" arbitrary: i w bs rule: less_induct)
  case less
  show ?case
  proof (cases "read_chat bs")
    case (ChatMsg kind payload rest)
    note len = read_chat_shorter [OF ChatMsg]
    have later: "clock i \<le> clock (Suc i)" using less.prems(1) by (simp add: monoD)
    show ?thesis
    proof (cases "cw_start w + CHAT_RATE_WINDOW \<le> clock i")
      case True
      have "apart (clock i # map fst (fst (chat_loop clock cid (Suc i) \<lparr>cw_start = clock i, cw_count = 1\<rparr> rest)))"
        using less.hyps [OF len, of "\<lparr>cw_start = clock i, cw_count = 1\<rparr>" "Suc i"] less.prems later len by simp
      then have "apart (cw_start w # clock i #
          map fst (fst (chat_loop clock cid (Suc i) \<lparr>cw_start = clock i, cw_count = 1\<rparr> rest)))"
        by (rule apart_later [OF _ True])
      moreover have "map fst (fst (chat_loop clock cid i w bs)) = clock i #
          map fst (fst (chat_loop clock cid (Suc i) \<lparr>cw_start = clock i, cw_count = 1\<rparr> rest))"
        by (simp add: chat_loop.simps [of clock cid i w bs] ChatMsg chat_rate_new_window [OF True] split_beta)
      ultimately show ?thesis by (simp only:)
    next
      case False
      then have "clock i < cw_start w + CHAT_RATE_WINDOW" "unat (cw_count w) + 1 < 2 ^ 32"
        using less.prems(4) len by linarith+
      then obtain w' where w': "chat_rate (clock i) w = (False, w')" "cw_start w' = cw_start w"
        "unat (cw_count w') = unat (cw_count w) + 1"
        using chat_rate_same_window [of "clock i" w] less.prems(3) by metis
      have "0 < cw_count w'" using w'(3) by (simp add: word_less_nat_alt)
      moreover have "cw_start w' \<le> clock (Suc i)" "unat (cw_count w') + length rest < 2 ^ 32"
        using less.prems later len w' by simp_all
      ultimately have "apart (cw_start w' # map fst (fst (chat_loop clock cid (Suc i) w' rest)))"
        by (intro less.hyps [OF len] less.prems(1))
      moreover have "fst (chat_loop clock cid i w bs) = fst (chat_loop clock cid (Suc i) w' rest)"
        by (simp add: chat_loop.simps [of clock cid i w bs] ChatMsg w'(1) split_beta)
      ultimately show ?thesis using w'(2) by simp
    qed
  qed (simp_all add: chat_loop.simps)
qed

lemma apart_first_two:
  assumes "mono clock" "now \<le> clock 0" "length bs < 2 ^ 32"
  shows "apart (map fst (tl (fst (chat_loop clock cid 0 \<lparr>cw_start = now, cw_count = 0\<rparr> bs))))"
proof (cases "read_chat bs")
  case (ChatMsg kind payload rest)
  note len = read_chat_shorter [OF ChatMsg]
  define s where "s = (if now + CHAT_RATE_WINDOW \<le> clock 0 then clock 0 else now)"
  have rate: "chat_rate (clock 0) \<lparr>cw_start = now, cw_count = 0\<rparr> = (True, \<lparr>cw_start = s, cw_count = 1\<rparr>)"
    by (auto simp: chat_rate_def s_def)
  have "s \<le> clock (Suc 0)" using assms(1,2) monoD [of clock 0 "Suc 0"] by (auto simp: s_def)
  then have "apart (s # map fst (fst (chat_loop clock cid (Suc 0) \<lparr>cw_start = s, cw_count = 1\<rparr> rest)))"
    using chat_loop_apart [of clock "\<lparr>cw_start = s, cw_count = 1\<rparr>" "Suc 0" rest cid] assms len by simp
  then show ?thesis by (simp add: chat_loop.simps [of clock cid 0 _ bs] ChatMsg rate split_beta)
qed (simp_all add: chat_loop.simps)

lemma chat_loop_stamped:
  "(t, m) \<in> set (fst (chat_loop clock cid i w bs)) \<Longrightarrow> \<exists>kind payload. m = chat_stamp cid kind payload \<and> length payload \<le> 257"
proof (induction "length bs" arbitrary: i w bs rule: less_induct)
  case less
  then show ?case
  proof (cases "read_chat bs")
    case (ChatMsg kind payload rest)
    have "length payload \<le> 257" using ChatMsg by (auto simp: read_chat_def Let_def split: list.splits if_splits)
    then show ?thesis using less.hyps [OF read_chat_shorter [OF ChatMsg]] less.prems
      by (auto simp: chat_loop.simps [of clock cid i w bs] ChatMsg split_beta split: if_splits)
  qed (simp_all add: chat_loop.simps)
qed

text \<open>
  C36. However fast a viewer writes, the messages published for its connection are at least five seconds apart, the
  first one excepted, and each of them carries the id of that viewer and at most 257 bytes of its own; the bytes it
  writes in the session are fewer than \<open>2 ^ 32\<close>, which keeps the counter of the window from wrapping around.
\<close>

theorem viewer_chat_rate:
  assumes "mono clock" "now \<le> clock 0" "length bs < 2 ^ 32"
    and "serve_chat clock now bs sh = ((out, e), hello, sh')"
  shows "sorted_wrt (\<lambda>s t. s + secs 5 \<le> t) (map fst (tl out))
    \<and> (\<forall>m \<in> snd ` set out. \<exists>kind payload. m = kind # hello @ payload \<and> length payload \<le> 257)
    \<and> hello = put_u32_le (sh_next_chat_id sh) \<and> sh_next_chat_id sh' = sh_next_chat_id sh + 1"
proof -
  let ?out = "fst (chat_loop clock (sh_next_chat_id sh) 0 \<lparr>cw_start = now, cw_count = 0\<rparr> bs)"
  have run: "out = ?out" "hello = put_u32_le (sh_next_chat_id sh)" "sh_next_chat_id sh' = sh_next_chat_id sh + 1"
    using assms(4) by (auto simp: serve_chat_def alloc_chat_id_def)
  have "\<forall>m \<in> snd ` set out. \<exists>kind payload. m = kind # hello @ payload \<and> length payload \<le> 257"
    using chat_loop_stamped unfolding run chat_stamp_def by fastforce
  then show ?thesis using apart_first_two [OF assms(1-3)] run by simp
qed

theorem viewer_chat_rate_witness:
  "case serve_chat ((*) 3000000000) 0 [1, 9, 0, 0, 0, 0, 1, 0, 65, 1, 8, 0, 0, 0] (shared_new for_126a) of
     ((out, e), hello, sh') \<Rightarrow> map fst out = [0, secs 6] \<and> sorted_wrt (\<lambda>s t. s + secs 5 \<le> t) (map fst (tl out))"
proof -
  have mono: "mono ((*) (3000000000 :: nat))" by (simp add: mono_def)
  have one: "(from_le [1, 0] :: u16) = 1" by code_simp
  have reads: "read_chat [1, 9, 0, 0, 0, 0, 1, 0, 65, 1, 8, 0, 0, 0] = ChatMsg 1 [9, 0, 0, 0] [0, 1, 0, 65, 1, 8, 0, 0, 0]"
    "read_chat [0, 1, 0, 65, 1, 8, 0, 0, 0] = ChatMsg 0 [1, 0, 65] [1, 8, 0, 0, 0]"
    "read_chat [1, 8, 0, 0, 0] = ChatMsg 1 [8, 0, 0, 0] []" "read_chat [] = ChatEnd"
    by (simp_all add: read_chat_def one del: from_le.simps)
  have run: "chat_loop ((*) 3000000000) cid 0 \<lparr>cw_start = 0, cw_count = 0\<rparr> [1, 9, 0, 0, 0, 0, 1, 0, 65, 1, 8, 0, 0, 0]
    = ([(0, chat_stamp cid 1 [9, 0, 0, 0]), (secs 6, chat_stamp cid 1 [8, 0, 0, 0])], None)" for cid
    by (simp add: chat_loop.simps reads chat_rate_def word_le_nat_alt)
  show ?thesis
    using viewer_chat_rate [OF mono, of 0 "[1, 9, 0, 0, 0, 0, 1, 0, 65, 1, 8, 0, 0, 0]" "shared_new for_126a"]
    by (simp add: serve_chat_def run alloc_chat_id_def)
qed

end
