(* ===== verification/Relay.thy ===== *)
theory Relay
  imports Game_State
begin

text \<open>
  The relay of a game to its viewers (\<^verbatim>\<open>spectre-spectator/src/relay.rs\<close>): blocks of actions are held back for a
  fixed delay, then kept as history and sent to every viewer; a viewer that joins is first sent the history.
  A viewer's link is a channel shared by all its handles, so the relay keeps it in one place.
\<close>

section \<open>State and viewers\<close>

abbreviation (input) "MAX_CONSECUTIVE_DROPS \<equiv> (200 :: u32)"

record relay_config =
  rc_port :: u16
  rc_delay :: nat
  rc_max_viewers :: nat
  rc_game_name :: bytes
  rc_history_max_mb :: nat

datatype relay_error = RelayFull | HistoryLimitExceeded

record 'c relay =
  rl_cfg :: relay_config
  rl_viewers :: "(u64 \<times> 'c) list"
  rl_drop_counts :: "(u64 \<times> u32) list"
  rl_delayed :: "(nat \<times> bytes) list"
  rl_released_count :: nat
  rl_snapshot :: "game_start_snapshot option"
  rl_players :: "tv_player_info list"
  rl_history :: "bytes list"
  rl_history_bytes :: nat

definition relay_new :: "relay_config \<Rightarrow> 'c relay" where
  "relay_new cfg =
     \<lparr>rl_cfg = cfg, rl_viewers = [], rl_drop_counts = [], rl_delayed = [], rl_released_count = 0, rl_snapshot = None,
      rl_players = [], rl_history = [], rl_history_bytes = 0\<rparr>"

definition add_viewer :: "u64 \<Rightarrow> 'c \<Rightarrow> 'c relay \<Rightarrow> relay_error + 'c relay" where
  "add_viewer conn_id link r =
     (if length (rl_viewers r) \<ge> rc_max_viewers (rl_cfg r) then Inl RelayFull
      else if rl_history_bytes r > rc_history_max_mb (rl_cfg r) * (1024 * 1024) then Inl HistoryLimitExceeded
      else Inr (r\<lparr>rl_drop_counts := AList.delete conn_id (rl_drop_counts r),
                  rl_viewers := rl_viewers r @ [(conn_id, link)]\<rparr>))"

definition remove_viewer :: "u64 \<Rightarrow> 'c relay \<Rightarrow> 'c relay" where
  "remove_viewer conn_id r =
     r\<lparr>rl_drop_counts := AList.delete conn_id (rl_drop_counts r),
       rl_viewers := filter (\<lambda>(cid, _). cid \<noteq> conn_id) (rl_viewers r)\<rparr>"

section \<open>Sending\<close>

text \<open>The closure of \<^verbatim>\<open>retain\<close> in \<^verbatim>\<open>broadcast\<close>, over the viewers in order.\<close>

fun send_viewers ::
    "'c try_send \<Rightarrow> bytes \<Rightarrow> (u64 \<times> 'c) list \<Rightarrow> (u64 \<times> u32) list \<Rightarrow> (u64 \<times> 'c) list \<times> (u64 \<times> u32) list" where
  "send_viewers ts bs [] drops = ([], drops)"
| "send_viewers ts bs ((cid, link) # vs) drops =
     (case link_try_send ts link bs of
        (Inr _, link) \<Rightarrow>
          (let (vs, drops) = send_viewers ts bs vs (AList.delete cid drops) in ((cid, link) # vs, drops))
      | (Inl Backpressure, link) \<Rightarrow>
          (let n = (case map_of drops cid of Some n \<Rightarrow> n | None \<Rightarrow> 0) + 1
           in if n > MAX_CONSECUTIVE_DROPS then send_viewers ts bs vs (AList.delete cid drops)
              else let (vs, drops) = send_viewers ts bs vs (AList.update cid n drops) in ((cid, link) # vs, drops))
      | (Inl Closed, link) \<Rightarrow> send_viewers ts bs vs (AList.delete cid drops))"

definition relay_broadcast :: "'c try_send \<Rightarrow> bytes \<Rightarrow> 'c relay \<Rightarrow> 'c relay" where
  "relay_broadcast ts bs r =
     (let (vs, drops) = send_viewers ts bs (rl_viewers r) (rl_drop_counts r)
      in r\<lparr>rl_viewers := vs, rl_drop_counts := drops\<rparr>)"

definition broadcast_encoded :: "'c try_send \<Rightarrow> proto_error + bytes \<Rightarrow> 'c relay \<Rightarrow> 'c relay" where
  "broadcast_encoded ts pkt r = (case pkt of Inr b \<Rightarrow> relay_broadcast ts b r | Inl _ \<Rightarrow> r)"

text \<open>A block that cannot be framed is sent as it is.\<close>

definition send_block :: "'c try_send \<Rightarrow> bytes \<Rightarrow> 'c relay \<Rightarrow> 'c relay" where
  "send_block ts block r =
     (let r = relay_broadcast ts (case encode_action block of Inr framed \<Rightarrow> framed | Inl _ \<Rightarrow> block) r
      in r\<lparr>rl_released_count := rl_released_count r + 1\<rparr>)"

fun release_loop :: "'c try_send \<Rightarrow> nat \<Rightarrow> (nat \<times> bytes) list \<Rightarrow> 'c relay \<Rightarrow> 'c relay" where
  "release_loop ts now [] r = r\<lparr>rl_delayed := []\<rparr>"
| "release_loop ts now ((release_at, block) # ds) r =
     (if release_at \<le> now
      then release_loop ts now ds
             (send_block ts block
               (r\<lparr>rl_history_bytes := rl_history_bytes r + length block, rl_history := rl_history r @ [block]\<rparr>))
      else r\<lparr>rl_delayed := (release_at, block) # ds\<rparr>)"

definition release_due_blocks :: "'c try_send \<Rightarrow> nat \<Rightarrow> 'c relay \<Rightarrow> 'c relay" where
  "release_due_blocks ts now r = release_loop ts now (rl_delayed r) r"

definition handle_conn_event :: "'c try_send \<Rightarrow> conn_event \<Rightarrow> 'c relay \<Rightarrow> 'c relay" where
  "handle_conn_event ts ev r =
     (let chat = (\<lambda>frame. if frame_id frame = TV_CLIENT_CHAT
            then (case decode_client_chat (frame_payload frame) of
                    Inr text \<Rightarrow> broadcast_encoded ts (encode_chat (str ''Viewer-'' @ show_word (ev_conn_id ev)) text) r
                  | Inl _ \<Rightarrow> r)
            else r)
      in case ev_kind ev of
           EvClosed _ \<Rightarrow> remove_viewer (ev_conn_id ev) r
         | EvFrame (DotaTv frame) \<Rightarrow> chat frame
         | EvFrame (W3gs frame) \<Rightarrow> chat frame
         | EvFrame _ \<Rightarrow> r)"

section \<open>The commands\<close>

text \<open>What a viewer that joins is sent, in order; a packet that cannot be framed is left out.\<close>

definition join_packets :: "'c relay \<Rightarrow> (proto_error + bytes) list" where
  "join_packets r =
     [encode_hello 1 (str ''spectre'')]
     @ (case rl_snapshot r of Some snap \<Rightarrow> [encode_snapshot snap] | None \<Rightarrow> [])
     @ map (\<lambda>p. encode_player (tvp_pid p) (tvp_name p) (tvp_colour p) (tvp_team p) (tvp_race p)) (rl_players r)
     @ map encode_action (rl_history r)
     @ [encode_history_end (of_nat (length (rl_history r)))]"

definition send_packets :: "'c try_send \<Rightarrow> (proto_error + bytes) list \<Rightarrow> 'c \<Rightarrow> 'c" where
  "send_packets ts pkts link =
     foldl (\<lambda>link pkt. case pkt of Inr b \<Rightarrow> snd (link_try_send ts link b) | Inl _ \<Rightarrow> link) link pkts"

definition viewer_joined :: "'c try_send \<Rightarrow> u64 \<Rightarrow> 'c \<Rightarrow> 'c relay \<Rightarrow> 'c relay" where
  "viewer_joined ts conn_id link r =
     (case add_viewer conn_id (send_packets ts (join_packets r) link) r of Inr r \<Rightarrow> r | Inl _ \<Rightarrow> r)"

definition set_player_info :: "tv_player_info \<Rightarrow> tv_player_info list \<Rightarrow> tv_player_info list" where
  "set_player_info info ps =
     (if list_ex (\<lambda>p. tvp_pid p = tvp_pid info) ps then upd_first (\<lambda>p. tvp_pid p = tvp_pid info) (\<lambda>_. info) ps
      else ps @ [info])"

definition game_over_blocks :: "'c try_send \<Rightarrow> 'c relay \<Rightarrow> 'c relay" where
  "game_over_blocks ts r =
     (foldl (\<lambda>r (_, block). send_block ts block r) r (rl_delayed r))
       \<lparr>rl_delayed := [], rl_history := [], rl_history_bytes := 0\<rparr>"

fun game_command :: "'c try_send \<Rightarrow> nat \<Rightarrow> relay_cmd \<Rightarrow> 'c relay \<Rightarrow> 'c relay" where
  "game_command ts now (GameBlock block) r =
     release_due_blocks ts now (r\<lparr>rl_delayed := rl_delayed r @ [(now + rc_delay (rl_cfg r), block)]\<rparr>)"
| "game_command ts now (GameStart snap) r = r\<lparr>rl_snapshot := Some snap\<rparr>"
| "game_command ts now (RelayPlayerInfo pid name colour team race) r =
     r\<lparr>rl_players := set_player_info \<lparr>tvp_pid = pid, tvp_name = name, tvp_colour = colour, tvp_team = team,
                                      tvp_race = race\<rparr> (rl_players r)\<rparr>"
| "game_command ts now (ViewerChat sender text) r = broadcast_encoded ts (encode_chat sender text) r"
| "game_command ts now GameOver r = game_over_blocks ts r"

datatype 'c relay_event =
    FromGame relay_cmd
  | ViewerJoined u64 'c
  | ViewerLeft u64
  | RelayConn conn_event
  | RelayShutdown
  | DebugGetReleasedCount
  | RelayTick

text \<open>One round of \<^verbatim>\<open>run_relay\<close>; \<open>None\<close> ends the loop.\<close>

fun relay_step :: "'c try_send \<Rightarrow> nat \<Rightarrow> 'c relay_event \<Rightarrow> 'c relay \<Rightarrow> 'c relay option" where
  "relay_step ts now (FromGame cmd) r = Some (game_command ts now cmd r)"
| "relay_step ts now (ViewerJoined conn_id link) r = Some (viewer_joined ts conn_id link r)"
| "relay_step ts now (ViewerLeft conn_id) r = Some (remove_viewer conn_id r)"
| "relay_step ts now (RelayConn ev) r = Some (handle_conn_event ts ev r)"
| "relay_step ts now RelayShutdown r = None"
| "relay_step ts now DebugGetReleasedCount r = Some (release_due_blocks ts now r)"
| "relay_step ts now RelayTick r = Some (release_due_blocks ts now r)"

fun run_relay :: "'c try_send \<Rightarrow> (nat \<times> 'c relay_event) list \<Rightarrow> 'c relay \<Rightarrow> 'c relay" where
  "run_relay ts [] r = r"
| "run_relay ts ((now, ev) # evs) r =
     (case relay_step ts now ev r of None \<Rightarrow> r | Some r \<Rightarrow> run_relay ts evs r)"

section \<open>What a viewer is sent\<close>

definition action_frames :: "bytes list \<Rightarrow> bytes list" where
  "action_frames q = filter (\<lambda>b. b ! 1 = TV_ACTION) q"

text \<open>A channel and the links of it that never fill up and whose reader stays.\<close>

definition keeps_up :: "'c try_send \<Rightarrow> ('c \<Rightarrow> bytes list) \<Rightarrow> ('c \<Rightarrow> bool) \<Rightarrow> bool" where
  "keeps_up ts queued good \<longleftrightarrow> channel_law ts queued
     \<and> (\<forall>c b. good c \<longrightarrow> is_ok (fst (link_try_send ts c b)) \<and> good (snd (link_try_send ts c b)))"

definition viewer_ok :: "('c \<Rightarrow> bytes list) \<Rightarrow> ('c \<Rightarrow> bool) \<Rightarrow> u64 \<Rightarrow> 'c relay \<Rightarrow> bool" where
  "viewer_ok queued good v r \<longleftrightarrow> (\<forall>c. (v, c) \<in> set (rl_viewers r) \<longrightarrow>
     good c \<and> map Inr (action_frames (queued c)) = map encode_action (rl_history r))"

lemma keeps_up_queued:
  assumes "keeps_up ts queued good" "good c"
  shows "queued (snd (link_try_send ts c b)) = queued c @ [b]" "good (snd (link_try_send ts c b))"
  using assms link_try_send_queued [of ts queued c b] by (auto simp: keeps_up_def)

lemma tv_frame_id: "tv_frame i p = Inr b \<Longrightarrow> b ! 1 = i"
  by (auto simp: encode_with_def Let_def split: if_splits)

lemma encode_action_ok:
  assumes "length block \<le> 65531"
  obtains b where "encode_action block = Inr b" "b ! 1 = TV_ACTION"
  using assms tv_frame_id by (auto simp: encode_action_def encode_with_def Let_def HEADER_LEN_def)

lemma send_viewers_mem:
  "(v, c') \<in> set (fst (send_viewers ts b vs d)) \<Longrightarrow> \<exists>c. (v, c) \<in> set vs \<and> c' = snd (link_try_send ts c b)"
proof (induction ts b vs d rule: send_viewers.induct)
  case (2 ts b cid link vs d)
  obtain res link' where s: "link_try_send ts link b = (res, link')" by fastforce
  show ?case
    using 2 s by (cases res) (fastforce simp: Let_def split_beta split: link_error.splits if_splits)+
qed simp

lemma relay_broadcast_simps [simp]:
  "rl_history (relay_broadcast ts b r) = rl_history r" "rl_delayed (relay_broadcast ts b r) = rl_delayed r"
  "rl_released_count (relay_broadcast ts b r) = rl_released_count r" "rl_cfg (relay_broadcast ts b r) = rl_cfg r"
  by (simp_all add: relay_broadcast_def split_beta)

lemma relay_broadcast_mem:
  "(v, c') \<in> set (rl_viewers (relay_broadcast ts b r)) \<Longrightarrow>
     \<exists>c. (v, c) \<in> set (rl_viewers r) \<and> c' = snd (link_try_send ts c b)"
  by (auto simp: relay_broadcast_def split_beta dest: send_viewers_mem)

lemma viewer_ok_other:
  assumes "keeps_up ts queued good" "viewer_ok queued good v r" "b ! 1 \<noteq> TV_ACTION"
  shows "viewer_ok queued good v (relay_broadcast ts b r)"
  unfolding viewer_ok_def
proof (intro allI impI)
  fix c' assume "(v, c') \<in> set (rl_viewers (relay_broadcast ts b r))"
  then obtain c where "(v, c) \<in> set (rl_viewers r)" "c' = snd (link_try_send ts c b)" by (blast dest: relay_broadcast_mem)
  then show "good c' \<and> map Inr (action_frames (queued c')) = map encode_action (rl_history (relay_broadcast ts b r))"
    using assms keeps_up_queued [OF assms(1), of c b] by (auto simp: viewer_ok_def action_frames_def)
qed

lemma viewer_ok_block:
  assumes "keeps_up ts queued good" "viewer_ok queued good v r" "length block \<le> 65531"
  shows "viewer_ok queued good v (send_block ts block (r\<lparr>rl_history_bytes := n, rl_history := rl_history r @ [block]\<rparr>))"
proof -
  let ?r = "r\<lparr>rl_history_bytes := n, rl_history := rl_history r @ [block]\<rparr>"
  obtain b where b: "encode_action block = Inr b" "b ! 1 = TV_ACTION" using encode_action_ok [OF assms(3)] .
  have "good c' \<and> map Inr (action_frames (queued c')) = map encode_action (rl_history r @ [block])"
    if mem: "(v, c') \<in> set (rl_viewers (relay_broadcast ts b ?r))" for c'
  proof -
    obtain c where "(v, c) \<in> set (rl_viewers r)" "c' = snd (link_try_send ts c b)"
      using relay_broadcast_mem [OF mem] by auto
    then show ?thesis
      using assms(2) keeps_up_queued [OF assms(1), of c b] b by (auto simp: viewer_ok_def action_frames_def)
  qed
  then show ?thesis by (simp add: viewer_ok_def send_block_def b(1) Let_def)
qed

lemma viewer_ok_encoded:
  assumes "keeps_up ts queued good" "viewer_ok queued good v r" "\<And>b. pkt = Inr b \<Longrightarrow> b ! 1 \<noteq> TV_ACTION"
  shows "viewer_ok queued good v (broadcast_encoded ts pkt r)"
  using assms viewer_ok_other by (auto simp: broadcast_encoded_def split: sum.split)

lemma send_packets_queued:
  assumes "keeps_up ts queued good"
  shows "good c \<Longrightarrow> good (send_packets ts pkts c) \<and> queued (send_packets ts pkts c) = queued c @ [b. Inr b \<leftarrow> pkts]"
proof (induction pkts arbitrary: c)
  case (Cons pkt pkts)
  then show ?case using keeps_up_queued [OF assms, of c]
    by (cases pkt) (simp_all add: send_packets_def)
qed (simp add: send_packets_def)

lemma join_actions:
  assumes "\<forall>block \<in> set (rl_history r). length block \<le> 65531"
  shows "map Inr (action_frames [b. Inr b \<leftarrow> join_packets r]) = map encode_action (rl_history r)"
proof -
  have none: "filter (\<lambda>b. b ! 1 = TV_ACTION) [b. Inr b \<leftarrow> pkts] = []"
    if "\<And>pkt b. pkt \<in> set pkts \<Longrightarrow> pkt = Inr b \<Longrightarrow> b ! 1 \<noteq> TV_ACTION" for pkts :: "(proto_error + bytes) list"
    using that by (induction pkts) (auto split: sum.splits)
  have "map Inr (filter (\<lambda>b. b ! 1 = TV_ACTION) [b. Inr b \<leftarrow> map encode_action hs]) = map encode_action hs"
    if "\<forall>block \<in> set hs. length block \<le> 65531" for hs
    using that
  proof (induction hs)
    case (Cons h hs)
    then obtain b where "encode_action h = Inr b" "b ! 1 = TV_ACTION" using encode_action_ok [of h] by auto
    with Cons show ?case by simp
  qed simp
  note hist = this [OF assms]
  have ids: "Inr b = tv_frame i p \<Longrightarrow> b ! Suc 0 = i" for b i p using tv_frame_id [of i p b] by simp
  have "filter (\<lambda>b. b ! 1 = TV_ACTION) [b. Inr b \<leftarrow> [encode_hello 1 (str ''spectre'')]
      @ (case rl_snapshot r of Some snap \<Rightarrow> [encode_snapshot snap] | None \<Rightarrow> [])
      @ map (\<lambda>p. encode_player (tvp_pid p) (tvp_name p) (tvp_colour p) (tvp_team p) (tvp_race p)) (rl_players r)] = []"
    by (rule none) (auto dest!: ids simp: encode_hello_def encode_player_def encode_snapshot_def split: option.splits if_splits)
  moreover have "filter (\<lambda>b. b ! 1 = TV_ACTION) [b. Inr b \<leftarrow> [encode_history_end n]] = []" for n
    by (rule none) (auto dest!: ids simp: encode_history_end_def)
  ultimately show ?thesis using hist by (simp add: join_packets_def action_frames_def)
qed

section \<open>The delay is exact\<close>

abbreviation due :: "nat \<Rightarrow> nat \<Rightarrow> nat \<times> bytes \<Rightarrow> bool" where
  "due now d \<equiv> \<lambda>(t, _). t + d \<le> now"

abbreviation held :: "nat \<Rightarrow> nat \<times> bytes \<Rightarrow> nat \<times> bytes" where
  "held d \<equiv> \<lambda>(t, b). (t + d, b)"

lemma release_loop_result:
  assumes "keeps_up ts queued good"
  shows "viewer_ok queued good v r \<Longrightarrow> \<forall>(t, b) \<in> set xs. length b \<le> 65531 \<Longrightarrow>
    (let r' = release_loop ts now (map (held d) xs) r
     in rl_history r' = rl_history r @ map snd (takeWhile (due now d) xs)
       \<and> rl_delayed r' = map (held d) (dropWhile (due now d) xs)
       \<and> rl_released_count r' = rl_released_count r + length (takeWhile (due now d) xs)
       \<and> viewer_ok queued good v r' \<and> rl_cfg r' = rl_cfg r)"
proof (induction xs arbitrary: r)
  case Nil
  then show ?case by (simp add: viewer_ok_def)
next
  case (Cons x xs)
  obtain t b where x: "x = (t, b)" by fastforce
  let ?r = "send_block ts b (r\<lparr>rl_history_bytes := rl_history_bytes r + length b, rl_history := rl_history r @ [b]\<rparr>)"
  have "viewer_ok queued good v ?r" using viewer_ok_block [OF assms Cons.prems(1)] Cons.prems(2) x by simp
  from Cons.IH [OF this] Cons.prems show ?case by (auto simp: x Let_def viewer_ok_def send_block_def)
qed

definition pushed :: "(nat \<times> 'c relay_event) list \<Rightarrow> (nat \<times> bytes) list" where
  "pushed evs = [(t, block). (t, FromGame (GameBlock block)) \<leftarrow> evs]"

text \<open>
  The events of a running game, seen for viewer \<open>v\<close>: it is not over, every block fits a packet, and the link \<open>v\<close>
  joins with is fresh and keeps up.
\<close>

fun calm :: "('c \<Rightarrow> bytes list) \<Rightarrow> ('c \<Rightarrow> bool) \<Rightarrow> u64 \<Rightarrow> 'c relay_event \<Rightarrow> bool" where
  "calm queued good v (FromGame cmd) = (case cmd of GameBlock block \<Rightarrow> length block \<le> 65531 | GameOver \<Rightarrow> False | _ \<Rightarrow> True)"
| "calm queued good v (ViewerJoined conn_id link) = (conn_id = v \<longrightarrow> good link \<and> queued link = [])"
| "calm queued good v RelayShutdown = False"
| "calm queued good v _ = True"

definition relay_inv :: "('c \<Rightarrow> bytes list) \<Rightarrow> ('c \<Rightarrow> bool) \<Rightarrow> u64 \<Rightarrow> nat \<Rightarrow> nat \<Rightarrow> (nat \<times> bytes) list \<Rightarrow> 'c relay \<Rightarrow> bool" where
  "relay_inv queued good v d now sent r \<longleftrightarrow> rc_delay (rl_cfg r) = d \<and> viewer_ok queued good v r
     \<and> rl_released_count r = length (rl_history r) \<and> (\<forall>(t, b) \<in> set sent. length b \<le> 65531)
     \<and> (\<exists>released waiting. sent = released @ waiting \<and> rl_history r = map snd released
          \<and> rl_delayed r = map (held d) waiting \<and> (\<forall>x \<in> set released. due now d x))"

lemma relay_inv_later: "relay_inv queued good v d now sent r \<Longrightarrow> now \<le> now' \<Longrightarrow> relay_inv queued good v d now' sent r"
  unfolding relay_inv_def by fastforce

lemma filter_due: "sorted (map fst xs) \<Longrightarrow> filter (due now d) xs = takeWhile (due now d) xs"
proof (induction xs)
  case (Cons x xs)
  have "filter (due now d) xs = []" if "\<not> due now d x"
    using Cons.prems that by (fastforce simp: filter_empty_conv split: prod.splits)
  then show ?case using Cons by (cases "due now d x") (auto split: prod.splits)
qed simp

lemma relay_inv_release:
  assumes up: "keeps_up ts queued good" and inv: "relay_inv queued good v d now sent r"
  shows "relay_inv queued good v d now sent (release_due_blocks ts now r)"
    and "sorted (map fst sent) \<Longrightarrow> rl_history (release_due_blocks ts now r) = map snd (filter (due now d) sent)"
proof -
  obtain released waiting where s: "sent = released @ waiting" "rl_history r = map snd released"
      "rl_delayed r = map (held d) waiting" "\<forall>x \<in> set released. due now d x"
    using inv by (auto simp: relay_inv_def)
  have "viewer_ok queued good v r" "\<forall>(t, b) \<in> set waiting. length b \<le> 65531" using inv s(1) by (auto simp: relay_inv_def)
  note res = release_loop_result [OF up this, of now d, folded s(3), folded release_due_blocks_def, unfolded Let_def]
  have split: "sent = (released @ takeWhile (due now d) waiting) @ dropWhile (due now d) waiting" using s(1) by simp
  have "\<forall>x \<in> set (released @ takeWhile (due now d) waiting). due now d x"
    using s(4) set_takeWhileD [of _ "due now d" waiting] by auto
  then show "relay_inv queued good v d now sent (release_due_blocks ts now r)"
    using inv res s(2) split unfolding relay_inv_def
    by (intro conjI exI [of _ "released @ takeWhile (due now d) waiting"] exI [of _ "dropWhile (due now d) waiting"]) simp_all
  assume "sorted (map fst sent)"
  then have "filter (due now d) waiting = takeWhile (due now d) waiting" unfolding s(1)
    by (intro filter_due) (simp add: sorted_append)
  moreover have "filter (due now d) released = released" using s(4) by (simp add: filter_id_conv)
  ultimately show "rl_history (release_due_blocks ts now r) = map snd (filter (due now d) sent)"
    using res s by simp
qed

text \<open>Packets other than actions, leaving viewers and the notes a relay keeps change nothing of this.\<close>

lemma relay_inv_cong:
  "relay_inv queued good v d now sent r \<Longrightarrow> viewer_ok queued good v r' \<Longrightarrow> rl_cfg r' = rl_cfg r \<Longrightarrow>
     rl_history r' = rl_history r \<Longrightarrow> rl_delayed r' = rl_delayed r \<Longrightarrow> rl_released_count r' = rl_released_count r \<Longrightarrow>
     relay_inv queued good v d now sent r'"
  by (simp add: relay_inv_def)

lemma broadcast_encoded_simps [simp]:
  "rl_history (broadcast_encoded ts p r) = rl_history r" "rl_delayed (broadcast_encoded ts p r) = rl_delayed r"
  "rl_released_count (broadcast_encoded ts p r) = rl_released_count r" "rl_cfg (broadcast_encoded ts p r) = rl_cfg r"
  by (simp_all add: broadcast_encoded_def split: sum.split)

lemma relay_inv_chat:
  assumes "keeps_up ts queued good" "relay_inv queued good v d now sent r"
  shows "relay_inv queued good v d now sent (broadcast_encoded ts (encode_chat sender msg) r)"
proof (rule relay_inv_cong [OF assms(2)])
  show "viewer_ok queued good v (broadcast_encoded ts (encode_chat sender msg) r)"
    using assms(2) tv_frame_id [of TV_CHAT]
    by (intro viewer_ok_encoded [OF assms(1)]) (auto simp: relay_inv_def encode_chat_def)
qed simp_all

lemma relay_inv_remove: "relay_inv queued good v d now sent r \<Longrightarrow> relay_inv queued good v d now sent (remove_viewer w r)"
  by (rule relay_inv_cong) (auto simp: relay_inv_def viewer_ok_def remove_viewer_def)

lemma relay_inv_conn:
  assumes "keeps_up ts queued good" "relay_inv queued good v d now sent r"
  shows "relay_inv queued good v d now sent (handle_conn_event ts ev r)"
  using assms relay_inv_chat [OF assms] relay_inv_remove [OF assms(2)]
  by (auto simp: handle_conn_event_def Let_def split: conn_event_kind.split any_frame.split sum.split)

lemma relay_inv_joined:
  assumes up: "keeps_up ts queued good" and inv: "relay_inv queued good v d now sent r"
    and new: "conn_id = v \<longrightarrow> good link \<and> queued link = []"
  shows "relay_inv queued good v d now sent (viewer_joined ts conn_id link r)"
proof -
  have "\<forall>block \<in> set (rl_history r). length block \<le> 65531" using inv by (fastforce simp: relay_inv_def)
  then have "viewer_ok queued good v (r\<lparr>rl_drop_counts := dc, rl_viewers := rl_viewers r @ [(conn_id, send_packets ts (join_packets r) link)]\<rparr>)"
    for dc using inv new send_packets_queued [OF up, of link "join_packets r"] join_actions [of r]
    by (auto simp: relay_inv_def viewer_ok_def)
  then show ?thesis using inv
    by (auto simp: viewer_joined_def add_viewer_def intro: relay_inv_cong)
qed

lemma relay_inv_step:
  assumes up: "keeps_up ts queued good" and inv: "relay_inv queued good v d now sent r" and calm: "calm queued good v ev"
  obtains r' where "relay_step ts now ev r = Some r'" "relay_inv queued good v d now (sent @ pushed [(now, ev)]) r'"
proof (cases ev)
  case (FromGame cmd)
  show ?thesis
  proof (cases cmd)
    case (GameBlock block)
    have "relay_inv queued good v d now (sent @ [(now, block)])
        (r\<lparr>rl_delayed := rl_delayed r @ [(now + rc_delay (rl_cfg r), block)]\<rparr>)"
      using inv calm FromGame GameBlock by (fastforce simp: relay_inv_def viewer_ok_def)
    from relay_inv_release(1) [OF up this] show ?thesis using that FromGame GameBlock by (simp add: pushed_def)
  next
    case (ViewerChat sender msg)
    then show ?thesis using that FromGame relay_inv_chat [OF up inv] by (simp add: pushed_def)
  qed (use that FromGame inv calm in \<open>auto simp: pushed_def relay_inv_def viewer_ok_def\<close>)
next
  case (ViewerJoined conn_id link)
  then show ?thesis using that calm relay_inv_joined [OF up inv, of conn_id link] by (simp add: pushed_def)
qed (use that calm inv relay_inv_remove [OF inv] relay_inv_conn [OF up inv] relay_inv_release(1) [OF up inv]
      in \<open>auto simp: pushed_def\<close>)

lemma pushed_Cons: "pushed (e # evs) = pushed [e] @ pushed evs"
  by (simp add: pushed_def)

lemma relay_inv_run:
  assumes up: "keeps_up ts queued good"
  shows "sorted (now # map fst evs) \<Longrightarrow> \<forall>e \<in> set evs. calm queued good v (snd e) \<Longrightarrow>
    relay_inv queued good v d now sent r \<Longrightarrow>
    relay_inv queued good v d (last (now # map fst evs)) (sent @ pushed evs) (run_relay ts evs r)"
proof (induction evs arbitrary: now sent r)
  case (Cons e evs)
  obtain t ev where e: "e = (t, ev)" by fastforce
  have "relay_inv queued good v d t sent r" using Cons.prems e by (auto intro: relay_inv_later)
  then obtain r' where r': "relay_step ts t ev r = Some r'" "relay_inv queued good v d t (sent @ pushed [(t, ev)]) r'"
    using relay_inv_step [OF up, of v d t sent r ev] Cons.prems(2) e by auto
  then show ?case using Cons.IH [of t "sent @ pushed [(t, ev)]" r'] Cons.prems
    by (simp add: e pushed_Cons [of "(t, ev)" evs])
qed (simp add: pushed_def)

lemma run_relay_append:
  "\<forall>e \<in> set evs. calm queued good v (snd e) \<Longrightarrow> run_relay ts (evs @ evs') r = run_relay ts evs' (run_relay ts evs r)"
proof (induction evs arbitrary: r)
  case (Cons e evs)
  obtain t ev where e: "e = (t, ev)" by fastforce
  then obtain r' where "relay_step ts t ev r = Some r'" using Cons.prems by (cases ev) auto
  then show ?case using Cons e by simp
qed simp

lemma sorted_pushed: "sorted (map fst evs) \<Longrightarrow> sorted (map fst (pushed evs))"
proof (induction evs)
  case (Cons e evs)
  have "fst ` set (pushed evs) \<subseteq> fst ` set evs" by (force simp: pushed_def)
  then have "\<forall>x \<in> set (pushed evs). fst e \<le> fst x" using Cons.prems by fastforce
  moreover have "pushed [e] = [] \<or> (\<exists>b. pushed [e] = [(fst e, b)])"
    by (auto simp: pushed_def split: prod.splits relay_event.splits relay_cmd.splits)
  ultimately show ?case using Cons by (auto simp: pushed_Cons [of e evs])
qed (simp add: pushed_def)

text \<open>
  C5. While a game runs, the blocks the relay has released after a tick are exactly those the game gave it at least
  the delay ago, in the order it gave them; and a viewer whose link keeps up has been sent, as actions, exactly
  these blocks, each once and in order, whenever it joined.
\<close>

theorem relay_delay_exact:
  assumes "keeps_up ts queued good"
    and "sorted (map fst evs @ [now])" "\<forall>e \<in> set evs. calm queued good v (snd e)"
    and "r = run_relay ts (evs @ [(now, RelayTick)]) (relay_new cfg)"
  shows "rl_history r = map snd (filter (\<lambda>(t, _). t + rc_delay cfg \<le> now) (pushed evs))
    \<and> rl_released_count r = length (rl_history r)
    \<and> (\<forall>link. (v, link) \<in> set (rl_viewers r) \<longrightarrow> map Inr (action_frames (queued link)) = map encode_action (rl_history r))"
proof -
  let ?s = "run_relay ts evs (relay_new cfg)"
  have start: "relay_inv queued good v (rc_delay cfg) 0 [] (relay_new cfg)"
    by (simp add: relay_inv_def relay_new_def viewer_ok_def)
  have times: "sorted (0 # map fst evs)" "last (0 # map fst evs) \<le> now" "sorted (map fst evs)"
    using assms(2) by (cases evs rule: rev_cases; simp add: sorted_append)+
  note inv = relay_inv_later [OF relay_inv_run [OF assms(1) times(1) assms(3) start] times(2), simplified]
  have "r = release_due_blocks ts now ?s" using assms(3,4) by (simp add: run_relay_append)
  then show ?thesis
    using relay_inv_release [OF assms(1) inv] sorted_pushed [OF times(3)]
    by (simp add: relay_inv_def viewer_ok_def)
qed

theorem relay_delay_exact_witness:
  "\<exists>r. r = run_relay (\<lambda>q b. (TxOk, q @ [b])) ([(1, FromGame (GameBlock [7])), (2, ViewerJoined 9 []),
          (4, FromGame (GameBlock [8]))] @ [(6, RelayTick)])
        (relay_new \<lparr>rc_port = 0, rc_delay = 3, rc_max_viewers = 5, rc_game_name = [], rc_history_max_mb = 1\<rparr>)
     \<and> rl_history r = [[7]] \<and> rl_released_count r = 1"
proof -
  let ?ts = "\<lambda>q b. (TxOk, q @ [b :: bytes])"
  have "keeps_up ?ts (\<lambda>q. q) (\<lambda>_. True)"
    by (simp add: keeps_up_def channel_law_def link_try_send_def)
  from relay_delay_exact [OF this _ _ refl, of "[(1, FromGame (GameBlock [7])), (2, ViewerJoined 9 []),
      (4, FromGame (GameBlock [8]))]" 6 9 "\<lparr>rc_port = 0, rc_delay = 3, rc_max_viewers = 5, rc_game_name = [], rc_history_max_mb = 1\<rparr>"]
  show ?thesis by (simp add: pushed_def)
qed

end
