(* ===== verification/Mpq_Crypt.thy ===== *)
theory Mpq_Crypt
  imports Utf8
begin

text \<open>
  The cipher and the name hash of MPQ archives (\<^verbatim>\<open>spectre-mpq/src/crypt.rs\<close>), with the inverse of the
  cipher as its specification.
\<close>

section \<open>The table\<close>

abbreviation (input) "TABLE_SIZE \<equiv> (0x500 :: nat)"
abbreviation "HASH_TABLE_OFFSET \<equiv> (0 :: u32)"
abbreviation "HASH_NAME_A \<equiv> (0x100 :: u32)"
abbreviation "HASH_NAME_B \<equiv> (0x200 :: u32)"
abbreviation "HASH_FILE_KEY \<equiv> (0x300 :: u32)"

definition storm_seed :: "u32 \<Rightarrow> u32" where
  "storm_seed seed = (seed * 125 + 3) mod 0x2AAAAB"

text \<open>
  The values in the order the nested loops produce them, two seeds for each; value \<open>5 * i + step\<close> goes to index
  \<open>i + 256 * step\<close>.
\<close>

fun storm_values :: "nat \<Rightarrow> u32 \<Rightarrow> u32 list" where
  "storm_values 0 seed = []"
| "storm_values (Suc n) seed =
     (let s1 = storm_seed seed; s2 = storm_seed s1
      in (push_bit 16 (s1 AND 0xFFFF) OR (s2 AND 0xFFFF)) # storm_values n s2)"

definition STORM_BUFFER :: "u32 list" where
  "STORM_BUFFER =
     (let vs = storm_values TABLE_SIZE 0x100001 in map (\<lambda>j. vs ! (5 * (j mod 0x100) + j div 0x100)) [0..<TABLE_SIZE])"

section \<open>Hash and cipher\<close>

fun hash_loop :: "u32 \<Rightarrow> u32 \<Rightarrow> u32 \<Rightarrow> bytes \<Rightarrow> u32" where
  "hash_loop hash_type seed1 seed2 [] = seed1"
| "hash_loop hash_type seed1 seed2 (b # bs) =
     (let ch = (ucast (if b = 47 then 92 else to_ascii_upper b) :: u32);
          val = STORM_BUFFER ! (unat hash_type + unat ch);
          seed1 = val XOR (seed1 + seed2);
          seed2 = ch + seed1 + seed2 + push_bit 5 seed2 + 3
      in hash_loop hash_type seed1 seed2 bs)"

definition hash_string :: "bytes \<Rightarrow> u32 \<Rightarrow> u32" where
  "hash_string s hash_type = hash_loop hash_type 0x7FED7FED 0xEEEEEEEE s"

definition next_key :: "u32 \<Rightarrow> u32" where
  "next_key key = (push_bit 21 (NOT key) + 0x11111111) OR drop_bit 11 key"

definition next_seed :: "u32 \<Rightarrow> u32 \<Rightarrow> u32" where
  "next_seed ch seed = ch + seed + push_bit 5 seed + 3"

definition mix_seed :: "u32 \<Rightarrow> u32 \<Rightarrow> u32" where
  "mix_seed key seed = seed + STORM_BUFFER ! (0x400 + unat (key AND 0xFF))"

fun decrypt_words :: "u32 \<Rightarrow> u32 \<Rightarrow> u32 list \<Rightarrow> u32 list" where
  "decrypt_words key seed [] = []"
| "decrypt_words key seed (item # ws) =
     (let seed = mix_seed key seed; ch = item XOR (key + seed)
      in ch # decrypt_words (next_key key) (next_seed ch seed) ws)"

definition decrypt_u32 :: "u32 list \<Rightarrow> u32 \<Rightarrow> u32 list" where
  "decrypt_u32 ws key = decrypt_words key 0xEEEEEEEE ws"

text \<open>The bytes after the last full word stay as they are.\<close>

fun decrypt_loop :: "u32 \<Rightarrow> u32 \<Rightarrow> bytes \<Rightarrow> bytes" where
  "decrypt_loop key seed (b0 # b1 # b2 # b3 # bs) =
     (let seed = mix_seed key seed; ch = from_le [b0, b1, b2, b3] XOR (key + seed)
      in to_le 4 ch @ decrypt_loop (next_key key) (next_seed ch seed) bs)"
| "decrypt_loop key seed bs = bs"

definition decrypt_bytes :: "bytes \<Rightarrow> u32 \<Rightarrow> bytes" where
  "decrypt_bytes bs key = decrypt_loop key 0xEEEEEEEE bs"

section \<open>The cipher inverted\<close>

text \<open>The other direction, which the code has no need of: what a program that writes archives does.\<close>

fun encrypt_words :: "u32 \<Rightarrow> u32 \<Rightarrow> u32 list \<Rightarrow> u32 list" where
  "encrypt_words key seed [] = []"
| "encrypt_words key seed (ch # ws) =
     (let seed = mix_seed key seed
      in (ch XOR (key + seed)) # encrypt_words (next_key key) (next_seed ch seed) ws)"

definition words_to_bytes :: "u32 list \<Rightarrow> bytes" where
  "words_to_bytes ws = concat (map (to_le 4) ws)"

fun bytes_to_words :: "bytes \<Rightarrow> u32 list" where
  "bytes_to_words (b0 # b1 # b2 # b3 # bs) = from_le [b0, b1, b2, b3] # bytes_to_words bs"
| "bytes_to_words _ = []"

definition encrypt_bytes :: "bytes \<Rightarrow> u32 \<Rightarrow> bytes" where
  "encrypt_bytes bs key =
     words_to_bytes (encrypt_words key 0xEEEEEEEE (bytes_to_words bs)) @ drop (4 * (length bs div 4)) bs"

lemma le_word_parts:
  obtains b0 b1 b2 b3 where "to_le 4 w = [b0, b1, b2, b3]" "(from_le [b0, b1, b2, b3] :: u32) = w"
proof -
  have inv: "from_le (to_le 4 w) = (w :: u32)" by simp
  have "length (to_le 4 w) = Suc (Suc (Suc (Suc 0)))" by simp
  then obtain b0 b1 b2 b3 where "to_le 4 w = [b0, b1, b2, b3]" by (auto simp only: length_Suc_conv length_0_conv)
  with inv show ?thesis by (intro that) simp_all
qed

lemma to_le_from_le4: "to_le 4 (from_le [b0, b1, b2, b3] :: u32) = [b0, b1, b2, b3]"
  by (simp add: numeral_eq_Suc ucast_from_le_Cons drop_bit_from_le_Cons)

lemma decrypt_encrypt_words: "decrypt_words key seed (encrypt_words key seed ws) = ws"
  by (induction ws arbitrary: key seed) (simp_all add: Let_def xor.assoc)

lemma decrypt_loop_words:
  "length r < 4 \<Longrightarrow> decrypt_loop key seed (words_to_bytes ws @ r) = words_to_bytes (decrypt_words key seed ws) @ r"
proof (induction ws arbitrary: key seed)
  case Nil
  then have "decrypt_loop key seed r = r" by (cases "(key, seed, r)" rule: decrypt_loop.cases) auto
  then show ?case by (simp add: words_to_bytes_def)
next
  case (Cons w ws)
  obtain b0 b1 b2 b3 where "to_le 4 w = [b0, b1, b2, b3]" "from_le [b0, b1, b2, b3] = w" by (rule le_word_parts)
  with Cons show ?case by (simp add: words_to_bytes_def Let_def del: from_le.simps)
qed

lemma bytes_split: "words_to_bytes (bytes_to_words bs) @ drop (4 * (length bs div 4)) bs = bs"
proof (induction bs rule: bytes_to_words.induct)
  case (1 b0 b1 b2 b3 bs)
  have "4 * (length (b0 # b1 # b2 # b3 # bs) div 4) = Suc (Suc (Suc (Suc (4 * (length bs div 4)))))"
    using div_add_self1 [of 4 "length bs"] by simp
  then have "drop (4 * (length (b0 # b1 # b2 # b3 # bs) div 4)) (b0 # b1 # b2 # b3 # bs) = drop (4 * (length bs div 4)) bs"
    by (simp only: drop_Suc_Cons)
  then show ?case using 1 by (simp only: bytes_to_words.simps words_to_bytes_def list.map concat.simps append_assoc to_le_from_le4 append_Cons append_Nil)
qed (simp_all add: words_to_bytes_def)

lemma length_tail: "length (drop (4 * (length bs div 4)) bs) < 4" for bs :: bytes
  by simp

lemma length_decrypt [simp]: "length (decrypt_bytes bs key) = length bs"
proof -
  have "length (decrypt_loop key seed bs) = length bs" for key seed
    by (induction key seed bs rule: decrypt_loop.induct) (simp_all add: Let_def del: from_le.simps)
  then show ?thesis by (simp add: decrypt_bytes_def)
qed

text \<open>
  Decryption undoes encryption for every key and every length of data, with the one to three bytes after the last full
  word left alone; it keeps the length, and the routine on bytes agrees with the one on words.
\<close>

lemma decrypt_inverts:
  "decrypt_bytes (encrypt_bytes bs key) key = bs
   \<and> length (decrypt_bytes bs key) = length bs
   \<and> decrypt_bytes (words_to_bytes ws) key = words_to_bytes (decrypt_u32 ws key)"
proof (intro conjI)
  show "decrypt_bytes (encrypt_bytes bs key) key = bs"
    using bytes_split [of bs] length_tail [of bs]
    by (simp add: decrypt_bytes_def encrypt_bytes_def decrypt_loop_words decrypt_encrypt_words)
  show "decrypt_bytes (words_to_bytes ws) key = words_to_bytes (decrypt_u32 ws key)"
    using decrypt_loop_words [of "[]" key "0xEEEEEEEE" ws] by (simp add: decrypt_bytes_def decrypt_u32_def)
qed simp

end
