(* ===== verification/Mpq_Tables.thy ===== *)
theory Mpq_Tables
  imports Mpq_Crypt W3g
begin

text \<open>
  Header, hash table and block table of an MPQ archive (\<^verbatim>\<open>header.rs\<close>, \<^verbatim>\<open>hash_table.rs\<close> and
  \<^verbatim>\<open>block_table.rs\<close> of \<^verbatim>\<open>spectre-mpq\<close>). An index or a range outside the data is the fault
  \<open>MpqPanic\<close>, so that reading an archive without one is a statement about the code's own bounds checks.
\<close>

section \<open>Errors and slices\<close>

datatype mpq_error =
    HeaderNotFound
  | CorruptedHeader
  | CorruptedHashTable
  | CorruptedBlockTable
  | FileNotFound bytes
  | DecompressionFailed
  | InvalidSectorTable
  | UnsupportedCompression u8
  | UnexpectedEof nat nat

datatype mpq_fault = MpqErr mpq_error | MpqPanic

type_synonym 'a mpq_result = "mpq_fault + 'a"

text \<open>\<^verbatim>\<open>&data[a..b]\<close> and the little-endian reads at an offset.\<close>

definition slice :: "bytes \<Rightarrow> nat \<Rightarrow> nat \<Rightarrow> bytes mpq_result" where
  "slice bs a b = (if a \<le> b \<and> b \<le> length bs then Inr (take (b - a) (drop a bs)) else Inl MpqPanic)"

definition u32_at :: "bytes \<Rightarrow> nat \<Rightarrow> u32" where
  "u32_at bs i = from_le (take 4 (drop i bs))"

definition u16_at :: "bytes \<Rightarrow> nat \<Rightarrow> u16" where
  "u16_at bs i = from_le (take 2 (drop i bs))"

section \<open>Header\<close>

abbreviation "HEADER_SIZE_V1 \<equiv> (32 :: nat)"

definition ID_MPQ_ARCHIVE :: bytes where "ID_MPQ_ARCHIVE = [77, 80, 81, 0x1A]"
definition ID_MPQ_USER_DATA :: bytes where "ID_MPQ_USER_DATA = [77, 80, 81, 0x1B]"

record mpq_header =
  mh_archive_offset :: nat
  mh_header_size :: u32
  mh_archive_size :: u32
  mh_format_version :: u16
  mh_sector_size_shift :: u16
  mh_sector_size :: nat
  mh_hash_table_offset :: nat
  mh_block_table_offset :: nat
  mh_hash_table_count :: nat
  mh_block_table_count :: nat

text \<open>\<^verbatim>\<open>512usize << shift\<close>: the shift is taken modulo 64 and the bits past 64 are lost.\<close>

definition sector_size_of :: "u16 \<Rightarrow> nat" where
  "sector_size_of shift = 512 * 2 ^ (unat shift mod 64) mod 2 ^ 64"

definition parse_at :: "bytes \<Rightarrow> nat \<Rightarrow> nat \<Rightarrow> mpq_header mpq_result" where
  "parse_at bs archive_offset header_offset =
     (if header_offset + HEADER_SIZE_V1 > length bs then Inl (MpqErr CorruptedHeader)
      else and_then (slice bs header_offset (header_offset + HEADER_SIZE_V1)) (\<lambda>s.
        Inr \<lparr>mh_archive_offset = archive_offset, mh_header_size = u32_at s 4, mh_archive_size = u32_at s 8,
             mh_format_version = u16_at s 12, mh_sector_size_shift = u16_at s 14,
             mh_sector_size = sector_size_of (u16_at s 14),
             mh_hash_table_offset = archive_offset + unat (u32_at s 16),
             mh_block_table_offset = archive_offset + unat (u32_at s 20),
             mh_hash_table_count = unat (u32_at s 24), mh_block_table_count = unat (u32_at s 28)\<rparr>))"

text \<open>One step of the search at multiples of 512; \<open>None\<close> goes on.\<close>

definition header_here :: "bytes \<Rightarrow> nat \<Rightarrow> mpq_header mpq_result option" where
  "header_here bs offset =
     (let target = offset + unat (u32_at bs (offset + 8))
      in if take 4 (drop offset bs) = ID_MPQ_ARCHIVE then Some (parse_at bs offset offset)
         else if take 4 (drop offset bs) = ID_MPQ_USER_DATA \<and> offset + 16 \<le> length bs
                 \<and> target + HEADER_SIZE_V1 \<le> length bs \<and> take 4 (drop target bs) = ID_MPQ_ARCHIVE
         then Some (parse_at bs offset target)
         else None)"

function aligned_search :: "bytes \<Rightarrow> nat \<Rightarrow> mpq_header mpq_result option" where
  "aligned_search bs offset =
     (if offset + HEADER_SIZE_V1 \<le> length bs
      then (case header_here bs offset of Some r \<Rightarrow> Some r | None \<Rightarrow> aligned_search bs (offset + 512))
      else None)"
  by pat_completeness auto

termination aligned_search
  by (relation "measure (\<lambda>(bs, offset). length bs - offset)") auto

declare aligned_search.simps [simp del]

definition mpq_locate :: "bytes \<Rightarrow> mpq_header mpq_result" where
  "mpq_locate bs =
     (if length bs < HEADER_SIZE_V1 then Inl (MpqErr HeaderNotFound)
      else case aligned_search bs 0 of
             Some r \<Rightarrow> r
           | None \<Rightarrow>
               (case find (\<lambda>i. take 4 (drop i bs) = ID_MPQ_ARCHIVE) [0..<length bs - HEADER_SIZE_V1] of
                  Some i \<Rightarrow> parse_at bs i i
                | None \<Rightarrow> Inl (MpqErr HeaderNotFound)))"

section \<open>Hash table\<close>

abbreviation "HASH_ENTRY_EMPTY \<equiv> (0xFFFFFFFF :: u32)"
abbreviation "HASH_ENTRY_DELETED \<equiv> (0xFFFFFFFE :: u32)"
abbreviation (input) "HASH_ENTRY_SIZE \<equiv> (16 :: nat)"

record mpq_hash_entry =
  he_hash_a :: u32
  he_hash_b :: u32
  he_locale :: u16
  he_platform :: u16
  he_block_index :: u32

definition hash_entry_of :: "bytes \<Rightarrow> mpq_hash_entry" where
  "hash_entry_of c =
     \<lparr>he_hash_a = u32_at c 0, he_hash_b = u32_at c 4, he_locale = u16_at c 8, he_platform = u16_at c 10,
      he_block_index = u32_at c 12\<rparr>"

definition parse_hash_table :: "bytes \<Rightarrow> nat \<Rightarrow> mpq_hash_entry list mpq_result" where
  "parse_hash_table bs n =
     (let expected = n * HASH_ENTRY_SIZE
      in if length bs < expected then Inl (MpqErr CorruptedHashTable)
         else and_then (slice bs 0 expected) (\<lambda>d.
           Inr (map hash_entry_of
                 (chunks_exact HASH_ENTRY_SIZE (decrypt_bytes d (hash_string (str ''(hash table)'') HASH_FILE_KEY))))))"

text \<open>The probe sequence from the \<open>i\<close>-th entry on; \<^verbatim>\<open>&\<close> with the mask is on 64-bit numbers.\<close>

fun probe :: "mpq_hash_entry list \<Rightarrow> u32 \<Rightarrow> u32 \<Rightarrow> nat \<Rightarrow> nat list \<Rightarrow> u32 option" where
  "probe entries hash_a hash_b start [] = None"
| "probe entries hash_a hash_b start (i # is) =
     (let entry = entries ! ((start + i) mod length entries)
      in if he_block_index entry = HASH_ENTRY_EMPTY then None
         else if he_block_index entry \<noteq> HASH_ENTRY_DELETED \<and> he_hash_a entry = hash_a \<and> he_hash_b entry = hash_b
         then Some (he_block_index entry)
         else probe entries hash_a hash_b start is)"

definition probe_start :: "bytes \<Rightarrow> nat \<Rightarrow> nat" where
  "probe_start filename n = unat (hash_string filename HASH_TABLE_OFFSET) AND (n - 1)"

definition find_block_index :: "mpq_hash_entry list \<Rightarrow> bytes \<Rightarrow> u32 option" where
  "find_block_index entries filename =
     (if entries = [] then None
      else probe entries (hash_string filename HASH_NAME_A) (hash_string filename HASH_NAME_B)
             (probe_start filename (length entries)) [0..<length entries])"

section \<open>Block table\<close>

abbreviation "FILE_IMPLODE \<equiv> (0x100 :: u32)"
abbreviation "FILE_COMPRESS \<equiv> (0x200 :: u32)"
abbreviation "FILE_ENCRYPTED \<equiv> (0x10000 :: u32)"
abbreviation "FILE_FIX_KEY \<equiv> (0x20000 :: u32)"
abbreviation "FILE_PATCH_FILE \<equiv> (0x100000 :: u32)"
abbreviation "FILE_SINGLE_UNIT \<equiv> (0x1000000 :: u32)"
abbreviation (input) "BLOCK_ENTRY_SIZE \<equiv> (16 :: nat)"

record mpq_block_entry =
  be_file_pos :: nat
  be_compressed_size :: nat
  be_file_size :: nat
  be_flags :: u32

definition is_encrypted :: "mpq_block_entry \<Rightarrow> bool" where "is_encrypted b \<longleftrightarrow> be_flags b AND FILE_ENCRYPTED \<noteq> 0"
definition has_fixed_key :: "mpq_block_entry \<Rightarrow> bool" where "has_fixed_key b \<longleftrightarrow> be_flags b AND FILE_FIX_KEY \<noteq> 0"
definition is_compressed :: "mpq_block_entry \<Rightarrow> bool" where "is_compressed b \<longleftrightarrow> be_flags b AND FILE_COMPRESS \<noteq> 0"
definition is_imploded :: "mpq_block_entry \<Rightarrow> bool" where "is_imploded b \<longleftrightarrow> be_flags b AND FILE_IMPLODE \<noteq> 0"
definition is_single_unit :: "mpq_block_entry \<Rightarrow> bool" where "is_single_unit b \<longleftrightarrow> be_flags b AND FILE_SINGLE_UNIT \<noteq> 0"

definition block_entry_of :: "bytes \<Rightarrow> mpq_block_entry" where
  "block_entry_of c =
     \<lparr>be_file_pos = unat (u32_at c 0), be_compressed_size = unat (u32_at c 4), be_file_size = unat (u32_at c 8),
      be_flags = u32_at c 12\<rparr>"

definition parse_block_table :: "bytes \<Rightarrow> nat \<Rightarrow> mpq_block_entry list mpq_result" where
  "parse_block_table bs n =
     (let expected = n * BLOCK_ENTRY_SIZE
      in if length bs < expected then Inl (MpqErr CorruptedBlockTable)
         else and_then (slice bs 0 expected) (\<lambda>d.
           Inr (map block_entry_of
                 (chunks_exact BLOCK_ENTRY_SIZE (decrypt_bytes d (hash_string (str ''(block table)'') HASH_FILE_KEY))))))"

definition block_get :: "mpq_block_entry list \<Rightarrow> nat \<Rightarrow> mpq_block_entry option" where
  "block_get entries i = (if i < length entries then Some (entries ! i) else None)"

end
