(* ===== verification/Mpq_Archive.thy ===== *)
theory Mpq_Archive
  imports Mpq_Tables
begin

text \<open>
  Reading files of an MPQ archive (\<^verbatim>\<open>archive.rs\<close> and \<^verbatim>\<open>compression.rs\<close> of \<^verbatim>\<open>spectre-mpq\<close>). The
  decompressors of the crates flate2 and implode are parameters. The output buffer is written from its start
  without gaps, so a result is the list of bytes written; the length of the buffer is an argument.
\<close>

section \<open>Decompression\<close>

text \<open>
  \<open>dz_zlib payload n\<close> is what zlib writes to a buffer of length \<open>n\<close>; the state \<open>'s\<close> of an exploder has a start, an end flag
  and a step that consumes input and yields output.
\<close>

record 's decoders =
  dz_zlib :: "bytes \<Rightarrow> nat \<Rightarrow> bytes option"
  dz_exploder :: 's
  dz_ended :: "'s \<Rightarrow> bool"
  dz_explode :: "'s \<Rightarrow> bytes \<Rightarrow> (nat \<times> bytes \<times> 's) option"

abbreviation (input) "COMPRESSION_ZLIB \<equiv> (0x02 :: u8)"
abbreviation (input) "COMPRESSION_PKWARE \<equiv> (0x08 :: u8)"
abbreviation (input) "COMPRESSION_BZIP2 \<equiv> (0x10 :: u8)"

function explode_loop :: "'s decoders \<Rightarrow> bytes \<Rightarrow> nat \<Rightarrow> 's \<Rightarrow> nat \<Rightarrow> bytes \<Rightarrow> bytes mpq_result" where
  "explode_loop dz bs n ex cpos out =
     (if dz_ended dz ex \<or> cpos \<ge> length bs then Inr out
      else case dz_explode dz ex (drop cpos bs) of
             None \<Rightarrow> Inl (MpqErr DecompressionFailed)
           | Some (consumed, block, ex) \<Rightarrow>
               if length out + length block > n then Inl (MpqErr DecompressionFailed)
               else if consumed = 0 \<and> block = [] then Inr (out @ block)
               else explode_loop dz bs n ex (cpos + consumed) (out @ block))"
  by pat_completeness auto

termination explode_loop
  by (relation "measure (\<lambda>(dz, bs, n, ex, cpos, out). (length bs - cpos) + (n - length out))")
     (auto simp flip: length_greater_0_conv)

declare explode_loop.simps [simp del]

definition decompress_pkware :: "'s decoders \<Rightarrow> bytes \<Rightarrow> nat \<Rightarrow> bytes mpq_result" where
  "decompress_pkware dz bs n =
     (if bs = [] then Inr []
      else if bs ! 0 = 1 then Inl (MpqErr DecompressionFailed)
      else explode_loop dz bs n (dz_exploder dz) 0 [])"

definition decompress_multi :: "'s decoders \<Rightarrow> bytes \<Rightarrow> nat \<Rightarrow> bytes mpq_result" where
  "decompress_multi dz bs n =
     (case bs of
        [] \<Rightarrow> Inr []
      | kind # payload \<Rightarrow>
          if kind AND COMPRESSION_ZLIB \<noteq> 0
          then (case dz_zlib dz payload n of Some out \<Rightarrow> Inr out | None \<Rightarrow> Inl (MpqErr DecompressionFailed))
          else if kind AND COMPRESSION_PKWARE \<noteq> 0 then decompress_pkware dz payload n
          else if kind AND COMPRESSION_BZIP2 \<noteq> 0 then Inl (MpqErr (UnsupportedCompression COMPRESSION_BZIP2))
          else Inl (MpqErr (UnsupportedCompression kind)))"

section \<open>Archives\<close>

record mpq_archive =
  ar_data :: bytes
  ar_header :: mpq_header
  ar_hash_table :: "mpq_hash_entry list"
  ar_block_table :: "mpq_block_entry list"

definition from_bytes :: "bytes \<Rightarrow> mpq_archive mpq_result" where
  "from_bytes bs =
     and_then (mpq_locate bs) (\<lambda>header.
     let hash_end = mh_hash_table_offset header + mh_hash_table_count header * 16;
         block_end = mh_block_table_offset header + mh_block_table_count header * 16
     in if hash_end > length bs then Inl (MpqErr CorruptedHashTable)
        else and_then (and_then (slice bs (mh_hash_table_offset header) hash_end)
                         (\<lambda>d. parse_hash_table d (mh_hash_table_count header))) (\<lambda>hash_table.
        if block_end > length bs then Inl (MpqErr CorruptedBlockTable)
        else and_then (and_then (slice bs (mh_block_table_offset header) block_end)
                         (\<lambda>d. parse_block_table d (mh_block_table_count header))) (\<lambda>block_table.
        Inr \<lparr>ar_data = bs, ar_header = header, ar_hash_table = hash_table, ar_block_table = block_table\<rparr>)))"

definition has_file :: "mpq_archive \<Rightarrow> bytes \<Rightarrow> bool" where
  "has_file a filename \<longleftrightarrow> find_block_index (ar_hash_table a) filename \<noteq> None"

definition mpq_file_size :: "mpq_archive \<Rightarrow> bytes \<Rightarrow> u32 option" where
  "mpq_file_size a filename =
     Option.bind (find_block_index (ar_hash_table a) filename) (\<lambda>i.
       map_option (\<lambda>b. of_nat (be_file_size b)) (block_get (ar_block_table a) (unat i)))"

text \<open>The part of a name after the last slash or backslash.\<close>

definition basename :: "bytes \<Rightarrow> bytes" where
  "basename filename = rev (takeWhile (\<lambda>c. c \<noteq> 92 \<and> c \<noteq> 47) (rev filename))"

definition file_key_of :: "mpq_block_entry \<Rightarrow> bytes \<Rightarrow> u32" where
  "file_key_of b filename =
     (if is_encrypted b
      then let key = hash_string (basename filename) HASH_FILE_KEY
           in if has_fixed_key b then (key + of_nat (be_file_pos b)) XOR of_nat (be_file_size b) else key
      else 0)"

definition decrypt_if :: "mpq_block_entry \<Rightarrow> u32 \<Rightarrow> bytes \<Rightarrow> bytes" where
  "decrypt_if b key bs = (if is_encrypted b then decrypt_bytes bs key else bs)"

definition read_single_unit :: "'s decoders \<Rightarrow> mpq_block_entry \<Rightarrow> bytes \<Rightarrow> u32 \<Rightarrow> nat \<Rightarrow> bytes mpq_result" where
  "read_single_unit dz b raw_data file_key n =
     (let in_buf = decrypt_if b file_key raw_data
      in if is_compressed b \<and> n > length in_buf then decompress_multi dz in_buf n
         else if is_imploded b then decompress_pkware dz in_buf n
         else Inr (take (min (min (be_file_size b) n) (length in_buf)) in_buf))"

text \<open>One sector: \<open>target\<close> is the length of the part of the buffer it may fill.\<close>

definition read_sector :: "'s decoders \<Rightarrow> mpq_block_entry \<Rightarrow> bytes \<Rightarrow> nat \<Rightarrow> nat \<Rightarrow> bytes mpq_result" where
  "read_sector dz b sector unpacked target =
     (if length sector = unpacked then Inr (take (min (length sector) target) sector)
      else if is_compressed b then decompress_multi dz sector target
      else if is_imploded b then decompress_pkware dz sector target
      else Inr (take (min (length sector) target) sector))"

primrec read_sectors ::
    "'s decoders \<Rightarrow> mpq_block_entry \<Rightarrow> nat \<Rightarrow> bytes \<Rightarrow> u32 \<Rightarrow> nat \<Rightarrow> nat list \<Rightarrow> nat list \<Rightarrow> bytes \<Rightarrow> bytes mpq_result" where
  "read_sectors dz b sector_size raw file_key n offsets [] out = Inr out"
| "read_sectors dz b sector_size raw file_key n offsets (i # is) out =
     (if Suc i < length offsets
      then let start = offsets ! i; end_pos = offsets ! Suc i
           in if start > end_pos \<or> end_pos > length raw then Inl (MpqErr InvalidSectorTable)
              else and_then (slice raw start end_pos) (\<lambda>d.
                let sector = decrypt_if b (file_key + of_nat i) d;
                    num_sectors = (be_file_size b + sector_size - 1) div sector_size;
                    unpacked = (if i = num_sectors - 1 then be_file_size b - i * sector_size else sector_size);
                    out_end = min (length out + unpacked) n
                in if length out \<le> out_end
                   then and_then (read_sector dz b sector unpacked (out_end - length out)) (\<lambda>written.
                     read_sectors dz b sector_size raw file_key n offsets is (out @ written))
                   else Inl MpqPanic)
      else Inl MpqPanic)"

definition sector_offsets_of :: "bytes \<Rightarrow> nat list" where
  "sector_offsets_of bs = map (\<lambda>c. unat (from_le c :: u32)) (chunks_exact 4 bs)"

definition read_sector_file ::
    "'s decoders \<Rightarrow> mpq_header \<Rightarrow> mpq_block_entry \<Rightarrow> bytes \<Rightarrow> u32 \<Rightarrow> nat \<Rightarrow> bytes mpq_result" where
  "read_sector_file dz h b raw file_key n =
     (let sector_size = mh_sector_size h
      in if sector_size = 0 then Inl (MpqErr InvalidSectorTable)
         else let num_sectors = (be_file_size b + sector_size - 1) div sector_size
              in if be_flags b AND (FILE_COMPRESS OR FILE_IMPLODE) = 0
                 then Inr (take (min (min (be_file_size b) n) (length raw)) raw)
                 else let table_size = (num_sectors + 1) * 4
                      in if length raw < table_size then Inl (MpqErr InvalidSectorTable)
                         else and_then (slice raw 0 table_size) (\<lambda>t.
                           read_sectors dz b sector_size raw file_key n
                             (sector_offsets_of (decrypt_if b (file_key - 1) t)) [0..<num_sectors] []))"

definition read_file_by_block :: "'s decoders \<Rightarrow> mpq_archive \<Rightarrow> u32 \<Rightarrow> bytes \<Rightarrow> nat \<Rightarrow> bytes mpq_result" where
  "read_file_by_block dz a block_index filename n =
     (case block_get (ar_block_table a) (unat block_index) of
        None \<Rightarrow> Inl (MpqErr (FileNotFound filename))
      | Some b \<Rightarrow>
          if be_file_size b = 0 then Inr []
          else if be_flags b AND FILE_PATCH_FILE \<noteq> 0 then Inl (MpqErr (UnsupportedCompression 0xFF))
          else let pos = mh_archive_offset (ar_header a) + be_file_pos b;
                   end_pos = pos + be_compressed_size b
               in if end_pos > length (ar_data a) then Inl (MpqErr (UnexpectedEof end_pos (length (ar_data a))))
                  else and_then (slice (ar_data a) pos end_pos) (\<lambda>raw.
                    if is_single_unit b then read_single_unit dz b raw (file_key_of b filename) n
                    else read_sector_file dz (ar_header a) b raw (file_key_of b filename) n))"

definition read_file :: "'s decoders \<Rightarrow> mpq_archive \<Rightarrow> bytes \<Rightarrow> bytes mpq_result" where
  "read_file dz a filename =
     (case find_block_index (ar_hash_table a) filename of
        None \<Rightarrow> Inl (MpqErr (FileNotFound filename))
      | Some i \<Rightarrow>
          (case block_get (ar_block_table a) (unat i) of
             None \<Rightarrow> Inl (MpqErr (FileNotFound filename))
           | Some b \<Rightarrow> read_file_by_block dz a i filename (be_file_size b)))"

record mpq_file =
  mf_filename :: bytes
  mf_block_index :: u32
  mf_size :: nat

definition open_file :: "mpq_archive \<Rightarrow> bytes \<Rightarrow> mpq_file mpq_result" where
  "open_file a filename =
     (case find_block_index (ar_hash_table a) filename of
        None \<Rightarrow> Inl (MpqErr (FileNotFound filename))
      | Some i \<Rightarrow>
          (case block_get (ar_block_table a) (unat i) of
             None \<Rightarrow> Inl (MpqErr (FileNotFound filename))
           | Some b \<Rightarrow> Inr \<lparr>mf_filename = filename, mf_block_index = i, mf_size = be_file_size b\<rparr>))"

definition mpq_file_read :: "'s decoders \<Rightarrow> mpq_archive \<Rightarrow> mpq_file \<Rightarrow> nat \<Rightarrow> bytes mpq_result" where
  "mpq_file_read dz a f n = read_file_by_block dz a (mf_block_index f) (mf_filename f) n"

section \<open>Reading never panics\<close>

text \<open>A result that is no panic and fits a buffer of length \<open>n\<close>.\<close>

definition fits :: "nat \<Rightarrow> bytes mpq_result \<Rightarrow> bool" where
  "fits n r \<longleftrightarrow> (case r of Inl e \<Rightarrow> e \<noteq> MpqPanic | Inr out \<Rightarrow> length out \<le> n)"

definition zlib_law :: "'s decoders \<Rightarrow> bool" where
  "zlib_law dz \<longleftrightarrow> (\<forall>payload n out. dz_zlib dz payload n = Some out \<longrightarrow> length out \<le> n)"

lemma fits_simps [simp]: "fits n (Inl (MpqErr e))" "fits n (Inr out) \<longleftrightarrow> length out \<le> n" "\<not> fits n (Inl MpqPanic)"
  by (simp_all add: fits_def)

lemma fits_if: "(b \<Longrightarrow> fits n x) \<Longrightarrow> (\<not> b \<Longrightarrow> fits n y) \<Longrightarrow> fits n (if b then x else y)"
  by simp

lemma fits_slice:
  assumes "a \<le> b" "b \<le> length bs" "\<And>d. length d = b - a \<Longrightarrow> fits n (f d)"
  shows "fits n (and_then (slice bs a b) f)"
  using assms by (simp add: slice_def)

lemma fits_and_then:
  assumes "fits m r" "\<And>out. length out \<le> m \<Longrightarrow> fits n (f out)"
  shows "fits n (and_then r f)"
  using assms by (cases r) (auto simp: fits_def)

lemma fits_explode: "length out \<le> n \<Longrightarrow> fits n (explode_loop dz bs n ex cpos out)"
proof (induction dz bs n ex cpos out rule: explode_loop.induct)
  case (1 dz bs n ex cpos out)
  then show ?case
    by (subst explode_loop.simps) (auto split: option.split)
qed

lemma fits_pkware: "fits n (decompress_pkware dz bs n)"
  by (simp add: decompress_pkware_def fits_explode)

lemma fits_multi: "zlib_law dz \<Longrightarrow> fits n (decompress_multi dz bs n)"
  by (auto simp: decompress_multi_def zlib_law_def fits_pkware split: list.split option.split)

lemma fits_sector: "zlib_law dz \<Longrightarrow> fits target (read_sector dz b sector unpacked target)"
  by (simp add: read_sector_def fits_multi fits_pkware)

lemma fits_read_sectors:
  assumes "zlib_law dz"
  shows "\<forall>i \<in> set is. Suc i < length offsets \<Longrightarrow> length out \<le> n \<Longrightarrow>
    fits n (read_sectors dz b ss raw key n offsets is out)"
proof (induction "is" arbitrary: out)
  case (Cons i "is")
  have "fits n (read_sectors dz b ss raw key n offsets is (out @ w))"
    if "length w \<le> min (length out + u) n - length out" for w u using that Cons by simp
  then show ?case using Cons.prems
    by (auto simp: Let_def intro!: fits_slice fits_and_then [OF fits_sector [OF assms]])
qed simp

lemma length_offsets [simp]: "length t = 4 + m * 4 \<Longrightarrow> length (sector_offsets_of (decrypt_if b k t)) = Suc m"
  using chunks_exact_aligned(3) [of "decrypt_if b k t" "Suc m" 4] by (simp add: sector_offsets_of_def decrypt_if_def)

lemma fits_sector_file:
  assumes "zlib_law dz" shows "fits n (read_sector_file dz h b raw key n)"
  unfolding read_sector_file_def Let_def
  by (intro fits_if fits_slice fits_read_sectors [OF assms]) auto

lemma fits_read_by_block:
  assumes "zlib_law dz" shows "fits n (read_file_by_block dz a i name n)"
proof -
  have "fits n (read_single_unit dz b raw key n)" for b raw key
    by (simp add: read_single_unit_def Let_def fits_multi [OF assms] fits_pkware min_le_iff_disj)
  then show ?thesis unfolding read_file_by_block_def Let_def
    using fits_sector_file [OF assms] by (auto split: option.split intro!: fits_slice)
qed

lemma parse_at_no_panic: "parse_at bs a h \<noteq> Inl MpqPanic"
  by (simp add: parse_at_def slice_def)

lemma locate_no_panic: "mpq_locate bs \<noteq> Inl MpqPanic"
proof -
  have "aligned_search bs k \<noteq> Some (Inl MpqPanic)" for k
  proof (induction bs k rule: aligned_search.induct)
    case (1 bs k)
    then show ?case
      by (subst aligned_search.simps)
         (auto simp: header_here_def Let_def parse_at_no_panic split: option.split if_splits)
  qed
  then show ?thesis by (auto simp: mpq_locate_def parse_at_no_panic split: option.split)
qed

lemma tables_no_panic: "parse_hash_table bs n \<noteq> Inl MpqPanic" "parse_block_table bs n \<noteq> Inl MpqPanic"
  by (simp_all add: parse_hash_table_def parse_block_table_def slice_def Let_def)

lemma from_bytes_no_panic: "from_bytes bs \<noteq> Inl MpqPanic"
  using locate_no_panic [of bs]
  by (auto simp: from_bytes_def Let_def and_then_eq_Inl_iff slice_def tables_no_panic split: if_splits)



end
