(* ===== verification/Mpq_Store.thy ===== *)
theory Mpq_Store
  imports Mpq_Archive
begin

text \<open>
  What a program that writes MPQ archives stores, as a specification, and that the reader gets it back: a file cut
  into sectors, a table of their offsets before them, both encrypted; and the place of a name in the hash table.
\<close>

section \<open>Stored files\<close>

definition encrypt_if :: "mpq_block_entry \<Rightarrow> u32 \<Rightarrow> bytes \<Rightarrow> bytes" where
  "encrypt_if b key bs = (if is_encrypted b then encrypt_bytes bs key else bs)"

definition sector_count :: "nat \<Rightarrow> nat \<Rightarrow> nat" where
  "sector_count ss len = (len + ss - 1) div ss"

definition sector :: "nat \<Rightarrow> bytes \<Rightarrow> nat \<Rightarrow> bytes" where
  "sector ss content i = take ss (drop (i * ss) content)"

definition sector_start :: "nat \<Rightarrow> bytes \<Rightarrow> nat \<Rightarrow> nat" where
  "sector_start ss content i = 4 * (sector_count ss (length content) + 1) + min (i * ss) (length content)"

definition stored_sectors :: "mpq_block_entry \<Rightarrow> nat \<Rightarrow> u32 \<Rightarrow> bytes \<Rightarrow> nat list \<Rightarrow> bytes" where
  "stored_sectors b ss key content is = concat (map (\<lambda>i. encrypt_if b (key + of_nat i) (sector ss content i)) is)"

definition stored_table :: "nat \<Rightarrow> bytes \<Rightarrow> u32 list" where
  "stored_table ss content = map (\<lambda>i. of_nat (sector_start ss content i)) [0..<sector_count ss (length content) + 1]"

definition stored_file :: "mpq_block_entry \<Rightarrow> nat \<Rightarrow> u32 \<Rightarrow> bytes \<Rightarrow> bytes" where
  "stored_file b ss key content =
     encrypt_if b (key - 1) (words_to_bytes (stored_table ss content))
     @ stored_sectors b ss key content [0..<sector_count ss (length content)]"

lemma length_encrypt [simp]: "length (encrypt_bytes bs key) = length bs"
proof -
  have "length (encrypt_words k s ws) = length ws" for k s ws by (induction ws arbitrary: k s) (simp_all add: Let_def)
  moreover have "length (words_to_bytes ws) = 4 * length ws" for ws
    by (induction ws) (simp_all add: words_to_bytes_def)
  moreover have "length (bytes_to_words bs) = length bs div 4"
    by (induction bs rule: bytes_to_words.induct) auto
  ultimately show ?thesis by (simp add: encrypt_bytes_def)
qed

lemma length_encrypt_if [simp]: "length (encrypt_if b key bs) = length bs"
  by (simp add: encrypt_if_def)

lemma decrypt_encrypt_if [simp]: "decrypt_if b key (encrypt_if b key bs) = bs"
  using bytes_split [of bs] length_tail [of bs]
  by (simp add: decrypt_if_def encrypt_if_def decrypt_bytes_def encrypt_bytes_def decrypt_loop_words decrypt_encrypt_words)

lemma length_words [simp]: "length (words_to_bytes ws) = 4 * length ws"
  by (induction ws) (simp_all add: words_to_bytes_def)

lemma offsets_of_words: "sector_offsets_of (words_to_bytes ws) = map unat ws"
proof (induction ws)
  case Nil
  then show ?case by (simp add: sector_offsets_of_def words_to_bytes_def chunks_exact_def)
next
  case (Cons w ws)
  have "chunks 4 (to_le 4 w @ words_to_bytes ws) = to_le 4 w # chunks 4 (words_to_bytes ws)" by (rule chunks_append) simp_all
  then show ?case using Cons
    by (simp add: sector_offsets_of_def words_to_bytes_def chunks_exact_def)
qed

lemma length_stored_sectors:
  "length (stored_sectors b ss key content [0..<k]) = min (k * ss) (length content)"
  by (induction k) (auto simp: stored_sectors_def sector_def min_def)

lemma content_step: "i * ss < length content \<Longrightarrow> take (i * ss) content @ sector ss content i = take (Suc i * ss) content"
  using take_add [of "i * ss" ss content] by (simp add: sector_def add.commute)

lemma sector_count_bounds:
  assumes "0 < ss"
  shows "i < sector_count ss len \<Longrightarrow> i * ss < len" "len \<le> sector_count ss len * ss"
proof -
  have "i < (len + ss - 1) div ss \<longleftrightarrow> Suc i * ss \<le> len + ss - 1"
    using assms less_eq_div_iff_mult_less_eq [of ss "Suc i" "len + ss - 1"] by (simp add: Suc_le_eq)
  then show "i < sector_count ss len \<Longrightarrow> i * ss < len" using assms by (auto simp: sector_count_def)
  have "len + ss - 1 < ((len + ss - 1) div ss + 1) * ss"
    using dividend_less_div_times [OF assms, of "len + ss - 1"] by simp
  then show "len \<le> sector_count ss len * ss" by (simp add: sector_count_def)
qed

lemma slice_sector:
  assumes "0 < ss" "i < sector_count ss (length content)" "length table = 4 * (sector_count ss (length content) + 1)"
  shows "slice (table @ stored_sectors b ss key content [0..<sector_count ss (length content)])
           (sector_start ss content i) (sector_start ss content (Suc i)) = Inr (encrypt_if b (key + of_nat i) (sector ss content i))"
proof -
  let ?n = "sector_count ss (length content)"
  have "[0..<?n] = [0..<i] @ i # [Suc i..<?n]"
    using assms(2) upt_add_eq_append [of 0 i "?n - i"] upt_conv_Cons [of i ?n] by simp
  then have split: "stored_sectors b ss key content [0..<?n] = stored_sectors b ss key content [0..<i]
      @ encrypt_if b (key + of_nat i) (sector ss content i) @ stored_sectors b ss key content [Suc i..<?n]"
    by (simp add: stored_sectors_def)
  have "i * ss < length content" using sector_count_bounds(1) [OF assms(1,2)] .
  then show ?thesis
    by (auto simp: slice_def split sector_start_def assms(3) length_stored_sectors sector_def min_def)
qed

lemma unpacked_size:
  assumes "0 < ss" "i < sector_count ss (length content)"
  shows "(if i = sector_count ss (length content) - 1 then length content - i * ss else ss) = length (sector ss content i)"
proof -
  let ?n = "sector_count ss (length content)"
  have "length content - i * ss \<le> ss" if "i = ?n - 1"
    using that assms sector_count_bounds(2) [OF assms(1), of "length content"] by (cases ?n) auto
  moreover have "Suc i * ss < length content" if "i \<noteq> ?n - 1"
    using that assms(2) by (intro sector_count_bounds(1) [OF assms(1)]) simp
  ultimately show ?thesis by (auto simp: sector_def min_def)
qed

lemma read_stored_sectors:
  assumes "0 < ss" "be_file_size b = length content"
    and "length table = 4 * (sector_count ss (length content) + 1)"
  defines "n \<equiv> sector_count ss (length content)"
  shows "i \<le> n \<Longrightarrow> read_sectors dz b ss (table @ stored_sectors b ss key content [0..<n]) key (length content)
     (map (sector_start ss content) [0..<n + 1]) [i..<n] (take (i * ss) content) = Inr content"
proof (induction "n - i" arbitrary: i)
  case 0
  then show ?case using sector_count_bounds(2) [OF assms(1), of "length content"] by (simp add: n_def)
next
  case (Suc k)
  then have i: "i < n" "[i..<n] = i # [Suc i..<n]" using upt_conv_Cons [of i n] by auto
  have low: "i * ss < length content" using sector_count_bounds(1) [OF assms(1)] i(1) by (simp add: n_def)
  let ?raw = "table @ stored_sectors b ss key content [0..<n]"
  have at: "map (sector_start ss content) [0..<n + 1] ! j = sector_start ss content j" if "j \<le> n" for j
    using that nth_map_upt [of j "n + 1" 0 "sector_start ss content"] by (simp del: upt_Suc)
  have raw: "slice ?raw (sector_start ss content i) (sector_start ss content (Suc i)) = Inr (encrypt_if b (key + of_nat i) (sector ss content i))"
    using slice_sector [OF assms(1) i(1) [unfolded n_def] assms(3)] by (simp add: n_def)
  then have ord: "sector_start ss content i \<le> sector_start ss content (Suc i)" "sector_start ss content (Suc i) \<le> length ?raw"
    by (auto simp: slice_def split: if_splits)
  have unp: "(if i = (be_file_size b + ss - 1) div ss - 1 then be_file_size b - i * ss else ss) = length (sector ss content i)"
    using unpacked_size [OF assms(1) i(1) [unfolded n_def]] unfolding assms(2) sector_count_def .
  have len: "length (take (i * ss) content) + length (sector ss content i) \<le> length content"
    using low by (simp add: sector_def)
  have "read_sectors dz b ss ?raw key (length content) (map (sector_start ss content) [0..<n + 1]) [Suc i..<n]
      (take (i * ss) content @ sector ss content i) = Inr content"
    using Suc.hyps(1) [of "Suc i"] Suc.hyps(2) i(1) content_step [OF low] by simp
  moreover have "read_sector dz b (sector ss content i) (length (sector ss content i))
      (min (length (take (i * ss) content) + length (sector ss content i)) (length content) - length (take (i * ss) content))
    = Inr (sector ss content i)" using len by (simp add: read_sector_def)
  moreover have "Suc i < length (map (sector_start ss content) [0..<n + 1])" using i(1) by simp
  moreover have "length (take (i * ss) content)
      \<le> min (length (take (i * ss) content) + length (sector ss content i)) (length content)" using len by simp
  moreover have "\<not> (sector_start ss content i > sector_start ss content (Suc i) \<or> sector_start ss content (Suc i) > length ?raw)"
    using ord by simp
  moreover have "i \<le> n" "Suc i \<le> n" using i(1) by auto
  ultimately show ?case
    by (simp only: i(2) read_sectors.simps if_True if_False at Let_def raw and_then.simps decrypt_encrypt_if unp)
qed

text \<open>Reading a stored file from the range its block names.\<close>

lemma read_stored_file:
  assumes "0 < mh_sector_size h" "be_file_size b = length content" "be_flags b AND (FILE_COMPRESS OR FILE_IMPLODE) \<noteq> 0"
    and small: "4 * (sector_count (mh_sector_size h) (length content) + 1) + length content < 2 ^ 32"
  shows "read_sector_file dz h b (stored_file b (mh_sector_size h) key content) key (length content) = Inr content"
proof -
  let ?ss = "mh_sector_size h" and ?n = "sector_count (mh_sector_size h) (length content)"
  let ?table = "encrypt_if b (key - 1) (words_to_bytes (stored_table ?ss content))"
  have len: "length ?table = 4 * (?n + 1)" by (simp add: stored_table_def)
  have fit: "unat (of_nat (sector_start ?ss content i) :: u32) = sector_start ?ss content i" for i
  proof -
    have "sector_start ?ss content i < 2 ^ 32" using small by (simp add: sector_start_def)
    then show ?thesis by (simp add: unat_of_nat take_bit_nat_eq_self)
  qed
  have offs: "sector_offsets_of (decrypt_if b (key - 1) ?table) = map (sector_start ?ss content) [0..<?n + 1]"
    by (simp add: offsets_of_words stored_table_def fit comp_def del: upt_Suc)
  have table: "slice (stored_file b ?ss key content) 0 ((?n + 1) * 4) = Inr ?table"
    using len by (simp add: slice_def stored_file_def mult.commute)
  have "read_sectors dz b ?ss (stored_file b ?ss key content) key (length content)
      (map (sector_start ?ss content) [0..<?n + 1]) [0..<?n] [] = Inr content"
    using read_stored_sectors [OF assms(1,2) len, of 0 dz key] by (simp add: stored_file_def)
  moreover have "(be_file_size b + ?ss - 1) div ?ss = ?n" by (simp only: assms(2) sector_count_def)
  moreover have "\<not> length (stored_file b ?ss key content) < (?n + 1) * 4" using len by (simp add: stored_file_def)
  ultimately show ?thesis
    unfolding read_sector_file_def Let_def using assms(1,3) table offs by (simp only: if_False and_then.simps) simp
qed

section \<open>Names\<close>

text \<open>
  The entry a name gets: the first free one on its probe sequence, with the table otherwise full of other names up to
  there.
\<close>

definition probe_at :: "mpq_hash_entry list \<Rightarrow> bytes \<Rightarrow> nat \<Rightarrow> mpq_hash_entry" where
  "probe_at entries name i = entries ! ((probe_start name (length entries) + i) mod length entries)"

definition names_entry :: "bytes \<Rightarrow> mpq_hash_entry \<Rightarrow> bool" where
  "names_entry name e \<longleftrightarrow> he_hash_a e = hash_string name HASH_NAME_A \<and> he_hash_b e = hash_string name HASH_NAME_B
     \<and> he_block_index e \<noteq> HASH_ENTRY_EMPTY \<and> he_block_index e \<noteq> HASH_ENTRY_DELETED"

lemma probe_hit:
  assumes "k < length entries" "names_entry name (probe_at entries name k)"
    and "\<And>i. j \<le> i \<Longrightarrow> i < k \<Longrightarrow> he_block_index (probe_at entries name i) \<noteq> HASH_ENTRY_EMPTY \<and> \<not> names_entry name (probe_at entries name i)"
  shows "j \<le> k \<Longrightarrow> probe entries (hash_string name HASH_NAME_A) (hash_string name HASH_NAME_B)
      (probe_start name (length entries)) [j..<length entries] = Some (he_block_index (probe_at entries name k))"
  using assms(3)
proof (induction "k - j" arbitrary: j)
  case 0
  then show ?case using assms(1,2) upt_conv_Cons [of k "length entries"] by (auto simp: names_entry_def probe_at_def Let_def)
next
  case (Suc d)
  then have "[j..<length entries] = j # [Suc j..<length entries]" "j < k" using assms(1) upt_conv_Cons [of j "length entries"] by auto
  moreover have "he_block_index (probe_at entries name j) \<noteq> HASH_ENTRY_EMPTY" "\<not> names_entry name (probe_at entries name j)"
    using Suc.prems(2) [of j] \<open>j < k\<close> by auto
  moreover have "probe entries (hash_string name HASH_NAME_A) (hash_string name HASH_NAME_B) (probe_start name (length entries)) (j # is)
      = probe entries (hash_string name HASH_NAME_A) (hash_string name HASH_NAME_B) (probe_start name (length entries)) is" for "is"
    using calculation(3,4) by (auto simp: probe_at_def names_entry_def Let_def)
  ultimately show ?case using Suc.hyps(1) [of "Suc j"] Suc.hyps(2) Suc.prems by simp
qed


definition witness_block :: mpq_block_entry where
  "witness_block = \<lparr>be_file_pos = 32, be_compressed_size = 11, be_file_size = 3, be_flags = 0x10200\<rparr>"

definition witness_archive :: "bytes \<Rightarrow> mpq_archive" where
  "witness_archive name =
     \<lparr>ar_data = replicate 32 0 @ stored_file witness_block 512 (file_key_of witness_block name) [1, 2, 3],
      ar_header = \<lparr>mh_archive_offset = 0, mh_header_size = 32, mh_archive_size = 43, mh_format_version = 0,
        mh_sector_size_shift = 0, mh_sector_size = 512, mh_hash_table_offset = 0, mh_block_table_offset = 0,
        mh_hash_table_count = 1, mh_block_table_count = 1\<rparr>,
      ar_hash_table = [\<lparr>he_hash_a = hash_string name HASH_NAME_A, he_hash_b = hash_string name HASH_NAME_B,
        he_locale = 0, he_platform = 0, he_block_index = 0\<rparr>],
      ar_block_table = [witness_block]\<rparr>"


end
