(* ===== verification/W3mmd.thy ===== *)
theory W3mmd
  imports Chat_Parse Game_State
begin

text \<open>
  Statistics that maps report by the W3MMD protocol (\<^verbatim>\<open>spectre-engine/src/w3mmd.rs\<close>). Floating point numbers
  are a type parameter with the operations the code uses; white space and lower case are those of the environment.
\<close>

section \<open>Statements\<close>

datatype 'f mmd_value = MmdNumber 'f | MmdText bytes

record 'f w3mmd =
  mmd_initialized :: bool
  mmd_flags :: "(u8 \<times> bytes) list"
  mmd_player_vars :: "((u8 \<times> bytes) \<times> 'f mmd_value) list"
  mmd_events :: "bytes list"

text \<open>\<^verbatim>\<open>f64\<close>: parsing, conversion, the constant zero, addition and subtraction.\<close>

record 'f float_ops =
  fo_parse :: "bytes \<Rightarrow> 'f option"
  fo_of_u32 :: "u32 \<Rightarrow> 'f"
  fo_zero :: 'f
  fo_add :: "'f \<Rightarrow> 'f \<Rightarrow> 'f"
  fo_sub :: "'f \<Rightarrow> 'f \<Rightarrow> 'f"

definition w3mmd_new :: "'f w3mmd" where
  "w3mmd_new = \<lparr>mmd_initialized = False, mmd_flags = [], mmd_player_vars = [], mmd_events = []\<rparr>"

definition set_var :: "u8 \<Rightarrow> bytes \<Rightarrow> 'f mmd_value \<Rightarrow> 'f w3mmd \<Rightarrow> 'f w3mmd" where
  "set_var pid name v w = w\<lparr>mmd_player_vars := AList.update (pid, name) v (mmd_player_vars w)\<rparr>"

definition current_num :: "'f float_ops \<Rightarrow> u8 \<Rightarrow> bytes \<Rightarrow> 'f w3mmd \<Rightarrow> 'f" where
  "current_num fo pid name w =
     (case map_of (mmd_player_vars w) (pid, name) of Some (MmdNumber n) \<Rightarrow> n | _ \<Rightarrow> fo_zero fo)"

text \<open>The operator of a variable statement; \<open>None\<close> where the code falls through.\<close>

definition apply_op ::
    "'f float_ops \<Rightarrow> u8 \<Rightarrow> bytes \<Rightarrow> bytes \<Rightarrow> bytes option \<Rightarrow> u32 option \<Rightarrow> 'f w3mmd \<Rightarrow> 'f w3mmd option" where
  "apply_op fo pid name op_sym val_str int_val w =
     (let target = (case Option.bind val_str (fo_parse fo) of
                      Some n \<Rightarrow> Some n | None \<Rightarrow> map_option (fo_of_u32 fo) int_val);
          current = current_num fo pid name w
      in if op_sym = str ''=''
         then Some (case target of
                      Some n \<Rightarrow> set_var pid name (MmdNumber n) w
                    | None \<Rightarrow> (case val_str of Some t \<Rightarrow> set_var pid name (MmdText t) w | None \<Rightarrow> w))
         else if op_sym = str ''+=''
         then map_option (\<lambda>n. set_var pid name (MmdNumber (fo_add fo current n)) w) target
         else if op_sym = str ''-=''
         then map_option (\<lambda>n. set_var pid name (MmdNumber (fo_sub fo current n)) w) target
         else map_option (\<lambda>n. set_var pid name (MmdNumber n) w) (fo_parse fo op_sym))"

definition var_statement ::
    "'f float_ops \<Rightarrow> bytes list \<Rightarrow> u32 option \<Rightarrow> 'f w3mmd \<Rightarrow> (bool \<times> 'f w3mmd) option" where
  "var_statement fo parts int_val w =
     (case parts of
        pid_str # name # rest \<Rightarrow>
          (case parse_word pid_str of
             None \<Rightarrow> Some (False, w)
           | Some pid \<Rightarrow>
               map_option (Pair True)
                 (case rest of
                    op_sym # rest \<Rightarrow>
                      apply_op fo pid name op_sym (case rest of v # _ \<Rightarrow> Some v | [] \<Rightarrow> None) int_val w
                  | [] \<Rightarrow> map_option (\<lambda>v. set_var pid name (MmdNumber (fo_of_u32 fo v)) w) int_val))
      | _ \<Rightarrow> Some (False, w))"

definition flag_statement :: "(bytes \<Rightarrow> bytes) \<Rightarrow> bytes list \<Rightarrow> 'f w3mmd \<Rightarrow> 'f w3mmd option" where
  "flag_statement lower parts w =
     (case parts of
        pid_str # flag # _ \<Rightarrow>
          map_option (\<lambda>pid. w\<lparr>mmd_flags := AList.update pid (lower flag) (mmd_flags w)\<rparr>) (parse_word pid_str)
      | _ \<Rightarrow> None)"

definition statement_text :: "bytes \<Rightarrow> bytes \<Rightarrow> bytes" where
  "statement_text mission key =
     (if 32 \<in> set key \<or> starts_with (str ''init'') key \<or> starts_with (str ''VarP'') key \<or> starts_with (str ''FlagP'') key
      then key else mission)"

definition parse_statement ::
    "'c env \<Rightarrow> 'f float_ops \<Rightarrow> bytes \<Rightarrow> bytes \<Rightarrow> u32 option \<Rightarrow> 'f w3mmd \<Rightarrow> bool \<times> 'f w3mmd" where
  "parse_statement env fo mission key int_val w =
     (case env_split_whitespace env (statement_text mission key) of
        [] \<Rightarrow> (False, w)
      | verb # parts \<Rightarrow>
          if eq_ignore_ascii_case verb (str ''init'') then (True, w\<lparr>mmd_initialized := True\<rparr>)
          else if eq_ignore_ascii_case verb (str ''FlagP'') \<and> flag_statement (env_lower env) parts w \<noteq> None
          then (True, the (flag_statement (env_lower env) parts w))
          else if eq_ignore_ascii_case verb (str ''VarP'')
          then (case var_statement fo parts int_val w of Some r \<Rightarrow> r | None \<Rightarrow> (False, w))
          else if eq_ignore_ascii_case verb (str ''Event'')
          then (True, w\<lparr>mmd_events := mmd_events w @ [join [32] parts]\<rparr>)
          else (False, w))"

section \<open>Actions\<close>

text \<open>
  A statement found at the front of \<open>bs\<close>: mission, key, value and the number of bytes to skip; \<open>None\<close> skips one byte.
\<close>

definition mmd_at :: "bytes \<Rightarrow> (bytes \<times> bytes \<times> u32 option \<times> nat) option" where
  "mmd_at bs =
     (if bs ! 0 \<in> {0x6B, 0x6C, 0x6D, 0x6F} \<and> eq_ignore_ascii_case (take 7 (drop 1 bs)) (str ''mmd.dat'') \<and> bs ! 8 = 0
      then (case position (\<lambda>b. b = 0) (drop 9 bs) of
              None \<Rightarrow> None
            | Some mission_null \<Rightarrow>
                let key_start = 9 + mission_null + 1
                in case position (\<lambda>b. b = 0) (drop key_start bs) of
                     None \<Rightarrow> None
                   | Some key_null \<Rightarrow>
                       let val_start = key_start + key_null + 1
                       in Some (utf8_lossy (take mission_null (drop 9 bs)), utf8_lossy (take key_null (drop key_start bs)),
                                if bs ! 0 \<noteq> 0x6F \<and> val_start + 4 \<le> length bs
                                then Some (from_le (take 4 (drop val_start bs))) else None,
                                val_start + (if bs ! 0 = 0x6F then 0 else 4)))
      else None)"

lemma mmd_at_skips: "mmd_at bs = Some (mission, key, v, n) \<Longrightarrow> 0 < n"
  by (auto simp: mmd_at_def Let_def split: if_splits option.splits)

function process_action :: "'c env \<Rightarrow> 'f float_ops \<Rightarrow> bytes \<Rightarrow> bool \<times> 'f w3mmd \<Rightarrow> bool \<times> 'f w3mmd" where
  "process_action env fo bs (any_parsed, w) =
     (if length bs < 9 then (any_parsed, w)
      else case mmd_at bs of
             None \<Rightarrow> process_action env fo (drop 1 bs) (any_parsed, w)
           | Some (mission, key, v, n) \<Rightarrow>
               (let (parsed, w) = parse_statement env fo mission key v w
                in process_action env fo (drop n bs) (any_parsed \<or> parsed, w)))"
  by pat_completeness auto

termination process_action
  by (relation "measure (\<lambda>(env, fo, bs, _). length bs)") (auto dest!: mmd_at_skips)

declare process_action.simps [simp del]

definition get_player_val :: "'f w3mmd \<Rightarrow> u8 \<Rightarrow> bytes \<Rightarrow> 'f mmd_value option" where
  "get_player_val w pid name = map_of (mmd_player_vars w) (pid, name)"

definition is_winner :: "'f w3mmd \<Rightarrow> u8 \<Rightarrow> bool" where
  "is_winner w pid = (case map_of (mmd_flags w) pid of Some f \<Rightarrow> f = str ''winner'' \<or> f = str ''won'' | None \<Rightarrow> False)"

end
