(* ===== verification/Bncs_Out.thy ===== *)
theory Bncs_Out
  imports Gps
begin

text \<open>
  The packets sent to the battle.net server (\<^verbatim>\<open>bncs/outgoing.rs\<close>, \<^verbatim>\<open>bncs/ids.rs\<close>), with
  header byte 0xFF: one definition per constructor function. Constructors that call
  \<^verbatim>\<open>expect\<close> have a fixed small payload; the others return the encoder's result.
\<close>

section \<open>Identifiers\<close>

abbreviation "BNCS_HEADER \<equiv> (0xFF :: u8)"
abbreviation "SID_NULL \<equiv> (0x00 :: u8)"
abbreviation "SID_STOPADV \<equiv> (0x02 :: u8)"
abbreviation "SID_GETADVLISTEX \<equiv> (0x09 :: u8)"
abbreviation "SID_ENTERCHAT \<equiv> (0x0A :: u8)"
abbreviation "SID_JOINCHANNEL \<equiv> (0x0C :: u8)"
abbreviation "SID_CHATCOMMAND \<equiv> (0x0E :: u8)"
abbreviation "SID_CHATEVENT \<equiv> (0x0F :: u8)"
abbreviation "SID_CHECKAD \<equiv> (0x15 :: u8)"
abbreviation "SID_STARTADVEX3 \<equiv> (0x1C :: u8)"
abbreviation "SID_NOTIFYJOIN \<equiv> (0x22 :: u8)"
abbreviation "SID_PING \<equiv> (0x25 :: u8)"
abbreviation "SID_LOGONRESPONSE \<equiv> (0x29 :: u8)"
abbreviation "SID_LOGONRESPONSE2 \<equiv> (0x3A :: u8)"
abbreviation "SID_NETGAMEPORT \<equiv> (0x45 :: u8)"
abbreviation "SID_AUTH_INFO \<equiv> (0x50 :: u8)"
abbreviation "SID_AUTH_CHECK \<equiv> (0x51 :: u8)"
abbreviation "SID_AUTH_ACCOUNTLOGON \<equiv> (0x53 :: u8)"
abbreviation "SID_AUTH_ACCOUNTLOGONPROOF \<equiv> (0x54 :: u8)"
abbreviation "SID_WARDEN \<equiv> (0x5E :: u8)"
abbreviation "SID_FRIENDSLIST \<equiv> (0x65 :: u8)"
abbreviation "SID_CLANCREATIONINVITATION \<equiv> (0x72 :: u8)"
abbreviation "SID_CLANINVITATION \<equiv> (0x77 :: u8)"
abbreviation "SID_CLANREMOVEMEMBER \<equiv> (0x78 :: u8)"
abbreviation "SID_CLANINVITATIONRESPONSE \<equiv> (0x79 :: u8)"
abbreviation "SID_CLANCHANGERANK \<equiv> (0x7A :: u8)"
abbreviation "SID_CLANSETMOTD \<equiv> (0x7B :: u8)"
abbreviation "SID_CLANMEMBERLIST \<equiv> (0x7D :: u8)"
abbreviation "SID_ICCUP_ANTIHACK \<equiv> (0xF7 :: u8)"
abbreviation "SID_ICCUP_CHALLENGE \<equiv> (0xF9 :: u8)"

section \<open>Packets\<close>

abbreviation bncs_frame :: "u8 \<Rightarrow> bytes \<Rightarrow> proto_error + bytes" where
  "bncs_frame i p \<equiv> encode_with BNCS_HEADER \<lparr>frame_id = i, frame_payload = p\<rparr>"

definition bncs_null :: bytes where
  "bncs_null = expect (bncs_frame SID_NULL [])"

definition stopadv :: bytes where
  "stopadv = expect (bncs_frame SID_STOPADV [])"

definition getadvlistex :: "bytes \<Rightarrow> proto_error + bytes" where
  "getadvlistex game_name =
     bncs_frame SID_GETADVLISTEX
       ([255, 3, 0, 0] @ [255, 3, 0, 0] @ [0, 0, 0, 0] @ [1, 0, 0, 0] @ put_cstring game_name
        @ put_u8 0 @ put_u8 0)"

definition enter_chat :: "proto_error + bytes" where
  "enter_chat = bncs_frame SID_ENTERCHAT (put_u8 0 @ put_u8 0)"

definition join_channel :: "bytes \<Rightarrow> proto_error + bytes" where
  "join_channel channel =
     (let flags = (if channel = [] then 1 else 2)
      in bncs_frame SID_JOINCHANNEL (put_u32_le flags @ put_cstring channel))"

definition bncs_chat_command :: "bytes \<Rightarrow> proto_error + bytes" where
  "bncs_chat_command command = bncs_frame SID_CHATCOMMAND (put_cstring command)"

definition checkad :: bytes where
  "checkad = expect (bncs_frame SID_CHECKAD (replicate 16 0))"

datatype game_visibility = VisPublic | VisPrivate | VisClose

fun visibility_as_u8 :: "game_visibility \<Rightarrow> u8" where
  "visibility_as_u8 VisPublic = 16"
| "visibility_as_u8 VisPrivate = 17"
| "visibility_as_u8 VisClose = 18"

text \<open>\<^verbatim>\<open>format!("{:08x}", n)\<close>: the eight hexadecimal digits of a \<^verbatim>\<open>u32\<close>, most significant first.\<close>

definition hex_lower :: "nat \<Rightarrow> u8" where
  "hex_lower d = (if d < 10 then of_nat (48 + d) else of_nat (87 + d))"

fun show_hex :: "nat \<Rightarrow> nat \<Rightarrow> bytes" where
  "show_hex 0 n = []"
| "show_hex (Suc k) n = show_hex k (n div 16) @ [hex_lower (n mod 16)]"

definition host_counter_string :: "u32 \<Rightarrow> bytes" where
  "host_counter_string host_counter = rev (show_hex 8 (unat host_counter))"

definition startadvex3_payload ::
    "game_visibility \<Rightarrow> bytes \<Rightarrow> bytes \<Rightarrow> u32 \<Rightarrow> bytes \<Rightarrow> u32 \<Rightarrow> bytes" where
  "startadvex3_payload visibility map_game_type game_name up_time stat_string host_counter =
     put_u8 (visibility_as_u8 visibility)
     @ [0, 0, 0]
     @ put_u32_le up_time
     @ map_game_type
     @ [255, 3, 0, 0]
     @ [0, 0, 0, 0]
     @ put_cstring game_name
     @ put_u8 0
     @ put_u8 98
     @ host_counter_string host_counter
     @ stat_string
     @ put_u8 0"

definition startadvex3 ::
    "game_visibility \<Rightarrow> bytes \<Rightarrow> bytes \<Rightarrow> bytes \<Rightarrow> u32 \<Rightarrow> bytes \<Rightarrow> u32 \<Rightarrow> proto_error + bytes" where
  "startadvex3 visibility map_game_type game_name host_name up_time stat_string host_counter =
     (if length stat_string \<ge> 128
      then Inl (BadValue ''stat string size exceeds Battle.net limit (must be < 128 bytes)'')
      else bncs_frame SID_STARTADVEX3
             (startadvex3_payload visibility map_game_type game_name up_time stat_string host_counter))"

definition notifyjoin :: "bytes \<Rightarrow> proto_error + bytes" where
  "notifyjoin game_name =
     bncs_frame SID_NOTIFYJOIN ([0, 0, 0, 0] @ [14, 0, 0, 0] @ put_cstring game_name)"

definition bncs_ping :: "bytes \<Rightarrow> bytes" where
  "bncs_ping val = expect (bncs_frame SID_PING val)"

definition logon_response :: "bytes \<Rightarrow> bytes \<Rightarrow> bytes \<Rightarrow> bytes \<Rightarrow> proto_error + bytes" where
  "logon_response client_token server_token password_hash account_name =
     bncs_frame SID_LOGONRESPONSE (client_token @ server_token @ password_hash @ put_cstring account_name)"

definition logon_response2 :: "bytes \<Rightarrow> bytes \<Rightarrow> bytes \<Rightarrow> bytes \<Rightarrow> proto_error + bytes" where
  "logon_response2 client_token server_token password_hash account_name =
     bncs_frame SID_LOGONRESPONSE2 (client_token @ server_token @ password_hash @ put_cstring account_name)"

definition auth_accountlogon :: "bytes \<Rightarrow> bytes \<Rightarrow> proto_error + bytes" where
  "auth_accountlogon client_public_key account_name =
     bncs_frame SID_AUTH_ACCOUNTLOGON (client_public_key @ put_cstring account_name)"

definition auth_accountlogonproof :: "bytes \<Rightarrow> proto_error + bytes" where
  "auth_accountlogonproof client_password_proof =
     bncs_frame SID_AUTH_ACCOUNTLOGONPROOF client_password_proof"

definition friendslist :: "proto_error + bytes" where
  "friendslist = bncs_frame SID_FRIENDSLIST []"

definition clanmemberlist :: "proto_error + bytes" where
  "clanmemberlist = bncs_frame SID_CLANMEMBERLIST [0, 0, 0, 0]"

definition netgameport :: "u16 \<Rightarrow> bytes" where
  "netgameport server_port = expect (bncs_frame SID_NETGAMEPORT (put_u16_le server_port))"

definition auth_info :: "u8 \<Rightarrow> bool \<Rightarrow> u32 \<Rightarrow> bytes \<Rightarrow> bytes \<Rightarrow> proto_error + bytes" where
  "auth_info ver tft locale_id country_abbrev country =
     bncs_frame SID_AUTH_INFO
       ([0, 0, 0, 0] @ [54, 56, 88, 73]
        @ (if tft then [80, 88, 51, 87] else [51, 82, 65, 87])
        @ [ver, 0, 0, 0] @ [83, 85, 110, 101] @ [127, 0, 0, 1] @ [44, 1, 0, 0]
        @ put_u32_le locale_id @ put_u32_le locale_id
        @ put_cstring country_abbrev @ put_cstring country)"

definition auth_check ::
    "bool \<Rightarrow> bytes \<Rightarrow> bytes \<Rightarrow> bytes \<Rightarrow> bytes \<Rightarrow> bytes \<Rightarrow> bytes \<Rightarrow> bytes \<Rightarrow> proto_error + bytes" where
  "auth_check tft client_token exe_version exe_version_hash key_info_roc key_info_tft exe_info
     key_owner_name =
     (let num_keys = (if tft then 2 else 1)
      in bncs_frame SID_AUTH_CHECK
           (client_token @ exe_version @ exe_version_hash @ put_u32_le num_keys @ put_u32_le 0
            @ key_info_roc @ (if tft then key_info_tft else [])
            @ put_cstring exe_info @ put_cstring key_owner_name))"

definition bncs_account_logon :: "bytes \<Rightarrow> bytes \<Rightarrow> proto_error + bytes" where
  "bncs_account_logon client_public_key account_name =
     bncs_frame SID_AUTH_ACCOUNTLOGON (client_public_key @ put_cstring account_name)"

definition account_logon_proof :: "bytes \<Rightarrow> proto_error + bytes" where
  "account_logon_proof client_password_proof =
     bncs_frame SID_AUTH_ACCOUNTLOGONPROOF client_password_proof"

definition claninvitation :: "bytes \<Rightarrow> proto_error + bytes" where
  "claninvitation account_name =
     bncs_frame SID_CLANINVITATION ([0, 0, 0, 0] @ put_cstring account_name)"

definition clanremovemember :: "bytes \<Rightarrow> proto_error + bytes" where
  "clanremovemember account_name =
     bncs_frame SID_CLANREMOVEMEMBER ([0, 0, 0, 0] @ put_cstring account_name)"

definition clanchangerank :: "bytes \<Rightarrow> u8 \<Rightarrow> proto_error + bytes" where
  "clanchangerank account_name rank =
     bncs_frame SID_CLANCHANGERANK ([0, 0, 0, 0] @ put_cstring account_name @ put_u8 rank)"

definition clansetmotd :: "bytes \<Rightarrow> proto_error + bytes" where
  "clansetmotd motd = bncs_frame SID_CLANSETMOTD ([0, 0, 0, 0] @ put_cstring motd)"

definition clancreationinvitation :: "bytes \<Rightarrow> bytes \<Rightarrow> bool \<Rightarrow> proto_error + bytes" where
  "clancreationinvitation tag inviter_name accept =
     bncs_frame SID_CLANCREATIONINVITATION
       ([0, 0, 0, 0] @ tag @ put_cstring inviter_name @ put_u8 (if accept then 0x06 else 0x04))"

definition claninvitationresponse :: "bytes \<Rightarrow> bytes \<Rightarrow> bool \<Rightarrow> proto_error + bytes" where
  "claninvitationresponse tag inviter_name accept =
     bncs_frame SID_CLANINVITATIONRESPONSE
       ([0, 0, 0, 0] @ tag @ put_cstring inviter_name @ put_u8 (if accept then 0x06 else 0x04))"

definition bncs_warden :: "bytes \<Rightarrow> proto_error + bytes" where
  "bncs_warden response = bncs_frame SID_WARDEN response"

definition iccup_antihack :: "bytes \<Rightarrow> proto_error + bytes" where
  "iccup_antihack payload = bncs_frame SID_ICCUP_ANTIHACK payload"

definition iccup_challenge_reply :: "bytes \<Rightarrow> proto_error + bytes" where
  "iccup_challenge_reply challenge =
     bncs_frame SID_ICCUP_ANTIHACK
       (if length challenge \<ge> 8
        then [0x00, 0x69, 0x59, 0x2f] @ take 4 challenge @ [0x7a, 0xc1, 0x15, 0x5a]
             @ take 4 (drop 4 challenge) @ [0x27, 0x00, 0x00, 0x0a, 0x0a, 0x00, 0x00, 0xae]
        else [0x00, 0x69, 0x59, 0x2f, 0xdd, 0xe9, 0x08, 0x6b, 0x7a, 0xc1, 0x15, 0x5a, 0xfb, 0x93,
              0x1d, 0x8d, 0x27, 0x00, 0x00, 0x0a, 0x0a, 0x00, 0x00, 0xae])"

section \<open>Framing\<close>

lemma length_show_hex [simp]: "length (show_hex k n) = k"
  by (induction k arbitrary: n) auto

lemma length_host_counter_string [simp]: "length (host_counter_string h) = 8"
  by (simp add: host_counter_string_def)

text \<open>The constructors that call \<^verbatim>\<open>expect\<close> cannot abort: their payload fits a frame.\<close>

lemma bncs_fixed_frames:
  "header_decode BNCS_HEADER (bncs_null @ rest) = (Inr (Some \<lparr>frame_id = SID_NULL, frame_payload = []\<rparr>), rest)"
  "header_decode BNCS_HEADER (stopadv @ rest) = (Inr (Some \<lparr>frame_id = SID_STOPADV, frame_payload = []\<rparr>), rest)"
  "header_decode BNCS_HEADER (checkad @ rest) =
     (Inr (Some \<lparr>frame_id = SID_CHECKAD, frame_payload = replicate 16 0\<rparr>), rest)"
  "length val = 4 \<Longrightarrow> header_decode BNCS_HEADER (bncs_ping val @ rest) =
     (Inr (Some \<lparr>frame_id = SID_PING, frame_payload = val\<rparr>), rest)"
  "header_decode BNCS_HEADER (netgameport port @ rest) =
     (Inr (Some \<lparr>frame_id = SID_NETGAMEPORT, frame_payload = put_u16_le port\<rparr>), rest)"
  unfolding bncs_null_def stopadv_def checkad_def bncs_ping_def netgameport_def
  by (rule header_decode_expect, simp)+

end
