(* ===== verification/Bncs_In.thy ===== *)
theory Bncs_In
  imports Bncs_Out
begin

text \<open>
  The packets the battle.net server sends (\<^verbatim>\<open>bncs/incoming.rs\<close>), and that a game announced
  with \<^verbatim>\<open>startadvex3\<close> is recognised when the server hands it out again.
\<close>

section \<open>Logging in\<close>

record auth_info_msg =
  ai_logon_type :: u32
  ai_server_token :: u32
  ai_mpq_file_time :: u64
  ai_ix86_ver_file_name :: bytes
  ai_value_string_formula :: bytes

definition decode_auth_info :: "bytes \<Rightarrow> proto_error + auth_info_msg" where
  "decode_auth_info b =
     and_then (try_get_u32_le b) (\<lambda>(logon_type, b).
     and_then (try_get_u32_le b) (\<lambda>(server_token, b).
     and_then (try_get_bytes 4 b) (\<lambda>(_, b).
     and_then (try_get_u32_le b) (\<lambda>(mpq_low, b).
     and_then (try_get_u32_le b) (\<lambda>(mpq_high, b).
     and_then (try_get_cstring b) (\<lambda>(ix86_ver_file_name, b).
     and_then (try_get_cstring b) (\<lambda>(value_string_formula, b).
     Inr \<lparr>ai_logon_type = logon_type, ai_server_token = server_token,
          ai_mpq_file_time = push_bit 32 (ucast mpq_high) OR ucast mpq_low,
          ai_ix86_ver_file_name = ix86_ver_file_name,
          ai_value_string_formula = value_string_formula\<rparr>)))))))"

record auth_check_msg =
  ac_key_state :: u32
  ac_key_state_description :: bytes

text \<open>
  \<^verbatim>\<open>try_get_cstring().unwrap_or_default()\<close>: when no NUL is found the reader has consumed all
  bytes, and the string is empty.
\<close>

definition cstring_or_default :: "bytes \<Rightarrow> bytes \<times> bytes" where
  "cstring_or_default b = (case try_get_cstring b of Inr r \<Rightarrow> r | Inl _ \<Rightarrow> ([], []))"

definition decode_auth_check :: "bytes \<Rightarrow> proto_error + auth_check_msg" where
  "decode_auth_check b =
     and_then (try_get_u32_le b) (\<lambda>(key_state, b).
     Inr \<lparr>ac_key_state = key_state, ac_key_state_description = fst (cstring_or_default b)\<rparr>)"

record account_logon_msg =
  al_status :: u32
  al_salt :: bytes
  al_server_public_key :: bytes

definition decode_account_logon :: "bytes \<Rightarrow> proto_error + account_logon_msg" where
  "decode_account_logon b =
     and_then (try_get_u32_le b) (\<lambda>(status, b).
     if status = 0 \<and> length b \<ge> 64 then
       and_then (try_get_bytes 32 b) (\<lambda>(s, b).
       and_then (try_get_bytes 32 b) (\<lambda>(k, b).
       Inr \<lparr>al_status = status, al_salt = s, al_server_public_key = k\<rparr>))
     else Inr \<lparr>al_status = status, al_salt = replicate 32 0, al_server_public_key = replicate 32 0\<rparr>)"

text \<open>
  The message at the end of a packet. The fallback for a missing NUL reads the bytes that
  are left, of which there are none: the failed reader has taken them.
\<close>

definition trim_end_nul :: "bytes \<Rightarrow> bytes" where
  "trim_end_nul s = rev (dropWhile (\<lambda>b. b = 0) (rev s))"

definition message_tail :: "bytes \<Rightarrow> bytes" where
  "message_tail b =
     (if b \<noteq> [] then
        (case try_get_cstring b of
           Inr (s, _) \<Rightarrow> s
         | Inl _ \<Rightarrow> (let b = ([] :: bytes);
                        rest = (case try_get_bytes (length b) b of Inr (r, _) \<Rightarrow> r | Inl _ \<Rightarrow> [])
                    in trim_end_nul (utf8_lossy rest)))
      else [])"

record logon_proof_msg =
  lp_status :: u32
  lp_server_password_proof :: bytes
  lp_message :: bytes

definition decode_logon_proof :: "bytes \<Rightarrow> proto_error + logon_proof_msg" where
  "decode_logon_proof b =
     and_then (try_get_u32_le b) (\<lambda>(status, b).
     and_then (if length b \<ge> 20 then try_get_bytes 20 b else Inr (replicate 20 0, b)) (\<lambda>(proof, b).
     Inr \<lparr>lp_status = status, lp_server_password_proof = proof, lp_message = message_tail b\<rparr>))"

section \<open>Chat\<close>

record chat_event_msg =
  ce_event_id :: u32
  ce_ping :: u32
  ce_user :: bytes
  ce_message :: bytes

definition decode_chat_event :: "bytes \<Rightarrow> proto_error + chat_event_msg" where
  "decode_chat_event b =
     and_then (try_get_u32_le b) (\<lambda>(event_id, b).
     and_then (try_get_u32_le b) (\<lambda>(_, b).
     and_then (try_get_u32_le b) (\<lambda>(png, b).
     and_then (try_get_bytes 4 b) (\<lambda>(_, b).
     and_then (try_get_bytes 4 b) (\<lambda>(_, b).
     and_then (try_get_bytes 4 b) (\<lambda>(_, b).
     let (user, b) = cstring_or_default b
     in Inr \<lparr>ce_event_id = event_id, ce_ping = png, ce_user = user, ce_message = message_tail b\<rparr>))))))"

definition decode_ping :: "bytes \<Rightarrow> proto_error + bytes" where
  "decode_ping b =
     and_then (try_get_bytes 4 b) (\<lambda>(bs, b). Inr [bs ! 0, bs ! 1, bs ! 2, bs ! 3])"

section \<open>The game list\<close>

record adv_list_entry =
  ale_ip :: bytes
  ale_port :: u16
  ale_game_name :: bytes
  ale_host_counter :: "u32 option"

text \<open>\<^verbatim>\<open>u32::from_str_radix(s, 16)\<close>: an optional plus sign and at least one digit, no overflow.\<close>

definition hex_val :: "u8 \<Rightarrow> nat option" where
  "hex_val b =
     (if in_range 48 57 b then Some (unat b - 48)
      else if in_range 97 102 b then Some (unat b - 87)
      else if in_range 65 70 b then Some (unat b - 55)
      else None)"

fun parse_hex_digits :: "nat \<Rightarrow> bytes \<Rightarrow> nat option" where
  "parse_hex_digits acc [] = Some acc"
| "parse_hex_digits acc (b # bs) =
     (case hex_val b of
        None \<Rightarrow> None
      | Some d \<Rightarrow> if acc * 16 + d < 2 ^ 32 then parse_hex_digits (acc * 16 + d) bs else None)"

definition parse_hex_u32 :: "bytes \<Rightarrow> u32 option" where
  "parse_hex_u32 s =
     (let digits = (if s \<noteq> [] \<and> hd s = 43 then tl s else s)
      in if digits = [] then None else map_option of_nat (parse_hex_digits 0 digits))"

definition parse_host_counter :: "bytes \<Rightarrow> u32 option" where
  "parse_host_counter hc = (if utf8_valid hc then parse_hex_u32 (concat (rev (utf8_chars hc))) else None)"

definition decode_getadvlistex :: "bytes \<Rightarrow> proto_error + adv_list_entry option" where
  "decode_getadvlistex payload =
     (case get_range payload 0 4 of
        None \<Rightarrow> Inl (Truncated 4 (length payload))
      | Some games_found_bytes \<Rightarrow>
          if (from_le games_found_bytes :: u32) = 0 then Inr None
          else if length payload < 20 then Inl (Truncated 20 (length payload))
          else (let port = from_le (rev (take 2 (drop 14 payload)));
                    ip = take 4 (drop 16 payload);
                    name_slice = drop 20 payload
                in case position (\<lambda>b. b = 0) name_slice of
                     None \<Rightarrow> Inl UnterminatedString
                   | Some nul_pos \<Rightarrow>
                       (let game_name = utf8_lossy (take nul_pos name_slice);
                            hc_start = nul_pos + 23;
                            hc_end = hc_start + 8
                        in case get_range payload hc_start hc_end of
                             None \<Rightarrow> Inl (Truncated hc_end (length payload))
                           | Some hc_bytes \<Rightarrow>
                               Inr (Some \<lparr>ale_ip = ip, ale_port = port, ale_game_name = game_name,
                                          ale_host_counter = parse_host_counter hc_bytes\<rparr>))))"

section \<open>Friends and clan\<close>

record friend_list_entry =
  fe_account :: bytes
  fe_status :: u8
  fe_area :: u8
  fe_location :: bytes

text \<open>The loops keep the bytes from \<^verbatim>\<open>offset\<close> on.\<close>

primrec friends_loop :: "nat \<Rightarrow> bytes \<Rightarrow> proto_error + friend_list_entry list" where
  "friends_loop 0 b = Inr []"
| "friends_loop (Suc n) b =
     (if b = [] then Inr []
      else case position (\<lambda>x. x = 0) b of
        None \<Rightarrow> Inl UnterminatedString
      | Some nul_pos \<Rightarrow>
          let account = utf8_lossy (take nul_pos b); b = drop (nul_pos + 1) b
          in if 6 > length b then Inr []
             else let status = b ! 0; area = b ! 1; b = drop 6 b
                  in case position (\<lambda>x. x = 0) b of
                       None \<Rightarrow> Inl UnterminatedString
                     | Some loc_nul \<Rightarrow>
                         and_then (friends_loop n (drop (loc_nul + 1) b)) (\<lambda>friends.
                         Inr (\<lparr>fe_account = account, fe_status = status, fe_area = area,
                               fe_location = utf8_lossy (take loc_nul b)\<rparr> # friends)))"

definition decode_friendslist :: "bytes \<Rightarrow> proto_error + friend_list_entry list" where
  "decode_friendslist payload =
     (if payload = [] then Inl (Truncated 1 0)
      else friends_loop (unat (payload ! 0)) (drop 1 payload))"

record clan_member_entry =
  cme_name :: bytes
  cme_rank :: u8
  cme_status :: u8
  cme_location :: bytes

primrec clan_loop :: "nat \<Rightarrow> bytes \<Rightarrow> proto_error + clan_member_entry list" where
  "clan_loop 0 b = Inr []"
| "clan_loop (Suc n) b =
     (if b = [] then Inr []
      else case position (\<lambda>x. x = 0) b of
        None \<Rightarrow> Inl UnterminatedString
      | Some nul_pos \<Rightarrow>
          let name = utf8_lossy (take nul_pos b); b = drop (nul_pos + 1) b
          in if 2 > length b then Inr []
             else let rank = b ! 0; status = b ! 1; b = drop 2 b
                  in case position (\<lambda>x. x = 0) b of
                       None \<Rightarrow> Inl UnterminatedString
                     | Some loc_nul \<Rightarrow>
                         and_then (clan_loop n (drop (loc_nul + 1) b)) (\<lambda>members.
                         Inr (\<lparr>cme_name = name, cme_rank = rank, cme_status = status,
                               cme_location = utf8_lossy (take loc_nul b)\<rparr> # members)))"

definition decode_clanmemberlist :: "bytes \<Rightarrow> proto_error + clan_member_entry list" where
  "decode_clanmemberlist payload =
     (if length payload < 5 then Inl (Truncated 5 (length payload))
      else clan_loop (unat (payload ! 4)) (drop 5 payload))"

record clan_invite =
  ci_tag :: bytes
  ci_clan_name :: bytes
  ci_inviter_name :: bytes

definition decode_clancreationinvitation :: "bytes \<Rightarrow> proto_error + clan_invite" where
  "decode_clancreationinvitation payload =
     (if length payload < 8 then Inl (Truncated 8 (length payload))
      else let tag = take 4 (drop 4 payload); b = drop 8 payload
           in case position (\<lambda>x. x = 0) b of
                None \<Rightarrow> Inl UnterminatedString
              | Some nul1 \<Rightarrow>
                  (let clan_name = utf8_lossy (take nul1 b); b = drop (nul1 + 1) b
                   in case position (\<lambda>x. x = 0) b of
                        None \<Rightarrow> Inl UnterminatedString
                      | Some nul2 \<Rightarrow>
                          Inr \<lparr>ci_tag = tag, ci_clan_name = clan_name,
                               ci_inviter_name = utf8_lossy (take nul2 b)\<rparr>))"

definition decode_claninvitationresponse :: "bytes \<Rightarrow> proto_error + clan_invite" where
  "decode_claninvitationresponse payload = decode_clancreationinvitation payload"

definition decode_warden :: "bytes \<Rightarrow> proto_error + bytes" where
  "decode_warden payload = Inr payload"

definition decode_checkad :: "bytes \<Rightarrow> proto_error + unit" where
  "decode_checkad payload = Inr ()"

section \<open>The host counter\<close>

lemma hex_digits_table:
  "list_all (\<lambda>d. hex_val (hex_lower d) = Some d \<and> hex_lower d < 128 \<and> hex_lower d \<noteq> 43 \<and> hex_lower d \<noteq> 0) [0..<16]"
  by code_simp

lemma hex_val_lower [simp]: "d < 16 \<Longrightarrow> hex_val (hex_lower d) = Some d"
  using hex_digits_table by (simp add: list_all_iff)

lemma hex_lower_facts: "d < 16 \<Longrightarrow> hex_lower d < 128 \<and> hex_lower d \<noteq> 43 \<and> hex_lower d \<noteq> 0"
  using hex_digits_table by (simp add: list_all_iff)

lemma show_hex_facts: "\<forall>b \<in> set (show_hex k n). b < 128 \<and> b \<noteq> 43 \<and> b \<noteq> 0"
  by (induction k arbitrary: n) (auto simp: hex_lower_facts)

lemma parse_hex_digits_append:
  "parse_hex_digits acc (xs @ ys) = Option.bind (parse_hex_digits acc xs) (\<lambda>a. parse_hex_digits a ys)"
  by (induction xs arbitrary: acc) (auto split: option.splits)

lemma parse_show_hex:
  "n < 16 ^ k \<Longrightarrow> acc * 16 ^ k + n < 2 ^ 32 \<Longrightarrow> parse_hex_digits acc (show_hex k n) = Some (acc * 16 ^ k + n)"
proof (induction k arbitrary: n)
  case 0
  then show ?case by simp
next
  case (Suc k)
  have n: "n div 16 * 16 + n mod 16 = n" by simp
  have lt: "n div 16 < 16 ^ k" using Suc.prems(1) by (simp add: less_mult_imp_div_less)
  have eq: "(acc * 16 ^ k + n div 16) * 16 + n mod 16 = acc * 16 ^ Suc k + n"
    by (simp only: distrib_right add.assoc mult.assoc n power_Suc2)
  then have "(acc * 16 ^ k + n div 16) * 16 + n mod 16 < 2 ^ 32" using Suc.prems(2) by (simp only: eq)
  moreover have "x * 16 + y < z \<Longrightarrow> x < z" for x y z :: nat by linarith
  ultimately have "acc * 16 ^ k + n div 16 < 2 ^ 32" by blast
  with Suc.IH [OF lt] have "parse_hex_digits acc (show_hex k (n div 16)) = Some (acc * 16 ^ k + n div 16)" .
  moreover have "parse_hex_digits (acc * 16 ^ k + n div 16) [hex_lower (n mod 16)] =
      Some (acc * 16 ^ Suc k + n)"
    unfolding parse_hex_digits.simps hex_val_lower [OF mod_less_divisor [OF zero_less_numeral]] option.case eq
    using Suc.prems(2) by (simp only: if_True)
  ultimately show ?case by (simp only: show_hex.simps parse_hex_digits_append bind.simps)
qed

lemma parse_hex_u32_show: "parse_hex_u32 (show_hex 8 (unat (w :: u32))) = Some w"
proof -
  let ?s = "show_hex 8 (unat w)"
  have "?s \<noteq> []" using length_show_hex [of 8 "unat w"] by force
  moreover from this have "hd ?s \<noteq> 43" using show_hex_facts [of 8 "unat w"] hd_in_set by blast
  moreover have "unat w < 2 ^ 32" using unsigned_less [of w] by simp
  then have "parse_hex_digits 0 ?s = Some (unat w)" using parse_show_hex [of "unat w" 8 0] by simp
  ultimately show ?thesis by (simp add: parse_hex_u32_def)
qed

lemma host_counter_roundtrip: "parse_host_counter (host_counter_string h) = Some h"
proof -
  have asc: "\<forall>b \<in> set (host_counter_string h). b < 128"
    using show_hex_facts by (simp add: host_counter_string_def)
  have "concat (rev (map (\<lambda>b. [b]) (host_counter_string h))) = show_hex 8 (unat h)"
    by (simp add: host_counter_string_def rev_map)
  then show ?thesis
    using asc parse_hex_u32_show [of h]
    by (simp add: parse_host_counter_def utf8_chars_ascii utf8_valid_ascii)
qed

end
