(* ===== verification/Advert.thy ===== *)
theory Advert
  imports Bncs_In
begin

text \<open>
  What a game is announced with (\<^verbatim>\<open>spectre-bnet/src/advert.rs\<close>, and \<^verbatim>\<open>advert_game_type\<close> of
  \<^verbatim>\<open>client.rs\<close>): the stat string, and which announcements battle.net's limit admits.
\<close>

record map_advert =
  ma_path :: bytes
  ma_size :: u32
  ma_info :: u32
  ma_crc :: u32
  ma_sha1 :: bytes
  ma_num_players :: u8
  ma_num_teams :: u8
  ma_width :: u16
  ma_height :: u16
  ma_game_type :: u32
  ma_flags :: u32

definition lan_raw :: "map_advert \<Rightarrow> bytes \<Rightarrow> bytes" where
  "lan_raw m host_name =
     put_u32_le (ma_flags m) @ [0] @ put_u16_le (ma_width m) @ put_u16_le (ma_height m)
     @ put_u32_le (ma_crc m) @ ma_path m @ [0] @ host_name @ [0] @ [0]"

definition encode_bnet_statstring :: "map_advert \<Rightarrow> bytes \<Rightarrow> bytes \<Rightarrow> bytes" where
  "encode_bnet_statstring m game_name host_name = encode_statstring (lan_raw m host_name @ ma_sha1 m)"

definition encode_lan_statstring :: "map_advert \<Rightarrow> bytes \<Rightarrow> bytes \<Rightarrow> bytes" where
  "encode_lan_statstring m game_name host_name = encode_statstring (lan_raw m host_name)"

definition advert_game_type :: "map_advert \<Rightarrow> game_visibility \<Rightarrow> bytes" where
  "advert_game_type m visibility =
     put_u32_le (if visibility = VisPrivate then ma_game_type m OR 0x00000800 else ma_game_type m)"

text \<open>The announcement of a game, as the client of battle.net makes it.\<close>

definition announce ::
    "game_visibility \<Rightarrow> map_advert \<Rightarrow> bytes \<Rightarrow> bytes \<Rightarrow> u32 \<Rightarrow> proto_error + bytes" where
  "announce visibility m name host_user host_counter =
     startadvex3 visibility (advert_game_type m visibility) name host_user 0
       (encode_bnet_statstring m name host_user) host_counter"

section \<open>Lengths\<close>

lemma length_encode_statstring: "length (encode_statstring raw) = length raw + (length raw + 6) div 7"
proof (induction raw rule: chunk_induct [where n = 7])
  case Nil
  show ?case by (simp add: encode_statstring_def)
next
  case (Short xs)
  then have "Suc 0 \<le> length xs" by (cases xs) auto
  with Short have "(length xs + 6) div 7 = 1" by (intro div_nat_eqI) auto
  with Short show ?case by (simp add: encode_statstring_short)
next
  case (Full xs ys)
  then have "(length (xs @ ys) + 6) div 7 = Suc ((length ys + 6) div 7)" by simp
  with Full show ?case by (simp add: encode_statstring_append)
qed simp

lemma length_lan_raw [simp]: "length (lan_raw m host) = 16 + length (ma_path m) + length host"
  by (simp add: lan_raw_def)

lemma length_advert_game_type [simp]: "length (advert_game_type m v) = 4"
  by (simp add: advert_game_type_def)

lemma drop_prefix: "length xs = n \<Longrightarrow> drop n (xs @ ys) = ys"
  by simp

lemma drop_startadvex3_payload:
  assumes "length gt = 4"
  shows "drop 20 (startadvex3_payload v gt name up stat hc) =
           put_cstring name @ [0, 98] @ host_counter_string hc @ stat @ [0]"
proof -
  have eq: "startadvex3_payload v gt name up stat hc =
      (put_u8 (visibility_as_u8 v) @ [0, 0, 0] @ put_u32_le up @ gt @ [255, 3, 0, 0] @ [0, 0, 0, 0])
      @ (put_cstring name @ [0, 98] @ host_counter_string hc @ stat @ [0])"
    by (simp add: startadvex3_payload_def)
  show ?thesis unfolding eq using assms by (intro drop_prefix) simp
qed

section \<open>The probe finds the game\<close>

text \<open>What the server answers to a probe for one game: an address, then the tail of the announcement.\<close>

definition adv_list_reply :: "bytes \<Rightarrow> u16 \<Rightarrow> bytes \<Rightarrow> bytes \<Rightarrow> bytes" where
  "adv_list_reply kind port ip tail = put_u32_le 1 @ kind @ rev (put_u16_le port) @ ip @ tail"

lemma position_cstring: "0 \<notin> set name \<Longrightarrow> position (\<lambda>b. b = 0) (put_cstring name @ rest) = Some (length name)"
  by (rule position_SomeI) (auto simp: put_cstring_def nth_append dest: nth_mem)

lemma decode_adv_list_reply:
  assumes "length kind = 10" and "length ip = 4" and "cstr_ok name"
  shows "decode_getadvlistex (adv_list_reply kind port ip
           (put_cstring name @ [0, 98] @ host_counter_string hc @ rest)) =
         Inr (Some \<lparr>ale_ip = ip, ale_port = port, ale_game_name = name, ale_host_counter = Some hc\<rparr>)"
proof -
  define tl where "tl = put_cstring name @ [0, 98] @ host_counter_string hc @ rest"
  let ?p = "adv_list_reply kind port ip tl"
  have "0 \<notin> set name" and "utf8_lossy name = name" using assms(3) by (auto simp: cstr_ok_def utf8_lossy_valid)
  have tl: "drop 20 ?p = tl" and port: "take 2 (drop 14 ?p) = rev (put_u16_le port)"
    and ip: "take 4 (drop 16 ?p) = ip" and len: "length ?p = 20 + length tl"
    using assms by (simp_all add: adv_list_reply_def)
  have games: "get_range ?p 0 4 = Some (put_u32_le 1)"
    using assms by (simp add: get_range_def adv_list_reply_def)
  have pos: "position (\<lambda>b. b = 0) tl = Some (length name)" and nm: "take (length name) tl = name"
    using \<open>0 \<notin> set name\<close> by (auto simp: tl_def position_cstring) (simp add: put_cstring_def)
  have "drop (length name + 23) ?p = drop (length name + 3) (drop 20 ?p)" by (simp add: add.commute)
  also have "\<dots> = host_counter_string hc @ rest" unfolding tl by (simp add: tl_def put_cstring_def)
  finally have hc: "get_range ?p (length name + 23) (length name + 23 + 8) = Some (host_counter_string hc)"
    using len by (simp add: get_range_def tl_def)
  show ?thesis
    unfolding tl_def [symmetric] decode_getadvlistex_def games option.case tl port ip pos nm Let_def hc
    using len \<open>utf8_lossy name = name\<close> by (simp add: host_counter_roundtrip)
qed

text \<open>
  C26. A game is announced exactly when its map path and the host's name together have at most
  75 bytes and the frame is not too long. The stat string carries the flags, the size and
  checksum of the map, its path, the host's name and the hash. The frame sent arrives,
  and when the server hands the announcement out again with an address, the probe recovers exactly
  the name of the game and its host counter.
\<close>

theorem advert_listed:
  assumes "length (ma_sha1 m) = 20" and "length kind = 10" and "length ip = 4" and "cstr_ok name"
  shows "(is_ok (announce v m name host hc) \<longleftrightarrow>
            length (ma_path m) + length host \<le> 75
            \<and> length name + length (encode_bnet_statstring m name host) \<le> 65499)
    \<and> decode_statstring (encode_bnet_statstring m name host) =
        put_u32_le (ma_flags m) @ [0] @ put_u16_le (ma_width m) @ put_u16_le (ma_height m)
        @ put_u32_le (ma_crc m) @ ma_path m @ [0] @ host @ [0, 0] @ ma_sha1 m
    \<and> (\<forall>bs. announce v m name host hc = Inr bs \<longrightarrow>
         (\<exists>f. header_decode BNCS_HEADER (bs @ rest) = (Inr (Some f), rest) \<and> frame_id f = SID_STARTADVEX3
            \<and> decode_getadvlistex (adv_list_reply kind port ip (drop 20 (frame_payload f))) =
                Inr (Some \<lparr>ale_ip = ip, ale_port = port, ale_game_name = name, ale_host_counter = Some hc\<rparr>)))"
proof (intro conjI allI impI)
  let ?stat = "encode_bnet_statstring m name host"
  let ?n = "length (ma_path m) + length host"
  let ?pl = "startadvex3_payload v (advert_game_type m v) name 0 ?stat hc"
  have "length ?stat = 36 + ?n + (36 + ?n + 6) div 7"
    using assms(1) by (simp add: encode_bnet_statstring_def length_encode_statstring)
  then have small: "length ?stat < 128 \<longleftrightarrow> ?n \<le> 75" by linarith
  have "length ?pl = 32 + length name + length ?stat"
    by (simp add: startadvex3_payload_def)
  then show "is_ok (announce v m name host hc) \<longleftrightarrow> ?n \<le> 75 \<and> length name + length ?stat \<le> 65499"
    using small by (auto simp: announce_def startadvex3_def encode_with_ok_iff)
  show "decode_statstring ?stat = put_u32_le (ma_flags m) @ [0] @ put_u16_le (ma_width m)
      @ put_u16_le (ma_height m) @ put_u32_le (ma_crc m) @ ma_path m @ [0] @ host @ [0, 0] @ ma_sha1 m"
    by (simp add: encode_bnet_statstring_def statstring_roundtrip lan_raw_def)
  fix bs assume ok: "announce v m name host hc = Inr bs"
  then have "header_decode BNCS_HEADER (bs @ rest) =
      (Inr (Some \<lparr>frame_id = SID_STARTADVEX3, frame_payload = ?pl\<rparr>), rest)"
    by (intro header_decode_encode) (simp add: announce_def startadvex3_def split: if_splits)
  moreover have "decode_getadvlistex (adv_list_reply kind port ip (drop 20 ?pl)) =
      Inr (Some \<lparr>ale_ip = ip, ale_port = port, ale_game_name = name, ale_host_counter = Some hc\<rparr>)"
    using decode_adv_list_reply [OF assms(2-4)] by (simp add: drop_startadvex3_payload)
  ultimately show "\<exists>f. header_decode BNCS_HEADER (bs @ rest) = (Inr (Some f), rest)
      \<and> frame_id f = SID_STARTADVEX3
      \<and> decode_getadvlistex (adv_list_reply kind port ip (drop 20 (frame_payload f))) =
          Inr (Some \<lparr>ale_ip = ip, ale_port = port, ale_game_name = name, ale_host_counter = Some hc\<rparr>)"
    by (intro exI conjI) auto
qed

theorem advert_listed_witness:
  "(\<exists>bs f. announce VisPrivate
       \<lparr>ma_path = [77, 97, 112], ma_size = 1, ma_info = 2, ma_crc = 3, ma_sha1 = replicate 20 7,
        ma_num_players = 10, ma_num_teams = 2, ma_width = 118, ma_height = 120, ma_game_type = 1,
        ma_flags = 5\<rparr> [68, 111] [71] 0xABCDEF1 = Inr bs
     \<and> header_decode BNCS_HEADER (bs @ []) = (Inr (Some f), [])
     \<and> decode_getadvlistex (adv_list_reply (replicate 10 0) 6112 [10, 0, 0, 1] (drop 20 (frame_payload f))) =
         Inr (Some \<lparr>ale_ip = [10, 0, 0, 1], ale_port = 6112, ale_game_name = [68, 111],
                    ale_host_counter = Some 0xABCDEF1\<rparr>))"
proof -
  let ?m = "\<lparr>ma_path = [77, 97, 112], ma_size = 1, ma_info = 2, ma_crc = 3, ma_sha1 = replicate 20 7,
        ma_num_players = 10, ma_num_teams = 2, ma_width = 118, ma_height = 120, ma_game_type = 1,
        ma_flags = 5\<rparr>"
  have ok: "cstr_ok [68, 111]" by (simp add: cstr_ok_def utf8_valid_ascii)
  note listed = advert_listed [where m = ?m and kind = "replicate 10 0" and ip = "[10, 0, 0, 1]"
      and name = "[68, 111]" and v = VisPrivate and host = "[71]" and hc = "0xABCDEF1" and rest = "[]"
      and port = "6112", simplified, OF ok]
  have "length (encode_bnet_statstring ?m [68, 111] [71]) = 46"
    by (simp add: encode_bnet_statstring_def length_encode_statstring)
  then have "is_ok (announce VisPrivate ?m [68, 111] [71] 0xABCDEF1)" using listed by simp
  then obtain bs where bs: "announce VisPrivate ?m [68, 111] [71] 0xABCDEF1 = Inr bs"
    using expect_is_ok by blast
  with listed show ?thesis by auto
qed

end
