(* ===== verification/Nls.thy ===== *)
theory Nls
  imports Wire
begin

text \<open>
  The logon proof of battle.net (\<^verbatim>\<open>spectre-bnet/src/bncsutil/nls.rs\<close>): a variant of the secure
  remote password protocol. The package \<^verbatim>\<open>num_bigint\<close> gives the natural numbers, of which
  \<^verbatim>\<open>modpow\<close> is a parameter, as is the SHA-1 of the package \<^verbatim>\<open>sha1\<close>. Random bytes are arguments.
  The protocol's algebra is proved once, in the locale \<open>srp_group\<close>, for any modulus and
  generator; the client's computation of the key and the server's are shown to agree.
\<close>

section \<open>Natural numbers as bytes\<close>

record crypto_ops =
  c_sha1 :: "bytes \<Rightarrow> bytes"
  c_modpow :: "nat \<Rightarrow> nat \<Rightarrow> nat \<Rightarrow> nat"

definition crypto_ok :: "crypto_ops \<Rightarrow> bool" where
  "crypto_ok C \<longleftrightarrow> (\<forall>b e m. 0 < m \<longrightarrow> c_modpow C b e m = b ^ e mod m) \<and> (\<forall>d. length (c_sha1 C d) = 20)"

text \<open>\<^verbatim>\<open>BigUint::from_bytes_le\<close> and \<^verbatim>\<open>to_bytes_le\<close> (zero has one byte).\<close>

primrec from_bytes_le :: "bytes \<Rightarrow> nat" where
  "from_bytes_le [] = 0"
| "from_bytes_le (b # bs) = unat b + 256 * from_bytes_le bs"

fun to_bytes_le :: "nat \<Rightarrow> bytes" where
  "to_bytes_le n = (if n < 256 then [of_nat n] else of_nat (n mod 256) # to_bytes_le (n div 256))"

declare to_bytes_le.simps [simp del]

text \<open>The bytes copied to the front of a zeroed array of 32.\<close>

definition pad32 :: "bytes \<Rightarrow> bytes" where
  "pad32 bs = (let len = min (length bs) 32 in take len bs @ replicate (32 - len) 0)"

section \<open>Constants\<close>

definition NLS_PRIME_BYTES :: bytes where
  "NLS_PRIME_BYTES = [
    0x87, 0xC7, 0x23, 0x85, 0x65, 0xF6, 0x16, 0x12, 0xD9, 0x12, 0x32, 0xC7, 0x78, 0x6C, 0x97, 0x7E,
    0x55, 0xB5, 0x92, 0xA0, 0x8C, 0xB6, 0x86, 0x21, 0x03, 0x18, 0x99, 0x61, 0x8B, 0x1A, 0xFF, 0xF8]"

definition NLS_G :: nat where "NLS_G = 47"

definition NLS_I :: bytes where
  "NLS_I = [0x6C, 0x0E, 0x97, 0xED, 0x0A, 0xF9, 0x6B, 0xAB, 0xB1, 0x58, 0x89, 0xEB, 0x8B, 0xBA,
    0x25, 0xA4, 0xF0, 0x8C, 0x01, 0xF8]"

definition NLS_SIGNATURE_KEY :: nat where "NLS_SIGNATURE_KEY = 0x10001"

definition NLS_SIG_N :: bytes where
  "NLS_SIG_N = [
    0xD5, 0xA3, 0xD6, 0xAB, 0x0F, 0x0D, 0xC5, 0x0F, 0xC3, 0xFA, 0x6E, 0x78, 0x9D, 0x0B, 0xE3, 0x32,
    0xB0, 0xFA, 0x20, 0xE8, 0x42, 0x19, 0xB4, 0xA1, 0x3A, 0x3B, 0xCD, 0x0E, 0x8F, 0xB5, 0x56, 0xB5,
    0xDC, 0xE5, 0xC1, 0xFC, 0x2D, 0xBA, 0x56, 0x35, 0x29, 0x0F, 0x48, 0x0B, 0x15, 0x5A, 0x39, 0xFC,
    0x88, 0x07, 0x43, 0x9E, 0xCB, 0xF3, 0xB8, 0x73, 0xC9, 0xE1, 0x77, 0xD5, 0xA1, 0x06, 0xA6, 0x20,
    0xD0, 0x82, 0xC5, 0x2D, 0x4D, 0xD3, 0x25, 0xF4, 0xFD, 0x26, 0xFC, 0xE4, 0xC2, 0x00, 0xDD, 0x98,
    0x2A, 0xF4, 0x3D, 0x5E, 0x08, 0x8A, 0xD3, 0x20, 0x41, 0x84, 0x32, 0x69, 0x8E, 0x8A, 0x34, 0x76,
    0xEA, 0x16, 0x8E, 0x66, 0x40, 0xD9, 0x32, 0xB0, 0x2D, 0xF5, 0xBD, 0xE7, 0x57, 0x51, 0x78, 0x96,
    0xC2, 0xED, 0x40, 0x41, 0xCC, 0x54, 0x9D, 0xFD, 0xB6, 0x8D, 0xC2, 0xBA, 0x7F, 0x69, 0x8D, 0xCF]"

definition nls_n :: nat where
  "nls_n = from_bytes_le NLS_PRIME_BYTES"

section \<open>Sessions\<close>

datatype nls_error = InvalidServerPublicKey

record nls_session =
  nls_username :: bytes
  nls_password :: bytes
  nls_a :: nat
  nls_a_pub :: bytes

definition nls_session_with :: "crypto_ops \<Rightarrow> bytes \<Rightarrow> bytes \<Rightarrow> nat \<Rightarrow> nls_session" where
  "nls_session_with C username password a =
     \<lparr>nls_username = username, nls_password = password, nls_a = a,
      nls_a_pub = pad32 (to_bytes_le (c_modpow C NLS_G a nls_n))\<rparr>"

definition nls_new :: "crypto_ops \<Rightarrow> bytes \<Rightarrow> bytes \<Rightarrow> bytes \<Rightarrow> nls_session" where
  "nls_new C username password a_bytes =
     nls_session_with C username password (from_bytes_le a_bytes mod nls_n)"

definition with_private_key_for_test :: "crypto_ops \<Rightarrow> bytes \<Rightarrow> bytes \<Rightarrow> u32 \<Rightarrow> nls_session" where
  "with_private_key_for_test C username password private_key =
     nls_session_with C username password (unat private_key)"

definition client_public_key :: "nls_session \<Rightarrow> bytes" where
  "client_public_key s = nls_a_pub s"

definition compute_x :: "crypto_ops \<Rightarrow> nls_session \<Rightarrow> bytes \<Rightarrow> nat" where
  "compute_x C s salt =
     (let upper_user = map to_ascii_upper (nls_username s);
          upper_pass = map to_ascii_upper (nls_password s);
          userpass_hash = c_sha1 C (upper_user @ str '':'' @ upper_pass)
      in from_bytes_le (c_sha1 C (salt @ userpass_hash)))"

definition compute_v :: "crypto_ops \<Rightarrow> nls_session \<Rightarrow> bytes \<Rightarrow> bytes" where
  "compute_v C s salt = pad32 (to_bytes_le (c_modpow C NLS_G (compute_x C s salt) nls_n))"

definition scrambler :: "crypto_ops \<Rightarrow> bytes \<Rightarrow> nat" where
  "scrambler C server_public_key =
     (let u_hash = c_sha1 C server_public_key in unat (from_le (rev (take 4 u_hash)) :: u32))"

definition compute_s :: "crypto_ops \<Rightarrow> nls_session \<Rightarrow> bytes \<Rightarrow> bytes \<Rightarrow> nls_error + bytes" where
  "compute_s C s server_public_key salt =
     (let n = nls_n; b = from_bytes_le server_public_key
      in if b = 0 \<or> b \<ge> n then Inl InvalidServerPublicKey
         else let x = compute_x C s salt;
                  v = c_modpow C NLS_G x n;
                  u = scrambler C server_public_key;
                  v_mod_n = v mod n;
                  base = (b + n - v_mod_n) mod n;
                  ex = nls_a s + u * x
              in Inr (pad32 (to_bytes_le (c_modpow C base ex n))))"

definition compute_k :: "crypto_ops \<Rightarrow> bytes \<Rightarrow> bytes" where
  "compute_k C s_bytes =
     (let odd_hash = c_sha1 C (map (\<lambda>i. s_bytes ! (i * 2)) [0..<16]);
          even_hash = c_sha1 C (map (\<lambda>i. s_bytes ! (i * 2 + 1)) [0..<16])
      in concat (map (\<lambda>i. [odd_hash ! i, even_hash ! i]) [0..<20]))"

definition compute_m1 :: "crypto_ops \<Rightarrow> nls_session \<Rightarrow> bytes \<Rightarrow> bytes \<Rightarrow> nls_error + bytes" where
  "compute_m1 C s server_public_key salt =
     and_then (compute_s C s server_public_key salt) (\<lambda>sec.
     let k = compute_k C sec;
         username_hash = c_sha1 C (map to_ascii_upper (nls_username s))
     in Inr (c_sha1 C (NLS_I @ username_hash @ salt @ nls_a_pub s @ server_public_key @ k)))"

definition compute_m2 :: "crypto_ops \<Rightarrow> nls_session \<Rightarrow> bytes \<Rightarrow> bytes \<Rightarrow> bytes \<Rightarrow> nls_error + bytes" where
  "compute_m2 C s server_public_key salt m1 =
     and_then (compute_s C s server_public_key salt) (\<lambda>sec.
     Inr (c_sha1 C (nls_a_pub s @ m1 @ compute_k C sec)))"

definition check_m2 :: "crypto_ops \<Rightarrow> nls_session \<Rightarrow> bytes \<Rightarrow> bytes \<Rightarrow> bytes \<Rightarrow> bool" where
  "check_m2 C s var_m2 server_public_key salt =
     (case compute_m1 C s server_public_key salt of
        Inr m1 \<Rightarrow> (case compute_m2 C s server_public_key salt m1 of
                     Inr expected_m2 \<Rightarrow> expected_m2 = var_m2
                   | Inl _ \<Rightarrow> False)
      | Inl _ \<Rightarrow> False)"

record nls_account_create =
  nac_salt :: bytes
  nac_v :: bytes
  nac_username :: bytes

record nls_account_logon =
  nal_a_pub :: bytes
  nal_username :: bytes

record nls_change_proof =
  ncp_m1 :: bytes
  ncp_new_salt :: bytes
  ncp_new_v :: bytes

definition account_create :: "crypto_ops \<Rightarrow> nls_session \<Rightarrow> bytes \<Rightarrow> nls_account_create" where
  "account_create C s salt =
     \<lparr>nac_salt = salt, nac_v = compute_v C s salt, nac_username = nls_username s\<rparr>"

definition nls_account_logon_of :: "nls_session \<Rightarrow> nls_account_logon" where
  "nls_account_logon_of s = \<lparr>nal_a_pub = nls_a_pub s, nal_username = nls_username s\<rparr>"

definition account_change_proof ::
    "crypto_ops \<Rightarrow> nls_session \<Rightarrow> bytes \<Rightarrow> bytes \<Rightarrow> bytes \<Rightarrow> bytes \<Rightarrow> bytes
     \<Rightarrow> nls_error + (nls_session \<times> nls_change_proof)" where
  "account_change_proof C s new_password server_public_key salt a_bytes new_salt =
     and_then (compute_m1 C s server_public_key salt) (\<lambda>m1.
     let new_session = nls_new C (nls_username s) new_password a_bytes
     in Inr (new_session, \<lparr>ncp_m1 = m1, ncp_new_salt = new_salt,
                           ncp_new_v = compute_v C new_session new_salt\<rparr>))"

text \<open>\<^verbatim>\<open>to_ne_bytes\<close> on a little-endian machine.\<close>

definition check_signature :: "crypto_ops \<Rightarrow> u32 \<Rightarrow> bytes \<Rightarrow> bool" where
  "check_signature C server_ip_be signature_raw =
     (let check = put_u32_le server_ip_be @ replicate 28 0xBB;
          result = c_modpow C (from_bytes_le signature_raw) NLS_SIGNATURE_KEY (from_bytes_le NLS_SIG_N);
          res_le = to_bytes_le result
      in if length res_le < 32 then False else take 32 res_le = check)"

section \<open>Bytes and numbers\<close>

lemma from_bytes_le_less: "from_bytes_le bs < 256 ^ length bs"
proof (induction bs)
  case (Cons b bs)
  have "unat b < 256" using unsigned_less [of b] by simp
  with Cons show ?case by simp
qed simp

lemma from_bytes_le_append_zeros [simp]: "from_bytes_le (bs @ replicate k 0) = from_bytes_le bs"
proof (induction bs)
  case Nil
  show ?case by (induction k) auto
qed simp

lemma from_bytes_le_to_bytes_le [simp]: "from_bytes_le (to_bytes_le n) = n"
proof (induction n rule: to_bytes_le.induct)
  case (1 n)
  then show ?case by (simp add: to_bytes_le.simps [of n] unsigned_of_nat take_bit_eq_mod)
qed

lemma length_to_bytes_le: "n < 256 ^ Suc k \<Longrightarrow> length (to_bytes_le n) \<le> Suc k"
proof (induction k arbitrary: n)
  case 0
  then show ?case by (simp add: to_bytes_le.simps)
next
  case (Suc k)
  then have "n div 256 < 256 ^ Suc k" by (simp add: less_mult_imp_div_less mult.commute)
  with Suc.IH [of "n div 256"] show ?case by (simp add: to_bytes_le.simps [of n])
qed

lemma length_pad32 [simp]: "length (pad32 bs) = 32"
  by (simp add: pad32_def Let_def)

lemma from_bytes_le_pad32: "n < 256 ^ 32 \<Longrightarrow> from_bytes_le (pad32 (to_bytes_le n)) = n"
  using length_to_bytes_le [of n 31] by (simp add: pad32_def Let_def)

lemma nls_n_pos: "0 < nls_n"
  by (simp add: nls_n_def NLS_PRIME_BYTES_def)

lemma nls_n_bound: "nls_n < 256 ^ 32"
  using from_bytes_le_less [of NLS_PRIME_BYTES] by (simp add: nls_n_def NLS_PRIME_BYTES_def)

section \<open>The key agreement\<close>

text \<open>
  The algebra of the protocol over any modulus and generator: a client with private key \<open>a\<close> and
  password exponent \<open>x\<close>, a server with private key \<open>b\<close> and verifier \<open>g ^ x\<close>.
\<close>

locale srp_group =
  fixes n g :: nat
  assumes pos: "0 < n"
begin

lemma unblind: "((v + g ^ b mod n) mod n + n - v mod n) mod n = g ^ b mod n"
proof -
  define w q where "w = g ^ b mod n" and "q = v mod n"
  have lt: "w < n" "q < n" using pos by (simp_all add: w_def q_def)
  have "(v + w) mod n = (q + w) mod n" by (simp add: q_def mod_add_left_eq)
  also have "\<dots> = (if q + w < n then q + w else q + w - n)" using lt by (simp add: mod_if)
  finally have "((v + w) mod n + n - q) mod n = w" using lt by (simp split: if_splits)
  then show ?thesis by (simp add: w_def q_def)
qed

lemma agreement: "(g ^ b mod n) ^ (a + u * x) mod n = ((g ^ a mod n) * (g ^ x mod n) ^ u) ^ b mod n"
proof -
  have "(g ^ b mod n) ^ (a + u * x) mod n = g ^ (b * (a + u * x)) mod n"
    by (simp add: power_mod power_mult)
  also have "b * (a + u * x) = (a + x * u) * b" by simp
  also have "g ^ ((a + x * u) * b) mod n = ((g ^ a * (g ^ x) ^ u) mod n) ^ b mod n"
    by (simp add: power_mod power_mult power_add)
  also have "(g ^ a * (g ^ x) ^ u) mod n = ((g ^ a mod n) * ((g ^ x) ^ u mod n)) mod n"
    by (rule mod_mult_eq [symmetric])
  also have "(g ^ x) ^ u mod n = (g ^ x mod n) ^ u mod n" by (rule power_mod [symmetric])
  also have "((g ^ a mod n) * ((g ^ x mod n) ^ u mod n)) mod n = ((g ^ a mod n) * (g ^ x mod n) ^ u) mod n"
    by (rule mod_mult_right_eq)
  finally show ?thesis by (simp only: power_mod)
qed

end

interpretation nls: srp_group nls_n NLS_G
  by unfold_locales (rule nls_n_pos)

text \<open>
  The server's side, as the protocol specifies it: it knows the verifier \<open>v\<close> of the account, adds
  it to its public key, and computes the key from the client's public key.
\<close>

definition server_public :: "nat \<Rightarrow> nat \<Rightarrow> bytes" where
  "server_public v b = pad32 (to_bytes_le ((v + NLS_G ^ b mod nls_n) mod nls_n))"

definition server_secret :: "crypto_ops \<Rightarrow> bytes \<Rightarrow> bytes \<Rightarrow> nat \<Rightarrow> nat \<Rightarrow> bytes" where
  "server_secret C a_pub b_pub v b =
     pad32 (to_bytes_le ((from_bytes_le a_pub * v ^ scrambler C b_pub) ^ b mod nls_n))"

definition server_m1 :: "crypto_ops \<Rightarrow> bytes \<Rightarrow> bytes \<Rightarrow> bytes \<Rightarrow> bytes \<Rightarrow> bytes \<Rightarrow> bytes" where
  "server_m1 C user salt a_pub b_pub sec =
     c_sha1 C (NLS_I @ c_sha1 C (map to_ascii_upper user) @ salt @ a_pub @ b_pub @ compute_k C sec)"

definition server_m2 :: "crypto_ops \<Rightarrow> bytes \<Rightarrow> bytes \<Rightarrow> bytes \<Rightarrow> bytes" where
  "server_m2 C a_pub m1 sec = c_sha1 C (a_pub @ m1 @ compute_k C sec)"

lemma modpow_ok: "crypto_ok C \<Longrightarrow> c_modpow C b e nls_n = b ^ e mod nls_n"
  using nls_n_pos by (simp add: crypto_ok_def)

lemma mod_n_bound: "k mod nls_n < 256 ^ 32"
  using nls_n_bound nls_n_pos by (meson mod_less_divisor order.strict_trans)

lemma pad32_mod_n: "from_bytes_le (pad32 (to_bytes_le (k mod nls_n))) = k mod nls_n"
  by (rule from_bytes_le_pad32 [OF mod_n_bound])

lemma a_pub_number:
  "crypto_ok C \<Longrightarrow> from_bytes_le (nls_a_pub (nls_session_with C user pass a)) = NLS_G ^ a mod nls_n"
  by (simp add: nls_session_with_def modpow_ok pad32_mod_n)

lemma verifier_number:
  "crypto_ok C \<Longrightarrow> from_bytes_le (compute_v C s salt) = NLS_G ^ compute_x C s salt mod nls_n"
  by (simp add: compute_v_def modpow_ok pad32_mod_n)

lemma server_public_number: "from_bytes_le (server_public v b) = (v + NLS_G ^ b mod nls_n) mod nls_n"
  by (simp add: server_public_def pad32_mod_n)

lemma compute_s_server:
  assumes C: "crypto_ok C" and s: "s = nls_session_with C user pass a"
    and v: "v = from_bytes_le (compute_v C s salt)" and B: "B = server_public v b"
    and nz: "from_bytes_le B \<noteq> 0"
  shows "compute_s C s B salt = Inr (server_secret C (client_public_key s) B v b)"
proof -
  let ?x = "compute_x C s salt" and ?u = "scrambler C B"
  have vx: "v = NLS_G ^ ?x mod nls_n" using v verifier_number [OF C] by simp
  have Bn: "from_bytes_le B = (v + NLS_G ^ b mod nls_n) mod nls_n" using B by (simp add: server_public_number)
  then have lt: "\<not> nls_n \<le> from_bytes_le B" using nls_n_pos by (simp add: not_le)
  have base: "(from_bytes_le B + nls_n - v mod nls_n) mod nls_n = NLS_G ^ b mod nls_n"
    unfolding Bn by (rule nls.unblind)
  have "compute_s C s B salt =
      Inr (pad32 (to_bytes_le ((NLS_G ^ b mod nls_n) ^ (nls_a s + ?u * ?x) mod nls_n)))"
    using nz lt base vx by (simp add: compute_s_def Let_def modpow_ok [OF C])
  also have "(NLS_G ^ b mod nls_n) ^ (nls_a s + ?u * ?x) mod nls_n =
      ((NLS_G ^ nls_a s mod nls_n) * v ^ ?u) ^ b mod nls_n"
    unfolding vx by (rule nls.agreement)
  also have "NLS_G ^ nls_a s mod nls_n = from_bytes_le (client_public_key s)"
    using a_pub_number [OF C, of user pass a] by (simp add: s client_public_key_def nls_session_with_def)
  finally show ?thesis by (simp add: server_secret_def)
qed

text \<open>
  C18. Client and server agree: against a server that holds the verifier the client registered,
  follows the protocol with any private key and sends a nonzero public key, the client's
  session key is the server's, its proof is the proof the server expects, and it accepts exactly the
  proof of that server. A public key that is zero or not below the modulus, from any
  server, is refused.
\<close>

theorem nls_logon_agrees:
  assumes "crypto_ok C"
    and s_def: "s = nls_new C user pass a_bytes"
    and v_def: "v = from_bytes_le (nac_v (account_create C s salt))"
    and B_def: "B = server_public v b"
    and sec_def: "sec = server_secret C (client_public_key s) B v b"
    and m1_def: "m1 = server_m1 C user salt (client_public_key s) B sec"
  shows "(from_bytes_le B \<noteq> 0 \<longrightarrow>
            compute_s C s B salt = Inr sec
            \<and> compute_m1 C s B salt = Inr m1
            \<and> (\<forall>m2. check_m2 C s m2 B salt \<longleftrightarrow> m2 = server_m2 C (client_public_key s) m1 sec))
    \<and> (from_bytes_le K = 0 \<or> nls_n \<le> from_bytes_le K \<longrightarrow>
         compute_m1 C s K salt = Inl InvalidServerPublicKey \<and> \<not> check_m2 C s m2 K salt)"
proof (rule conjI; rule impI)
  assume "from_bytes_le B \<noteq> 0"
  then have sec: "compute_s C s B salt = Inr sec"
    using compute_s_server [OF assms(1) _ _ B_def]
    by (simp add: s_def v_def sec_def nls_new_def account_create_def)
  moreover from this have m1: "compute_m1 C s B salt = Inr m1"
    by (simp add: compute_m1_def m1_def server_m1_def client_public_key_def s_def nls_new_def
        nls_session_with_def Let_def)
  moreover have "check_m2 C s m2 B salt \<longleftrightarrow> m2 = server_m2 C (client_public_key s) m1 sec" for m2
    using sec m1 by (auto simp: check_m2_def compute_m2_def server_m2_def client_public_key_def)
  ultimately show "compute_s C s B salt = Inr sec \<and> compute_m1 C s B salt = Inr m1
      \<and> (\<forall>m2. check_m2 C s m2 B salt \<longleftrightarrow> m2 = server_m2 C (client_public_key s) m1 sec)" by blast
next
  assume "from_bytes_le K = 0 \<or> nls_n \<le> from_bytes_le K"
  then have "compute_m1 C s K salt = Inl InvalidServerPublicKey"
    by (auto simp: compute_m1_def compute_s_def Let_def)
  then show "compute_m1 C s K salt = Inl InvalidServerPublicKey \<and> \<not> check_m2 C s m2 K salt"
    by (simp add: check_m2_def)
qed

theorem nls_logon_agrees_witness:
  "(\<lambda>C s B. \<exists>sec m1. from_bytes_le B \<noteq> 0 \<and> compute_s C s B [1] = Inr sec \<and> compute_m1 C s B [1] = Inr m1
      \<and> check_m2 C s (server_m2 C (client_public_key s) m1 sec) B [1])
     \<lparr>c_sha1 = \<lambda>d. replicate 20 0, c_modpow = \<lambda>b e m. b ^ e mod m\<rparr>
     (nls_new \<lparr>c_sha1 = \<lambda>d. replicate 20 0, c_modpow = \<lambda>b e m. b ^ e mod m\<rparr> [117] [112] [2])
     (server_public 1 1)"
proof -
  let ?C = "\<lparr>c_sha1 = \<lambda>d. replicate 20 0, c_modpow = \<lambda>b e m. b ^ e mod m\<rparr> :: crypto_ops"
  let ?s = "nls_new ?C [117] [112] [2]"
  have C: "crypto_ok ?C" by (simp add: crypto_ok_def)
  have n: "48 < nls_n" by (simp add: nls_n_def NLS_PRIME_BYTES_def)
  have "compute_x ?C ?s [1] = 0"
    using from_bytes_le_append_zeros [of "[]" 20] by (simp add: compute_x_def Let_def)
  then have "from_bytes_le (nac_v (account_create ?C ?s [1])) = 1"
    using n by (simp add: account_create_def verifier_number [OF C])
  moreover have "from_bytes_le (server_public 1 1) \<noteq> 0"
    using n by (simp add: server_public_number NLS_G_def)
  ultimately show ?thesis
    using nls_logon_agrees [OF C refl refl refl refl refl, of "[117]" "[112]" "[2]" "[1]" 1] by auto
qed

end
