(* ===== verification/Exe_Info.thy ===== *)
theory Exe_Info
  imports Chat_Parse
begin

text \<open>
  What the client tells battle.net about its executable (\<^verbatim>\<open>spectre-bnet/src/bncsutil/exe_info.rs\<close>,
  \<^verbatim>\<open>pe.rs\<close> and \<^verbatim>\<open>mpq_num.rs\<close>): the version in its resources, its date and size, and the number
  in the name of the server's version file. The date is shown to be the Gregorian one by comparison
  with a calendar that counts days.
\<close>

section \<open>The version in a portable executable\<close>

record pe_fixed_file_info =
  ffi_signature :: u32
  ffi_struct_version :: u32
  ffi_file_version_ms :: u32
  ffi_file_version_ls :: u32
  ffi_product_version_ms :: u32
  ffi_product_version_ls :: u32
  ffi_file_flags_mask :: u32
  ffi_file_flags :: u32
  ffi_file_os :: u32
  ffi_file_type :: u32
  ffi_file_subtype :: u32
  ffi_file_date_ms :: u32
  ffi_file_date_ls :: u32

definition pack_version :: "u32 \<Rightarrow> u32 \<Rightarrow> u32" where
  "pack_version ms ls =
     push_bit 24 (drop_bit 16 ms AND 0xFF) OR push_bit 16 (ms AND 0xFF)
     OR push_bit 8 (drop_bit 16 ls AND 0xFF) OR (ls AND 0xFF)"

definition packed_product_version :: "pe_fixed_file_info \<Rightarrow> u32" where
  "packed_product_version ffi = pack_version (ffi_product_version_ms ffi) (ffi_product_version_ls ffi)"

definition le_u32_at :: "bytes \<Rightarrow> nat \<Rightarrow> u32" where
  "le_u32_at d i = from_le (take 4 (drop i d))"

definition le_u16_at :: "bytes \<Rightarrow> nat \<Rightarrow> nat" where
  "le_u16_at d i = unat (from_le (take 2 (drop i d)) :: u16)"

definition parse_fixed_file_info_struct :: "bytes \<Rightarrow> pe_fixed_file_info option" where
  "parse_fixed_file_info_struct buf =
     (if length buf < 52 then None
      else Some \<lparr>ffi_signature = le_u32_at buf 0, ffi_struct_version = le_u32_at buf 4,
        ffi_file_version_ms = le_u32_at buf 8, ffi_file_version_ls = le_u32_at buf 12,
        ffi_product_version_ms = le_u32_at buf 16, ffi_product_version_ls = le_u32_at buf 20,
        ffi_file_flags_mask = le_u32_at buf 24, ffi_file_flags = le_u32_at buf 28,
        ffi_file_os = le_u32_at buf 32, ffi_file_type = le_u32_at buf 36,
        ffi_file_subtype = le_u32_at buf 40, ffi_file_date_ms = le_u32_at buf 44,
        ffi_file_date_ls = le_u32_at buf 48\<rparr>)"

text \<open>The first of \<^verbatim>\<open>windows(52)\<close> that starts with the signature.\<close>

definition FFI_SIGNATURE :: bytes where
  "FFI_SIGNATURE = [0xBD, 0x04, 0xEF, 0xFE]"

fun find_window :: "bytes \<Rightarrow> bytes option" where
  "find_window [] = None"
| "find_window (b # bs) =
     (if length (b # bs) < 52 then None
      else if take 4 (b # bs) = FFI_SIGNATURE then Some (take 52 (b # bs))
      else find_window bs)"

text \<open>The resource section: virtual address, offset and size in the file.\<close>

fun find_rsrc :: "bytes \<Rightarrow> nat \<Rightarrow> nat list \<Rightarrow> (u32 \<times> u32 \<times> u32) option" where
  "find_rsrc data sections_offset [] = None"
| "find_rsrc data sections_offset (i # is) =
     (let sec_offset = sections_offset + i * 40
      in if length data < sec_offset + 40 then None
         else if take 5 (drop sec_offset data) = str ''.rsrc''
           then Some (le_u32_at data (sec_offset + 12), le_u32_at data (sec_offset + 20),
                      le_u32_at data (sec_offset + 16))
         else find_rsrc data sections_offset is)"

abbreviation "high_bit \<equiv> (0x80000000 :: u32)"
abbreviation "low_bits \<equiv> (0x7FFFFFFF :: u32)"

text \<open>Where the data of a directory entry lies: through a third level of directories, if there is one.\<close>

definition data_entry_off :: "bytes \<Rightarrow> u32 \<Rightarrow> nat" where
  "data_entry_off rsrc l2_data_or_dir =
     (if l2_data_or_dir AND high_bit \<noteq> 0
      then let l3_off = unat (l2_data_or_dir AND low_bits)
           in if l3_off + 24 \<le> length rsrc
              then unat (le_u32_at rsrc (l3_off + 20) AND low_bits) else 0
      else unat (l2_data_or_dir AND low_bits))"

definition version_entry ::
    "bytes \<Rightarrow> bytes \<Rightarrow> u32 \<Rightarrow> nat \<Rightarrow> u32 \<Rightarrow> bytes option" where
  "version_entry data rsrc rsrc_va rsrc_offset data_or_dir =
     (let l2_off = unat (data_or_dir AND low_bits)
      in if \<not> l2_off + 16 \<le> length rsrc then None
         else if \<not> (le_u16_at rsrc (l2_off + 12) + le_u16_at rsrc (l2_off + 14) > 0
                     \<and> l2_off + 24 \<le> length rsrc) then None
         else let off = data_entry_off rsrc (le_u32_at rsrc (l2_off + 20))
              in if \<not> off + 8 \<le> length rsrc then None
                 else let data_rva = le_u32_at rsrc off
                      in if data_rva < rsrc_va then None
                         else let file_off = rsrc_offset + unat (data_rva - rsrc_va)
                              in if file_off + 52 \<le> length data
                                 then find_window (take (min (length data) (file_off + 1024) - file_off)
                                                     (drop file_off data))
                                 else None)"

text \<open>The loop over the entries of the root directory.\<close>

fun scan_entries :: "bytes \<Rightarrow> bytes \<Rightarrow> u32 \<Rightarrow> nat \<Rightarrow> nat list \<Rightarrow> pe_fixed_file_info option" where
  "scan_entries data rsrc rsrc_va rsrc_offset [] = None"
| "scan_entries data rsrc rsrc_va rsrc_offset (i # is) =
     (let entry_off = 16 + i * 8
      in case (if entry_off + 8 \<le> length rsrc \<and> le_u32_at rsrc entry_off = 16
                  \<and> le_u32_at rsrc (entry_off + 4) AND high_bit \<noteq> 0
               then version_entry data rsrc rsrc_va rsrc_offset (le_u32_at rsrc (entry_off + 4))
               else None) of
           Some w \<Rightarrow> parse_fixed_file_info_struct w
         | None \<Rightarrow> scan_entries data rsrc rsrc_va rsrc_offset is)"

definition extract_pe_fixed_file_info :: "bytes \<Rightarrow> pe_fixed_file_info option" where
  "extract_pe_fixed_file_info data =
     (if length data < 64 \<or> take 2 data \<noteq> str ''MZ'' then None
      else let pe_offset = unat (le_u32_at data 0x3C)
           in if length data < pe_offset + 24 \<or> take 4 (drop pe_offset data) \<noteq> [80, 69, 0, 0] then None
              else let num_sections = le_u16_at data (pe_offset + 6);
                       opt_hdr_size = le_u16_at data (pe_offset + 20);
                       sections_offset = pe_offset + 24 + opt_hdr_size
                   in case find_rsrc data sections_offset [0..<num_sections] of
                        None \<Rightarrow> None
                      | Some (rsrc_va, rsrc_offset, rsrc_size) \<Rightarrow>
                          (let rsrc_offset = unat rsrc_offset; rsrc_size = unat rsrc_size
                           in if length data \<ge> rsrc_offset + rsrc_size \<and> rsrc_size \<ge> 16
                              then let rsrc = take rsrc_size (drop rsrc_offset data);
                                       total_entries = le_u16_at rsrc 12 + le_u16_at rsrc 14
                                   in scan_entries data rsrc rsrc_va rsrc_offset [0..<total_entries]
                              else None))"

definition extract_pe_version :: "bytes \<Rightarrow> u32 option" where
  "extract_pe_version data =
     (case extract_pe_fixed_file_info data of
        Some ffi \<Rightarrow> Some (packed_product_version ffi)
      | None \<Rightarrow> map_option (\<lambda>w. pack_version (le_u32_at w 16) (le_u32_at w 20)) (find_window data))"

section \<open>The date of a file\<close>

text \<open>
  The \<^verbatim>\<open>u64\<close> values are natural numbers: none of them overflows, and the differences are not
  negative. Only the cast of the year to \<^verbatim>\<open>u32\<close> can lose bits.
\<close>

definition civil_from_days :: "nat \<Rightarrow> nat \<times> nat \<times> nat" where
  "civil_from_days days =
     (let z = days + 719468;
          era = z div 146097;
          doe = z - era * 146097;
          yoe = (doe - doe div 1460 + doe div 36524 - doe div 146096) div 365;
          y = yoe + era * 400;
          doy = doe - (365 * yoe + yoe div 4 - yoe div 100);
          mp = (5 * doy + 2) div 153;
          d = doy - (153 * mp + 2) div 5 + 1;
          m = (if mp < 10 then mp + 3 else mp - 9)
      in (if m \<le> 2 then y + 1 else y, m, d))"

definition timestamp_to_utc_parts :: "nat \<Rightarrow> nat \<times> nat \<times> nat \<times> nat \<times> nat \<times> nat" where
  "timestamp_to_utc_parts secs =
     (let days = secs div 86400;
          rem = secs mod 86400;
          hour = rem div 3600;
          minute = rem mod 3600 div 60;
          sec = rem mod 60;
          (year, m, d) = civil_from_days days
      in (year mod 2 ^ 32 mod 100, m, d, hour, minute, sec))"

record exe_info =
  exe_info_string :: bytes
  exe_version :: u32

definition two_digits :: "nat \<Rightarrow> bytes" where
  "two_digits n = (if n < 10 then str ''0'' else []) @ show_nat n"

text \<open>
  The metadata of the file (its name, size and time of change) and its contents are arguments;
  \<open>None\<close> for a file that cannot be read. The reader takes at most 64 MiB.
\<close>

definition get_exe_info :: "bytes option \<Rightarrow> nat \<Rightarrow> nat \<Rightarrow> bytes option \<Rightarrow> u32 \<Rightarrow> exe_info" where
  "get_exe_info file_name file_size secs contents platform =
     (let file_name = (case file_name of Some n \<Rightarrow> n | None \<Rightarrow> str ''warcraft.exe'');
          (yy, month, day, hours, mins, seconds) = timestamp_to_utc_parts secs;
          info_str = file_name @ str '' '' @ two_digits month @ str ''/'' @ two_digits day @ str ''/''
            @ two_digits yy @ str '' '' @ two_digits hours @ str '':'' @ two_digits mins @ str '':''
            @ two_digits seconds @ str '' '' @ show_nat file_size;
          default = (0x011a0001 :: u32);
          version =
            (if platform = 2 \<or> platform = 3
             then (case contents of
                     Some c \<Rightarrow> if length c \<ge> 4 then from_le (rev (drop (length c - 4) c)) else default
                   | None \<Rightarrow> default)
             else (case contents of
                     Some c \<Rightarrow> (case extract_pe_version (take (64 * 1024 * 1024) c) of Some v \<Rightarrow> v | None \<Rightarrow> default)
                   | None \<Rightarrow> default))
      in \<lparr>exe_info_string = info_str, exe_version = version\<rparr>)"

section \<open>The number of the version file\<close>

definition strip_suffix :: "bytes \<Rightarrow> bytes \<Rightarrow> bytes option" where
  "strip_suffix suf s =
     (let k = length s - length suf
      in if length suf \<le> length s \<and> drop k s = suf then Some (take k s) else None)"

text \<open>\<^verbatim>\<open>rfind\<close>: the byte index at which the last character that satisfies \<open>p\<close> starts.\<close>

fun rfind_char :: "(bytes \<Rightarrow> bool) \<Rightarrow> nat \<Rightarrow> bytes list \<Rightarrow> nat option" where
  "rfind_char p off [] = None"
| "rfind_char p off (c # cs) =
     (case rfind_char p (off + length c) cs of
        Some i \<Rightarrow> Some i
      | None \<Rightarrow> if p c then Some off else None)"

definition is_digit_char :: "bytes \<Rightarrow> bool" where
  "is_digit_char c \<longleftrightarrow> length c = 1 \<and> in_range 48 57 (hd c)"

text \<open>
  \<^verbatim>\<open>i + 1\<close> is the end of the character only if it has one byte: otherwise the slice is not at a
  boundary and the function panics, \<open>None\<close>.
\<close>

definition extract_mpq_number :: "bytes \<Rightarrow> int option" where
  "extract_mpq_number mpq_name =
     (let name = (case strip_suffix (str ''.mpq'') mpq_name of Some n \<Rightarrow> n | None \<Rightarrow> mpq_name);
          stem = (case rfind_char (\<lambda>c. c = str ''.'') 0 (utf8_chars name) of
                    Some dot_idx \<Rightarrow> take dot_idx name | None \<Rightarrow> name);
          num_start = (case rfind_char (\<lambda>c. \<not> is_digit_char c) 0 (utf8_chars stem) of
                         Some i \<Rightarrow> i + 1 | None \<Rightarrow> 0)
      in if \<not> is_char_boundary stem num_start then None
         else let digits = drop num_start stem
              in if digits = [] then Some 1
                 else Some (case parse_nat (2 ^ 31) digits of Some n \<Rightarrow> int n | None \<Rightarrow> 1))"

lemma find_window_SomeD:
  "find_window d = Some w \<Longrightarrow>
   \<exists>i. i + 52 \<le> length d \<and> take 4 (drop i d) = FFI_SIGNATURE \<and> w = take 52 (drop i d)"
proof (induction d)
  case (Cons b bs)
  show ?case
  proof (cases "length (b # bs) < 52 \<or> take 4 (b # bs) = FFI_SIGNATURE")
    case True
    with Cons.prems show ?thesis by (intro exI [of _ 0]) (auto split: if_splits)
  next
    case False
    with Cons obtain i where "i + 52 \<le> length bs" "take 4 (drop i bs) = FFI_SIGNATURE" "w = take 52 (drop i bs)"
      by auto
    then show ?thesis by (intro exI [of _ "Suc i"]) simp
  qed
qed simp

lemma find_window_NoneD:
  "find_window d = None \<Longrightarrow> i + 52 \<le> length d \<Longrightarrow> take 4 (drop i d) \<noteq> FFI_SIGNATURE"
proof (induction d arbitrary: i)
  case (Cons b bs)
  then have "\<not> length (b # bs) < 52" by simp
  with Cons show ?case by (cases i) (auto split: if_splits)
qed simp

lemma scan_entries_SomeD:
  "scan_entries data rsrc va off is = Some ffi \<Longrightarrow>
   \<exists>w i. w = take 52 (drop i data) \<and> i + 52 \<le> length data \<and> take 4 (drop i data) = FFI_SIGNATURE
     \<and> parse_fixed_file_info_struct w = Some ffi"
proof (induction "is")
  case (Cons k ks)
  have window: "\<exists>i. w = take 52 (drop i data) \<and> i + 52 \<le> length data \<and> take 4 (drop i data) = FFI_SIGNATURE"
    if "find_window (take (min (length data) (f + 1024) - f) (drop f data)) = Some w" for f w
  proof -
    let ?n = "min (length data) (f + 1024) - f"
    from find_window_SomeD [OF that] obtain i where "i + 52 \<le> length (take ?n (drop f data))"
      "take 4 (drop i (take ?n (drop f data))) = FFI_SIGNATURE" "w = take 52 (drop i (take ?n (drop f data)))"
      by blast
    then show ?thesis by (intro exI [of _ "f + i"]) (auto simp: drop_take min_def add.commute split: if_splits)
  qed
  show ?case
    using Cons by (auto simp: Let_def version_entry_def split: if_splits option.splits dest!: window)
qed simp

text \<open>
  The version is found exactly when the file holds a block of version information, and it is the
  one such a block packs, wherever the resource directory leads.
\<close>

lemma pe_version_found:
  "(extract_pe_version data = None \<longleftrightarrow>
     (\<forall>i. i + 52 \<le> length data \<longrightarrow> take 4 (drop i data) \<noteq> FFI_SIGNATURE))
   \<and> (\<forall>v. extract_pe_version data = Some v \<longrightarrow>
       (\<exists>i. i + 52 \<le> length data \<and> take 4 (drop i data) = FFI_SIGNATURE
          \<and> v = pack_version (le_u32_at (take 52 (drop i data)) 16) (le_u32_at (take 52 (drop i data)) 20)))"
proof (cases "extract_pe_fixed_file_info data")
  case None
  then have eq: "extract_pe_version data =
      map_option (\<lambda>w. pack_version (le_u32_at w 16) (le_u32_at w 20)) (find_window data)"
    by (simp add: extract_pe_version_def)
  show ?thesis
  proof (cases "find_window data")
    case None
    with find_window_NoneD show ?thesis by (simp add: eq)
  next
    case (Some w)
    with find_window_SomeD [OF Some] show ?thesis by (auto simp: eq)
  qed
next
  case (Some ffi)
  then obtain w i where w: "w = take 52 (drop i data)" "i + 52 \<le> length data"
    "take 4 (drop i data) = FFI_SIGNATURE" "parse_fixed_file_info_struct w = Some ffi"
    by (auto simp: extract_pe_fixed_file_info_def Let_def split: if_splits option.splits
        dest!: scan_entries_SomeD)
  then have "packed_product_version ffi = pack_version (le_u32_at w 16) (le_u32_at w 20)"
    by (auto simp: parse_fixed_file_info_struct_def packed_product_version_def split: if_splits)
  with Some w show ?thesis by (auto simp: extract_pe_version_def)
qed

lemma rfind_char_bytes:
  "rfind_char p off (map (\<lambda>b. [b]) s) = Some i \<Longrightarrow> i < off + length s"
  by (induction s arbitrary: off) (fastforce split: option.splits if_splits)+

text \<open>
  A name in ASCII has a number. A name that ends in a character of several bytes aborts the process,
  for instance the replacement character that stands for a byte that is not UTF-8.
\<close>

lemma mpq_number_ascii:
  assumes "\<forall>b \<in> set name. b < 128"
  shows "\<exists>n. extract_mpq_number name = Some n"
proof -
  have boundary: "is_char_boundary s (case rfind_char p 0 (utf8_chars s) of Some i \<Rightarrow> i + 1 | None \<Rightarrow> 0)"
    if "\<forall>b \<in> set s. b < 128" for s and p :: "bytes \<Rightarrow> bool"
    using that rfind_char_bytes [of p 0 s]
    by (auto simp: utf8_chars_ascii is_char_boundary_def Suc_le_eq intro!: is_cont_ascii
        split: option.splits dest: nth_mem)
  have take: "\<forall>b \<in> set (take k s). b < 128" if "\<forall>b \<in> set s. b < 128" for s :: bytes and k
    using that in_set_takeD by fast
  show ?thesis
    unfolding extract_mpq_number_def Let_def strip_suffix_def
    using assms boundary take by (auto split: option.splits)
qed

lemma mpq_number_panics: "extract_mpq_number replacement_char = None"
  by code_simp

section \<open>The calendar\<close>

text \<open>The Gregorian calendar, by counting the days of years and months.\<close>

definition leap_year :: "nat \<Rightarrow> bool" where
  "leap_year y \<longleftrightarrow> 4 dvd y \<and> (\<not> 100 dvd y \<or> 400 dvd y)"

definition year_length :: "nat \<Rightarrow> nat" where
  "year_length y = (if leap_year y then 366 else 365)"

definition month_length :: "nat \<Rightarrow> nat \<Rightarrow> nat" where
  "month_length y m = (if m = 2 then (if leap_year y then 29 else 28) else if m \<in> {4, 6, 9, 11} then 30 else 31)"

definition days_since_epoch :: "nat \<Rightarrow> nat \<Rightarrow> nat \<Rightarrow> nat" where
  "days_since_epoch y m d =
     sum_list (map year_length [1970..<y]) + sum_list (map (month_length y) [1..<m]) + (d - 1)"

definition leaps :: "nat \<Rightarrow> nat" where
  "leaps y = y div 4 - y div 100 + y div 400"

lemma div_100_le_div_4: "(y :: nat) div 100 \<le> y div 4"
  by (rule div_le_mono2) auto

lemma leaps_Suc: "leaps (Suc y) = leaps y + (if leap_year (Suc y) then 1 else 0)"
proof -
  have le: "y div 100 \<le> y div 4" "Suc y div 100 \<le> Suc y div 4" by (rule div_100_le_div_4)+
  have dvd: "400 dvd Suc y \<Longrightarrow> 100 dvd Suc y" "100 dvd Suc y \<Longrightarrow> 4 dvd Suc y"
    by (erule dvd_trans [rotated], simp)+
  have d: "Suc y div k = (if k dvd Suc y then y div k + 1 else y div k)" for k
    by (simp add: div_Suc dvd_eq_mod_eq_0)
  have step: "(if p then a + 1 else a) - (if q then b + 1 else b) + (if r then c + 1 else c) =
      a - b + c + (if p \<and> (\<not> q \<or> r) then 1 else 0)"
    if "b \<le> a" "r \<longrightarrow> q" "q \<longrightarrow> p" for a b c :: nat and p q r
    using that by auto
  show ?thesis
    unfolding leaps_def leap_year_def d by (rule step) (use le(1) dvd in blast)+
qed

lemma year_sum: "1970 \<le> y \<Longrightarrow> sum_list (map year_length [1970..<y]) + 719527 = 365 * y + leaps (y - 1)"
proof (induction y rule: nat_induct_at_least)
  case base
  show ?case by (simp add: leaps_def)
next
  case (Suc y)
  then obtain y' where "y = Suc y'" by (cases y) auto
  with Suc leaps_Suc [of y'] show ?case by (simp add: upt_Suc year_length_def)
qed

text \<open>Months, for a leap year or not.\<close>

definition mlen :: "bool \<Rightarrow> nat \<Rightarrow> nat" where
  "mlen l m = (if m = 2 then (if l then 29 else 28) else if m \<in> {4, 6, 9, 11} then 30 else 31)"

lemma month_length_mlen: "month_length y = mlen (leap_year y)"
  by (rule ext) (simp add: month_length_def mlen_def)

lemma less_12_cases:
  "(mp :: nat) < 12 \<Longrightarrow> mp = 0 \<or> mp = 1 \<or> mp = 2 \<or> mp = 3 \<or> mp = 4 \<or> mp = 5 \<or> mp = 6 \<or> mp = 7
     \<or> mp = 8 \<or> mp = 9 \<or> mp = 10 \<or> mp = 11"
  by presburger

lemma month_start:
  assumes "mp < 12"
  shows "mp < 10 \<Longrightarrow> sum_list (map (mlen l) [1..<mp + 3]) = 59 + (if l then 1 else 0) + (153 * mp + 2) div 5"
    and "10 \<le> mp \<Longrightarrow> sum_list (map (mlen l) [1..<mp - 9]) + 306 = (153 * mp + 2) div 5"
  using less_12_cases [OF assms] by (elim disjE; simp add: mlen_def upt_rec; fail)+

lemma month_of_day:
  fixes doy :: nat
  assumes "doy \<le> 365" and mp: "mp = (5 * doy + 2) div 153" and d: "d = doy - (153 * mp + 2) div 5 + 1"
  shows "mp < 12" and "(153 * mp + 2) div 5 \<le> doy" and "mp < 10 \<longleftrightarrow> doy < 306"
    and "mp < 10 \<Longrightarrow> d \<le> mlen l (mp + 3)" and "10 \<le> mp \<Longrightarrow> (doy = 365 \<longrightarrow> l) \<Longrightarrow> d \<le> mlen l (mp - 9)"
proof -
  have b: "153 * mp \<le> 5 * doy + 2" "5 * doy + 2 < 153 * mp + 153"
    using mp by (simp_all add: div_times_less_eq_dividend dividend_less_div_times)
  then show lt: "mp < 12" and "mp < 10 \<longleftrightarrow> doy < 306" using assms(1) by linarith+
  show "(153 * mp + 2) div 5 \<le> doy" using b by linarith
  show "mp < 10 \<Longrightarrow> d \<le> mlen l (mp + 3)"
    using less_12_cases [OF lt] b unfolding d by (elim disjE; simp add: mlen_def)
  show "10 \<le> mp \<Longrightarrow> (doy = 365 \<longrightarrow> l) \<Longrightarrow> d \<le> mlen l (mp - 9)"
    using less_12_cases [OF lt] b assms(1) unfolding d by (elim disjE; auto simp add: mlen_def)
qed

text \<open>Years of an era: 400 years that start in March, so that a leap day is the last day of its year.\<close>

lemma year_of_era:
  fixes doe :: nat
  assumes "doe < 146097" and yoe: "yoe = (doe - doe div 1460 + doe div 36524 - doe div 146096) div 365"
  shows "yoe < 400 \<and> 365 * yoe + yoe div 4 - yoe div 100 \<le> doe
     \<and> doe - (365 * yoe + yoe div 4 - yoe div 100) \<le> 365
     \<and> (doe - (365 * yoe + yoe div 4 - yoe div 100) = 365 \<longrightarrow> leap_year (yoe + 1))"
proof (cases "doe = 146096")
  case True
  then show ?thesis by (simp add: yoe leap_year_def)
next
  case False
  define c r where "c = doe div 36524" and "r = doe mod 36524"
  define q s where "q = r div 1461" and "s = r mod 1461"
  have doe: "doe = 36524 * c + r" and r: "r = 1461 * q + s" by (simp_all add: c_def r_def q_def s_def)
  have bounds: "r < 36524" "s < 1461" by (simp_all add: r_def s_def)
  have c: "c \<le> 3" using assms(1) False doe by linarith
  have q: "q \<le> 24" using bounds r by linarith
  define e :: nat where "e = (if 24 * c + q + s \<ge> 1460 then 1 else 0)"
  have d1: "doe div 1460 = 25 * c + q + e"
    unfolding doe r e_def using bounds c q by (intro div_nat_eqI) auto
  have d3: "doe div 146096 = 0" using assms(1) False by simp
  define p where "p = min (s div 365) 3"
  have "p = 3 \<and> 1095 \<le> s \<or> s < 365 * p + 365 \<and> 365 * p \<le> s \<and> p < 3"
  proof (cases "s div 365 < 3")
    case True
    moreover have "365 * (s div 365) \<le> s" "s < 365 * (s div 365) + 365"
      by (simp_all add: div_times_less_eq_dividend dividend_less_div_times)
    ultimately show ?thesis by (simp add: p_def)
  next
    case False
    then have "3 \<le> s div 365" by simp
    then have "3 * 365 \<le> s" by (simp add: less_eq_div_iff_mult_less_eq)
    with False show ?thesis by (simp add: p_def)
  qed
  then have p: "365 * p \<le> s" "s - 365 * p \<le> 365" "p \<le> 3" "s - 365 * p = 365 \<Longrightarrow> s = 1460 \<and> p = 3"
    using bounds by auto
  have e: "e \<le> s" "365 * p \<le> s - e" "s - e < 365 * p + 365"
    using \<open>p = 3 \<and> 1095 \<le> s \<or> s < 365 * p + 365 \<and> 365 * p \<le> s \<and> p < 3\<close> bounds c q unfolding e_def by auto
  have se: "(s - e) div 365 = p"
    using e by (intro div_nat_eqI) auto
  have "doe - doe div 1460 + doe div 36524 - doe div 146096 = 365 * (100 * c + 4 * q) + (s - e)"
    using e(1) unfolding d1 d3 c_def [symmetric] unfolding doe r by simp
  then have y: "yoe = 100 * c + 4 * q + p" unfolding yoe using se by simp
  have "4 * q + p < 100" using q p by linarith
  then have y4: "yoe div 4 = 25 * c + q" and y100: "yoe div 100 = c"
    unfolding y using p by (auto intro!: div_nat_eqI)
  have base: "365 * yoe + yoe div 4 - yoe div 100 = 36524 * c + 1461 * q + 365 * p"
    unfolding y4 y100 unfolding y by simp
  have "leap_year (yoe + 1)" if "s - 365 * p = 365"
  proof -
    have ps: "s = 1460" "p = 3" using p(4) [OF that] by auto
    with bounds r have "q \<le> 23" by linarith
    have "yoe + 1 = 4 * (25 * c + q + 1)" using y ps by simp
    then have "4 dvd yoe + 1" by simp
    moreover have "(yoe + 1) div 100 = c" "(yoe + 1) mod 100 = 4 * q + 4"
      using y ps \<open>q \<le> 23\<close> by (auto intro!: div_nat_eqI simp: mod_nat_eqI)
    ultimately show ?thesis by (simp add: leap_year_def dvd_eq_mod_eq_0)
  qed
  then show ?thesis
    unfolding base unfolding doe r using p \<open>4 * q + p < 100\<close> c y by auto
qed

lemma leap_year_era: "leap_year (k + 400 * era) = leap_year k"
proof -
  have "4 dvd k + 400 * era \<longleftrightarrow> 4 dvd k" "100 dvd k + 400 * era \<longleftrightarrow> 100 dvd k"
    "400 dvd k + 400 * era \<longleftrightarrow> 400 dvd k"
    by (simp_all add: dvd_add_left_iff dvd_mult2)
  then show ?thesis by (simp add: leap_year_def)
qed

lemma leaps_era: "yoe < 400 \<Longrightarrow> leaps (yoe + 400 * era) = yoe div 4 - yoe div 100 + 97 * era"
proof -
  assume "yoe < 400"
  have "(yoe + 400 * era) div 4 = yoe div 4 + 100 * era" "(yoe + 400 * era) div 100 = yoe div 100 + 4 * era"
    by (simp_all add: div_add1_eq)
  moreover have "(yoe + 400 * era) div 400 = era" using \<open>yoe < 400\<close> by simp
  ultimately show ?thesis unfolding leaps_def using div_100_le_div_4 [of yoe] by linarith
qed

lemma leaps_mono: "y \<le> y' \<Longrightarrow> leaps y \<le> leaps y'"
  by (induction y' rule: dec_induct) (simp_all add: leaps_Suc)

text \<open>The year, counted from March, and the day in it.\<close>

lemma march_year:
  fixes z :: nat
  assumes "era = z div 146097" "doe = z - era * 146097"
    and "yoe = (doe - doe div 1460 + doe div 36524 - doe div 146096) div 365"
    and "y = yoe + era * 400" and "doy = doe - (365 * yoe + yoe div 4 - yoe div 100)"
  shows "z = 365 * y + leaps y + doy" and "doy \<le> 365" and "doy = 365 \<Longrightarrow> leap_year (y + 1)"
proof -
  have "doe = z mod 146097" using assms(1,2) by (simp add: minus_div_mult_eq_mod)
  then have doe: "doe < 146097" and z: "z = 146097 * era + doe"
    using assms(1) by (simp_all add: mult.commute)
  note ye = year_of_era [OF doe assms(3)]
  show "doy \<le> 365" using ye assms(5) by simp
  have "leaps y = yoe div 4 - yoe div 100 + 97 * era"
    using ye leaps_era [of yoe era] assms(4) by (simp add: mult.commute)
  moreover have "365 * yoe + yoe div 4 - yoe div 100 = 365 * yoe + (yoe div 4 - yoe div 100)"
    using div_100_le_div_4 [of yoe] by simp
  moreover have "doe = (365 * yoe + yoe div 4 - yoe div 100) + doy" using ye assms(5) by linarith
  moreover have "365 * y = 365 * yoe + 146000 * era" using assms(4) by simp
  ultimately show "z = 365 * y + leaps y + doy" using z by linarith
  show "leap_year (y + 1)" if "doy = 365"
    using ye that assms(4,5) leap_year_era [of "yoe + 1" era] by (simp add: mult.commute)
qed

lemma civil_from_days_correct:
  assumes "civil_from_days days = (y, m, d)"
  shows "1 \<le> m" "m \<le> 12" "1 \<le> d" "d \<le> month_length y m" "days_since_epoch y m d = days"
proof -
  define z where "z = days + 719468"
  define era where "era = z div 146097"
  define doe where "doe = z - era * 146097"
  define yoe where "yoe = (doe - doe div 1460 + doe div 36524 - doe div 146096) div 365"
  define y0 where "y0 = yoe + era * 400"
  define doy where "doy = doe - (365 * yoe + yoe div 4 - yoe div 100)"
  define mp where "mp = (5 * doy + 2) div 153"
  note my = march_year [OF era_def doe_def yoe_def y0_def doy_def]
  have d: "d = doy - (153 * mp + 2) div 5 + 1" and m: "m = (if mp < 10 then mp + 3 else mp - 9)"
    and y: "y = (if m \<le> 2 then y0 + 1 else y0)"
    using assms unfolding civil_from_days_def Let_def z_def [symmetric] era_def [symmetric]
      doe_def [symmetric] yoe_def [symmetric] y0_def [symmetric] doy_def [symmetric] mp_def [symmetric] by auto
  note md = month_of_day [OF my(2) mp_def d]
  show "1 \<le> m" "m \<le> 12" "1 \<le> d" using m md(1) d by auto
  have y_eq: "y = (if mp < 10 then y0 else y0 + 1)" using y m md(1) by (auto split: if_splits)
  show "d \<le> month_length y m"
    using md(4) [of "leap_year y"] md(5) [of "leap_year y"] my(3) y_eq m
    by (auto simp: month_length_mlen)
  have "1969 \<le> y0"
  proof (rule ccontr)
    assume "\<not> 1969 \<le> y0"
    then have "leaps y0 \<le> leaps 1968" by (intro leaps_mono) simp
    with \<open>\<not> 1969 \<le> y0\<close> my(1,2) show False by (simp add: z_def leaps_def)
  qed
  moreover have "leaps 1969 = 477" by (simp add: leaps_def)
  ultimately have "1970 \<le> y" using md(3) my(1) y_eq by (cases "y0 = 1969") (auto simp: z_def)
  note ys = year_sum [OF this]
  show "days_since_epoch y m d = days"
  proof (cases "mp < 10")
    case True
    then obtain y' where "y0 = Suc y'" using \<open>1969 \<le> y0\<close> by (cases y0) auto
    then show ?thesis
      using True ys my(1) md(2) month_start(1) [OF md(1) True, of "leap_year y"] leaps_Suc [of y'] y_eq m
      by (simp add: days_since_epoch_def month_length_mlen d z_def)
  next
    case False
    then show ?thesis
      using ys my(1) md(2) month_start(2) [OF md(1), of "leap_year y"] y_eq m
      by (simp add: days_since_epoch_def month_length_mlen d z_def)
  qed
qed

text \<open>
  C33. The date of a file is the Gregorian date in UTC: for every number of seconds since 1970, the
  parts are a valid date and time of day, and counting the days of the years and months before it,
  leap years included, gives back exactly the seconds.
\<close>

theorem timestamp_is_gregorian:
  "\<exists>y m d hour minute sec. timestamp_to_utc_parts secs = (y mod 2 ^ 32 mod 100, m, d, hour, minute, sec)
     \<and> 1 \<le> m \<and> m \<le> 12 \<and> 1 \<le> d \<and> d \<le> month_length y m \<and> hour < 24 \<and> minute < 60 \<and> sec < 60
     \<and> days_since_epoch y m d * 86400 + hour * 3600 + minute * 60 + sec = secs"
proof -
  obtain y m d where c: "civil_from_days (secs div 86400) = (y, m, d)" by (metis prod_cases3)
  note date = civil_from_days_correct [OF c]
  define r where "r = secs mod 86400"
  have secs: "secs div 86400 * 86400 + r = secs" by (simp add: r_def)
  have r: "r < 86400" by (simp add: r_def)
  then have "r div 3600 < 24" by (simp add: less_mult_imp_div_less)
  moreover have "r mod 3600 div 60 < 60" by (simp add: less_mult_imp_div_less)
  moreover have "r div 3600 * 3600 + r mod 3600 div 60 * 60 + r mod 60 = r"
  proof -
    have "r mod 3600 mod 60 = r mod 60" by (rule mod_mod_cancel) simp
    then have "r mod 3600 div 60 * 60 + r mod 60 = r mod 3600" by (metis div_mult_mod_eq)
    then show ?thesis using div_mult_mod_eq [of r 3600] by linarith
  qed
  moreover have "timestamp_to_utc_parts secs =
      (y mod 2 ^ 32 mod 100, m, d, r div 3600, r mod 3600 div 60, r mod 60)"
    using c by (simp add: timestamp_to_utc_parts_def Let_def r_def)
  moreover from calculation date(5) secs
  have "days_since_epoch y m d * 86400 + r div 3600 * 3600 + r mod 3600 div 60 * 60 + r mod 60 = secs"
    by (simp only: add.assoc)
  moreover have "r mod 60 < 60" by simp
  ultimately show ?thesis using date(1-4) by blast
qed

end
