(* ===== verification/Check_Revision.thy ===== *)
theory Check_Revision
  imports Chat_Parse
begin

text \<open>
  The checksum that battle.net asks of the game's files
  (\<^verbatim>\<open>spectre-bnet/src/bncsutil/check_revision.rs\<close>): a formula over three registers, run on every
  word of every file. A file is the sequence of what its reads return, so that short and
  interrupted reads are part of the model; the splitting of the formula at Unicode white space is a
  parameter.
\<close>

section \<open>Formulas\<close>

datatype op_type = OpAdd | OpSub | OpXor | OpMul | OpDiv

text \<open>A character is its bytes.\<close>

record operation =
  op_target :: bytes
  op_left :: bytes
  op_op :: op_type
  op_right :: bytes

datatype cr_error = NoFiles | UnknownOperator bytes | ReadFailed

type_synonym regs = "u32 \<times> u32 \<times> u32"

definition get_reg :: "bytes \<Rightarrow> regs \<Rightarrow> u32 \<Rightarrow> u32" where
  "get_reg reg r s =
     (case r of (a, b, c) \<Rightarrow>
        if reg = str ''A'' then a else if reg = str ''B'' then b else if reg = str ''C'' then c
        else if reg = str ''S'' then s else 0)"

definition apply_operator :: "op_type \<Rightarrow> u32 \<Rightarrow> u32 \<Rightarrow> u32" where
  "apply_operator op left_val right_val =
     (case op of
        OpAdd \<Rightarrow> left_val + right_val
      | OpSub \<Rightarrow> left_val - right_val
      | OpXor \<Rightarrow> left_val XOR right_val
      | OpMul \<Rightarrow> left_val * right_val
      | OpDiv \<Rightarrow> if right_val = 0 then 0 else left_val div right_val)"

fun execute_ops :: "operation list \<Rightarrow> u32 \<Rightarrow> regs \<Rightarrow> regs" where
  "execute_ops [] s r = r"
| "execute_ops (op # ops) s (a, b, c) =
     (let res = apply_operator (op_op op) (get_reg (op_left op) (a, b, c) s) (get_reg (op_right op) (a, b, c) s)
      in execute_ops ops s
           (if op_target op = str ''A'' then (res, b, c)
            else if op_target op = str ''B'' then (a, res, c)
            else if op_target op = str ''C'' then (a, b, res)
            else (a, b, c)))"

definition strip_prefix :: "bytes \<Rightarrow> bytes \<Rightarrow> bytes option" where
  "strip_prefix pre s = (if take (length pre) s = pre then Some (drop (length pre) s) else None)"

definition assigned :: "string \<Rightarrow> bytes \<Rightarrow> u32 option" where
  "assigned pre token = Option.bind (strip_prefix (str pre) token) parse_word"

definition parse_op_char :: "bytes \<Rightarrow> cr_error + op_type" where
  "parse_op_char op_char =
     (if op_char = str ''+'' then Inr OpAdd
      else if op_char = str ''-'' then Inr OpSub
      else if op_char = str ''^'' then Inr OpXor
      else if op_char = str ''*'' then Inr OpMul
      else if op_char = str ''/'' then Inr OpDiv
      else Inl (UnknownOperator op_char))"

definition parse_token :: "bytes \<Rightarrow> regs \<times> operation list \<Rightarrow> cr_error + (regs \<times> operation list)" where
  "parse_token token st =
     (case st of ((a, b, c), ops) \<Rightarrow>
        (case assigned ''A='' token of
           Some v \<Rightarrow> Inr ((v, b, c), ops)
         | None \<Rightarrow>
        (case assigned ''B='' token of
           Some v \<Rightarrow> Inr ((a, v, c), ops)
         | None \<Rightarrow>
        (case assigned ''C='' token of
           Some v \<Rightarrow> Inr ((a, b, v), ops)
         | None \<Rightarrow>
            (let chars = utf8_chars token
             in if length chars = 5 \<and> chars ! 1 = str ''=''
                then and_then (parse_op_char (chars ! 3)) (\<lambda>op.
                     Inr ((a, b, c), ops @ [\<lparr>op_target = chars ! 0, op_left = chars ! 2, op_op = op,
                                              op_right = chars ! 4\<rparr>]))
                else Inr ((a, b, c), ops))))))"

primrec parse_tokens ::
    "bytes list \<Rightarrow> regs \<times> operation list \<Rightarrow> cr_error + (regs \<times> operation list)" where
  "parse_tokens [] st = Inr st"
| "parse_tokens (t # ts) st = and_then (parse_token t st) (parse_tokens ts)"

definition parse_formula ::
    "(bytes \<Rightarrow> bytes list) \<Rightarrow> bytes \<Rightarrow> cr_error + (regs \<times> operation list)" where
  "parse_formula split_whitespace formula = parse_tokens (split_whitespace formula) ((0, 0, 0), [])"

section \<open>Reading files\<close>

text \<open>
  What a read finds: bytes that are available (of which it takes as many as were asked for), the
  end of the file (no bytes), an interruption, or an error. After the last entry every read is at the
  end of the file.
\<close>

datatype read_result = Available bytes | Interrupted | ReadError

text \<open>The inner loop, with the bytes of the block so far.\<close>

function fill_block :: "bytes \<Rightarrow> read_result list \<Rightarrow> cr_error + (bytes \<times> read_result list)" where
  "fill_block block rs =
     (if length block \<ge> 1024 then Inr (block, rs)
      else case rs of
        [] \<Rightarrow> Inr (block, [])
      | Available p # rs' \<Rightarrow>
          if p = [] then Inr (block, rs')
          else let k = 1024 - length block
               in fill_block (block @ take k p) (if length p > k then Available (drop k p) # rs' else rs')
      | Interrupted # rs' \<Rightarrow> fill_block block rs'
      | ReadError # rs' \<Rightarrow> Inl ReadFailed)"
  by pat_completeness auto
termination
  by (relation "measure (\<lambda>(block, rs). length rs + (1024 - length block))") (auto split: if_splits)

declare fill_block.simps [simp del]

fun block_words :: "bytes \<Rightarrow> u32 list" where
  "block_words (a # b # c # d # bs) = from_le [a, b, c, d] # block_words bs"
| "block_words bs = []"

definition execute_block :: "operation list \<Rightarrow> bytes \<Rightarrow> regs \<Rightarrow> regs" where
  "execute_block ops block r = fold (execute_ops ops) (block_words block) r"

text \<open>The rest of a block that is not full counts down from 0xFF.\<close>

definition pad_block1024 :: "bytes \<Rightarrow> bytes" where
  "pad_block1024 block = block @ map (\<lambda>i. 0xFF - of_nat i) [0..<1024 - length block]"

definition available :: "read_result list \<Rightarrow> bytes" where
  "available rs = concat (map (\<lambda>r. case r of Available p \<Rightarrow> p | _ \<Rightarrow> []) rs)"

lemma available_simps [simp]:
  "available [] = []" "available (Available p # rs) = p @ available rs"
  "available (Interrupted # rs) = available rs" "available (ReadError # rs) = available rs"
  by (simp_all add: available_def)

lemma fill_block_steps:
  "length block \<ge> 1024 \<Longrightarrow> fill_block block rs = Inr (block, rs)"
  "length block < 1024 \<Longrightarrow> fill_block block [] = Inr (block, [])"
  "length block < 1024 \<Longrightarrow> fill_block block (Available [] # rs) = Inr (block, rs)"
  "length block < 1024 \<Longrightarrow> p \<noteq> [] \<Longrightarrow> fill_block block (Available p # rs) =
     fill_block (block @ take (1024 - length block) p)
       (if length p > 1024 - length block then Available (drop (1024 - length block) p) # rs else rs)"
  "length block < 1024 \<Longrightarrow> fill_block block (Interrupted # rs) = fill_block block rs"
  "length block < 1024 \<Longrightarrow> fill_block block (ReadError # rs) = Inl ReadFailed"
  by (simp_all add: fill_block.simps [of block] Let_def)

text \<open>Induction along the reads of a block.\<close>

lemma fill_block_cases_induct [case_names Full Nil End Bytes Interrupted Error]:
  assumes "\<And>block rs. length block \<ge> 1024 \<Longrightarrow> P block rs"
    and "\<And>block. length block < 1024 \<Longrightarrow> P block []"
    and "\<And>block rs. length block < 1024 \<Longrightarrow> P block (Available [] # rs)"
    and "\<And>block p rs. length block < 1024 \<Longrightarrow> p \<noteq> [] \<Longrightarrow>
      P (block @ take (1024 - length block) p)
        (if length p > 1024 - length block then Available (drop (1024 - length block) p) # rs else rs)
      \<Longrightarrow> P block (Available p # rs)"
    and "\<And>block rs. length block < 1024 \<Longrightarrow> P block rs \<Longrightarrow> P block (Interrupted # rs)"
    and "\<And>block rs. length block < 1024 \<Longrightarrow> P block (ReadError # rs)"
  shows "P block rs"
proof (induction block rs rule: fill_block.induct)
  case (1 block rs)
  show ?case
  proof (cases "length block \<ge> 1024")
    case False
    show ?thesis
    proof (cases rs)
      case (Cons r rs')
      show ?thesis
      proof (cases r)
        case (Available p)
        then show ?thesis
          using Cons False assms(3,4) "1.IH"(1) [OF False Cons Available _ refl] by (cases "p = []") auto
      qed (use Cons False assms(5,6) "1.IH"(2) [OF False Cons] in auto)
    qed (use False assms(2) in auto)
  qed (use assms(1) in auto)
qed

lemma fill_block_bytes:
  "fill_block block rs = Inr (block', rs') \<Longrightarrow> length block \<le> 1024 \<Longrightarrow>
   length block' \<le> 1024 \<and> length block' + length (available rs') \<le> length block + length (available rs)"
proof (induction block rs rule: fill_block_cases_induct)
  case (Bytes block p rs)
  let ?k = "1024 - length block"
  from Bytes have "length block' \<le> 1024 \<and> length block' + length (available rs') \<le>
      length (block @ take ?k p) + length (available (if length p > ?k then Available (drop ?k p) # rs else rs))"
    by (simp add: fill_block_steps)
  then show ?case by (auto split: if_splits)
qed (auto simp: fill_block_steps)

text \<open>The outer loop.\<close>

function hash_file :: "operation list \<Rightarrow> read_result list \<Rightarrow> regs \<Rightarrow> cr_error + regs" where
  "hash_file ops rs r =
     (case fill_block [] rs of
        Inl e \<Rightarrow> Inl e
      | Inr (block, rs') \<Rightarrow>
          if block = [] then Inr r
          else if length block = 1024 then hash_file ops rs' (execute_block ops block r)
          else Inr (execute_block ops (pad_block1024 block) r))"
  by pat_completeness auto
termination
proof (relation "measure (\<lambda>(ops, rs, r). length (available rs))")
  fix rs x r' xa y
  assume "fill_block [] rs = Inr x" "(xa, y) = x" "xa \<noteq> []" "length xa = 1024"
  then show "((ops, y, execute_block ops xa r'), ops, rs, r') \<in> measure (\<lambda>(ops, rs, r). length (available rs))"
    for ops using fill_block_bytes [of "[]" rs xa y] by auto
qed simp

declare hash_file.simps [simp del]

section \<open>The checksum\<close>

definition DEFAULT_MPQ_SEEDS :: "u32 list" where
  "DEFAULT_MPQ_SEEDS = [0xE7F4CB62, 0xF6A14FFC, 0xAA5504AF, 0x871FCDC2, 0x11BF6A18, 0xC57292E6,
     0x7927D27E, 0x2FEC8733]"

text \<open>The registry of seeds is a global of the program, empty at first.\<close>

definition get_mpq_seed :: "u32 list option \<Rightarrow> int \<Rightarrow> u32" where
  "get_mpq_seed registry mpq_number =
     (if mpq_number < 0 then 0
      else let idx = nat mpq_number;
               seeds = (case registry of Some seeds \<Rightarrow> seeds | None \<Rightarrow> DEFAULT_MPQ_SEEDS)
           in if idx < length seeds then seeds ! idx else 0)"

definition set_mpq_seed :: "u32 list option \<Rightarrow> int \<Rightarrow> u32 \<Rightarrow> u32 \<times> u32 list option" where
  "set_mpq_seed registry mpq_number new_seed =
     (if mpq_number < 0 then (0, registry)
      else let idx = nat mpq_number;
               seeds = (case registry of Some seeds \<Rightarrow> seeds | None \<Rightarrow> DEFAULT_MPQ_SEEDS);
               seeds = (if idx \<ge> length seeds then seeds @ replicate (idx + 1 - length seeds) 0 else seeds)
           in (seeds ! idx, Some (seeds[idx := new_seed])))"

primrec hash_files :: "operation list \<Rightarrow> read_result list list \<Rightarrow> regs \<Rightarrow> cr_error + regs" where
  "hash_files ops [] r = Inr r"
| "hash_files ops (f # fs) r = and_then (hash_file ops f r) (hash_files ops fs)"

definition check_revision ::
    "(bytes \<Rightarrow> bytes list) \<Rightarrow> u32 list option \<Rightarrow> bytes \<Rightarrow> read_result list list \<Rightarrow> int \<Rightarrow> cr_error + u32" where
  "check_revision split_whitespace registry formula files mpq_number =
     (if files = [] then Inl NoFiles
      else and_then (parse_formula split_whitespace formula) (\<lambda>((a, b, c), ops).
           let seed = get_mpq_seed registry mpq_number;
               effective_seed = (if seed \<noteq> 0 then seed else DEFAULT_MPQ_SEEDS ! 1)
           in and_then (hash_files ops files (a XOR effective_seed, b, c)) (\<lambda>(a, b, c). Inr c)))"

definition check_revision_flat ::
    "(bytes \<Rightarrow> bytes list) \<Rightarrow> u32 list option \<Rightarrow> bytes \<Rightarrow> read_result list \<Rightarrow> read_result list
     \<Rightarrow> read_result list \<Rightarrow> int \<Rightarrow> cr_error + u32" where
  "check_revision_flat split_whitespace registry formula file1 file2 file3 mpq_number =
     check_revision split_whitespace registry formula [file1, file2, file3] mpq_number"

text \<open>The registry: a seed that was set is found, the others stay.\<close>

lemma mpq_seed_get_set:
  assumes "0 \<le> n"
  shows "get_mpq_seed (snd (set_mpq_seed registry n v)) k = (if k = n then v else get_mpq_seed registry k)"
    and "fst (set_mpq_seed registry n v) = get_mpq_seed registry n"
  using assms
  by (auto simp: get_mpq_seed_def set_mpq_seed_def Let_def nth_append nth_list_update nat_eq_iff split: option.splits)

section \<open>Short reads do not matter\<close>

text \<open>Reads that succeed, in pieces of any size and with interruptions.\<close>

definition reads_ok :: "read_result list \<Rightarrow> bool" where
  "reads_ok rs \<longleftrightarrow> list_all (\<lambda>r. case r of Available p \<Rightarrow> p \<noteq> [] | Interrupted \<Rightarrow> True | ReadError \<Rightarrow> False) rs"

lemma fill_block_ok:
  "reads_ok rs \<Longrightarrow> length block \<le> 1024 \<Longrightarrow>
   \<exists>rs'. fill_block block rs = Inr (take 1024 (block @ available rs), rs') \<and> reads_ok rs'
     \<and> available rs' = drop 1024 (block @ available rs)"
proof (induction block rs rule: fill_block_cases_induct)
  case (Bytes block p rs)
  let ?k = "1024 - length block" and ?rs = "if length p > 1024 - length block
    then Available (drop (1024 - length block) p) # rs else rs"
  have "reads_ok ?rs" "length (block @ take ?k p) \<le> 1024" using Bytes.prems by (auto simp: reads_ok_def)
  from Bytes.IH [OF this] obtain rs' where
    "fill_block (block @ take ?k p) ?rs = Inr (take 1024 ((block @ take ?k p) @ available ?rs), rs')"
    "reads_ok rs'" "available rs' = drop 1024 ((block @ take ?k p) @ available ?rs)" by blast
  moreover have "(block @ take ?k p) @ available ?rs = block @ available (Available p # rs)"
    by simp
  moreover have "fill_block block (Available p # rs) = fill_block (block @ take ?k p) ?rs"
    using Bytes.hyps by (simp add: fill_block_steps)
  ultimately show ?case by (metis (no_types))
qed (auto simp: fill_block_steps reads_ok_def)

text \<open>A file as a whole: its contents, the last block filled up.\<close>

definition pad_contents :: "bytes \<Rightarrow> bytes" where
  "pad_contents c = c @ map (\<lambda>i. 0xFF - of_nat i) [0..<(1024 - length c mod 1024) mod 1024]"

lemma block_words_append: "4 dvd length xs \<Longrightarrow> block_words (xs @ ys) = block_words xs @ block_words ys"
proof (induction xs rule: block_words.induct)
  case (1 a b c d bs)
  then show ?case by (simp add: dvd_eq_mod_eq_0)
qed (simp_all add: dvd_eq_mod_eq_0)

lemma hash_file_ok:
  "reads_ok rs \<Longrightarrow>
   hash_file ops rs r = Inr (fold (execute_ops ops) (block_words (pad_contents (available rs))) r)"
proof (induction "length (available rs)" arbitrary: rs r rule: less_induct)
  case less
  let ?c = "available rs"
  from fill_block_ok [OF less.prems, of "[]"] obtain rs' where
    fill: "fill_block [] rs = Inr (take 1024 ?c, rs')" and rs': "reads_ok rs'" "available rs' = drop 1024 ?c"
    by auto
  note step = hash_file.simps [of ops rs r, unfolded fill]
  consider (empty) "?c = []" | (short) "?c \<noteq> []" "length ?c < 1024" | (full) "1024 \<le> length ?c" by linarith
  then show ?case
  proof cases
    case empty
    then show ?thesis by (simp add: step pad_contents_def)
  next
    case short
    then have "pad_block1024 ?c = pad_contents ?c" by (simp add: pad_block1024_def pad_contents_def)
    then show ?thesis using short by (simp add: step execute_block_def)
  next
    case full
    have "length (available rs') < length ?c" using full rs'(2) by (cases ?c) auto
    note ih = less.hyps [OF this rs'(1)]
    have "(length ?c - 1024) mod 1024 = length ?c mod 1024" using full by (simp add: le_mod_geq)
    then have "pad_contents ?c = take 1024 ?c @ pad_contents (drop 1024 ?c)"
      by (simp add: pad_contents_def)
    moreover have "4 dvd length (take 1024 ?c)" using full by simp
    ultimately have "block_words (pad_contents ?c) =
        block_words (take 1024 ?c) @ block_words (pad_contents (drop 1024 ?c))"
      by (simp only: block_words_append)
    moreover have "take 1024 ?c \<noteq> []" "length (take 1024 ?c) = 1024" using full by auto
    ultimately show ?thesis using ih rs'(2) by (simp add: step execute_block_def)
  qed
qed

lemma fill_block_error:
  "reads_ok rs \<Longrightarrow> length block \<le> 1024 \<Longrightarrow>
   (if length (block @ available rs) < 1024 then fill_block block (rs @ ReadError # rest) = Inl ReadFailed
    else \<exists>rs'. fill_block block (rs @ ReadError # rest) = Inr (take 1024 (block @ available rs), rs' @ ReadError # rest)
      \<and> reads_ok rs' \<and> available rs' = drop 1024 (block @ available rs))"
proof (induction block rs rule: fill_block_cases_induct)
  case (Full block rs)
  then show ?case by (auto simp: fill_block_steps)
next
  case (Bytes block p rs)
  let ?k = "1024 - length block" and ?rs = "if length p > 1024 - length block
    then Available (drop (1024 - length block) p) # rs else rs"
  have ok: "reads_ok ?rs" "length (block @ take ?k p) \<le> 1024" using Bytes.prems by (auto simp: reads_ok_def)
  have eq: "(block @ take ?k p) @ available ?rs = block @ available (Available p # rs)" by simp
  have "fill_block block ((Available p # rs) @ ReadError # rest) =
      fill_block (block @ take ?k p) (?rs @ ReadError # rest)"
    using Bytes.hyps by (simp add: fill_block_steps)
  with Bytes.IH [OF ok] show ?case unfolding eq by presburger
qed (auto simp: fill_block_steps reads_ok_def)

lemma hash_file_error: "reads_ok rs \<Longrightarrow> hash_file ops (rs @ ReadError # rest) r = Inl ReadFailed"
proof (induction "length (available rs)" arbitrary: rs r rule: less_induct)
  case less
  note fill = fill_block_error [OF less.prems, of "[]" rest]
  show ?case
  proof (cases "length (available rs) < 1024")
    case True
    with fill show ?thesis by (simp add: hash_file.simps)
  next
    case False
    with fill obtain rs' where rs': "fill_block [] (rs @ ReadError # rest) = Inr (take 1024 (available rs), rs' @ ReadError # rest)"
      "reads_ok rs'" "available rs' = drop 1024 (available rs)" by auto
    then have "length (available rs') < length (available rs)" using False by simp
    note ih = less.hyps [OF this rs'(2)]
    have "take 1024 (available rs) \<noteq> []" "length (take 1024 (available rs)) = 1024" using False by auto
    then show ?thesis using ih by (simp add: hash_file.simps [of ops "rs @ ReadError # rest"] rs'(1))
  qed
qed

lemma hash_files_ok:
  "list_all reads_ok files \<Longrightarrow>
   hash_files ops files r =
     Inr (fold (execute_ops ops) (concat (map (\<lambda>f. block_words (pad_contents (available f))) files)) r)"
  by (induction files arbitrary: r) (simp_all add: hash_file_ok)

text \<open>
  C25. The checksum depends on the contents of the files only: however the reads are cut and
  interrupted, as long as none fails, the result is the third register after the formula has run on
  every word of every file in order, each file filled up to whole blocks, from the registers of the
  formula and the seed of the version file. A read that fails before the end of a file
  makes the checksum fail.
\<close>

theorem check_revision_exact:
  assumes "parse_formula split_whitespace formula = Inr ((a, b, c), ops)" and "files \<noteq> []"
    and "list_all reads_ok files" and "reads_ok part"
  shows "check_revision split_whitespace registry formula files n =
           (let seed = get_mpq_seed registry n;
                words = concat (map (\<lambda>f. block_words (pad_contents (available f))) files)
            in Inr (snd (snd (fold (execute_ops ops) words
                 (a XOR (if seed \<noteq> 0 then seed else 0xF6A14FFC), b, c)))))
    \<and> check_revision split_whitespace registry formula (files @ [part @ ReadError # rest]) n =
        Inl ReadFailed"
proof
  show "check_revision split_whitespace registry formula files n =
           (let seed = get_mpq_seed registry n;
                words = concat (map (\<lambda>f. block_words (pad_contents (available f))) files)
            in Inr (snd (snd (fold (execute_ops ops) words
                 (a XOR (if seed \<noteq> 0 then seed else 0xF6A14FFC), b, c)))))"
    using assms by (simp add: check_revision_def hash_files_ok Let_def DEFAULT_MPQ_SEEDS_def split_def)
  have "hash_files ops (files @ [f]) r = and_then (hash_files ops files r) (hash_file ops f)" for f r
  proof (induction files arbitrary: r)
    case Nil
    show ?case by (cases "hash_file ops f r") simp_all
  next
    case (Cons g gs)
    then show ?case by (cases "hash_file ops g r") simp_all
  qed
  then show "check_revision split_whitespace registry formula (files @ [part @ ReadError # rest]) n =
      Inl ReadFailed"
    using assms by (simp add: check_revision_def hash_files_ok hash_file_error Let_def split_def)
qed

theorem check_revision_exact_witness:
  "check_revision (\<lambda>f. [str ''C=C+S'']) None [] [[Available [1, 0], Interrupted, Available [0]]] 1
     \<noteq> Inl ReadFailed
   \<and> check_revision (\<lambda>f. [str ''C=C+S'']) None [] ([[Available [1]]] @ [[Available [2]] @ ReadError # []]) 1
     = Inl ReadFailed"
proof -
  have f: "parse_formula (\<lambda>f. [str ''C=C+S'']) [] =
      Inr ((0, 0, 0), [\<lparr>op_target = str ''C'', op_left = str ''C'', op_op = OpAdd, op_right = str ''S''\<rparr>])"
  proof -
    have "\<forall>b \<in> set (str ''C=C+S''). b < 128" by (simp add: str_def)
    then have "utf8_chars (str ''C=C+S'') = map (\<lambda>b. [b]) (str ''C=C+S'')" by (rule utf8_chars_ascii)
    then show ?thesis
      by (simp add: parse_formula_def parse_token_def assigned_def strip_prefix_def parse_word_def
          parse_nat_def parse_op_char_def str_def)
  qed
  have ok: "reads_ok [Available [1, 0], Interrupted, Available [0]]" "reads_ok [Available [1]]" "reads_ok [Available [2]]"
    by (simp_all add: reads_ok_def)
  then have oks: "list_all reads_ok [[Available [1, 0], Interrupted, Available [0]]]" "list_all reads_ok [[Available [1]]]"
    by simp_all
  note exact = check_revision_exact [OF f not_Cons_self2 oks(1) ok(3), THEN conjunct1, unfolded Let_def]
  note failing = check_revision_exact [OF f not_Cons_self2 oks(2) ok(3), THEN conjunct2]
  show ?thesis
  proof (rule conjI)
    show "check_revision (\<lambda>f. [str ''C=C+S'']) None []
        [[Available [1, 0], Interrupted, Available [0]]] 1 \<noteq> Inl ReadFailed"
      unfolding exact by (rule sum.distinct(2))
  qed (rule failing)
qed

end
