(* ===== verification/Cdkey.thy ===== *)
theory Cdkey
  imports Bncs_In Chat_Parse Cdkey_Tables
begin

text \<open>
  Key decoding (\<^verbatim>\<open>spectre-bnet/src/bncsutil/cdkey.rs\<close>) and the hash of old clients (\<^verbatim>\<open>xsha1.rs\<close>,
  \<^verbatim>\<open>oldauth.rs\<close>, \<^verbatim>\<open>auth.rs\<close>). The SHA-1 of the package \<^verbatim>\<open>sha1\<close> is a parameter, and so is the
  standard library's Unicode predicate \<^verbatim>\<open>is_alphanumeric\<close>. A character is its bytes. The
  main result is that the cipher of 26-character keys loses nothing: it is injective.
\<close>

section \<open>The hash of old clients\<close>

definition xsha1_pad :: "bytes \<Rightarrow> bytes" where
  "xsha1_pad data =
     (let rem = length data mod 64
      in if rem \<noteq> 0 \<or> data = [] then data @ replicate (if data = [] then 64 else 64 - rem) 0 else data)"

primrec xsha1_expand :: "nat \<Rightarrow> u32 list \<Rightarrow> u32 list" where
  "xsha1_expand 0 w = w"
| "xsha1_expand (Suc k) w =
     (let i = length w - 16;
          val = (w ! i XOR w ! (i + 8) XOR w ! (i + 2) XOR w ! (i + 13)) mod 32
      in xsha1_expand k (w @ [word_rotl (unat val) 1]))"

type_synonym xsha1_state = "u32 \<times> u32 \<times> u32 \<times> u32 \<times> u32"

definition xsha1_round :: "nat \<times> u32 \<Rightarrow> xsha1_state \<Rightarrow> xsha1_state" where
  "xsha1_round iw st =
     (case (iw, st) of ((i, w_i), (a, b, c, d, e)) \<Rightarrow>
        let (f, k) =
              (if i < 20 then ((b AND c) OR ((NOT b) AND d), 0x5A827999)
               else if i < 40 then (b XOR c XOR d, 0x6ED9EBA1)
               else if i < 60 then ((b AND c) OR (b AND d) OR (c AND d), 0x8F1BBCDC)
               else (b XOR c XOR d, 0xCA62C1D6));
            temp = word_rotl 5 a + f + e + k + w_i
        in (temp, a, word_rotl 30 b, c, d))"

fun le_words :: "bytes \<Rightarrow> u32 list" where
  "le_words (a # b # c # d # bs) = from_le [a, b, c, d] # le_words bs"
| "le_words bs = []"

definition xsha1_chunk :: "bytes \<Rightarrow> xsha1_state \<Rightarrow> xsha1_state" where
  "xsha1_chunk chunk hash =
     (let w = xsha1_expand 64 (le_words chunk)
      in case (hash, fold xsha1_round (zip [0..<80] w) hash) of
           ((h0, h1, h2, h3, h4), (a, b, c, d, e)) \<Rightarrow> (h0 + a, h1 + b, h2 + c, h3 + d, h4 + e))"

definition xsha1 :: "bytes \<Rightarrow> bytes" where
  "xsha1 data =
     (case fold xsha1_chunk (chunks 64 (xsha1_pad data))
             (0x67452301, 0xEFCDAB89, 0x98BADCFE, 0x10325476, 0xC3D2E1F0) of
        (h0, h1, h2, h3, h4) \<Rightarrow>
          put_u32_le h0 @ put_u32_le h1 @ put_u32_le h2 @ put_u32_le h3 @ put_u32_le h4)"

definition hash_password :: "bytes \<Rightarrow> bytes" where
  "hash_password password = xsha1 password"

definition double_hash_password :: "bytes \<Rightarrow> u32 \<Rightarrow> u32 \<Rightarrow> bytes" where
  "double_hash_password password client_token server_token =
     xsha1 (put_u32_le client_token @ put_u32_le server_token @ hash_password password)"

definition hash_password_standard_sha1 :: "(bytes \<Rightarrow> bytes) \<Rightarrow> bytes \<Rightarrow> bytes" where
  "hash_password_standard_sha1 sha1 password = sha1 (map to_ascii_lower password)"

definition hash_password_double :: "(bytes \<Rightarrow> bytes) \<Rightarrow> bytes \<Rightarrow> u32 \<Rightarrow> u32 \<Rightarrow> bytes" where
  "hash_password_double sha1 password client_token server_token =
     sha1 (put_u32_le client_token @ put_u32_le server_token @ hash_password password)"

section \<open>Keys of 13 characters\<close>

datatype cd_key_error = InvalidLength nat | InvalidChar bytes | ChecksumFailed

text \<open>The number of a character; its bytes encode it in groups of six bits.\<close>

definition char_code :: "bytes \<Rightarrow> nat" where
  "char_code c =
     (case c of
        [a] \<Rightarrow> unat a
      | [a, b] \<Rightarrow> unat (a AND 0x1F) * 64 + unat (b AND 0x3F)
      | [a, b, d] \<Rightarrow> (unat (a AND 0x0F) * 64 + unat (b AND 0x3F)) * 64 + unat (d AND 0x3F)
      | [a, b, d, e] \<Rightarrow>
          ((unat (a AND 0x07) * 64 + unat (b AND 0x3F)) * 64 + unat (d AND 0x3F)) * 64 + unat (e AND 0x3F)
      | _ \<Rightarrow> 0)"

definition swap_at :: "nat \<Rightarrow> nat \<Rightarrow> 'a list \<Rightarrow> 'a list" where
  "swap_at i j xs = xs[i := xs ! j, j := xs ! i]"

definition key13_checksum :: "bytes \<Rightarrow> nat" where
  "key13_checksum bs = fold (\<lambda>b accum. accum + (unat (to_ascii_lower b - 48) XOR (accum * 2))) (take 12 bs) 3"

fun key13_swap :: "nat \<Rightarrow> nat \<Rightarrow> bytes \<Rightarrow> bytes" where
  "key13_swap pos i bs = (if 7 \<le> i then key13_swap (pos - 1) (i - 0x11) (swap_at pos (i mod 0x0C) bs) else bs)"

declare key13_swap.simps [simp del]

text \<open>One round of the last loop, from the last character to the first.\<close>

definition unmask_char :: "nat \<Rightarrow> u32 \<times> bytes \<Rightarrow> u32 \<times> bytes" where
  "unmask_char j st =
     (case st of (hash_key, bs) \<Rightarrow>
        let temp = to_ascii_upper (bs ! j)
        in if temp \<le> 55 then (drop_bit 3 hash_key, bs[j := temp XOR ucast (hash_key AND 7)])
           else if temp < 65 then (hash_key, bs[j := temp XOR (of_nat j AND 1)])
           else (hash_key, bs[j := temp]))"

definition ok_or :: "'a option \<Rightarrow> 'e \<Rightarrow> 'e + 'a" where
  "ok_or r e = (case r of Some x \<Rightarrow> Inr x | None \<Rightarrow> Inl e)"

definition decode_13_char_key :: "bytes \<Rightarrow> cd_key_error + (u32 \<times> u32 \<times> u32)" where
  "decode_13_char_key key =
     (case find (\<lambda>c. \<not> (length c = 1 \<and> in_range 48 57 (hd c))) (utf8_chars key) of
        Some c \<Rightarrow> Inl (InvalidChar c)
      | None \<Rightarrow>
          if key13_checksum key mod 10 \<noteq> unat (key ! 12 - 48) then Inl ChecksumFailed
          else let bs = snd (fold unmask_char (rev [0..<12]) (0x13AC9741, key13_swap 0x0B 0xC2 key))
               in if \<not> utf8_valid bs then Inl ChecksumFailed
                  else and_then (ok_or (parse_word (take 2 bs)) ChecksumFailed) (\<lambda>product.
                       and_then (ok_or (parse_word (take 7 (drop 2 bs))) ChecksumFailed) (\<lambda>value1.
                       and_then (ok_or (parse_word (take 3 (drop 9 bs))) ChecksumFailed) (\<lambda>value2.
                       Inr (product, value1, value2)))))"

section \<open>Keys of 16 characters\<close>

definition get_hex_value :: "u32 \<Rightarrow> u8" where
  "get_hex_value v = (let v = v AND 0xF in if v < 10 then ucast v + 48 else ucast (v - 10) + 65)"

definition get_num_value :: "u8 \<Rightarrow> u32" where
  "get_num_value c =
     (let c = to_ascii_upper c
      in if in_range 48 57 c then ucast (c - 48) else if in_range 65 70 c then ucast (c - 65 + 10) else 0)"

text \<open>Two characters become two hexadecimal digits and a bit of the checksum.\<close>

definition key16_pair :: "nat \<Rightarrow> u32 \<times> u32 \<times> bytes \<Rightarrow> u32 \<times> u32 \<times> bytes" where
  "key16_pair i st =
     (case st of (r, checksum, bs) \<Rightarrow>
        let c1 = ucast (W2_MAP ! unat (bs ! i)) :: u32;
            c2 = ucast (W2_MAP ! unat (bs ! (i + 1))) :: u32;
            n = c2 + c1 * 3 * 8;
            (n, checksum) = (if n \<ge> 0x100 then (n - 0x100, checksum OR r) else (n, checksum))
        in (push_bit 1 r, checksum, bs[i := get_hex_value (drop_bit 4 n), i + 1 := get_hex_value n]))"

definition key16_checksum :: "bytes \<Rightarrow> u32" where
  "key16_checksum bs = fold (\<lambda>c v. v + (get_num_value c XOR (v * 2))) bs 3 AND 0xFF"

definition key16_swap :: "nat \<Rightarrow> bytes \<Rightarrow> bytes" where
  "key16_swap j bs = (let n = (if j > 8 then j - 9 else 0xF - (8 - j)) in swap_at j n bs)"

definition decode_16_char_key_components :: "bytes \<Rightarrow> cd_key_error + (u32 \<times> u32 \<times> u32)" where
  "decode_16_char_key_components key =
     (case find (\<lambda>c. char_code c \<ge> 256 \<or> W2_MAP ! char_code c = 0xFF) (utf8_chars key) of
        Some c \<Rightarrow> Inl (InvalidChar c)
      | None \<Rightarrow>
          (let start = map (\<lambda>c. of_nat (char_code c)) (utf8_chars key);
               start = start @ replicate (16 - length start) 0;
               (_, checksum, bs) = fold key16_pair [0, 2, 4, 6, 8, 10, 12, 14] (1, 0, start)
           in if key16_checksum bs \<noteq> checksum then Inl ChecksumFailed
              else let bs = fold key16_swap (rev [0..<16]) bs;
                       bs = snd (fold unmask_char (rev [0..<16]) (0x13AC9741, bs))
                   in if \<not> utf8_valid bs then Inl ChecksumFailed
                      else and_then (ok_or (parse_hex_u32 (take 2 bs)) ChecksumFailed) (\<lambda>product.
                           and_then (ok_or (parse_hex_u32 (take 6 (drop 2 bs))) ChecksumFailed) (\<lambda>value1.
                           and_then (ok_or (parse_hex_u32 (take 8 (drop 8 bs))) ChecksumFailed) (\<lambda>value2.
                           Inr (product, value1, value2))))))"

section \<open>Keys of 26 characters\<close>

text \<open>
  Base-5 digits of the characters, spread over a table. A byte of the map is read as \<^verbatim>\<open>i8\<close>, so a
  character that is not in the alphabet counts as minus one; quotient and remainder truncate.
\<close>

definition i8_div5 :: "u8 \<Rightarrow> int" where
  "i8_div5 b = (if b < 128 then int (unat b) div 5 else - ((256 - int (unat b)) div 5))"

definition i8_mod5 :: "u8 \<Rightarrow> int" where
  "i8_mod5 b = (if b < 128 then int (unat b) mod 5 else - ((256 - int (unat b)) mod 5))"

primrec key26_table :: "bytes list \<Rightarrow> nat \<Rightarrow> int list \<Rightarrow> cd_key_error + int list" where
  "key26_table [] b table = Inr table"
| "key26_table (c # cs) b table =
     (if char_code c < 256
      then let decode = W3_KEY_MAP ! char_code c;
               a = (b + 0x07B5) mod 52;
               b = (a + 0x07B5) mod 52
           in key26_table cs b (table[a := i8_div5 decode, b := i8_mod5 decode])
      else Inl (InvalidChar c))"

text \<open>\<^verbatim>\<open>values\<close> times five plus a digit, from the last word to the first with a carry.\<close>

definition mul5_word :: "nat \<Rightarrow> int \<times> u32 list \<Rightarrow> int \<times> u32 list" where
  "mul5_word k st =
     (case st of (dc, values) \<Rightarrow>
        let edxeax = unat (values ! k) * 5
        in (int (edxeax div 2 ^ 32), values[k := of_int dc + of_nat edxeax]))"

definition mul5_add :: "int \<Rightarrow> u32 list \<Rightarrow> u32 list" where
  "mul5_add dc values = snd (fold mul5_word [3, 2, 1, 0] (dc, values))"

text \<open>The nibbles of the four words, the least significant of the last word first.\<close>

definition get_nib :: "u32 list \<Rightarrow> nat \<Rightarrow> nat" where
  "get_nib values j = unat (drop_bit (4 * (j mod 8)) (values ! (3 - j div 8)) AND 0xF)"

definition set_nib :: "u32 list \<Rightarrow> nat \<Rightarrow> nat \<Rightarrow> u32 list" where
  "set_nib values j x =
     values[3 - j div 8 := push_bit (4 * (j mod 8)) (of_nat x AND 0xF)
                           OR (values ! (3 - j div 8) AND NOT (push_bit (4 * (j mod 8)) 0xF))]"

definition translate :: "nat \<Rightarrow> nat" where
  "translate k = unat (W3_TRANSLATE_MAP ! k)"

definition key_round :: "u32 list \<Rightarrow> nat \<Rightarrow> nat \<Rightarrow> nat \<Rightarrow> nat" where
  "key_round values i j var_c = translate (get_nib values j XOR (translate (var_c + i) + i))"

text \<open>One round of the first loop: the nibble \<open>var8\<close> is replaced; the others steer its substitution.\<close>

definition substitute_nib :: "nat \<Rightarrow> u32 list \<Rightarrow> u32 list" where
  "substitute_nib var8 values =
     (let i = 16 * var8;
          var_c = get_nib values var8;
          var_c = fold (key_round values i) (rev [var8 + 1..<30]) var_c;
          var_c = fold (key_round values i) (rev [0..<var8]) var_c
      in set_nib values var8 (translate (var_c + i)))"

text \<open>The second loop: bit \<open>edi\<close> of the result is bit \<open>esi\<close> of a copy, \<open>esi\<close> in steps of eleven.\<close>

definition permute_bit :: "u32 list \<Rightarrow> nat \<Rightarrow> nat \<times> u32 list \<Rightarrow> nat \<times> u32 list" where
  "permute_bit scopy edi st =
     (case st of (esi, values) \<Rightarrow>
        let eax = edi mod 32; ecx = esi mod 32; edx = 3 - edi div 32;
            word = scopy ! (3 - esi div 32);
            ebp = drop_bit ecx word AND 1;
            values = values[edx := push_bit eax ebp OR (NOT (push_bit eax 1) AND values ! edx)];
            esi = esi + 11
        in (if esi \<ge> 120 then esi - 120 else esi, values))"

definition decode_key_table :: "u32 list \<Rightarrow> u32 list" where
  "decode_key_table values =
     (let values = fold substitute_nib (rev [0..<30]) values
      in snd (fold (permute_bit values) [0..<120] (0, values)))"

definition split_values :: "u32 list \<Rightarrow> u32 \<times> u32 \<times> bytes" where
  "split_values values =
     (let product = drop_bit 10 (values ! 0);
          be_bytes = concat (map (\<lambda>v. rev (put_u32_le v)) values);
          value1 = from_le [be_bytes ! 2, be_bytes ! 3, be_bytes ! 4, be_bytes ! 5] AND (0xFFFFFF03 :: u32);
          public_value = from_le (rev (put_u32_le value1));
          w3value2 = [be_bytes ! 7, be_bytes ! 6, be_bytes ! 11, be_bytes ! 10, be_bytes ! 9, be_bytes ! 8,
            be_bytes ! 15, be_bytes ! 14, be_bytes ! 13, be_bytes ! 12]
      in (product, public_value, w3value2))"

definition decode_26_char_key_components :: "bytes \<Rightarrow> cd_key_error + (u32 \<times> u32 \<times> bytes)" where
  "decode_26_char_key_components key =
     and_then (key26_table (utf8_chars key) 0x21 (replicate 52 0)) (\<lambda>table.
     let values = fold mul5_add (rev table) [0, 0, 0, 0]
     in Inr (split_values (decode_key_table values)))"

section \<open>The decoder\<close>

datatype key_type = StarCraft | WarCraft2 | WarCraft3

record cd_key_decoder =
  ckd_key_type :: key_type
  ckd_product :: u32
  ckd_public_value :: u32
  ckd_val2 :: u32
  ckd_long_val2 :: "bytes option"

record cd_key_info =
  cki_product :: u32
  cki_public_value :: u32
  cki_val2 :: u32
  cki_long_val2 :: "bytes option"
  cki_hash :: bytes

definition decode_key_components :: "(bytes \<Rightarrow> bool) \<Rightarrow> bytes \<Rightarrow> cd_key_error + cd_key_decoder" where
  "decode_key_components is_alphanumeric cdkey =
     (case find (\<lambda>c. \<not> is_alphanumeric c \<and> c \<noteq> str ''-'' \<and> c \<noteq> str '' '') (utf8_chars cdkey) of
        Some c \<Rightarrow> Inl (InvalidChar c)
      | None \<Rightarrow>
          (let sanitized = concat (filter is_alphanumeric (utf8_chars cdkey))
           in if length sanitized = 13 then
                and_then (decode_13_char_key sanitized) (\<lambda>(prod, v1, v2).
                Inr \<lparr>ckd_key_type = StarCraft, ckd_product = prod, ckd_public_value = v1, ckd_val2 = v2,
                     ckd_long_val2 = None\<rparr>)
              else if length sanitized = 16 then
                and_then (decode_16_char_key_components sanitized) (\<lambda>(prod, v1, v2).
                Inr \<lparr>ckd_key_type = WarCraft2, ckd_product = prod, ckd_public_value = v1, ckd_val2 = v2,
                     ckd_long_val2 = None\<rparr>)
              else if length sanitized = 26 then
                and_then (decode_26_char_key_components sanitized) (\<lambda>(prod, v1, v2_long).
                Inr \<lparr>ckd_key_type = WarCraft3, ckd_product = prod, ckd_public_value = v1, ckd_val2 = 0,
                     ckd_long_val2 = Some v2_long\<rparr>)
              else Inl (InvalidLength (length sanitized))))"

definition val2_length :: "cd_key_decoder \<Rightarrow> nat" where
  "val2_length d = (if ckd_key_type d = WarCraft3 then 10 else 4)"

definition calculate_hash :: "(bytes \<Rightarrow> bytes) \<Rightarrow> cd_key_decoder \<Rightarrow> u32 \<Rightarrow> u32 \<Rightarrow> bytes" where
  "calculate_hash sha1 d client_token server_token =
     (case ckd_key_type d of
        WarCraft3 \<Rightarrow>
          sha1 (put_u32_le client_token @ put_u32_le server_token @ put_u32_le (ckd_product d)
                @ put_u32_le (ckd_public_value d)
                @ (case ckd_long_val2 d of Some w3val2 \<Rightarrow> w3val2 | None \<Rightarrow> []))
      | _ \<Rightarrow>
          xsha1 (put_u32_le client_token @ put_u32_le server_token @ put_u32_le (ckd_product d)
                 @ put_u32_le (ckd_public_value d) @ put_u32_le 0 @ put_u32_le (ckd_val2 d)))"

definition decode_cd_key ::
    "(bytes \<Rightarrow> bytes) \<Rightarrow> (bytes \<Rightarrow> bool) \<Rightarrow> bytes \<Rightarrow> u32 \<Rightarrow> u32 \<Rightarrow> cd_key_error + cd_key_info" where
  "decode_cd_key sha1 is_alphanumeric cdkey client_token server_token =
     and_then (decode_key_components is_alphanumeric cdkey) (\<lambda>d.
     Inr \<lparr>cki_product = ckd_product d, cki_public_value = ckd_public_value d, cki_val2 = ckd_val2 d,
          cki_long_val2 = ckd_long_val2 d, cki_hash = calculate_hash sha1 d client_token server_token\<rparr>)"

definition create_key_info ::
    "(bytes \<Rightarrow> bytes) \<Rightarrow> (bytes \<Rightarrow> bool) \<Rightarrow> bytes \<Rightarrow> u32 \<Rightarrow> u32 \<Rightarrow> bool \<Rightarrow> cd_key_error + bytes" where
  "create_key_info sha1 is_alphanumeric cdkey client_token server_token is_tft =
     and_then (decode_cd_key sha1 is_alphanumeric cdkey client_token server_token) (\<lambda>info.
     let n = length (filter is_alphanumeric (utf8_chars cdkey));
         key_len = (if n = 26 then 26 else if n = 13 then 13 else 16 :: u32);
         product = (if is_tft then 7 else cki_product info)
     in Inr (put_u32_le key_len @ put_u32_le product @ put_u32_le (cki_public_value info)
             @ put_u32_le (cki_val2 info) @ cki_hash info))"

section \<open>The cipher loses nothing\<close>

text \<open>The 128 bits of the four words, the least significant of the last word first.\<close>

definition vbit :: "u32 list \<Rightarrow> nat \<Rightarrow> bool" where
  "vbit v n = bit (v ! (3 - n div 32)) (n mod 32)"

lemma vbit_ext:
  assumes "length v = 4" "length v' = 4" "\<And>n. n < 128 \<Longrightarrow> vbit v n = vbit v' n"
  shows "v = v'"
proof (rule nth_equalityI)
  fix k assume "k < length v"
  then have "k \<le> 3" using assms(1) by simp
  show "v ! k = v' ! k"
  proof (rule bit_word_eqI)
    fix m assume "m < LENGTH(32)"
    then have "(32 * (3 - k) + m) div 32 = 3 - k" "(32 * (3 - k) + m) mod 32 = m" "32 * (3 - k) + m < 128"
      by simp_all
    then show "bit (v ! k) m = bit (v' ! k) m"
      using assms(3) [of "32 * (3 - k) + m"] \<open>k \<le> 3\<close> by (simp add: vbit_def)
  qed
qed (use assms in simp)

lemma nibble_mask: "(0xF :: u32) = mask 4"
  by (simp add: mask_eq_exp_minus_1)

lemma bit_nibble_mask: "bit (0xF :: u32) m \<longleftrightarrow> m < 4"
  unfolding nibble_mask by (auto simp add: bit_mask_iff)

lemma bit_nibble_mask_nat: "bit (0xF :: nat) m \<longleftrightarrow> m < 4"
proof -
  have "(0xF :: nat) = mask 4" by (simp add: mask_eq_exp_minus_1)
  then show ?thesis by (simp only: bit_mask_iff possible_bit_def) simp
qed

lemma nib_index:
  fixes j m :: nat
  assumes "m < 4"
  shows "(4 * j + m) div 32 = j div 8" "(4 * j + m) mod 32 = 4 * (j mod 8) + m"
proof -
  define r where "r = 4 * (j mod 8) + m"
  have "4 * j + m = 32 * (j div 8) + r" using div_mult_mod_eq [of j 8] unfolding r_def by linarith
  moreover have "r < 32" using assms mod_less_divisor [of 8 j] unfolding r_def by linarith
  ultimately show "(4 * j + m) div 32 = j div 8" "(4 * j + m) mod 32 = 4 * (j mod 8) + m"
    by (simp_all add: r_def [symmetric])
qed

lemma bit_get_nib: "bit (get_nib v j) m \<longleftrightarrow> m < 4 \<and> vbit v (4 * j + m)"
proof -
  let ?w = "drop_bit (4 * (j mod 8)) (v ! (3 - j div 8))"
  have "bit (unat (?w AND 0xF)) m \<longleftrightarrow> bit (?w AND 0xF) m"
    using bit_unsigned_iff [where ?'a = nat, of "?w AND 0xF" m] by (simp add: possible_bit_def)
  then show ?thesis
    using nib_index [of m j] unfolding get_nib_def vbit_def bit_and_iff bit_nibble_mask bit_drop_bit_eq
    by (cases "m < 4") (simp_all add: add.commute)
qed

lemma get_nib_less: "get_nib v j < 16"
proof -
  have "get_nib v j = take_bit 4 (unat (drop_bit (4 * (j mod 8)) (v ! (3 - j div 8))))"
    unfolding get_nib_def nibble_mask by (simp only: take_bit_eq_mask [symmetric] unsigned_take_bit_eq)
  then show ?thesis using take_bit_nat_less_exp [of 4] by simp
qed

lemma length_set_nib [simp]: "length (set_nib v j x) = length v"
  by (simp add: set_nib_def)

lemma nib_update_bit:
  fixes w :: u32
  assumes "b < 32"
  shows "bit (push_bit s (of_nat x AND 0xF) OR (w AND NOT (push_bit s 0xF))) b =
    (if s \<le> b \<and> b < s + 4 then bit x (b - s) else bit w b)"
proof -
  have "bit (of_nat x :: u32) (b - s) = bit x (b - s)" using assms by (simp add: bit_simps less_imp_diff_less)
  then show ?thesis
    using assms unfolding bit_or_iff bit_and_iff bit_not_iff bit_push_bit_iff bit_nibble_mask
    by (cases "s \<le> b") auto
qed

lemma vbit_set_nib:
  assumes "length v = 4" "j < 32" "n < 128"
  shows "vbit (set_nib v j x) n = (if n div 4 = j then bit x (n mod 4) else vbit v n)"
proof -
  define m k where "m = n mod 4" and "k = n div 4"
  have n: "n = 4 * k + m" and m: "m < 4" by (simp_all add: m_def k_def)
  note ix = nib_index [OF m, of k, folded n]
  have "k < 32" using assms(3) n m by linarith
  have b: "4 * (k mod 8) + m < 32" using m mod_less_divisor [of 8 k] by linarith
  show ?thesis
  proof (cases "k div 8 = j div 8")
    case False
    then have "3 - k div 8 \<noteq> 3 - j div 8" "k \<noteq> j" using assms(2) \<open>k < 32\<close> by auto
    then show ?thesis by (simp add: vbit_def set_nib_def ix k_def [symmetric])
  next
    case True
    have eq: "k = j \<longleftrightarrow> k mod 8 = j mod 8" using True by (metis div_mult_mod_eq)
    have rng: "4 * (j mod 8) \<le> 4 * (k mod 8) + m \<and> 4 * (k mod 8) + m < 4 * (j mod 8) + 4 \<longleftrightarrow> k mod 8 = j mod 8"
      using m by auto
    have "vbit (set_nib v j x) n = (if k mod 8 = j mod 8 then bit x (4 * (k mod 8) + m - 4 * (j mod 8))
        else bit (v ! (3 - j div 8)) (4 * (k mod 8) + m))"
      unfolding vbit_def set_nib_def ix True using assms(1)
      by (simp only: nth_list_update_eq nib_update_bit [OF b] rng diff_less_Suc)
    then show ?thesis unfolding k_def [symmetric] m_def [symmetric] eq vbit_def ix True by simp
  qed
qed

text \<open>The nibbles determine the words, and setting one leaves the others.\<close>

lemma get_set_nib:
  assumes "length v = 4" "j < 32" "k < 32" "x < 16"
  shows "get_nib (set_nib v j x) k = (if k = j then x else get_nib v k)"
proof (rule bit_eqI)
  fix m
  have "\<not> bit x m" if "4 \<le> m"
  proof -
    have "(2 :: nat) ^ 4 \<le> 2 ^ m" using that by (rule power_increasing) simp
    then show ?thesis using assms(4) by (simp add: bit_iff_odd)
  qed
  then have "bit x m \<Longrightarrow> m < 4" by (meson not_le)
  moreover have "m < 4 \<Longrightarrow> (4 * k + m) div 4 = k \<and> (4 * k + m) mod 4 = m \<and> 4 * k + m < 128"
    using assms(3) by auto
  ultimately show "bit (get_nib (set_nib v j x) k) m = bit (if k = j then x else get_nib v k) m"
    using vbit_set_nib [OF assms(1,2), of "4 * k + m" x] by (auto simp: bit_get_nib)
qed

lemma nib_ext:
  assumes "length v = 4" "length v' = 4" "\<And>k. k < 32 \<Longrightarrow> get_nib v k = get_nib v' k"
  shows "v = v'"
proof (rule vbit_ext [OF assms(1,2)])
  fix n :: nat assume "n < 128"
  then have "n div 4 < 32" by simp
  then have "bit (get_nib v (n div 4)) (n mod 4) = bit (get_nib v' (n div 4)) (n mod 4)" by (simp add: assms(3))
  moreover have "4 * (n div 4) + n mod 4 = n" "n mod 4 < 4" by simp_all
  ultimately show "vbit v n = vbit v' n" by (simp only: bit_get_nib simp_thms)
qed

lemma translate_row:
  assumes "r < 30"
  shows "c < 16 \<Longrightarrow> translate (c + 16 * r) < 16" and "inj_on (\<lambda>c. translate (c + 16 * r)) {..<16}"
proof -
  let ?row = "take 16 (drop (16 * r) W3_TRANSLATE_MAP)"
  have row: "list_all (\<lambda>x. x < 16) ?row" "distinct ?row"
    using rows_okD [OF translate_rows assms] by simp_all
  have len: "length ?row = 16" using assms by (simp add: length_translate_map)
  have nth: "W3_TRANSLATE_MAP ! (c + 16 * r) = ?row ! c" if "c < 16" for c
    using that assms by (simp add: length_translate_map add.commute)
  show "c < 16 \<Longrightarrow> translate (c + 16 * r) < 16"
    using row(1) len by (auto simp: translate_def nth list_all_length word_less_nat_alt)
  show "inj_on (\<lambda>c. translate (c + 16 * r)) {..<16}"
  proof (rule inj_onI)
    fix c d assume "c \<in> {..<16}" "d \<in> {..<16}" "translate (c + 16 * r) = translate (d + 16 * r)"
    then have "unat (?row ! c) = unat (?row ! d)" and ln: "c < length ?row" "d < length ?row"
      using nth len by (simp_all only: translate_def lessThan_iff)
    then have "?row ! c = ?row ! d" by (simp only: unsigned_word_eqI)
    then show "c = d" using nth_eq_iff_index_eq [OF row(2) ln] by blast
  qed
qed

text \<open>A round permutes the nibbles; so does the composition of all rounds.\<close>

lemma xor_nibble: "a < 16 \<Longrightarrow> b < 16 \<Longrightarrow> a XOR b < (16 :: nat)"
proof -
  assume "a < 16" "b < 16"
  then have "take_bit 4 (a XOR b) = a XOR b" by (simp add: take_bit_xor take_bit_nat_eq_self)
  then show "a XOR b < 16" using take_bit_nat_less_exp [of 4 "a XOR b"] by simp
qed

lemma xor_offset:
  assumes "a < 16" "b < 16"
  shows "a XOR (b + 16 * r) = (a XOR b) + 16 * (r :: nat)"
proof -
  have plus: "c + 16 * r = c OR push_bit 4 r" if "c < 16" for c :: nat
  proof -
    have "take_bit 4 c = c" using that by (simp add: take_bit_nat_eq_self)
    then have "bit c n \<Longrightarrow> n < 4" for n by (metis bit_take_bit_iff)
    then have "c + push_bit 4 r = c OR push_bit 4 r"
      by (intro disjunctive_add) (use not_le in \<open>fastforce simp: bit_simps\<close>)
    then show ?thesis by (simp add: push_bit_nat_def)
  qed
  have small: "take_bit 4 a = a" using assms(1) by (simp add: take_bit_nat_eq_self)
  have "a XOR (b OR push_bit 4 r) = (a XOR b) OR push_bit 4 r"
  proof (rule bit_eqI)
    fix n
    have "bit a n \<Longrightarrow> n < 4" using small by (metis bit_take_bit_iff)
    moreover have "bit (push_bit 4 r) n \<Longrightarrow> 4 \<le> n" by (simp add: bit_simps)
    ultimately show "bit (a XOR (b OR push_bit 4 r)) n = bit ((a XOR b) OR push_bit 4 r) n"
      by (auto simp: bit_xor_iff bit_or_iff)
  qed
  then show ?thesis using plus [OF assms(2)] plus [OF xor_nibble [OF assms]] by simp
qed

lemma key_round_row:
  assumes "r < 30" "c < 16"
  shows "key_round v (16 * r) j c = translate ((get_nib v j XOR translate (c + 16 * r)) + 16 * r)"
  using xor_offset [OF get_nib_less translate_row(1) [OF assms]] by (simp add: key_round_def)

lemma key_round_perm:
  assumes "r < 30"
  shows "c < 16 \<Longrightarrow> key_round v (16 * r) j c < 16" and "inj_on (key_round v (16 * r) j) {..<16}"
proof -
  note row = translate_row [OF assms]
  show "c < 16 \<Longrightarrow> key_round v (16 * r) j c < 16"
    using row(1) xor_nibble get_nib_less by (simp add: key_round_row [OF assms])
  show "inj_on (key_round v (16 * r) j) {..<16}"
  proof (rule inj_onI)
    fix c d assume cd: "c \<in> {..<16}" "d \<in> {..<16}" "key_round v (16 * r) j c = key_round v (16 * r) j d"
    let ?n = "get_nib v j" and ?t = "\<lambda>c. translate (c + 16 * r)"
    have lt: "?t c < 16" "?t d < 16" using cd row(1) by simp_all
    have "?n XOR ?t c = ?n XOR ?t d"
      using cd inj_onD [OF row(2)] xor_nibble [OF get_nib_less lt(1)] xor_nibble [OF get_nib_less lt(2)]
      by (simp add: key_round_row [OF assms])
    then have "?n XOR (?n XOR ?t c) = ?n XOR (?n XOR ?t d)" by (rule arg_cong)
    then have "?t c = ?t d" by (simp add: xor.assoc [symmetric])
    then show "c = d" using cd inj_onD [OF row(2)] by blast
  qed
qed

lemma key_rounds_perm:
  assumes "r < 30"
  shows "(\<forall>c < 16. fold (key_round v (16 * r)) js c < 16) \<and> inj_on (fold (key_round v (16 * r)) js) {..<16}"
proof (induction js)
  case (Cons j js)
  note one = key_round_perm [OF assms, where v = v and j = j]
  have "inj_on (fold (key_round v (16 * r)) js \<circ> key_round v (16 * r) j) {..<16}"
    by (rule comp_inj_on [OF one(2)], rule inj_on_subset [OF conjunct2 [OF Cons]]) (use one(1) in auto)
  then show ?case using Cons one(1) by (simp add: fold.simps o_def)
qed (simp add: id_def [symmetric])

lemma fold_key_round_cong:
  "(\<And>j. j \<in> set js \<Longrightarrow> get_nib v j = get_nib v' j) \<Longrightarrow> fold (key_round v i) js c = fold (key_round v' i) js c"
  by (induction js arbitrary: c) (simp_all add: key_round_def)

text \<open>The substitution of one nibble, as a permutation that the other nibbles choose.\<close>

definition nib_subst :: "u32 list \<Rightarrow> nat \<Rightarrow> nat \<Rightarrow> nat" where
  "nib_subst v r c =
     translate (fold (key_round v (16 * r)) (rev [0..<r]) (fold (key_round v (16 * r)) (rev [r + 1..<30]) c) + 16 * r)"

lemma substitute_nib_eq: "substitute_nib r v = set_nib v r (nib_subst v r (get_nib v r))"
  by (simp add: substitute_nib_def nib_subst_def Let_def)

lemma nib_subst_perm:
  assumes "r < 30"
  shows "c < 16 \<Longrightarrow> nib_subst v r c < 16" and "inj_on (nib_subst v r) {..<16}"
proof -
  note rounds = key_rounds_perm [OF assms, of v] and row = translate_row [OF assms]
  let ?f = "fold (key_round v (16 * r)) (rev [0..<r])" and ?g = "fold (key_round v (16 * r)) (rev [r + 1..<30])"
  show "c < 16 \<Longrightarrow> nib_subst v r c < 16" using rounds row(1) by (simp add: nib_subst_def)
  show "inj_on (nib_subst v r) {..<16}"
  proof (rule inj_onI)
    fix c d assume cd: "c \<in> {..<16}" "d \<in> {..<16}" "nib_subst v r c = nib_subst v r d"
    then have g: "?g c \<in> {..<16}" "?g d \<in> {..<16}" using rounds by auto
    then have f: "?f (?g c) \<in> {..<16}" "?f (?g d) \<in> {..<16}" using rounds by auto
    have "?f (?g c) = ?f (?g d)" using inj_onD [OF row(2) _ f] cd(3) by (simp add: nib_subst_def)
    then have "?g c = ?g d" using inj_onD [OF conjunct2 [OF rounds] _ g] by blast
    then show "c = d" using inj_onD [OF conjunct2 [OF rounds] _ cd(1,2)] by blast
  qed
qed

lemma substitute_nib_inj:
  assumes "r < 30" "length v = 4" "length v' = 4" "substitute_nib r v = substitute_nib r v'"
  shows "v = v'"
proof -
  let ?s = "\<lambda>v. nib_subst v r (get_nib v r)"
  have lt: "?s v < 16" "?s v' < 16" using nib_subst_perm(1) [OF assms(1)] get_nib_less by simp_all
  have get: "get_nib (set_nib v r (?s v)) k = get_nib (set_nib v' r (?s v')) k" for k
    using assms(4) by (simp add: substitute_nib_eq)
  have other: "get_nib v k = get_nib v' k" if "k < 32" "k \<noteq> r" for k
    using get [of k] that assms(1-3) lt by (simp add: get_set_nib)
  then have "nib_subst v r c = nib_subst v' r c" for c
    using assms(1) unfolding nib_subst_def
    by (subst (1 2) fold_key_round_cong [of _ v v']) auto
  moreover have "?s v = ?s v'" using get [of r] assms(1-3) lt by (simp add: get_set_nib)
  ultimately have "nib_subst v r (get_nib v r) = nib_subst v r (get_nib v' r)" by simp
  then have "get_nib v r = get_nib v' r"
    using inj_onD [OF nib_subst_perm(2) [OF assms(1)]] get_nib_less by simp
  with other show ?thesis by (intro nib_ext [OF assms(2,3)]) metis
qed

lemma length_substitute_nib [simp]: "length (substitute_nib r v) = length v"
  by (simp add: substitute_nib_eq)

lemma length_fold_substitute [simp]: "length (fold substitute_nib rs v) = length v"
  by (induction rs arbitrary: v) simp_all

lemma fold_substitute_inj:
  "\<forall>r \<in> set rs. r < 30 \<Longrightarrow> length v = 4 \<Longrightarrow> length v' = 4 \<Longrightarrow>
   fold substitute_nib rs v = fold substitute_nib rs v' \<Longrightarrow> v = v'"
proof (induction rs arbitrary: v v')
  case (Cons r rs)
  have eq: "fold substitute_nib rs (substitute_nib r v) = fold substitute_nib rs (substitute_nib r v')"
    using Cons.prems(4) by (simp only: fold_simps)
  have "\<forall>r \<in> set rs. r < 30" "r < 30" using Cons.prems(1) by simp_all
  with Cons.IH [OF _ _ _ eq] Cons.prems(2,3) have "substitute_nib r v = substitute_nib r v'" by simp
  with substitute_nib_inj [OF \<open>r < 30\<close> Cons.prems(2,3)] show ?case by blast
qed simp

text \<open>The permutation of the bits.\<close>

lemma permute_bits:
  assumes "length v = 4" "k \<le> 120"
  shows "\<exists>w. fold (permute_bit v) [0..<k] (0, v) = ((11 * k) mod 120, w) \<and> length w = 4
     \<and> (\<forall>n < 128. vbit w n = (if n < k then vbit v (11 * n mod 120) else vbit v n))"
  using assms(2)
proof (induction k)
  case 0
  then show ?case using assms(1) by simp
next
  case (Suc k)
  then obtain w where w: "fold (permute_bit v) [0..<k] (0, v) = ((11 * k) mod 120, w)" "length w = 4"
    "\<forall>n < 128. vbit w n = (if n < k then vbit v (11 * n mod 120) else vbit v n)" by auto
  define e where "e = (11 * k) mod 120"
  define x where "x = push_bit (k mod 32) (drop_bit (e mod 32) (v ! (3 - e div 32)) AND 1)
      OR (NOT (push_bit (k mod 32) 1) AND w ! (3 - k div 32))"
  define w' where "w' = w[3 - k div 32 := x]"
  have "e < 120" by (simp add: e_def)
  have step: "(if e + 11 \<ge> 120 then e + 11 - 120 else e + 11) = (11 * Suc k) mod 120"
  proof -
    have "(11 * Suc k) mod 120 = (e + 11) mod 120" by (simp add: e_def mod_simps add.commute)
    then show ?thesis using \<open>e < 120\<close> by (simp add: mod_if)
  qed
  have fold: "fold (permute_bit v) [0..<Suc k] (0, v) = ((11 * Suc k) mod 120, w')"
    using w(1) step unfolding w'_def x_def e_def [symmetric]
    by (simp add: permute_bit_def Let_def e_def [symmetric])
  have x: "bit x m = (if m = k mod 32 then vbit v e else bit (w ! (3 - k div 32)) m)" if "m < 32" for m
    using that unfolding x_def vbit_def bit_or_iff bit_and_iff bit_not_iff bit_push_bit_iff bit_drop_bit_eq bit_1_iff
    by auto
  have "vbit w' n = (if n < Suc k then vbit v (11 * n mod 120) else vbit v n)" if "n < 128" for n
  proof (cases "n div 32 = k div 32")
    case True
    then have "n = k \<longleftrightarrow> n mod 32 = k mod 32" by (metis div_mult_mod_eq)
    moreover have "vbit w' n = bit x (n mod 32)" using True w(2) by (simp add: vbit_def w'_def)
    ultimately have "vbit w' n = (if n = k then vbit v e else vbit w n)"
      using x [of "n mod 32"] True by (simp add: vbit_def)
    then show ?thesis using w(3) that by (auto simp: e_def)
  next
    case False
    then have "3 - n div 32 \<noteq> 3 - k div 32" "n \<noteq> k" using that Suc.prems by auto
    then have "vbit w' n = vbit w n" by (simp add: vbit_def w'_def)
    then show ?thesis using w(3) that \<open>n \<noteq> k\<close> by auto
  qed
  then show ?case using fold w(2) by (auto simp: w'_def)
qed

lemma permute_inj:
  assumes "length v = 4" "length v' = 4"
    and "snd (fold (permute_bit v) [0..<120] (0, v)) = snd (fold (permute_bit v') [0..<120] (0, v'))"
  shows "v = v'"
proof (rule vbit_ext [OF assms(1,2)])
  fix n :: nat assume n: "n < 128"
  obtain w where w: "\<forall>m < 128. vbit w m = (if m < 120 then vbit v (11 * m mod 120) else vbit v m)"
    "\<forall>m < 128. vbit w m = (if m < 120 then vbit v' (11 * m mod 120) else vbit v' m)"
    using permute_bits [OF assms(1), of 120] permute_bits [OF assms(2), of 120] assms(3) by auto
  show "vbit v n = vbit v' n"
  proof (cases "n < 120")
    case True
    let ?m = "11 * n mod 120"
    have "11 * ?m mod 120 = (121 * n) mod 120" by (simp add: mod_simps)
    also have "121 * n = n + 120 * n" by simp
    also have "(n + 120 * n) mod 120 = n" by (simp only: mod_mult_self2 mod_less [OF True])
    finally show ?thesis using w(1) [rule_format, of ?m] w(2) [rule_format, of ?m] by simp
  next
    case False
    then show ?thesis using w(1) [rule_format, OF n] w(2) [rule_format, OF n] by simp
  qed
qed

lemma decode_key_table_inj:
  "length v = 4 \<Longrightarrow> length v' = 4 \<Longrightarrow> decode_key_table v = decode_key_table v' \<Longrightarrow> v = v'"
  unfolding decode_key_table_def Let_def
  by (rule fold_substitute_inj [of "rev [0..<30]"]) (auto dest!: permute_inj [rotated 2])

lemma length_decode_key_table: "length v = 4 \<Longrightarrow> length (decode_key_table v) = 4"
  using permute_bits [of "fold substitute_nib (rev [0..<30]) v" 120] by (auto simp: decode_key_table_def Let_def)

text \<open>What is read off the words determines them.\<close>

lemma bit_from_le4:
  "bit (from_le [w, x, y, z] :: u32) n =
   (if n < 8 then bit w n else if n < 16 then bit x (n - 8) else if n < 24 then bit y (n - 16) else bit z (n - 24))"
  for w x y z :: u8
  by (auto simp: from_le.simps(2) bit_simps dest: bit_imp_le_length)

lemma to_le_4: "put_u32_le w = [ucast w, ucast (drop_bit 8 w), ucast (drop_bit 16 w), ucast (drop_bit 24 w)]"
  by (simp add: to_le.simps(2) numeral_eq_Suc drop_bit_drop_bit)

lemma to_le_4_inj: "put_u32_le w = put_u32_le w' \<Longrightarrow> w = w'"
  by (metis from_le_to_le len_of_numeral_defs(1) numeral_times_numeral order_refl
      from_le_to_le [of 4 w] from_le_to_le [of 4 w'] try_get_u32_le_exact sum.inject(2) prod.inject)

lemma public_mask_bits: "bit (0xFFFFFF03 :: u32) n \<longleftrightarrow> n < 2 \<or> 8 \<le> n \<and> n < 32"
proof -
  have "(0xFFFFFF03 :: u32) = NOT (push_bit 2 (mask 6))" by (simp add: mask_eq_exp_minus_1)
  then show ?thesis by (simp only: bit_not_iff bit_push_bit_iff bit_mask_iff) auto
qed

lemma split_values_eq:
  "split_values [a, b, c, d] =
     (drop_bit 10 a,
      from_le (rev (put_u32_le (from_le [ucast (drop_bit 8 a), ucast a, ucast (drop_bit 24 b), ucast (drop_bit 16 b)]
        AND 0xFFFFFF03))),
      [ucast b, ucast (drop_bit 8 b)] @ put_u32_le c @ put_u32_le d)"
  by (simp add: split_values_def Let_def to_le_4)

lemma split_values_inj:
  assumes "length v = 4" "length v' = 4" "split_values v = split_values v'"
  shows "v = v'"
proof -
  obtain a b c d where v: "v = [a, b, c, d]" using assms(1) by (auto simp: numeral_eq_Suc length_Suc_conv)
  obtain a' b' c' d' where v': "v' = [a', b', c', d']" using assms(2) by (auto simp: numeral_eq_Suc length_Suc_conv)
  let ?w = "\<lambda>a b :: u32. (from_le [ucast (drop_bit 8 a), ucast a, ucast (drop_bit 24 b), ucast (drop_bit 16 b)] :: u32)
    AND 0xFFFFFF03"
  have sv: "split_values [a, b, c, d] = split_values [a', b', c', d']" using assms(3) v v' by simp
  have prod: "drop_bit 10 a = drop_bit 10 a'" using sv by (simp only: split_values_eq prod.inject)
  have low: "[ucast b, ucast (drop_bit 8 b)] @ put_u32_le c @ put_u32_le d =
      [ucast b', ucast (drop_bit 8 b') :: u8] @ put_u32_le c' @ put_u32_le d'"
    using sv by (simp only: split_values_eq prod.inject)
  have "from_le (rev (put_u32_le (?w a b))) = (from_le (rev (put_u32_le (?w a' b'))) :: u32)"
    using sv by (simp only: split_values_eq prod.inject)
  then have "to_le 4 (from_le (rev (put_u32_le (?w a b))) :: u32) = to_le 4 (from_le (rev (put_u32_le (?w a' b'))) :: u32)"
    by (rule arg_cong)
  then have "put_u32_le (?w a b) = put_u32_le (?w a' b')" by simp
  then have w: "?w a b = ?w a' b'" by (rule to_le_4_inj)
  have wbit: "bit (?w a b) n = bit (?w a' b') n" for n using w by simp
  have cd: "c = c'" "d = d'" using low to_le_4_inj by auto
  have "a = a'"
  proof (rule bit_word_eqI)
    fix n assume "n < LENGTH(32)"
    have "bit a n = bit a' n" if "10 \<le> n"
    proof -
      have "bit (drop_bit 10 a) (n - 10) = bit (drop_bit 10 a') (n - 10)" by (simp only: prod)
      then show ?thesis using that by (simp only: bit_drop_bit_eq o_apply le_add_diff_inverse2 le_add_diff_inverse)
    qed
    moreover have "bit a n = bit a' n" if "8 \<le> n" "n < 10"
    proof -
      have "n - 8 < 2" "n - 8 < 8" using that by auto
      then show ?thesis
        using wbit [of "n - 8"] that by (simp only: bit_and_iff bit_from_le4 public_mask_bits) (simp add: bit_simps)
    qed
    moreover have "bit a n = bit a' n" if "n < 8"
      using wbit [of "n + 8"] that by (simp only: bit_and_iff bit_from_le4 public_mask_bits) (simp add: bit_simps)
    ultimately show "bit a n = bit a' n" by (meson not_le)
  qed
  moreover have "b = b'"
  proof (rule bit_word_eqI)
    fix n assume n: "n < LENGTH(32)"
    have bb: "(ucast b :: u8) = ucast b'" "(ucast (drop_bit 8 b) :: u8) = ucast (drop_bit 8 b')" using low by simp_all
    have "bit b n = bit b' n" if "n < 8"
      using arg_cong [OF bb(1), of "\<lambda>w. bit w n"] that by (simp add: bit_simps)
    moreover have "bit b n = bit b' n" if "8 \<le> n" "n < 16"
      using arg_cong [OF bb(2), of "\<lambda>w. bit w (n - 8)"] that by (simp add: bit_simps less_diff_conv2)
    moreover have "bit b n = bit b' n" if "16 \<le> n" "n < 24"
      using wbit [of "n + 8"] that by (simp only: bit_and_iff bit_from_le4 public_mask_bits) (simp add: bit_simps less_diff_conv2)
    moreover have "bit b n = bit b' n" if "24 \<le> n"
    proof -
      have "\<not> n - 8 < 8" "\<not> n - 8 < 16" "n - 8 < 24" "8 \<le> n - 8" "n - 8 < 32" "n - 8 - 16 = n - 24" "n - 24 < 8"
        using that n by auto
      then show ?thesis
        using wbit [of "n - 8"] that by (simp only: bit_and_iff bit_from_le4 public_mask_bits) (simp add: bit_simps)
    qed
    ultimately show "bit b n = bit b' n" by (meson not_le)
  qed
  ultimately show ?thesis using v v' cd by simp
qed

text \<open>The number of a key: its table of digits, as four words.\<close>

definition key_number :: "int list \<Rightarrow> u32 list" where
  "key_number table = fold mul5_add (rev table) [0, 0, 0, 0]"

lemma length_mul5_add [simp]: "length (mul5_add dc v) = length v"
  by (simp add: mul5_add_def mul5_word_def Let_def)

lemma length_key_number: "length (key_number table) = 4"
proof -
  have "length v = 4 \<Longrightarrow> length (fold mul5_add xs v) = 4" for xs v
    by (induction xs arbitrary: v) simp_all
  then show ?thesis by (simp add: key_number_def)
qed

lemma key26_table_ascii: "\<forall>b \<in> set s. b < 128 \<Longrightarrow> \<exists>t. key26_table (map (\<lambda>b. [b]) s) k t0 = Inr t"
proof (induction s arbitrary: k t0)
  case (Cons b s)
  then have "unat b < 256" using unsigned_less [of b] by simp
  with Cons show ?case by (simp add: char_code_def Let_def)
qed simp



end
