(* ===== verification/Bnet_Client.thy ===== *)
theory Bnet_Client
  imports Advert Nls Exe_Info Check_Revision Cdkey
begin

text \<open>
  The client of battle.net (\<^verbatim>\<open>spectre-bnet/src/client.rs\<close>): logging in, announcing games, chat and
  clan commands. A session is a record; what it writes to the socket and the events it reports are
  kept in order. One step takes one input of the \<^verbatim>\<open>select!\<close>: a command, a timer, a frame of the
  server or the end of the connection; random bytes and the state of the game's files come
  with the frame. \<open>None\<close> is a panic, which ends the process. The outer loop, which connects again, is
  the step of \<open>bnet_client\<close>. Writing to the socket is not checked by the code, so what is
  written is what the code hands over.
\<close>

section \<open>Configuration, commands and events\<close>

record bnet_config =
  bc_port :: u16
  bc_host_port :: u16
  bc_username :: bytes
  bc_password :: bytes
  bc_cdkey_roc :: bytes
  bc_cdkey_tft :: bytes
  bc_first_channel :: bytes
  bc_war3_version :: u8
  bc_exe_version :: bytes
  bc_exe_version_hash :: bytes
  bc_password_hash_type :: bytes
  bc_server :: bytes
  bc_server_alias :: bytes
  bc_pvpgn_realm_name :: bytes
  bc_root_admins :: "bytes list"
  bc_command_trigger :: bytes
  bc_reconnect_delay :: nat

datatype bnet_event =
    Connected
  | LoggedIn
  | ChatMessage bytes bytes
  | Whisper bytes bytes
  | FriendsList "friend_list_entry list"
  | ClanList "clan_member_entry list"
  | ClanInviteReceived bytes bytes bool
  | ClanRankChanged u8
  | ClanMemberRemoved u8
  | ClanMotdSet u8
  | Disconnected bytes

record create_game =
  cg_name :: bytes
  cg_map :: map_advert
  cg_host_counter :: u32
  cg_visibility :: game_visibility
  cg_host_name :: "bytes option"
  cg_port :: "u16 option"

datatype bnet_cmd =
    CreateGame create_game
  | RefreshGame u32 u32
  | UnhostGame
  | SendChat bytes
  | GetFriendsList
  | GetClanList
  | ClanInvitation bytes
  | ClanRemoveMember bytes
  | ClanChangeRank bytes u8
  | ClanSetMotd bytes
  | ClanAcceptInvite bool
  | Shutdown

datatype stage =
    AwaitAuthInfo | AwaitAuthCheck | AwaitAccountLogon | AwaitAccountLogonProof | AwaitEnterChat | InChat

record active_advert =
  aa_name :: bytes
  aa_map :: map_advert
  aa_host_counter :: u32
  aa_stat_string :: bytes
  aa_visibility :: game_visibility
  aa_host_name :: bytes
  aa_port :: "u16 option"

record bnet_session =
  bs_stage :: stage
  bs_adverts :: "active_advert list"
  bs_nls :: "nls_session option"
  bs_listed :: bool
  bs_friends :: "friend_list_entry list"
  bs_clan :: "clan_member_entry list"
  bs_invite_tag :: bytes
  bs_invite_name :: bytes
  bs_invite_creation :: bool
  bs_sent :: "bytes list"
  bs_events :: "bnet_event list"

definition new_session :: bnet_session where
  "new_session =
     \<lparr>bs_stage = AwaitAuthInfo, bs_adverts = [], bs_nls = None, bs_listed = False, bs_friends = [],
      bs_clan = [], bs_invite_tag = [0, 0, 0, 0], bs_invite_name = [], bs_invite_creation = False,
      bs_sent = [], bs_events = []\<rparr>"

text \<open>What a round of the session's loop does next.\<close>

datatype flow = Go_On | Break_Session | Break_All

section \<open>Sending\<close>

definition send :: "bytes \<Rightarrow> bnet_session \<Rightarrow> bnet_session" where
  "send p s = s\<lparr>bs_sent := bs_sent s @ [p]\<rparr>"

definition send_ok :: "proto_error + bytes \<Rightarrow> bnet_session \<Rightarrow> bnet_session" where
  "send_ok r s = (case r of Inr p \<Rightarrow> send p s | Inl _ \<Rightarrow> s)"

definition emit :: "bnet_event \<Rightarrow> bnet_session \<Rightarrow> bnet_session" where
  "emit e s = s\<lparr>bs_events := bs_events s @ [e]\<rparr>"

definition disconnect :: "bytes \<Rightarrow> bnet_session \<Rightarrow> bnet_session \<times> flow" where
  "disconnect msg s = (emit (Disconnected msg) s, Break_Session)"

definition send_port :: "u16 option \<Rightarrow> bnet_session \<Rightarrow> bnet_session" where
  "send_port port s = (case port of Some p \<Rightarrow> send (netgameport p) s | None \<Rightarrow> s)"

definition send_advert :: "active_advert \<Rightarrow> bnet_session \<Rightarrow> bnet_session" where
  "send_advert adv s =
     send_ok (startadvex3 (aa_visibility adv) (advert_game_type (aa_map adv) (aa_visibility adv)) (aa_name adv)
                (aa_host_name adv) 0 (aa_stat_string adv) (aa_host_counter adv))
       (send_port (aa_port adv) s)"

definition send_adverts :: "bnet_session \<Rightarrow> bnet_session" where
  "send_adverts s = fold send_advert (bs_adverts s) s"

section \<open>Commands and timers\<close>

definition create_game_cmd :: "bnet_config \<Rightarrow> create_game \<Rightarrow> bnet_session \<Rightarrow> bnet_session" where
  "create_game_cmd cfg g s =
     (let host_user = (case cg_host_name g of Some h \<Rightarrow> h | None \<Rightarrow> bc_username cfg);
          stat_string = encode_bnet_statstring (cg_map g) (cg_name g) host_user;
          s = (if bs_stage s = InChat
               then send_ok (startadvex3 (cg_visibility g) (advert_game_type (cg_map g) (cg_visibility g)) (cg_name g)
                               host_user 0 stat_string (cg_host_counter g))
                      (send_port (cg_port g) s)
               else s)
      in s\<lparr>bs_adverts := filter (\<lambda>a. aa_name a \<noteq> cg_name g) (bs_adverts s)
             @ [\<lparr>aa_name = cg_name g, aa_map = cg_map g, aa_host_counter = cg_host_counter g,
                 aa_stat_string = stat_string, aa_visibility = cg_visibility g, aa_host_name = host_user,
                 aa_port = cg_port g\<rparr>]\<rparr>)"

definition handle_cmd_in_session :: "bnet_config \<Rightarrow> bnet_cmd option \<Rightarrow> bnet_session \<Rightarrow> bnet_session \<times> flow" where
  "handle_cmd_in_session cfg cmd s =
     (case cmd of
        None \<Rightarrow> (s, Break_All)
      | Some Shutdown \<Rightarrow> (s, Break_All)
      | Some (SendChat msg) \<Rightarrow> (if bs_stage s = InChat then send_ok (bncs_chat_command msg) s else s, Go_On)
      | Some GetFriendsList \<Rightarrow> (send_ok friendslist s, Go_On)
      | Some GetClanList \<Rightarrow> (send_ok clanmemberlist s, Go_On)
      | Some (ClanInvitation name) \<Rightarrow> (send_ok clanmemberlist (send_ok (claninvitation name) s), Go_On)
      | Some (ClanRemoveMember name) \<Rightarrow> (send_ok clanmemberlist (send_ok (clanremovemember name) s), Go_On)
      | Some (ClanChangeRank account rank) \<Rightarrow>
          (send_ok clanmemberlist (send_ok (clanchangerank account rank) s), Go_On)
      | Some (ClanSetMotd motd) \<Rightarrow> (send_ok (clansetmotd motd) s, Go_On)
      | Some (ClanAcceptInvite accept) \<Rightarrow>
          (if bs_invite_creation s
           then send_ok (clancreationinvitation (bs_invite_tag s) (bs_invite_name s) accept) s
           else send_ok (claninvitationresponse (bs_invite_tag s) (bs_invite_name s) accept) s, Go_On)
      | Some (CreateGame g) \<Rightarrow> (create_game_cmd cfg g s, Go_On)
      | Some (RefreshGame players slots) \<Rightarrow> (if bs_stage s = InChat then send_adverts s else s, Go_On)
      | Some UnhostGame \<Rightarrow>
          ((if bs_stage s = InChat then send stopadv s else s)\<lparr>bs_adverts := []\<rparr>, Go_On))"

definition null_timer :: "bnet_session \<Rightarrow> bnet_session" where
  "null_timer s = (if bs_stage s = InChat then send bncs_null s else s)"

definition adv_timer :: "bnet_session \<Rightarrow> bnet_session" where
  "adv_timer s = (if bs_stage s = InChat then send_adverts s else s)"

definition probe_timer :: "bnet_session \<Rightarrow> bnet_session" where
  "probe_timer s =
     (if bs_stage s = InChat then fold (\<lambda>adv. send_ok (getadvlistex (aa_name adv))) (bs_adverts s) s else s)"

section \<open>Logging in\<close>

text \<open>
  What a frame of the server meets: random bytes, and the game's files, if they are there: name, size
  and time of the executable (\<open>None\<close> if they cannot be had), its contents, and the reads of the three
  files.
\<close>

record war3_files =
  wf_meta :: "(bytes option \<times> nat \<times> nat) option"
  wf_contents :: "bytes option"
  wf_exe :: "read_result list"
  wf_storm :: "read_result list"
  wf_game :: "read_result list"

record frame_world =
  fw_client_token :: u32
  fw_a_bytes :: bytes
  fw_files :: "war3_files option"

record bnet_ops =
  bo_crypto :: crypto_ops
  bo_alphanumeric :: "bytes \<Rightarrow> bool"
  bo_split_whitespace :: "bytes \<Rightarrow> bytes list"
  bo_os_error :: bytes

text \<open>The \<^verbatim>\<open>Display\<close> of the errors.\<close>

definition show_cd_key_error :: "cd_key_error \<Rightarrow> bytes" where
  "show_cd_key_error e =
     (case e of
        InvalidLength n \<Rightarrow>
          str ''invalid CD-key length: expected 13, 16, or 26 alphanumeric chars, got '' @ show_nat n
      | InvalidChar c \<Rightarrow> str ''invalid character '' @ [39] @ c @ [39] @ str '' in CD-key''
      | ChecksumFailed \<Rightarrow> str ''CD-key checksum verification failed'')"

definition show_cr_error :: "bnet_ops \<Rightarrow> cr_error \<Rightarrow> bytes" where
  "show_cr_error ops e =
     (case e of
        NoFiles \<Rightarrow> str ''checkRevision requires at least one file''
      | UnknownOperator c \<Rightarrow> str ''unknown CheckRevision operator '' @ [39] @ c @ [39]
      | ReadFailed \<Rightarrow> bo_os_error ops)"

text \<open>Version data of the executable, or what the configuration says; \<open>None\<close> when \<^verbatim>\<open>extract_mpq_number\<close> panics.\<close>

definition version_data ::
    "bnet_ops \<Rightarrow> bnet_config \<Rightarrow> auth_info_msg \<Rightarrow> war3_files option \<Rightarrow> (cr_error + (bytes \<times> bytes \<times> bytes)) option" where
  "version_data ops cfg info files =
     (case files of
        None \<Rightarrow> Some (Inr (ai_ix86_ver_file_name info, bc_exe_version cfg, bc_exe_version_hash cfg))
      | Some f \<Rightarrow>
          map_option (\<lambda>mpq_num.
            case wf_meta f of
              None \<Rightarrow> Inl ReadFailed
            | Some (file_name, file_size, secs) \<Rightarrow>
                (let exe = get_exe_info file_name file_size secs (wf_contents f) 1
                 in and_then (check_revision_flat (bo_split_whitespace ops) None (ai_value_string_formula info)
                                (wf_exe f) (wf_storm f) (wf_game f) mpq_num) (\<lambda>hash.
                    Inr (exe_info_string exe, put_u32_le (exe_version exe), put_u32_le hash))))
            (extract_mpq_number (ai_ix86_ver_file_name info)))"

definition on_auth_info ::
    "bnet_ops \<Rightarrow> bnet_config \<Rightarrow> frame_world \<Rightarrow> bytes \<Rightarrow> bnet_session \<Rightarrow> (bnet_session \<times> flow) option" where
  "on_auth_info ops cfg fw payload s =
     (case decode_auth_info payload of
        Inl _ \<Rightarrow> Some (s, Go_On)
      | Inr info \<Rightarrow>
          (let sha1 = c_sha1 (bo_crypto ops); alnum = bo_alphanumeric ops;
               token = fw_client_token fw; server = ai_server_token info
           in case create_key_info sha1 alnum (bc_cdkey_roc cfg) token server False of
                Inl e \<Rightarrow> Some (disconnect (str ''invalid ROC CD-key: '' @ show_cd_key_error e) s)
              | Inr key_info_roc \<Rightarrow>
              (case create_key_info sha1 alnum (bc_cdkey_tft cfg) token server True of
                Inl e \<Rightarrow> Some (disconnect (str ''invalid TFT CD-key: '' @ show_cd_key_error e) s)
              | Inr key_info_tft \<Rightarrow>
              (case version_data ops cfg info (fw_files fw) of
                None \<Rightarrow> None
              | Some (Inl e) \<Rightarrow> Some (disconnect (str ''CheckRevision / ExeInfo failed: '' @ show_cr_error ops e) s)
              | Some (Inr (exe_info, exe_ver, exe_ver_hash)) \<Rightarrow>
                  (case auth_check True (put_u32_le token) exe_ver exe_ver_hash key_info_roc key_info_tft exe_info
                          (str ''GHost'') of
                     Inl _ \<Rightarrow> Some (s, Go_On)
                   | Inr check_pkt \<Rightarrow> Some ((send check_pkt s)\<lparr>bs_stage := AwaitAuthCheck\<rparr>, Go_On))))))"

definition on_auth_check ::
    "bnet_ops \<Rightarrow> bnet_config \<Rightarrow> frame_world \<Rightarrow> bytes \<Rightarrow> bnet_session \<Rightarrow> bnet_session \<times> flow" where
  "on_auth_check ops cfg fw payload s =
     (case decode_auth_check payload of
        Inl _ \<Rightarrow> (s, Go_On)
      | Inr check \<Rightarrow>
          if ac_key_state check = 0 then
            (let nls = nls_new (bo_crypto ops) (bc_username cfg) (bc_password cfg) (fw_a_bytes fw);
                 s = s\<lparr>bs_nls := Some nls\<rparr>
             in case auth_accountlogon (client_public_key nls) (bc_username cfg) of
                  Inl _ \<Rightarrow> (s, Go_On)
                | Inr logon_pkt \<Rightarrow> ((send logon_pkt s)\<lparr>bs_stage := AwaitAccountLogon\<rparr>, Go_On))
          else disconnect (str ''CD keys rejected: '' @ ac_key_state_description check) s)"

definition logon_proof_bytes ::
    "bnet_ops \<Rightarrow> bnet_config \<Rightarrow> account_logon_msg \<Rightarrow> nls_session option \<Rightarrow> nls_error + bytes" where
  "logon_proof_bytes ops cfg acc nls =
     (if eq_ignore_ascii_case (bc_password_hash_type cfg) (str ''pvpgn'') then Inr (hash_password (bc_password cfg))
      else case nls of
        Some n \<Rightarrow> compute_m1 (bo_crypto ops) n (al_server_public_key acc) (al_salt acc)
      | None \<Rightarrow> Inr [])"

definition on_account_logon ::
    "bnet_ops \<Rightarrow> bnet_config \<Rightarrow> bytes \<Rightarrow> bnet_session \<Rightarrow> bnet_session \<times> flow" where
  "on_account_logon ops cfg payload s =
     (case decode_account_logon payload of
        Inl _ \<Rightarrow> (s, Go_On)
      | Inr acc \<Rightarrow>
          if al_status acc = 0 then
            (case logon_proof_bytes ops cfg acc (bs_nls s) of
               Inl e \<Rightarrow> disconnect (str ''NLS compute_m1 failed: invalid server public key (zero or out of field)'') s
             | Inr proof_bytes \<Rightarrow>
                 (case auth_accountlogonproof proof_bytes of
                    Inl _ \<Rightarrow> (s, Go_On)
                  | Inr proof_pkt \<Rightarrow> ((send proof_pkt s)\<lparr>bs_stage := AwaitAccountLogonProof\<rparr>, Go_On)))
          else disconnect (str ''Logon failed - invalid username (status '' @ show_word (al_status acc) @ str '')'') s)"

definition on_logon_proof :: "bnet_config \<Rightarrow> bytes \<Rightarrow> bnet_session \<Rightarrow> bnet_session \<times> flow" where
  "on_logon_proof cfg payload s =
     (case decode_logon_proof payload of
        Inl _ \<Rightarrow> (s, Go_On)
      | Inr proof \<Rightarrow>
          if lp_status proof = 0 \<or> lp_status proof = 0x0E then
            (send_ok clanmemberlist (send_ok friendslist (send_ok enter_chat
               (send (netgameport (bc_host_port cfg)) (s\<lparr>bs_stage := AwaitEnterChat\<rparr>)))), Go_On)
          else disconnect (str ''Logon failed - invalid password (status '' @ show_word (lp_status proof) @ str '')'') s)"

definition on_enter_chat :: "bnet_config \<Rightarrow> bnet_session \<Rightarrow> bnet_session" where
  "on_enter_chat cfg s =
     (let s = (if bc_first_channel cfg \<noteq> [] then send_ok (join_channel (bc_first_channel cfg)) s else s);
          s = s\<lparr>bs_stage := InChat\<rparr>
      in emit LoggedIn (send_adverts s))"

section \<open>In the chat\<close>

definition on_chat_event :: "bytes \<Rightarrow> bnet_session \<Rightarrow> bnet_session" where
  "on_chat_event payload s =
     (case decode_chat_event payload of
        Inr ev \<Rightarrow>
          if ce_event_id ev = 0x04 then emit (Whisper (ce_user ev) (ce_message ev)) s
          else if ce_event_id ev = 0x05 then emit (ChatMessage (ce_user ev) (ce_message ev)) s
          else s
      | Inl _ \<Rightarrow> s)"

definition on_startadvex3 :: "bytes \<Rightarrow> bnet_session \<Rightarrow> bnet_session" where
  "on_startadvex3 payload s =
     (let status = (if length payload \<ge> 4 then from_le (take 4 payload) else (- 1 :: u32))
      in s\<lparr>bs_listed := (status = 0)\<rparr>)"

definition on_friendslist :: "bytes \<Rightarrow> bnet_session \<Rightarrow> bnet_session" where
  "on_friendslist payload s =
     (case decode_friendslist payload of
        Inr fl \<Rightarrow> emit (FriendsList fl) (s\<lparr>bs_friends := fl\<rparr>)
      | Inl _ \<Rightarrow> s)"

definition on_clanmemberlist :: "bytes \<Rightarrow> bnet_session \<Rightarrow> bnet_session" where
  "on_clanmemberlist payload s =
     (case decode_clanmemberlist payload of
        Inr cl \<Rightarrow> emit (ClanList cl) (s\<lparr>bs_clan := cl\<rparr>)
      | Inl _ \<Rightarrow> s)"

definition on_clan_invite :: "bool \<Rightarrow> proto_error + clan_invite \<Rightarrow> bnet_session \<Rightarrow> bnet_session" where
  "on_clan_invite creation r s =
     (case r of
        Inr invite \<Rightarrow>
          emit (ClanInviteReceived (ci_clan_name invite) (ci_inviter_name invite) creation)
            (s\<lparr>bs_invite_tag := ci_tag invite, bs_invite_name := ci_inviter_name invite,
               bs_invite_creation := creation\<rparr>)
      | Inl _ \<Rightarrow> s)"

definition clan_status :: "bytes \<Rightarrow> u8" where
  "clan_status payload =
     (if length payload \<ge> 5 then payload ! 4 else case payload of b # _ \<Rightarrow> b | [] \<Rightarrow> 0)"

text \<open>The \<^verbatim>\<open>match (stage, frame.id)\<close> from the chat on; the arms for any stage come first in their order.\<close>

definition handle_chat_frame :: "u8 \<Rightarrow> bytes \<Rightarrow> bnet_session \<Rightarrow> bnet_session" where
  "handle_chat_frame i payload s =
     (let st = bs_stage s; chat = (bs_stage s = InChat)
      in if chat \<and> i = SID_CHATEVENT then on_chat_event payload s
         else if chat \<and> i = SID_STARTADVEX3 then on_startadvex3 payload s
         else if chat \<and> i = SID_GETADVLISTEX then s
         else if (chat \<or> st = AwaitEnterChat) \<and> i = SID_FRIENDSLIST then on_friendslist payload s
         else if (chat \<or> st = AwaitEnterChat) \<and> i = SID_CLANMEMBERLIST then on_clanmemberlist payload s
         else if chat \<and> i = SID_CLANCREATIONINVITATION
           then on_clan_invite True (decode_clancreationinvitation payload) s
         else if chat \<and> i = SID_CLANINVITATIONRESPONSE
           then on_clan_invite False (decode_claninvitationresponse payload) s
         else if i = SID_WARDEN then s
         else if i = SID_CHECKAD then (case decode_checkad payload of Inr _ \<Rightarrow> send checkad s | Inl _ \<Rightarrow> s)
         else if chat \<and> i = SID_CLANCHANGERANK then emit (ClanRankChanged (clan_status payload)) s
         else if chat \<and> i = SID_CLANREMOVEMEMBER then emit (ClanMemberRemoved (clan_status payload)) s
         else if chat \<and> i = SID_CLANSETMOTD then emit (ClanMotdSet (clan_status payload)) s
         else s)"

definition handle_frame ::
    "bnet_ops \<Rightarrow> bnet_config \<Rightarrow> frame_world \<Rightarrow> frame \<Rightarrow> bnet_session \<Rightarrow> (bnet_session \<times> flow) option" where
  "handle_frame ops cfg fw f s =
     (let i = frame_id f; payload = frame_payload f; st = bs_stage s
      in if i = SID_PING then
           Some (case decode_ping payload of Inr v \<Rightarrow> send (bncs_ping v) s | Inl _ \<Rightarrow> s, Go_On)
         else if i = SID_ICCUP_CHALLENGE then Some (send_ok (iccup_challenge_reply payload) s, Go_On)
         else if st = AwaitAuthInfo \<and> i = SID_AUTH_INFO then on_auth_info ops cfg fw payload s
         else if i = SID_ICCUP_ANTIHACK then Some (send_ok (iccup_challenge_reply payload) s, Go_On)
         else if st = AwaitAuthCheck \<and> i = SID_AUTH_CHECK then Some (on_auth_check ops cfg fw payload s)
         else if st = AwaitAccountLogon \<and> i = SID_AUTH_ACCOUNTLOGON then Some (on_account_logon ops cfg payload s)
         else if st = AwaitAccountLogonProof
              \<and> (i = SID_AUTH_ACCOUNTLOGONPROOF \<or> i = SID_LOGONRESPONSE2 \<or> i = SID_LOGONRESPONSE)
           then Some (on_logon_proof cfg payload s)
         else if (st = AwaitEnterChat \<or> st = InChat) \<and> i = SID_ENTERCHAT then Some (on_enter_chat cfg s, Go_On)
         else Some (handle_chat_frame i payload s, Go_On))"

section \<open>The loops\<close>

datatype session_input =
    In_Cmd "bnet_cmd option"
  | In_Null_Timer
  | In_Adv_Timer
  | In_Probe_Timer
  | In_Frame frame_world frame
  | In_Error bytes
  | In_Closed

definition session_step ::
    "bnet_ops \<Rightarrow> bnet_config \<Rightarrow> session_input \<Rightarrow> bnet_session \<Rightarrow> (bnet_session \<times> flow) option" where
  "session_step ops cfg inp s =
     (case inp of
        In_Cmd cmd \<Rightarrow> Some (handle_cmd_in_session cfg cmd s)
      | In_Null_Timer \<Rightarrow> Some (null_timer s, Go_On)
      | In_Adv_Timer \<Rightarrow> Some (adv_timer s, Go_On)
      | In_Probe_Timer \<Rightarrow> Some (probe_timer s, Go_On)
      | In_Frame fw f \<Rightarrow> handle_frame ops cfg fw f s
      | In_Error e \<Rightarrow> Some (disconnect (str ''protocol error: '' @ e) s)
      | In_Closed \<Rightarrow> Some (disconnect (str ''connection closed by server'') s))"

text \<open>The outer loop. Between sessions it waits, and a command ends the wait and is dropped.\<close>

datatype bnet_phase = Connecting | Running bnet_session | Waiting | Sleeping | Stopped

record bnet_client =
  bcl_phase :: bnet_phase
  bcl_sent :: "bytes list"
  bcl_events :: "bnet_event list"

datatype bnet_input =
    Connect_Failed bytes
  | Selector_Failed bytes
  | Connect_Ok
  | Auth_Info_Unsent
  | Session_Input session_input
  | Delay_Over

definition start_session :: "bnet_config \<Rightarrow> bnet_phase" where
  "start_session cfg =
     (case auth_info (bc_war3_version cfg) True 1033 (str ''USA'') (str ''United States'') of
        Inl _ \<Rightarrow> Stopped
      | Inr p \<Rightarrow> Running (send p new_session))"

definition end_session :: "flow \<Rightarrow> bnet_session \<Rightarrow> bnet_client \<Rightarrow> bnet_client" where
  "end_session fl s c =
     (case fl of
        Go_On \<Rightarrow> c\<lparr>bcl_phase := Running s\<rparr>
      | Break_Session \<Rightarrow> \<lparr>bcl_phase = Waiting, bcl_sent = bcl_sent c @ bs_sent s, bcl_events = bcl_events c @ bs_events s\<rparr>
      | Break_All \<Rightarrow> \<lparr>bcl_phase = Stopped, bcl_sent = bcl_sent c @ bs_sent s, bcl_events = bcl_events c @ bs_events s\<rparr>)"

definition bnet_step :: "bnet_ops \<Rightarrow> bnet_config \<Rightarrow> bnet_input \<Rightarrow> bnet_client \<Rightarrow> bnet_client option" where
  "bnet_step ops cfg inp c =
     (case (bcl_phase c, inp) of
        (Connecting, Connect_Failed msg) \<Rightarrow>
          Some (c\<lparr>bcl_phase := Waiting, bcl_events := bcl_events c @ [Disconnected (str ''connect failed: '' @ msg)]\<rparr>)
      | (Connecting, Selector_Failed msg) \<Rightarrow>
          Some (c\<lparr>bcl_phase := Sleeping,
                  bcl_events := bcl_events c @ [Disconnected (str ''failed to send protocol selector: '' @ msg)]\<rparr>)
      | (Connecting, Connect_Ok) \<Rightarrow>
          Some (c\<lparr>bcl_phase := start_session cfg, bcl_sent := bcl_sent c @ [[0x01]],
                  bcl_events := bcl_events c @ [Connected]\<rparr>)
      | (Connecting, Auth_Info_Unsent) \<Rightarrow>
          Some (c\<lparr>bcl_sent := bcl_sent c @ [[0x01]], bcl_events := bcl_events c @ [Connected]\<rparr>)
      | (Running s, Session_Input i) \<Rightarrow>
          map_option (\<lambda>(s', fl). end_session fl s' c) (session_step ops cfg i s)
      | (Waiting, Delay_Over) \<Rightarrow> Some (c\<lparr>bcl_phase := Connecting\<rparr>)
      | (Waiting, Session_Input (In_Cmd cmd)) \<Rightarrow>
          Some (c\<lparr>bcl_phase := (case cmd of None \<Rightarrow> Stopped | Some Shutdown \<Rightarrow> Stopped | _ \<Rightarrow> Connecting)\<rparr>)
      | (Sleeping, Delay_Over) \<Rightarrow> Some (c\<lparr>bcl_phase := Connecting\<rparr>)
      | _ \<Rightarrow> Some c)"

primrec bnet_run :: "bnet_ops \<Rightarrow> bnet_config \<Rightarrow> bnet_input list \<Rightarrow> bnet_client \<Rightarrow> bnet_client option" where
  "bnet_run ops cfg [] c = Some c"
| "bnet_run ops cfg (i # is) c = Option.bind (bnet_step ops cfg i c) (bnet_run ops cfg is)"

definition bnet_client_new :: bnet_client where
  "bnet_client_new = \<lparr>bcl_phase = Connecting, bcl_sent = [], bcl_events = []\<rparr>"

section \<open>The order of a logon\<close>

definition pkt_id :: "bytes \<Rightarrow> u8" where
  "pkt_id p = p ! 1"

lemma pkt_id_encode [simp]: "encode_with h \<lparr>frame_id = i, frame_payload = p\<rparr> = Inr bs \<Longrightarrow> pkt_id bs = i"
  by (auto simp: pkt_id_def encode_with_def Let_def split: if_splits)

lemma pkt_id_expect: "length p \<le> 65531 \<Longrightarrow> pkt_id (expect (encode_with h \<lparr>frame_id = i, frame_payload = p\<rparr>)) = i"
  by (rule pkt_id_encode, rule encode_with_small) simp

lemma pkt_id_fixed [simp]:
  "pkt_id bncs_null = SID_NULL" "pkt_id stopadv = SID_STOPADV" "pkt_id checkad = SID_CHECKAD"
  "pkt_id (netgameport port) = SID_NETGAMEPORT" "length v = 4 \<Longrightarrow> pkt_id (bncs_ping v) = SID_PING"
  by (simp_all add: bncs_null_def stopadv_def checkad_def netgameport_def bncs_ping_def pkt_id_expect)

text \<open>The packets of the logon, in order; those that only a client in the chat sends; and the others.\<close>

definition logon_ids :: "u8 list" where
  "logon_ids = [SID_AUTH_INFO, SID_AUTH_CHECK, SID_AUTH_ACCOUNTLOGON, SID_AUTH_ACCOUNTLOGONPROOF, SID_ENTERCHAT]"

definition chat_ids :: "u8 set" where
  "chat_ids = {SID_NULL, SID_STOPADV, SID_GETADVLISTEX, SID_JOINCHANNEL, SID_CHATCOMMAND, SID_STARTADVEX3}"

definition other_ids :: "u8 set" where
  "other_ids = {SID_CHECKAD, SID_PING, SID_NETGAMEPORT, SID_FRIENDSLIST, SID_CLANCREATIONINVITATION,
     SID_CLANINVITATION, SID_CLANREMOVEMEMBER, SID_CLANINVITATIONRESPONSE, SID_CLANCHANGERANK, SID_CLANSETMOTD,
     SID_CLANMEMBERLIST, SID_ICCUP_ANTIHACK}"

text \<open>A part of a step that sends packets of some kinds only and does not take part in the logon.\<close>

definition quiet :: "u8 set \<Rightarrow> bnet_session \<Rightarrow> bnet_session \<Rightarrow> bool" where
  "quiet I s s' \<longleftrightarrow> bs_stage s' = bs_stage s \<and> bs_nls s' = bs_nls s
     \<and> (\<exists>ps. bs_sent s' = bs_sent s @ ps \<and> pkt_id ` set ps \<subseteq> I)
     \<and> (\<exists>es. bs_events s' = bs_events s @ es \<and> LoggedIn \<notin> set es)
     \<and> (distinct (map aa_name (bs_adverts s)) \<longrightarrow> distinct (map aa_name (bs_adverts s')))"

lemma quiet_refl [simp]: "quiet I s s"
  by (simp add: quiet_def)

lemma quiet_trans:
  assumes "quiet I s t" and "quiet I t u"
  shows "quiet I s u"
proof -
  from assms(1) obtain ps es where "bs_sent t = bs_sent s @ ps" "pkt_id ` set ps \<subseteq> I"
    "bs_events t = bs_events s @ es" "LoggedIn \<notin> set es" by (auto simp: quiet_def)
  moreover from assms(2) obtain qs fs where "bs_sent u = bs_sent t @ qs" "pkt_id ` set qs \<subseteq> I"
    "bs_events u = bs_events t @ fs" "LoggedIn \<notin> set fs" by (auto simp: quiet_def)
  ultimately show ?thesis using assms
    unfolding quiet_def by (intro conjI exI [of _ "ps @ qs"] exI [of _ "es @ fs"]) auto
qed

lemma quiet_mono: "quiet I s s' \<Longrightarrow> I \<subseteq> J \<Longrightarrow> quiet J s s'"
  unfolding quiet_def by blast

lemma quiet_send: "pkt_id p \<in> I \<Longrightarrow> quiet I s t \<Longrightarrow> quiet I s (send p t)"
  by (rule quiet_trans) (auto simp: quiet_def send_def)

lemma quiet_send_ok: "(\<And>p. r = Inr p \<Longrightarrow> pkt_id p \<in> I) \<Longrightarrow> quiet I s t \<Longrightarrow> quiet I s (send_ok r t)"
  by (auto simp: send_ok_def intro: quiet_send split: sum.splits)

lemma quiet_emit: "e \<noteq> LoggedIn \<Longrightarrow> quiet I s t \<Longrightarrow> quiet I s (emit e t)"
  by (rule quiet_trans) (auto simp: quiet_def emit_def)

lemma quiet_fold: "(\<And>a s. quiet I s (f a s)) \<Longrightarrow> quiet I s (fold f xs s)"
  by (induction xs arbitrary: s) (auto intro: quiet_trans)

lemma quiet_field:
  "quiet I s t \<Longrightarrow> bs_stage u = bs_stage t \<Longrightarrow> bs_nls u = bs_nls t \<Longrightarrow> bs_sent u = bs_sent t
   \<Longrightarrow> bs_events u = bs_events t
   \<Longrightarrow> (distinct (map aa_name (bs_adverts t)) \<Longrightarrow> distinct (map aa_name (bs_adverts u))) \<Longrightarrow> quiet I s u"
  by (simp add: quiet_def)

lemma quiet_same:
  "bs_stage u = bs_stage s \<Longrightarrow> bs_nls u = bs_nls s \<Longrightarrow> bs_sent u = bs_sent s \<Longrightarrow> bs_events u = bs_events s
   \<Longrightarrow> bs_adverts u = bs_adverts s \<Longrightarrow> quiet I s u"
  by (simp add: quiet_def)

lemma quiet_send_port: "SID_NETGAMEPORT \<in> I \<Longrightarrow> quiet I s t \<Longrightarrow> quiet I s (send_port port t)"
  by (cases port) (auto simp: send_port_def intro: quiet_send)

lemma startadvex3_id: "startadvex3 v gt name host up stat hc = Inr p \<Longrightarrow> pkt_id p = SID_STARTADVEX3"
  by (auto simp: startadvex3_def split: if_splits)

lemma quiet_send_adverts: "SID_NETGAMEPORT \<in> I \<Longrightarrow> SID_STARTADVEX3 \<in> I \<Longrightarrow> quiet I s (send_adverts s)"
  unfolding send_adverts_def send_advert_def
  by (intro quiet_fold quiet_send_ok quiet_send_port) (auto dest: startadvex3_id)

lemma auth_frames_id:
  "join_channel c = Inr p \<Longrightarrow> pkt_id p = SID_JOINCHANNEL"
  "bncs_chat_command c = Inr p \<Longrightarrow> pkt_id p = SID_CHATCOMMAND"
  "getadvlistex c = Inr p \<Longrightarrow> pkt_id p = SID_GETADVLISTEX"
  "friendslist = Inr p \<Longrightarrow> pkt_id p = SID_FRIENDSLIST"
  "clanmemberlist = Inr p \<Longrightarrow> pkt_id p = SID_CLANMEMBERLIST"
  "claninvitation c = Inr p \<Longrightarrow> pkt_id p = SID_CLANINVITATION"
  "clanremovemember c = Inr p \<Longrightarrow> pkt_id p = SID_CLANREMOVEMEMBER"
  "clanchangerank c r = Inr p \<Longrightarrow> pkt_id p = SID_CLANCHANGERANK"
  "clansetmotd c = Inr p \<Longrightarrow> pkt_id p = SID_CLANSETMOTD"
  "clancreationinvitation t c b = Inr p \<Longrightarrow> pkt_id p = SID_CLANCREATIONINVITATION"
  "claninvitationresponse t c b = Inr p \<Longrightarrow> pkt_id p = SID_CLANINVITATIONRESPONSE"
  "iccup_challenge_reply c = Inr p \<Longrightarrow> pkt_id p = SID_ICCUP_ANTIHACK"
  "auth_info v tft l c c' = Inr p \<Longrightarrow> pkt_id p = SID_AUTH_INFO"
  "auth_check tft a b' d e f g h = Inr p \<Longrightarrow> pkt_id p = SID_AUTH_CHECK"
  "auth_accountlogon k n = Inr p \<Longrightarrow> pkt_id p = SID_AUTH_ACCOUNTLOGON"
  "auth_accountlogonproof k = Inr p \<Longrightarrow> pkt_id p = SID_AUTH_ACCOUNTLOGONPROOF"
  unfolding join_channel_def bncs_chat_command_def getadvlistex_def friendslist_def clanmemberlist_def
    claninvitation_def clanremovemember_def clanchangerank_def clansetmotd_def clancreationinvitation_def
    claninvitationresponse_def iccup_challenge_reply_def auth_info_def auth_check_def auth_accountlogon_def
    auth_accountlogonproof_def Let_def
  by (erule pkt_id_encode)+

text \<open>Which parts are quiet.\<close>

lemma quiet_in_chat:
  assumes "bs_stage s = InChat"
  shows "quiet (chat_ids \<union> other_ids) s (null_timer s)" "quiet (chat_ids \<union> other_ids) s (adv_timer s)"
    "quiet (chat_ids \<union> other_ids) s (probe_timer s)"
proof -
  show "quiet (chat_ids \<union> other_ids) s (null_timer s)"
    using assms by (auto simp: null_timer_def chat_ids_def intro!: quiet_send)
  show "quiet (chat_ids \<union> other_ids) s (adv_timer s)"
    using assms by (auto simp: adv_timer_def chat_ids_def other_ids_def intro!: quiet_send_adverts)
  show "quiet (chat_ids \<union> other_ids) s (probe_timer s)"
    unfolding probe_timer_def using assms
    by (auto simp: chat_ids_def intro!: quiet_fold quiet_send_ok dest: auth_frames_id)
qed

definition allowed :: "stage \<Rightarrow> u8 set" where
  "allowed st = (if st = InChat then chat_ids \<union> other_ids else other_ids)"

lemma quiet_timers:
  "quiet (allowed (bs_stage s)) s (null_timer s)" "quiet (allowed (bs_stage s)) s (adv_timer s)"
  "quiet (allowed (bs_stage s)) s (probe_timer s)"
  using quiet_in_chat [of s]
  by (cases "bs_stage s = InChat"; simp add: allowed_def null_timer_def adv_timer_def probe_timer_def)+

lemma allowed_ids:
  "other_ids \<subseteq> allowed st" "SID_NETGAMEPORT \<in> allowed st" "SID_FRIENDSLIST \<in> allowed st"
  "SID_CLANMEMBERLIST \<in> allowed st" "SID_CLANINVITATION \<in> allowed st" "SID_CLANREMOVEMEMBER \<in> allowed st"
  "SID_CLANCHANGERANK \<in> allowed st" "SID_CLANSETMOTD \<in> allowed st" "SID_CLANCREATIONINVITATION \<in> allowed st"
  "SID_CLANINVITATIONRESPONSE \<in> allowed st" "SID_ICCUP_ANTIHACK \<in> allowed st" "SID_PING \<in> allowed st"
  "SID_CHECKAD \<in> allowed st"
  "SID_STARTADVEX3 \<in> allowed InChat" "SID_CHATCOMMAND \<in> allowed InChat" "SID_STOPADV \<in> allowed InChat"
  by (auto simp: allowed_def other_ids_def chat_ids_def)

lemma quiet_create_game: "quiet (allowed (bs_stage s)) s (create_game_cmd cfg g s)"
  unfolding create_game_cmd_def Let_def
  by (rule quiet_field [where t = "if bs_stage s = InChat
      then send_ok (startadvex3 (cg_visibility g) (advert_game_type (cg_map g) (cg_visibility g)) (cg_name g)
             (case cg_host_name g of Some h \<Rightarrow> h | None \<Rightarrow> bc_username cfg) 0
             (encode_bnet_statstring (cg_map g) (cg_name g)
                (case cg_host_name g of Some h \<Rightarrow> h | None \<Rightarrow> bc_username cfg)) (cg_host_counter g))
           (send_port (cg_port g) s) else s"])
     (auto intro!: quiet_send_ok quiet_send_port simp: allowed_ids distinct_map_filter dest: startadvex3_id)

lemma quiet_cmd: "handle_cmd_in_session cfg cmd s = (s', fl) \<Longrightarrow> quiet (allowed (bs_stage s)) s s'"
proof (cases cmd)
  case (Some c)
  assume eq: "handle_cmd_in_session cfg cmd s = (s', fl)"
  show ?thesis
  proof (cases c)
    case (CreateGame g)
    then show ?thesis using Some eq quiet_create_game by (auto simp: handle_cmd_in_session_def)
  next
    case (RefreshGame p q)
    then show ?thesis using Some eq
      by (auto simp: handle_cmd_in_session_def allowed_ids intro!: quiet_send_adverts)
  next
    case UnhostGame
    have "quiet (allowed (bs_stage s)) s (if bs_stage s = InChat then send stopadv s else s)"
      by (auto intro!: quiet_send simp: allowed_ids)
    then show ?thesis using Some eq UnhostGame
      by (auto simp: handle_cmd_in_session_def elim!: quiet_field)
  qed (use Some eq in \<open>auto simp: handle_cmd_in_session_def allowed_ids intro!: quiet_send_ok dest!: auth_frames_id\<close>)
qed (auto simp: handle_cmd_in_session_def)

lemma quiet_chat_frame: "quiet (allowed (bs_stage s)) s (handle_chat_frame i payload s)"
proof -
  have "quiet (allowed (bs_stage s)) s (on_chat_event payload s)"
    by (auto simp: on_chat_event_def intro!: quiet_emit split: sum.splits)
  moreover have "quiet (allowed (bs_stage s)) s (on_startadvex3 payload s)"
    unfolding on_startadvex3_def Let_def by (rule quiet_same) auto
  moreover have "quiet (allowed (bs_stage s)) s (on_friendslist payload s)"
    by (auto simp: on_friendslist_def intro!: quiet_emit quiet_same split: sum.splits)
  moreover have "quiet (allowed (bs_stage s)) s (on_clanmemberlist payload s)"
    by (auto simp: on_clanmemberlist_def intro!: quiet_emit quiet_same split: sum.splits)
  moreover have "quiet (allowed (bs_stage s)) s (on_clan_invite cr r s)" for cr r
    by (auto simp: on_clan_invite_def intro!: quiet_emit quiet_same split: sum.splits)
  ultimately show ?thesis
    unfolding handle_chat_frame_def Let_def decode_checkad_def
    by (auto intro!: quiet_emit quiet_send simp: allowed_ids)
qed

fun logon_progress :: "stage \<Rightarrow> nat" where
  "logon_progress AwaitAuthInfo = 1"
| "logon_progress AwaitAuthCheck = 2"
| "logon_progress AwaitAccountLogon = 3"
| "logon_progress AwaitAccountLogonProof = 4"
| "logon_progress AwaitEnterChat = 5"
| "logon_progress InChat = 5"

definition session_inv :: "bnet_session \<Rightarrow> bool" where
  "session_inv s \<longleftrightarrow>
     filter (\<lambda>i. i \<in> set logon_ids) (map pkt_id (bs_sent s)) = take (logon_progress (bs_stage s)) logon_ids
     \<and> (bs_stage s \<noteq> InChat \<longrightarrow> (\<forall>p \<in> set (bs_sent s). pkt_id p \<notin> chat_ids))
     \<and> (LoggedIn \<in> set (bs_events s) \<longleftrightarrow> bs_stage s = InChat)
     \<and> (3 \<le> logon_progress (bs_stage s) \<longrightarrow> bs_nls s \<noteq> None)
     \<and> distinct (map aa_name (bs_adverts s))"

lemma ids_disjoint: "set logon_ids \<inter> allowed st = {}" "other_ids \<inter> chat_ids = {}"
  by (auto simp: logon_ids_def allowed_def chat_ids_def other_ids_def)

lemma filter_no_logon: "pkt_id ` set ps \<subseteq> allowed st \<Longrightarrow> filter (\<lambda>i. i \<in> set logon_ids) (map pkt_id ps) = []"
  using ids_disjoint(1) [of st] by (auto simp: filter_empty_conv)

lemma inv_quiet:
  assumes "session_inv s" and "quiet (allowed (bs_stage s)) s s'"
  shows "session_inv s'"
proof -
  from assms(2) obtain ps es where s': "bs_stage s' = bs_stage s" "bs_nls s' = bs_nls s"
    "bs_sent s' = bs_sent s @ ps" "pkt_id ` set ps \<subseteq> allowed (bs_stage s)"
    "bs_events s' = bs_events s @ es" "LoggedIn \<notin> set es"
    "distinct (map aa_name (bs_adverts s)) \<longrightarrow> distinct (map aa_name (bs_adverts s'))"
    by (auto simp: quiet_def)
  have "bs_stage s \<noteq> InChat \<longrightarrow> (\<forall>p \<in> set ps. pkt_id p \<notin> chat_ids)"
  proof (intro impI ballI)
    fix p assume st: "bs_stage s \<noteq> InChat" and p: "p \<in> set ps"
    from st s'(4) have "pkt_id ` set ps \<subseteq> other_ids" by (simp only: allowed_def if_False)
    with p have "pkt_id p \<in> other_ids" by blast
    then show "pkt_id p \<notin> chat_ids" using ids_disjoint(2) by blast
  qed
  then show ?thesis using assms(1) s' filter_no_logon [OF s'(4)] unfolding session_inv_def by auto
qed

lemma inv_disconnect: "session_inv s \<Longrightarrow> disconnect msg s = (s', fl) \<Longrightarrow> session_inv s'"
  by (auto simp: disconnect_def intro!: quiet_emit elim!: inv_quiet)

lemma inv_send_logon:
  assumes "session_inv s" "bs_stage s = st" "logon_progress st < 5" "pkt_id p = logon_ids ! logon_progress st"
    "logon_progress st' = Suc (logon_progress st)" "st' \<noteq> InChat" "3 \<le> logon_progress st' \<longrightarrow> bs_nls t \<noteq> None"
    "bs_sent t = bs_sent s" "bs_events t = bs_events s" "bs_adverts t = bs_adverts s"
  shows "session_inv ((send p t)\<lparr>bs_stage := st'\<rparr>)"
proof -
  have len: "length logon_ids = 5" by (simp add: logon_ids_def)
  have "st \<noteq> InChat" using assms(3) by auto
  have mem: "pkt_id p \<in> set logon_ids" using assms(3,4) len by simp
  then have "pkt_id p \<notin> chat_ids" by (auto simp: logon_ids_def chat_ids_def)
  moreover have "take (Suc (logon_progress st)) logon_ids = take (logon_progress st) logon_ids @ [pkt_id p]"
    using assms(3,4) len by (simp add: take_Suc_conv_app_nth)
  ultimately show ?thesis
    using assms mem \<open>st \<noteq> InChat\<close> unfolding session_inv_def by (auto simp: send_def)
qed

lemma inv_auth_info:
  assumes "session_inv s" "bs_stage s = AwaitAuthInfo" "on_auth_info ops cfg fw payload s = Some (s', fl)"
  shows "session_inv s'"
proof -
  have "session_inv ((send p s)\<lparr>bs_stage := AwaitAuthCheck\<rparr>)" if "auth_check True a b c d e f g = Inr p" for a b c d e f g p
    using assms(1,2) auth_frames_id(14) [OF that] by (intro inv_send_logon) (auto simp: logon_ids_def)
  then show ?thesis
    using assms(3) inv_disconnect [OF assms(1)] assms(1) unfolding on_auth_info_def Let_def
    by (auto split: sum.splits option.splits prod.splits)
qed

lemma inv_auth_check:
  assumes "session_inv s" "bs_stage s = AwaitAuthCheck" "on_auth_check ops cfg fw payload s = (s', fl)"
  shows "session_inv s'"
proof -
  have "session_inv ((send p (s\<lparr>bs_nls := Some n\<rparr>))\<lparr>bs_stage := AwaitAccountLogon\<rparr>)"
    if "auth_accountlogon k u = Inr p" for k u p n
    using assms(1,2) auth_frames_id(15) [OF that] by (intro inv_send_logon) (auto simp: logon_ids_def)
  moreover have "session_inv (s\<lparr>bs_nls := Some n\<rparr>)" for n
    using assms(1,2) by (simp add: session_inv_def)
  ultimately show ?thesis
    using assms(3) inv_disconnect [OF assms(1)] assms(1) unfolding on_auth_check_def Let_def
    by (auto split: sum.splits if_splits)
qed

lemma inv_account_logon:
  assumes "session_inv s" "bs_stage s = AwaitAccountLogon" "on_account_logon ops cfg payload s = (s', fl)"
  shows "session_inv s'"
proof -
  have "session_inv ((send p s)\<lparr>bs_stage := AwaitAccountLogonProof\<rparr>)" if "auth_accountlogonproof k = Inr p" for k p
    using assms(1,2) auth_frames_id(16) [OF that]
    by (intro inv_send_logon) (auto simp: logon_ids_def session_inv_def)
  then show ?thesis
    using assms(3) inv_disconnect [OF assms(1)] assms(1) unfolding on_account_logon_def Let_def
    by (auto split: sum.splits if_splits)
qed

lemma inv_logon_proof:
  assumes "session_inv s" "bs_stage s = AwaitAccountLogonProof" "on_logon_proof cfg payload s = (s', fl)"
  shows "session_inv s'"
proof -
  have ok: "is_ok enter_chat" "is_ok friendslist" "is_ok clanmemberlist"
    by (simp_all add: enter_chat_def friendslist_def clanmemberlist_def encode_with_ok_iff)
  then obtain e f c where e: "enter_chat = Inr e" and f: "friendslist = Inr f" and c: "clanmemberlist = Inr c"
    using expect_is_ok by meson
  have ids: "pkt_id e = SID_ENTERCHAT" "pkt_id f = SID_FRIENDSLIST" "pkt_id c = SID_CLANMEMBERLIST"
    using e f c pkt_id_encode auth_frames_id(4,5) unfolding enter_chat_def by blast+
  have inv: "session_inv ((send e s)\<lparr>bs_stage := AwaitEnterChat\<rparr>)"
    using assms(1,2) ids(1) by (intro inv_send_logon) (auto simp: logon_ids_def session_inv_def)
  have "session_inv (send_ok clanmemberlist (send_ok friendslist (send_ok enter_chat
      (send (netgameport p) (s\<lparr>bs_stage := AwaitEnterChat\<rparr>)))))" for p
  proof -
    have not: "SID_NETGAMEPORT \<notin> set logon_ids" "SID_FRIENDSLIST \<notin> set logon_ids" "SID_CLANMEMBERLIST \<notin> set logon_ids"
      "SID_NETGAMEPORT \<notin> chat_ids" "SID_FRIENDSLIST \<notin> chat_ids" "SID_CLANMEMBERLIST \<notin> chat_ids"
      "SID_ENTERCHAT \<in> set logon_ids"
      by (simp_all add: logon_ids_def chat_ids_def)
    show ?thesis using inv ids not unfolding session_inv_def e f c send_ok_def send_def by simp
  qed
  then show ?thesis
    using assms(3) inv_disconnect [OF assms(1)] assms(1) unfolding on_logon_proof_def
    by (auto split: sum.splits if_splits)
qed

lemma inv_enter_chat:
  assumes "session_inv s" "bs_stage s = AwaitEnterChat \<or> bs_stage s = InChat"
  shows "session_inv (on_enter_chat cfg s)"
proof -
  let ?j = "if bc_first_channel cfg \<noteq> [] then send_ok (join_channel (bc_first_channel cfg)) s else s"
  let ?t = "send_adverts (?j\<lparr>bs_stage := InChat\<rparr>)"
  have "quiet (allowed InChat) s ?j"
    by (auto simp: allowed_def chat_ids_def intro!: quiet_send_ok dest!: auth_frames_id)
  moreover have "quiet (allowed InChat) (?j\<lparr>bs_stage := InChat\<rparr>) ?t"
    by (rule quiet_send_adverts) (auto simp: allowed_ids)
  ultimately obtain ps qs where
    t: "bs_stage ?t = InChat" "bs_nls ?t = bs_nls s" "bs_sent ?t = bs_sent s @ ps @ qs"
    "pkt_id ` set ps \<subseteq> allowed InChat" "pkt_id ` set qs \<subseteq> allowed InChat"
    "distinct (map aa_name (bs_adverts s)) \<longrightarrow> distinct (map aa_name (bs_adverts ?t))"
    unfolding quiet_def by (elim conjE exE) simp
  have "pkt_id ` set (ps @ qs) \<subseteq> allowed InChat" using t(4,5) by (simp add: image_Un)
  then have "filter (\<lambda>i. i \<in> set logon_ids) (map pkt_id (ps @ qs)) = []" by (rule filter_no_logon)
  moreover have "logon_progress (bs_stage s) = 5" using assms(2) by auto
  moreover have "on_enter_chat cfg s = emit LoggedIn ?t" by (simp add: on_enter_chat_def Let_def)
  ultimately show ?thesis
    using assms(1) t(1-3,6) unfolding session_inv_def by (simp add: emit_def)
qed

lemma inv_frame:
  assumes "session_inv s" "handle_frame ops cfg fw f s = Some (s', fl)"
  shows "session_inv s'"
proof -
  note quiet = inv_quiet [OF assms(1)]
  have ping: "session_inv (case decode_ping q of Inr v \<Rightarrow> send (bncs_ping v) s | Inl _ \<Rightarrow> s)" for q
    using assms(1) by (auto simp: decode_ping_def and_then_def allowed_ids split: sum.splits if_splits intro!: quiet quiet_send)
  have icc: "session_inv (send_ok (iccup_challenge_reply q) s)" for q
    by (rule quiet, rule quiet_send_ok) (auto simp: allowed_ids dest!: auth_frames_id)
  have "session_inv (handle_chat_frame i q s)" for i q
    by (rule quiet, rule quiet_chat_frame)
  then show ?thesis
    using assms(2) ping icc inv_auth_info [OF assms(1)] inv_auth_check [OF assms(1)]
      inv_account_logon [OF assms(1)] inv_logon_proof [OF assms(1)] inv_enter_chat [OF assms(1)]
    unfolding handle_frame_def Let_def by (auto split: if_splits)
qed

lemma inv_session_step: "session_inv s \<Longrightarrow> session_step ops cfg i s = Some (s', fl) \<Longrightarrow> session_inv s'"
  by (cases i) (auto simp: session_step_def quiet_timers intro: inv_quiet quiet_cmd inv_frame inv_disconnect)

lemma inv_start: "start_session cfg = Running s \<Longrightarrow> session_inv s"
  by (auto simp: start_session_def session_inv_def send_def new_session_def logon_ids_def chat_ids_def
      split: sum.splits dest!: auth_frames_id)

lemma inv_bnet_step:
  assumes "\<And>s. bcl_phase c = Running s \<Longrightarrow> session_inv s" "bnet_step ops cfg i c = Some c'" "bcl_phase c' = Running s'"
  shows "session_inv s'"
proof (cases "bcl_phase c")
  case Connecting
  then show ?thesis using assms(2,3) inv_start by (cases i) (auto simp: bnet_step_def)
next
  case (Running s)
  show ?thesis
  proof (cases i)
    case (Session_Input j)
    then obtain t fl where t: "session_step ops cfg j s = Some (t, fl)" "c' = end_session fl t c"
      using Running assms(2) by (auto simp: bnet_step_def)
    then have "t = s'" using assms(3) by (cases fl) (auto simp: end_session_def)
    then show ?thesis using inv_session_step t(1) assms(1) Running by blast
  qed (use Running assms in \<open>auto simp: bnet_step_def\<close>)
next
  case Waiting
  then show ?thesis using assms(2,3)
    by (cases i) (auto simp: bnet_step_def split: session_input.splits option.splits bnet_cmd.splits)
next
  case Sleeping
  then show ?thesis using assms(2,3) by (cases i) (auto simp: bnet_step_def)
next
  case Stopped
  then show ?thesis using assms(2,3) by (cases i) (auto simp: bnet_step_def)
qed

lemma inv_bnet_run:
  assumes "\<And>s. bcl_phase c = Running s \<Longrightarrow> session_inv s" "bnet_run ops cfg is c = Some c'" "bcl_phase c' = Running s'"
  shows "session_inv s'"
  using assms
proof (induction "is" arbitrary: c)
  case (Cons i "is")
  from Cons.prems(2) obtain d where d: "bnet_step ops cfg i c = Some d" "bnet_run ops cfg is d = Some c'"
    by (cases "bnet_step ops cfg i c") auto
  show ?case
  proof (rule Cons.IH [OF _ d(2) Cons.prems(3)])
    show "session_inv s" if "bcl_phase d = Running s" for s
      by (rule inv_bnet_step [OF Cons.prems(1) d(1) that])
  qed
qed simp

text \<open>
  C17. Logging in to battle.net happens in order. Whatever the server, the user and the timers do, in a
  session that is running the packets of the logon that have been sent are exactly those up to the stage
  of the session, each once and in order: information, version check, account, proof, chat. Nothing that
  belongs in the chat (keep-alives, adverts, chat text, channels) is sent before the server has
  let the client in, the event of a successful logon is reported exactly from then on, there is a key
  exchange from the version check on, and no two announced games have one name.
\<close>
theorem bnet_logon_order:
  assumes "bnet_run ops cfg is bnet_client_new = Some c" and "bcl_phase c = Running s"
  shows "filter (\<lambda>i. i \<in> set logon_ids) (map pkt_id (bs_sent s)) = take (logon_progress (bs_stage s)) logon_ids
    \<and> (bs_stage s \<noteq> InChat \<longrightarrow> (\<forall>p \<in> set (bs_sent s). pkt_id p \<notin> chat_ids))
    \<and> (LoggedIn \<in> set (bs_events s) \<longleftrightarrow> bs_stage s = InChat)
    \<and> (3 \<le> logon_progress (bs_stage s) \<longrightarrow> bs_nls s \<noteq> None)
    \<and> distinct (map aa_name (bs_adverts s))"
  using inv_bnet_run [OF _ assms] by (simp add: session_inv_def bnet_client_new_def)

theorem bnet_logon_order_witness:
  "\<exists>s c. bnet_run
      \<lparr>bo_crypto = \<lparr>c_sha1 = \<lambda>d. replicate 20 0, c_modpow = \<lambda>b e m. b ^ e mod m\<rparr>,
       bo_alphanumeric = \<lambda>c. True, bo_split_whitespace = \<lambda>s. [s], bo_os_error = []\<rparr>
      \<lparr>bc_port = 6112, bc_host_port = 6113, bc_username = [117], bc_password = [112], bc_cdkey_roc = [],
       bc_cdkey_tft = [], bc_first_channel = [], bc_war3_version = 26, bc_exe_version = [],
       bc_exe_version_hash = [], bc_password_hash_type = [], bc_server = [], bc_server_alias = [],
       bc_pvpgn_realm_name = [], bc_root_admins = [], bc_command_trigger = [33], bc_reconnect_delay = 5000000000\<rparr>
      [Connect_Failed [], Delay_Over, Connect_Ok, Session_Input In_Null_Timer,
       Session_Input (In_Frame \<lparr>fw_client_token = 1, fw_a_bytes = [2], fw_files = None\<rparr>
         \<lparr>frame_id = SID_PING, frame_payload = [1, 2, 3, 4]\<rparr>)] bnet_client_new = Some c
    \<and> bcl_phase c = Running s \<and> length (bs_sent s) = 2
    \<and> filter (\<lambda>i. i \<in> set logon_ids) (map pkt_id (bs_sent s)) = [SID_AUTH_INFO]"
proof -
  have "is_ok (auth_info 26 True 1033 (str ''USA'') (str ''United States''))"
    by (simp add: auth_info_def Let_def encode_with_ok_iff str_def)
  then obtain p where p: "auth_info 26 True 1033 (str ''USA'') (str ''United States'') = Inr p"
    using expect_is_ok by meson
  let ?s = "send (bncs_ping [1, 2, 3, 4]) (send p new_session)"
  let ?c = "\<lparr>bcl_phase = Running ?s, bcl_sent = [[0x01]],
    bcl_events = [Disconnected (str ''connect failed: ''), Connected]\<rparr>"
  let ?ops = "\<lparr>bo_crypto = \<lparr>c_sha1 = \<lambda>d. replicate 20 0, c_modpow = \<lambda>b e m. b ^ e mod m\<rparr>,
       bo_alphanumeric = \<lambda>c. True, bo_split_whitespace = \<lambda>s. [s], bo_os_error = []\<rparr> :: bnet_ops"
  let ?cfg = "\<lparr>bc_port = 6112, bc_host_port = 6113, bc_username = [117], bc_password = [112], bc_cdkey_roc = [],
       bc_cdkey_tft = [], bc_first_channel = [], bc_war3_version = 26, bc_exe_version = [],
       bc_exe_version_hash = [], bc_password_hash_type = [], bc_server = [], bc_server_alias = [],
       bc_pvpgn_realm_name = [], bc_root_admins = [], bc_command_trigger = [33], bc_reconnect_delay = 5000000000\<rparr> :: bnet_config"
  let ?is = "[Connect_Failed [], Delay_Over, Connect_Ok, Session_Input In_Null_Timer,
       Session_Input (In_Frame \<lparr>fw_client_token = 1, fw_a_bytes = [2], fw_files = None\<rparr>
         \<lparr>frame_id = SID_PING, frame_payload = [1, 2, 3, 4]\<rparr>)]"
  have start: "start_session ?cfg = Running (send p new_session)" using p by (simp add: start_session_def)
  have ping: "decode_ping [1, 2, 3, 4] = Inr [1, 2, 3, 4]"
    by (simp add: decode_ping_def and_then_def try_get_bytes_def)
  have timer: "null_timer (send p new_session) = send p new_session"
    by (simp add: null_timer_def send_def new_session_def)
  have run: "bnet_run ?ops ?cfg ?is bnet_client_new = Some ?c"
    using start ping timer
    by (simp add: bnet_step_def bnet_client_new_def session_step_def end_session_def handle_frame_def Let_def)
  have "bs_stage ?s = AwaitAuthInfo" "length (bs_sent ?s) = 2" by (simp_all add: send_def new_session_def)
  then show ?thesis using bnet_logon_order [OF run, of ?s] run by (intro exI [of _ ?s] exI [of _ ?c]) (simp add: logon_ids_def)
qed

end
