(* ===== verification/Map_Load.thy ===== *)
theory Map_Load
  imports Mpq_Archive Game_State
begin

text \<open>
  Loading a map (\<^verbatim>\<open>spectre-engine/src/map.rs\<close>): the checksum and hash a client compares, the slots and the
  options of \<^verbatim>\<open>war3map.w3i\<close>, and what the configuration overrides. The contents and the name of the file are
  arguments, CRC-32 and SHA-1 are parameters; \<open>None\<close> is a panic. The cursor behaves as that of the
  standard library: a read that fails leaves the buffer as it was and the cursor at the end of the data, and a
  seek may go past the end.
\<close>

section \<open>Constants\<close>

abbreviation (input) "MAPSPEED_SLOW \<equiv> (1 :: u8)"
abbreviation (input) "MAPSPEED_NORMAL \<equiv> (2 :: u8)"
abbreviation (input) "MAPSPEED_FAST \<equiv> (3 :: u8)"
abbreviation (input) "MAPVIS_HIDETERRAIN \<equiv> (1 :: u8)"
abbreviation (input) "MAPVIS_EXPLORED \<equiv> (2 :: u8)"
abbreviation (input) "MAPVIS_ALWAYSVISIBLE \<equiv> (3 :: u8)"
abbreviation (input) "MAPVIS_DEFAULT \<equiv> (4 :: u8)"
abbreviation (input) "MAPOBS_NONE \<equiv> (1 :: u8)"
abbreviation (input) "MAPOBS_ONDEFEAT \<equiv> (2 :: u8)"
abbreviation (input) "MAPOBS_ALLOWED \<equiv> (3 :: u8)"
abbreviation (input) "MAPOBS_REFEREES \<equiv> (4 :: u8)"
abbreviation (input) "MAPFLAG_TEAMSTOGETHER \<equiv> (1 :: u8)"
abbreviation (input) "MAPFLAG_FIXEDTEAMS \<equiv> (2 :: u8)"
abbreviation (input) "MAPFLAG_UNITSHARE \<equiv> (4 :: u8)"
abbreviation (input) "MAPFLAG_RANDOMHERO \<equiv> (8 :: u8)"
abbreviation (input) "MAPFLAG_RANDOMRACES \<equiv> (16 :: u8)"
abbreviation (input) "MAPOPT_MELEE \<equiv> (0x04 :: u32)"
abbreviation (input) "MAPOPT_FIXEDPLAYERSETTINGS \<equiv> (0x20 :: u32)"
abbreviation (input) "MAPOPT_CUSTOMFORCES \<equiv> (0x40 :: u32)"
abbreviation (input) "MAPFILTER_MAKER_USER \<equiv> (1 :: u8)"
abbreviation (input) "MAPFILTER_MAKER_BLIZZARD \<equiv> (2 :: u8)"
abbreviation (input) "MAPFILTER_TYPE_MELEE \<equiv> (1 :: u8)"
abbreviation (input) "MAPFILTER_TYPE_SCENARIO \<equiv> (2 :: u8)"
abbreviation (input) "MAPFILTER_SIZE_SMALL \<equiv> (1 :: u8)"
abbreviation (input) "MAPFILTER_SIZE_MEDIUM \<equiv> (2 :: u8)"
abbreviation (input) "MAPFILTER_SIZE_LARGE \<equiv> (4 :: u8)"
abbreviation (input) "MAPFILTER_OBS_FULL \<equiv> (1 :: u8)"
abbreviation (input) "MAPFILTER_OBS_ONDEATH \<equiv> (2 :: u8)"
abbreviation (input) "MAPFILTER_OBS_NONE \<equiv> (4 :: u8)"
abbreviation (input) "MAPGAMETYPE_MAKERUSER \<equiv> (0x2000 :: u32)"
abbreviation (input) "MAPGAMETYPE_MAKERBLIZZARD \<equiv> (0x4000 :: u32)"
abbreviation (input) "MAPGAMETYPE_TYPEMELEE \<equiv> (0x8000 :: u32)"
abbreviation (input) "MAPGAMETYPE_TYPESCENARIO \<equiv> (0x10000 :: u32)"
abbreviation (input) "MAPGAMETYPE_SIZESMALL \<equiv> (0x20000 :: u32)"
abbreviation (input) "MAPGAMETYPE_SIZEMEDIUM \<equiv> (0x40000 :: u32)"
abbreviation (input) "MAPGAMETYPE_SIZELARGE \<equiv> (0x80000 :: u32)"
abbreviation (input) "MAPGAMETYPE_OBSFULL \<equiv> (0x100000 :: u32)"
abbreviation (input) "MAPGAMETYPE_OBSONDEATH \<equiv> (0x200000 :: u32)"
abbreviation (input) "MAPGAMETYPE_OBSNONE \<equiv> (0x400000 :: u32)"

section \<open>Flags\<close>

definition speed_flags :: "u8 \<Rightarrow> u32" where
  "speed_flags speed =
     (if speed = MAPSPEED_SLOW then 0x00000000 else if speed = MAPSPEED_NORMAL then 0x00000001 else 0x00000002)"

definition visibility_flags :: "u8 \<Rightarrow> u32" where
  "visibility_flags visibility =
     (if visibility = MAPVIS_HIDETERRAIN then 0x00000100 else if visibility = MAPVIS_EXPLORED then 0x00000200
      else if visibility = MAPVIS_ALWAYSVISIBLE then 0x00000400 else 0x00000800)"

definition observer_flags :: "u8 \<Rightarrow> u32" where
  "observer_flags observers =
     (if observers = MAPOBS_ONDEFEAT then 0x00002000 else if observers = MAPOBS_ALLOWED then 0x00003000
      else if observers = MAPOBS_REFEREES then 0x40000000 else 0x00000000)"

definition flag_if :: "u8 \<Rightarrow> u8 \<Rightarrow> u32 \<Rightarrow> u32 \<Rightarrow> u32" where
  "flag_if opts m v flags = (if opts AND m \<noteq> 0 then flags OR v else flags)"

definition calculate_game_flags :: "u8 \<Rightarrow> u8 \<Rightarrow> u8 \<Rightarrow> u8 \<Rightarrow> u32" where
  "calculate_game_flags speed visibility observers map_flags =
     (let flags = speed_flags speed;
          flags = flags OR visibility_flags visibility;
          flags = flags OR observer_flags observers;
          flags = flag_if map_flags MAPFLAG_TEAMSTOGETHER 0x00004000 flags;
          flags = flag_if map_flags MAPFLAG_FIXEDTEAMS 0x00060000 flags;
          flags = flag_if map_flags MAPFLAG_UNITSHARE 0x01000000 flags;
          flags = flag_if map_flags MAPFLAG_RANDOMHERO 0x02000000 flags
      in flag_if map_flags MAPFLAG_RANDOMRACES 0x04000000 flags)"

definition calculate_game_type :: "u8 \<Rightarrow> u8 \<Rightarrow> u8 \<Rightarrow> u8 \<Rightarrow> u32" where
  "calculate_game_type filter_maker filter_type filter_size filter_obs =
     (let game_type = 0;
          game_type = flag_if filter_maker MAPFILTER_MAKER_USER MAPGAMETYPE_MAKERUSER game_type;
          game_type = flag_if filter_maker MAPFILTER_MAKER_BLIZZARD MAPGAMETYPE_MAKERBLIZZARD game_type;
          game_type = flag_if filter_type MAPFILTER_TYPE_MELEE MAPGAMETYPE_TYPEMELEE game_type;
          game_type = flag_if filter_type MAPFILTER_TYPE_SCENARIO MAPGAMETYPE_TYPESCENARIO game_type;
          game_type = flag_if filter_size MAPFILTER_SIZE_SMALL MAPGAMETYPE_SIZESMALL game_type;
          game_type = flag_if filter_size MAPFILTER_SIZE_MEDIUM MAPGAMETYPE_SIZEMEDIUM game_type;
          game_type = flag_if filter_size MAPFILTER_SIZE_LARGE MAPGAMETYPE_SIZELARGE game_type;
          game_type = flag_if filter_obs MAPFILTER_OBS_FULL MAPGAMETYPE_OBSFULL game_type;
          game_type = flag_if filter_obs MAPFILTER_OBS_ONDEATH MAPGAMETYPE_OBSONDEATH game_type
      in flag_if filter_obs MAPFILTER_OBS_NONE MAPGAMETYPE_OBSNONE game_type)"

section \<open>Slots\<close>

definition apply_melee_slot_init :: "slot_info list \<Rightarrow> slot_info list" where
  "apply_melee_slot_init slots =
     map (\<lambda>(i, slot). slot\<lparr>slot_team := of_nat i, slot_race := 0x20\<rparr>) (enumerate 0 slots)"

definition apply_random_races_force :: "slot_info list \<Rightarrow> u8 \<Rightarrow> slot_info list" where
  "apply_random_races_force slots map_flags =
     (if map_flags AND MAPFLAG_RANDOMRACES \<noteq> 0 then map (\<lambda>slot. slot\<lparr>slot_race := 0x20\<rparr>) slots else slots)"

definition observer_slot :: slot_info where
  "observer_slot = \<lparr>slot_pid = 0, slot_download_status = 255, slot_status = SLOT_OPEN, slot_computer = 0,
     slot_team = 24, slot_colour = 24, slot_race = 0x20, slot_computer_type = 1, slot_handicap = 100\<rparr>"

definition add_observer_slots :: "slot_info list \<Rightarrow> u8 \<Rightarrow> u32 \<Rightarrow> u32 option \<Rightarrow> slot_info list" where
  "add_observer_slots slots observers editor_version custom_max_slots =
     (if observers = MAPOBS_ALLOWED \<or> observers = MAPOBS_REFEREES
      then let default_max = (if editor_version < 6060 then 12 else 24);
               max_slots = unat (case custom_max_slots of Some n \<Rightarrow> n | None \<Rightarrow> default_max)
           in slots @ replicate (max_slots - length slots) observer_slot
      else slots)"

definition default_slot :: "nat \<Rightarrow> slot_info" where
  "default_slot i = \<lparr>slot_pid = 0, slot_download_status = 255, slot_status = SLOT_OPEN, slot_computer = 0,
     slot_team = of_nat (i div 6), slot_colour = of_nat i, slot_race = 0x20, slot_computer_type = 1,
     slot_handicap = 100\<rparr>"

section \<open>The checksum\<close>

fun xor_rotate_left_loop :: "u32 \<Rightarrow> bytes \<Rightarrow> u32" where
  "xor_rotate_left_loop val (a # b # c # d # bs) =
     xor_rotate_left_loop (word_rotl 3 (val XOR from_le [a, b, c, d])) bs"
| "xor_rotate_left_loop val (b # bs) = xor_rotate_left_loop (word_rotl 3 (val XOR ucast b)) bs"
| "xor_rotate_left_loop val [] = val"

definition xor_rotate_left :: "bytes \<Rightarrow> u32" where
  "xor_rotate_left bs = xor_rotate_left_loop 0 bs"

text \<open>
  The size and the contents of a file of the archive, if it can be opened, its size is wanted and it can be read;
  the outer \<open>None\<close> is a panic.
\<close>

type_synonym reader = "(nat \<Rightarrow> bool) \<Rightarrow> bytes \<Rightarrow> (nat \<times> bytes) option option"

definition read_member :: "'s decoders \<Rightarrow> mpq_archive \<Rightarrow> reader" where
  "read_member dz a wanted name =
     (case open_file a name of
        Inl MpqPanic \<Rightarrow> None
      | Inl (MpqErr _) \<Rightarrow> Some None
      | Inr f \<Rightarrow>
          if wanted (mf_size f)
          then (case mpq_file_read dz a f (mf_size f) of
                  Inl MpqPanic \<Rightarrow> None
                | Inl (MpqErr _) \<Rightarrow> Some None
                | Inr out \<Rightarrow> Some (Some (mf_size f, out)))
          else Some None)"

text \<open>What follows reads the archive through a reader. The running checksum and the bytes that have gone into the hash.\<close>

type_synonym digest = "u32 \<times> bytes"

definition add_script :: "reader \<Rightarrow> bytes \<Rightarrow> bytes option \<Rightarrow> digest \<Rightarrow> digest option" where
  "add_script rd name fallback d =
     (case d of (val, hashed) \<Rightarrow>
        map_option (\<lambda>r.
          let own = (case r of Some (_, out) \<Rightarrow> out | None \<Rightarrow> [])
          in if own \<noteq> [] then (val XOR xor_rotate_left own, hashed @ own)
             else case fallback of
               Some bs \<Rightarrow> (val XOR xor_rotate_left bs, hashed @ bs)
             | None \<Rightarrow> (val, hashed))
          (rd (\<lambda>_. True) name))"

definition file_list :: "bytes list" where
  "file_list = map str
     [''war3map.j'', ''scripts'' @ [CHR 0x5C] @ ''war3map.j'', ''war3map.w3e'', ''war3map.wpm'', ''war3map.doo'',
      ''war3map.w3u'', ''war3map.w3b'', ''war3map.w3d'', ''war3map.w3a'', ''war3map.w3q'']"

abbreviation script_names :: "bytes list" where
  "script_names \<equiv> take 2 file_list"

primrec add_files ::
    "reader \<Rightarrow> bytes list \<Rightarrow> bool \<Rightarrow> digest \<Rightarrow> digest option" where
  "add_files rd [] found_script d = Some d"
| "add_files rd (fname # names) found_script d =
     (if found_script \<and> fname = file_list ! 1 then add_files rd names found_script d
      else case rd (\<lambda>n. 0 < n \<and> n \<noteq> 0xFFFFFFFF) fname of
        None \<Rightarrow> None
      | Some r \<Rightarrow>
          (case r of
             Some (_, out) \<Rightarrow>
               if out \<noteq> []
               then add_files rd names (found_script \<or> fname \<in> set script_names)
                      (case d of (val, hashed) \<Rightarrow> (word_rotl 3 (val XOR xor_rotate_left out), hashed @ out))
               else add_files rd names found_script d
           | None \<Rightarrow> add_files rd names found_script d))"

definition map_digest :: "reader \<Rightarrow> bytes option \<Rightarrow> bytes option \<Rightarrow> digest option" where
  "map_digest rd common_j blizzard_j =
     Option.bind (add_script rd (str (''Scripts'' @ [CHR 0x5C] @ ''common.j'')) common_j (0, [])) (\<lambda>d.
     Option.bind (add_script rd (str (''Scripts'' @ [CHR 0x5C] @ ''blizzard.j'')) blizzard_j d) (\<lambda>(val, hashed).
     let val = word_rotl 3 val;
         val = word_rotl 3 (val XOR 0x03F1379E)
     in add_files rd file_list False (val, hashed @ [0x9E, 0x37, 0xF1, 0x03])))"

section \<open>The information file\<close>

record w3i_cursor =
  cu_pos :: nat
  cu_buf :: bytes

definition cur_u32 :: "w3i_cursor \<Rightarrow> u32" where
  "cur_u32 c = from_le (cu_buf c)"

definition cur_read :: "bytes \<Rightarrow> w3i_cursor \<Rightarrow> bool \<times> w3i_cursor" where
  "cur_read bs c =
     (if cu_pos c + 4 \<le> length bs
      then (True, \<lparr>cu_pos = cu_pos c + 4, cu_buf = take 4 (drop (cu_pos c) bs)\<rparr>)
      else (False, c\<lparr>cu_pos := length bs\<rparr>))"

abbreviation cur_next :: "bytes \<Rightarrow> w3i_cursor \<Rightarrow> w3i_cursor" where
  "cur_next bs c \<equiv> snd (cur_read bs c)"

definition cur_skip :: "nat \<Rightarrow> w3i_cursor \<Rightarrow> w3i_cursor" where
  "cur_skip n c = c\<lparr>cu_pos := cu_pos c + n\<rparr>"

text \<open>\<^verbatim>\<open>read_cstring\<close> with the bytes read so far; the position it leaves is that of the cursor.\<close>

function read_cstring :: "bytes \<Rightarrow> nat \<Rightarrow> bytes \<Rightarrow> bytes option \<times> nat" where
  "read_cstring bs pos buf =
     (if pos < length bs
      then if bs ! pos = 0 then (Some (utf8_lossy buf), pos + 1)
           else if length buf + 1 > 1024 then (None, pos + 1)
           else read_cstring bs (pos + 1) (buf @ [bs ! pos])
      else (None, length bs))"
  by pat_completeness auto
termination by (relation "measure (\<lambda>(bs, pos, buf). length bs - pos)") auto

declare read_cstring.simps [simp del]

definition cur_cstring :: "bytes \<Rightarrow> w3i_cursor \<Rightarrow> w3i_cursor" where
  "cur_cstring bs c = c\<lparr>cu_pos := snd (read_cstring bs (cu_pos c) [])\<rparr>"

record w3i_info =
  wi_width :: u16
  wi_height :: u16
  wi_num_teams :: u8
  wi_editor_version :: u32
  wi_slots :: "slot_info list"
  wi_options :: u32

definition w3i_default :: w3i_info where
  "w3i_default = \<lparr>wi_width = 128, wi_height = 128, wi_num_teams = 2, wi_editor_version = 0, wi_slots = [], wi_options = 0\<rparr>"

definition race_of :: "u32 \<Rightarrow> u8" where
  "race_of race =
     (if race = 1 then 0x01 else if race = 2 then 0x02 else if race = 3 then 0x08 else if race = 4 then 0x04 else 0x20)"

definition w3i_player :: "bytes \<Rightarrow> nat \<Rightarrow> slot_info list \<times> w3i_cursor \<Rightarrow> slot_info list \<times> w3i_cursor" where
  "w3i_player bs i st =
     (case st of (slots, c) \<Rightarrow>
        let slot = default_slot i;
            c = cur_next bs c;
            slot = slot\<lparr>slot_colour := ucast (cur_u32 c)\<rparr>;
            c = cur_next bs c;
            status = cur_u32 c;
            slot = (if status = 2 then slot\<lparr>slot_status := SLOT_OCCUPIED, slot_computer := 1\<rparr>
                    else if status \<noteq> 1 then slot\<lparr>slot_status := SLOT_CLOSED\<rparr> else slot);
            c = cur_next bs c;
            slot = slot\<lparr>slot_race := race_of (cur_u32 c)\<rparr>;
            c = cur_skip 16 (cur_cstring bs (cur_skip 4 c))
        in (if slot_status slot \<noteq> SLOT_CLOSED then slots @ [slot] else slots, c))"

definition assign_team :: "u32 \<Rightarrow> nat \<Rightarrow> slot_info list \<Rightarrow> slot_info list" where
  "assign_team player_mask team slots =
     fold (\<lambda>j slots.
       if player_mask AND push_bit j 1 \<noteq> 0
       then map (\<lambda>slot. if slot_colour slot = of_nat j then slot\<lparr>slot_team := of_nat team\<rparr> else slot) slots
       else slots) [0..<24] slots"

definition w3i_team :: "bytes \<Rightarrow> nat \<Rightarrow> slot_info list \<times> w3i_cursor \<Rightarrow> slot_info list \<times> w3i_cursor" where
  "w3i_team bs team st =
     (case st of (slots, c) \<Rightarrow>
        let c = cur_next bs (cur_next bs c)
        in (assign_team (cur_u32 c) team slots, cur_cstring bs c))"

text \<open>From the number of players to the end.\<close>

definition w3i_forces :: "bytes \<Rightarrow> w3i_cursor \<Rightarrow> w3i_info \<Rightarrow> w3i_info" where
  "w3i_forces bs c w =
     (let (ok, c) = cur_read bs c
      in if \<not> ok then w
         else let raw_players = min (unat (cur_u32 c)) 24;
                  (slots, c) = fold (w3i_player bs) [0..<raw_players] ([], c);
                  (ok, c) = cur_read bs c
              in if \<not> ok then w\<lparr>wi_slots := slots\<rparr>
                 else let raw_teams = min (unat (cur_u32 c)) 12;
                          (slots, c) = fold (w3i_team bs) [0..<raw_teams] (slots, c)
                      in w\<lparr>wi_slots := slots, wi_num_teams := of_nat raw_teams\<rparr>)"

definition parse_w3i :: "bytes \<Rightarrow> w3i_info" where
  "parse_w3i bs =
     (let (ok, c) = cur_read bs \<lparr>cu_pos = 0, cu_buf = [0, 0, 0, 0]\<rparr>;
          file_format = cur_u32 c; tft = (file_format = 25)
      in if \<not> (ok \<and> (file_format = 18 \<or> tft)) then w3i_default
         else let (ok, c) = cur_read bs (cur_skip 4 c);
                  editor_version = (if ok then cur_u32 c else 0);
                  c = (cur_cstring bs ^^ 4) c;
                  c = cur_next bs (cur_skip (32 + 16) c);
                  raw_w = ucast (cur_u32 c);
                  c = cur_next bs c;
                  raw_h = ucast (cur_u32 c);
                  c = cur_next bs c;
                  raw_flags = cur_u32 c;
                  options = raw_flags AND (MAPOPT_MELEE OR MAPOPT_FIXEDPLAYERSETTINGS OR MAPOPT_CUSTOMFORCES);
                  c = cur_skip 4 (cur_skip 1 c);
                  c = (if tft then cur_cstring bs c else c);
                  c = cur_skip 4 ((cur_cstring bs ^^ 3) c);
                  c = (if tft then cur_cstring bs c else c);
                  c = (cur_cstring bs ^^ 3) c;
                  c = (if tft then cur_skip 5 (cur_cstring bs (cur_skip 24 c)) else c)
              in w3i_forces bs c
                   (w3i_default\<lparr>wi_width := raw_w, wi_height := raw_h, wi_editor_version := editor_version,
                      wi_options := options\<rparr>))"

section \<open>Loading\<close>

record map_override =
  ov_speed :: "u8 option"
  ov_visibility :: "u8 option"
  ov_observers :: "u8 option"
  ov_flags :: "u8 option"
  ov_game_type :: "u32 option"
  ov_filter_maker :: "u8 option"
  ov_filter_type :: "u8 option"
  ov_filter_size :: "u8 option"
  ov_filter_obs :: "u8 option"
  ov_options :: "u32 option"
  ov_width :: "u16 option"
  ov_height :: "u16 option"
  ov_num_players :: "u8 option"
  ov_num_teams :: "u8 option"
  ov_custom_slots :: "slot_info list option"
  ov_map_type :: "bytes option"
  ov_matchmaking_category :: "bytes option"
  ov_default_hcl :: "bytes option"
  ov_default_player_score :: "u32 option"
  ov_loading_in_game :: "bool option"
  ov_local_path :: "bytes option"
  ov_max_slots :: "u32 option"

text \<open>\<^verbatim>\<open>ovr.and_then(|o| ...).unwrap_or(...)\<close>.\<close>

definition ovr_or :: "map_override option \<Rightarrow> (map_override \<Rightarrow> 'a option) \<Rightarrow> 'a \<Rightarrow> 'a" where
  "ovr_or ovr field d = (case Option.bind ovr field of Some x \<Rightarrow> x | None \<Rightarrow> d)"

record parsed_map =
  pm_info :: map_info
  pm_slots :: "slot_info list"
  pm_layout_style :: u8

record map_ops =
  mo_crc32 :: "bytes \<Rightarrow> u32"
  mo_sha1 :: "bytes \<Rightarrow> bytes"

datatype map_error = Open_Failed mpq_error | Invalid_Map bytes

text \<open>The information file, read to a buffer of its size: what is not written stays zero.\<close>

definition map_w3i :: "'s decoders \<Rightarrow> mpq_archive \<Rightarrow> w3i_info option" where
  "map_w3i dz a =
     map_option (\<lambda>r. case r of
        Some (n, out) \<Rightarrow> parse_w3i (out @ replicate (n - length out) 0)
      | None \<Rightarrow> w3i_default)
     (read_member dz a (\<lambda>n. 0 < n) (str ''war3map.w3i''))"

text \<open>The slots before the configuration is looked at.\<close>

definition own_slots :: "w3i_info \<Rightarrow> slot_info list" where
  "own_slots w =
     (let slots = (if wi_slots w = [] then map default_slot [0..<12] else wi_slots w);
          slots = (if wi_options w AND MAPOPT_MELEE \<noteq> 0 then apply_melee_slot_init slots else slots)
      in if wi_options w AND MAPOPT_FIXEDPLAYERSETTINGS = 0
         then map (\<lambda>slot. slot\<lparr>slot_race := slot_race slot OR 0x40\<rparr>) slots else slots)"

definition layout_style_of :: "u32 \<Rightarrow> u8" where
  "layout_style_of options =
     (if options AND MAPOPT_CUSTOMFORCES = 0 then 0
      else if options AND MAPOPT_FIXEDPLAYERSETTINGS = 0 then 1 else 3)"

definition map_slots :: "map_override option \<Rightarrow> w3i_info \<Rightarrow> slot_info list" where
  "map_slots ovr w =
     (let slots = ovr_or ovr ov_custom_slots (own_slots w);
          observers = ovr_or ovr ov_observers MAPOBS_NONE;
          map_flags = ovr_or ovr ov_flags (MAPFLAG_TEAMSTOGETHER OR MAPFLAG_FIXEDTEAMS)
      in add_observer_slots (apply_random_races_force slots map_flags) observers (wi_editor_version w)
           (Option.bind ovr ov_max_slots))"

definition map_game_type :: "map_override option \<Rightarrow> u32 \<Rightarrow> u32" where
  "map_game_type ovr options =
     ovr_or ovr ov_game_type
       (calculate_game_type (ovr_or ovr ov_filter_maker MAPFILTER_MAKER_USER)
          (ovr_or ovr ov_filter_type
             (if options AND MAPOPT_MELEE \<noteq> 0 then MAPFILTER_TYPE_MELEE else MAPFILTER_TYPE_SCENARIO))
          (ovr_or ovr ov_filter_size MAPFILTER_SIZE_LARGE) (ovr_or ovr ov_filter_obs MAPFILTER_OBS_NONE))"

definition map_info_of ::
    "map_ops \<Rightarrow> bytes \<Rightarrow> bytes option \<Rightarrow> map_override option \<Rightarrow> digest \<Rightarrow> w3i_info \<Rightarrow> map_info" where
  "map_info_of mo map_data file_name ovr d w =
     (let options = ovr_or ovr ov_options (wi_options w);
          slots = map_slots ovr w;
          num_teams = (if wi_slots w = [] then 2 else wi_num_teams w)
      in \<lparr>mi_path = str (''Maps'' @ [CHR 0x5C] @ ''Download'' @ [CHR 0x5C])
                      @ (case file_name of Some n \<Rightarrow> n | None \<Rightarrow> str ''map.w3x''),
          mi_size = of_nat (length map_data),
          mi_info = mo_crc32 mo map_data,
          mi_crc = fst d,
          mi_sha1 = mo_sha1 mo (snd d),
          mi_num_players = ovr_or ovr ov_num_players (of_nat (length slots)),
          mi_num_teams = ovr_or ovr ov_num_teams num_teams,
          mi_width = ovr_or ovr ov_width (wi_width w),
          mi_height = ovr_or ovr ov_height (wi_height w),
          mi_game_type = map_game_type ovr options,
          mi_flags = calculate_game_flags (ovr_or ovr ov_speed MAPSPEED_FAST)
                       (ovr_or ovr ov_visibility MAPVIS_DEFAULT) (ovr_or ovr ov_observers MAPOBS_NONE)
                       (ovr_or ovr ov_flags (MAPFLAG_TEAMSTOGETHER OR MAPFLAG_FIXEDTEAMS)),
          mi_data = Some map_data,
          mi_layout_style = layout_style_of options,
          mi_options = options,
          mi_map_type = ovr_or ovr ov_map_type (str ''dota''),
          mi_matchmaking_category = ovr_or ovr ov_matchmaking_category [],
          mi_default_hcl = ovr_or ovr ov_default_hcl [],
          mi_default_player_score = ovr_or ovr ov_default_player_score 1000,
          mi_loading_in_game = ovr_or ovr ov_loading_in_game False,
          mi_local_path = ovr_or ovr ov_local_path [],
          mi_max_slots = ovr_or ovr ov_max_slots 24\<rparr>)"

definition load_mpq_with_override ::
    "'s decoders \<Rightarrow> map_ops \<Rightarrow> bytes option \<Rightarrow> bytes \<Rightarrow> bytes option \<Rightarrow> bytes option \<Rightarrow> map_override option
     \<Rightarrow> (map_error + parsed_map) option" where
  "load_mpq_with_override dz mo file_name map_data common_j blizzard_j ovr =
     (case from_bytes map_data of
        Inl MpqPanic \<Rightarrow> None
      | Inl (MpqErr e) \<Rightarrow> Some (Inl (Open_Failed e))
      | Inr a \<Rightarrow>
          Option.bind (map_digest (read_member dz a) common_j blizzard_j) (\<lambda>d.
          Option.bind (map_w3i dz a) (\<lambda>w.
          let info = map_info_of mo map_data file_name ovr d w
          in Some (case map_check_valid info of
                     Inl e \<Rightarrow> Inl (Invalid_Map e)
                   | Inr _ \<Rightarrow> Inr \<lparr>pm_info = info, pm_slots = map_slots ovr w,
                                   pm_layout_style = mi_layout_style info\<rparr>))))"

definition load_mpq ::
    "'s decoders \<Rightarrow> map_ops \<Rightarrow> bytes option \<Rightarrow> bytes \<Rightarrow> bytes option \<Rightarrow> bytes option \<Rightarrow> (map_error + parsed_map) option" where
  "load_mpq dz mo file_name map_data common_j blizzard_j =
     load_mpq_with_override dz mo file_name map_data common_j blizzard_j None"

section \<open>Loading never panics\<close>

lemma read_member_ok:
  assumes "zlib_law dz" shows "\<exists>r. read_member dz a wanted name = Some r"
proof -
  have "read_file_by_block dz a i name n \<noteq> Inl MpqPanic" for i n
    using fits_read_by_block [OF assms, of n a i name] by auto
  then show ?thesis
    by (auto simp: read_member_def open_file_def mpq_file_read_def split: sum.split option.split mpq_fault.split)
qed

lemma add_files_ok: "(\<And>w n. \<exists>r. rd w n = Some r) \<Longrightarrow> \<exists>r. add_files rd names fs d = Some r"
proof (induction names arbitrary: fs d)
  case (Cons n names)
  obtain r where "rd (\<lambda>n. 0 < n \<and> n \<noteq> 0xFFFFFFFF) n = Some r" using Cons.prems by blast
  then show ?case using Cons.IH [OF Cons.prems] by (auto split: option.split)
qed simp

lemma map_digest_ok:
  assumes "\<And>w n. \<exists>r. rd w n = Some r" shows "\<exists>d. map_digest rd cj bj = Some d"
proof -
  have script: "\<exists>val h. add_script rd name fb d = Some (val, h)" for name fb d
    using assms [of "\<lambda>_. True" name] by (auto simp: add_script_def split: prod.split)
  obtain d where d: "add_script rd (str (''Scripts'' @ [CHR 0x5C] @ ''common.j'')) cj (0, []) = Some d"
    using script by blast
  obtain val h where "add_script rd (str (''Scripts'' @ [CHR 0x5C] @ ''blizzard.j'')) bj d = Some (val, h)"
    using script by blast
  then show ?thesis using d add_files_ok [OF assms] by (simp add: map_digest_def)
qed

lemma load_no_panic:
  assumes "zlib_law dz" shows "\<exists>r. load_mpq_with_override dz mo fn bs cj bj ovr = Some r"
proof (cases "from_bytes bs")
  case (Inl e)
  then show ?thesis using from_bytes_no_panic [of bs]
    by (cases e) (auto simp: load_mpq_with_override_def)
next
  case (Inr a)
  obtain d where "map_digest (read_member dz a) cj bj = Some d"
    using map_digest_ok [of "read_member dz a"] read_member_ok [OF assms] by blast
  moreover obtain r where "read_member dz a (\<lambda>n. 0 < n) (str ''war3map.w3i'') = Some r"
    using read_member_ok [OF assms] by blast
  ultimately show ?thesis using Inr by (simp add: load_mpq_with_override_def map_w3i_def Let_def)
qed

section \<open>The slots of a map\<close>

text \<open>A slot of a map is open, or a computer plays it.\<close>

definition map_slot_ok :: "slot_info \<Rightarrow> bool" where
  "map_slot_ok s \<longleftrightarrow> slot_pid s = 0 \<and> slot_download_status s = 255 \<and> slot_computer_type s = 1 \<and> slot_handicap s = 100
     \<and> (slot_status s = SLOT_OPEN \<and> slot_computer s = 0 \<or> slot_status s = SLOT_OCCUPIED \<and> slot_computer s = 1)"

lemma map_slot_ok_default [simp]: "map_slot_ok (default_slot i)" "map_slot_ok observer_slot"
  by (simp_all add: map_slot_ok_def default_slot_def observer_slot_def)

lemma map_slot_ok_update [simp]:
  "map_slot_ok (s\<lparr>slot_team := t\<rparr>) = map_slot_ok s" "map_slot_ok (s\<lparr>slot_race := r\<rparr>) = map_slot_ok s"
  "map_slot_ok (s\<lparr>slot_team := t, slot_race := r\<rparr>) = map_slot_ok s"
  by (simp_all add: map_slot_ok_def)

lemma w3i_player_ok:
  assumes "list_all map_slot_ok (fst st)" "length (fst st) \<le> n"
  shows "list_all map_slot_ok (fst (w3i_player bs i st)) \<and> length (fst (w3i_player bs i st)) \<le> Suc n"
  using assms by (auto simp: w3i_player_def Let_def map_slot_ok_def default_slot_def split: prod.splits)

lemma w3i_players_ok:
  "list_all map_slot_ok (fst st) \<Longrightarrow> list_all map_slot_ok (fst (fold (w3i_player bs) is st))
     \<and> length (fst (fold (w3i_player bs) is st)) \<le> length (fst st) + length is"
proof (induction "is" arbitrary: st)
  case (Cons i "is")
  have "list_all map_slot_ok (fst (w3i_player bs i st))" "length (fst (w3i_player bs i st)) \<le> Suc (length (fst st))"
    using w3i_player_ok [of st "length (fst st)" bs i] Cons.prems by auto
  then show ?case using Cons.IH [of "w3i_player bs i st"] by simp
qed simp

lemma assign_team_ok:
  "length (assign_team m t slots) = length slots \<and> (list_all map_slot_ok slots \<longrightarrow> list_all map_slot_ok (assign_team m t slots))"
  unfolding assign_team_def
  by (rule fold_invariant [where Q = "\<lambda>_. True"]) (auto simp: list_all_iff)

lemma w3i_teams_ok:
  "length (fst (fold (w3i_team bs) is st)) = length (fst st)
   \<and> (list_all map_slot_ok (fst st) \<longrightarrow> list_all map_slot_ok (fst (fold (w3i_team bs) is st)))"
proof (induction "is" arbitrary: st)
  case (Cons i "is")
  have "length (fst (w3i_team bs i st)) = length (fst st)"
    "list_all map_slot_ok (fst st) \<longrightarrow> list_all map_slot_ok (fst (w3i_team bs i st))"
    using assign_team_ok by (simp_all add: w3i_team_def Let_def split: prod.splits)
  then show ?case using Cons.IH [of "w3i_team bs i st"] by simp
qed simp

lemma parse_w3i_slots:
  "list_all map_slot_ok (wi_slots (parse_w3i bs)) \<and> length (wi_slots (parse_w3i bs)) \<le> 24"
proof -
  have "list_all map_slot_ok (wi_slots (w3i_forces bs c w)) \<and> length (wi_slots (w3i_forces bs c w)) \<le> 24"
    if "wi_slots w = []" for c w
  proof -
    let ?n = "min (unat (cur_u32 (snd (cur_read bs c)))) 24"
    define ps where "ps = fold (w3i_player bs) [0..<?n] ([], snd (cur_read bs c))"
    have ps: "list_all map_slot_ok (fst ps)" "length (fst ps) \<le> 24"
      using w3i_players_ok [of "([], snd (cur_read bs c))" bs "[0..<?n]"] by (simp_all add: ps_def)
    define c' where "c' = snd (cur_read bs (snd ps))"
    have "list_all map_slot_ok (fst (fold (w3i_team bs) ts (fst ps, c')))"
      "length (fst (fold (w3i_team bs) ts (fst ps, c'))) \<le> 24" for ts
      using w3i_teams_ok [of bs ts "(fst ps, c')"] ps by auto
    then show ?thesis using ps that
      unfolding w3i_forces_def Let_def ps_def [symmetric] case_prod_beta c'_def by simp
  qed
  then show ?thesis unfolding parse_w3i_def Let_def case_prod_beta by (simp add: w3i_default_def)
qed

lemma own_slots_ok:
  assumes "list_all map_slot_ok (wi_slots w)" "length (wi_slots w) \<le> 24"
  shows "list_all map_slot_ok (own_slots w)" "0 < length (own_slots w)" "length (own_slots w) \<le> 24"
proof -
  let ?s = "if wi_slots w = [] then map default_slot [0..<12] else wi_slots w"
  have s: "list_all map_slot_ok ?s" "0 < length ?s" "length ?s \<le> 24"
    using assms by (auto simp: list_all_iff)
  have "list_all map_slot_ok (apply_melee_slot_init xs)" if "list_all map_slot_ok xs" for xs
    using that by (auto simp: apply_melee_slot_init_def list_all_iff in_set_enumerate_eq)
  moreover have "length (apply_melee_slot_init xs) = length xs" "apply_melee_slot_init xs = [] \<longleftrightarrow> xs = []" for xs
    by (simp_all add: apply_melee_slot_init_def enumerate_eq_zip)
  ultimately show "list_all map_slot_ok (own_slots w)" "0 < length (own_slots w)" "length (own_slots w) \<le> 24"
    using s unfolding own_slots_def Let_def by (auto simp: list_all_iff)
qed

lemma add_observer_slots_ok:
  assumes "list_all map_slot_ok slots" "0 < length slots" "length slots \<le> 24"
    and "\<And>n. max_slots = Some n \<Longrightarrow> n \<le> 255"
  shows "list_all map_slot_ok (add_observer_slots slots obs ed max_slots)"
    "0 < length (add_observer_slots slots obs ed max_slots)" "length (add_observer_slots slots obs ed max_slots) \<le> 255"
proof -
  show "list_all map_slot_ok (add_observer_slots slots obs ed max_slots)"
    using assms(1) by (auto simp: add_observer_slots_def Let_def list_all_iff)
  show "0 < length (add_observer_slots slots obs ed max_slots)"
    using assms(2) by (auto simp: add_observer_slots_def Let_def)
  have "unat n \<le> 255" if "max_slots = Some n" for n using assms(4) [OF that] by (simp add: word_le_nat_alt)
  then show "length (add_observer_slots slots obs ed max_slots) \<le> 255"
    using assms(3) by (auto simp: add_observer_slots_def Let_def split: option.split)
qed

lemma map_slots_ok:
  assumes "list_all map_slot_ok (wi_slots w)" "length (wi_slots w) \<le> 24"
    and "Option.bind ovr ov_custom_slots = None" and "\<And>n. Option.bind ovr ov_max_slots = Some n \<Longrightarrow> n \<le> 255"
  shows "list_all map_slot_ok (map_slots ovr w)" "0 < length (map_slots ovr w)" "length (map_slots ovr w) \<le> 255"
proof -
  let ?r = "apply_random_races_force (own_slots w) (ovr_or ovr ov_flags (MAPFLAG_TEAMSTOGETHER OR MAPFLAG_FIXEDTEAMS))"
  note own = own_slots_ok [OF assms(1,2)]
  have r: "list_all map_slot_ok ?r" "0 < length ?r" "length ?r \<le> 24"
    using own by (auto simp: apply_random_races_force_def list_all_iff)
  show "list_all map_slot_ok (map_slots ovr w)" "0 < length (map_slots ovr w)" "length (map_slots ovr w) \<le> 255"
    using add_observer_slots_ok [OF r assms(4)] assms(3) unfolding map_slots_def Let_def ovr_or_def [of ovr ov_custom_slots]
    by simp_all
qed

lemma map_w3i_slots:
  assumes "map_w3i dz a = Some w"
  shows "list_all map_slot_ok (wi_slots w)" "length (wi_slots w) \<le> 24"
  using assms parse_w3i_slots by (auto simp: map_w3i_def w3i_default_def split: option.splits)

lemma map_slots_inv:
  assumes "list_all map_slot_ok slots" "length slots \<le> 255" shows "slots_inv slots" "seated slots = []"
proof -
  show "seated slots = []"
    using assms(1) by (auto simp: seated_def is_seat_def map_slot_ok_def list_all_iff filter_empty_conv)
  then show "slots_inv slots" using assms by (auto simp: slots_inv_def list_all_iff map_slot_ok_def)
qed

lemma loaded_map_slots:
  assumes "load_mpq_with_override dz mo fn bs cj bj ovr = Some (Inr m)" and "Option.bind ovr ov_custom_slots = None"
    and "\<And>n. Option.bind ovr ov_max_slots = Some n \<Longrightarrow> n \<le> 255"
  shows "pm_slots m \<noteq> []" "list_all map_slot_ok (pm_slots m)" "slots_inv (pm_slots m)" "seated (pm_slots m) = []"
    "length (pm_slots m) \<le> 255"
proof -
  have valid: "map_check_valid i = Inr ()" if "\<forall>e. map_check_valid i \<noteq> Inl e" for i
    using that by (cases "map_check_valid i") auto
  obtain a w where w: "map_w3i dz a = Some w" and m: "pm_slots m = map_slots ovr w"
    using assms(1) unfolding load_mpq_with_override_def
    by (auto simp: Let_def bind_eq_Some_conv valid split: sum.splits mpq_fault.splits)
  note slots = map_slots_ok [OF map_w3i_slots [OF w] assms(2,3)]
  show "pm_slots m \<noteq> []" "list_all map_slot_ok (pm_slots m)" "slots_inv (pm_slots m)" "seated (pm_slots m) = []"
    "length (pm_slots m) \<le> 255"
    using m slots map_slots_inv [OF slots(1,3)] by auto
qed

text \<open>
  C16. Loading a map never panics, whatever bytes the archive holds, and a map that is loaded can be hosted: its
  description is valid and describes the very bytes that clients download, its slots are open or played by a
  computer, there is at least one of them, nobody is seated, and they satisfy the invariant of the slot table from which
  games are created. Of the configuration it is assumed that it neither replaces the slots nor asks for more than 255.
\<close>

theorem map_loads:
  assumes "zlib_law dz" and "Option.bind ovr ov_custom_slots = None"
    and "\<And>n. Option.bind ovr ov_max_slots = Some n \<Longrightarrow> n \<le> 255"
  shows "case load_mpq_with_override dz mo fn bs cj bj ovr of
      None \<Rightarrow> False
    | Some (Inl e) \<Rightarrow> True
    | Some (Inr m) \<Rightarrow>
        map_check_valid (pm_info m) = Inr () \<and> mi_data (pm_info m) = Some bs
        \<and> mi_size (pm_info m) = of_nat (length bs)
        \<and> pm_slots m \<noteq> [] \<and> list_all map_slot_ok (pm_slots m) \<and> slots_inv (pm_slots m) \<and> seated (pm_slots m) = []
        \<and> (Option.bind ovr ov_num_players = None \<longrightarrow> unat (mi_num_players (pm_info m)) = length (pm_slots m))"
proof -
  obtain r where r: "load_mpq_with_override dz mo fn bs cj bj ovr = Some r" using load_no_panic [OF assms(1)] by blast
  show ?thesis
  proof (cases r)
    case (Inr m)
    have valid: "map_check_valid i = Inr ()" if "\<forall>e. map_check_valid i \<noteq> Inl e" for i
      using that by (cases "map_check_valid i") auto
    from Inr obtain a d w where w: "map_w3i dz a = Some w" and m: "pm_info m = map_info_of mo bs fn ovr d w"
      "pm_slots m = map_slots ovr w" "map_check_valid (pm_info m) = Inr ()"
      using r unfolding load_mpq_with_override_def
      by (auto simp: Let_def bind_eq_Some_conv valid split: sum.splits mpq_fault.splits)
    note slots = loaded_map_slots [OF r [unfolded Inr] assms(2,3)]
    have "unat (mi_num_players (pm_info m)) = length (pm_slots m)" if "Option.bind ovr ov_num_players = None"
      using slots(5) that by (simp add: m(1,2) map_info_of_def Let_def ovr_or_def unat_of_nat)
    then show ?thesis using r Inr m slots
      by (auto simp: map_info_of_def Let_def)
  qed (use r in simp)
qed

theorem map_loads_witness:
  "\<exists>m. load_mpq_with_override
       \<lparr>dz_zlib = (\<lambda>p n. None), dz_exploder = (), dz_ended = (\<lambda>_. True), dz_explode = (\<lambda>_ _. None)\<rparr>
       \<lparr>mo_crc32 = \<lambda>_. 0, mo_sha1 = \<lambda>_. replicate 20 0\<rparr> (Some (str ''a.w3x''))
       
       [77, 80, 81, 26, 32, 0, 0, 0, 0, 0, 0, 0, 0, 0, 0, 0, 0, 0, 0, 0, 0, 0, 0, 0, 0, 0, 0, 0, 0, 0, 0, 0] None None None = Some (Inr m)
     \<and> length (pm_slots m) = 12 \<and> list_all map_slot_ok (pm_slots m) \<and> seated (pm_slots m) = []"
proof -
  let ?dz = "\<lparr>dz_zlib = (\<lambda>p n. None), dz_exploder = (), dz_ended = (\<lambda>_. True), dz_explode = (\<lambda>_ _. None)\<rparr> :: unit decoders"
  let ?mo = "\<lparr>mo_crc32 = \<lambda>_. 0, mo_sha1 = \<lambda>_. replicate 20 0\<rparr> :: map_ops"
  let ?bs = "[77, 80, 81, 26, 32, 0, 0, 0, 0, 0, 0, 0, 0, 0, 0, 0, 0, 0, 0, 0, 0, 0, 0, 0, 0, 0, 0, 0, 0, 0, 0, 0] :: bytes"
  have z: "zlib_law ?dz" by (simp add: zlib_law_def)
  have empty: "chunks_exact 16 (decrypt_bytes [] key) = []" for key by (simp add: decrypt_bytes_def chunks_exact_def)
  have h: "header_here ?bs 0 = Some (parse_at ?bs 0 0)" by (simp add: header_here_def ID_MPQ_ARCHIVE_def)
  obtain header where header: "parse_at ?bs 0 0 = Inr header" "mh_hash_table_offset header = 0"
    "mh_hash_table_count header = 0" "mh_block_table_offset header = 0" "mh_block_table_count header = 0"
    by (simp add: parse_at_def slice_def u32_at_def from_le.simps)
  then have "mpq_locate ?bs = Inr header" using h by (simp add: mpq_locate_def aligned_search.simps)
  then obtain a where a: "from_bytes ?bs = Inr a" "ar_hash_table a = []"
    using header empty by (simp add: from_bytes_def Let_def slice_def parse_hash_table_def parse_block_table_def)
  then have none: "read_member ?dz a wanted name = Some None" for wanted name
    by (simp add: read_member_def open_file_def find_block_index_def)
  obtain d where d: "map_digest (read_member ?dz a) None None = Some d"
    using map_digest_ok [of "read_member ?dz a"] none by blast
  have w: "map_w3i ?dz a = Some w3i_default" by (simp add: map_w3i_def none)
  have valid: "map_check_valid (map_info_of ?mo ?bs (Some (str ''a.w3x'')) None d w3i_default) = Inr ()"
    by (simp add: map_check_valid_def map_info_of_def Let_def str_def ovr_or_def w3i_default_def)
  have len: "length (map_slots None w3i_default) = 12"
    by (simp add: map_slots_def ovr_or_def own_slots_def w3i_default_def apply_random_races_force_def
        add_observer_slots_def Let_def)
  have load: "\<exists>m. load_mpq_with_override ?dz ?mo (Some (str ''a.w3x'')) ?bs None None None = Some (Inr m)
      \<and> length (pm_slots m) = 12"
    using a(1) d w valid len by (simp add: load_mpq_with_override_def Let_def)
  then show ?thesis using map_loads [OF z, where ovr = None and mo = ?mo and fn = "Some (str ''a.w3x'')" and bs = ?bs and cj = None and bj = None]
    by auto
qed

section \<open>What the checksum detects\<close>

lemma rotl_inj: "word_rotl n (x :: u32) = word_rotl n y \<longleftrightarrow> x = y"
  by (metis word_rot_lr)

lemma xor_inj: "(x :: u32) XOR c = y XOR c \<longleftrightarrow> x = y" "c XOR x = c XOR y \<longleftrightarrow> x = y"
  by (metis xor.assoc xor_self_eq xor.right_neutral, metis xor.assoc xor_self_eq xor.left_neutral)

lemma xor_rotate_left_inj: "xor_rotate_left_loop v bs = xor_rotate_left_loop v' bs \<longleftrightarrow> v = v'"
proof (induction v bs arbitrary: v' rule: xor_rotate_left_loop.induct)
  case (1 val a b c d bs)
  show ?case unfolding xor_rotate_left_loop.simps(1) "1.IH" by (simp add: rotl_inj xor_inj)
qed (simp_all add: rotl_inj xor_inj)

lemma xor_rotate_left_append:
  "4 dvd length pre \<Longrightarrow> xor_rotate_left_loop v (pre @ bs) = xor_rotate_left_loop (xor_rotate_left_loop v pre) bs"
proof (induction v pre rule: xor_rotate_left_loop.induct)
  case (1 val a b c d pre)
  have "4 dvd length pre" using 1(2) by simp presburger
  then show ?case using 1(1) by simp
qed (simp; presburger)+

lemma xor_rotate_left_word:
  assumes "4 dvd length pre" "length w = 4" "length w' = 4" "w \<noteq> w'"
  shows "xor_rotate_left (pre @ w @ post) \<noteq> xor_rotate_left (pre @ w' @ post)"
proof -
  have "(from_le w :: u32) \<noteq> from_le w'"
  proof
    assume eq: "(from_le w :: u32) = from_le w'"
    have "w = to_le 4 (from_le w :: u32)" "w' = to_le 4 (from_le w' :: u32)"
      using assms(2,3) by (simp_all add: to_le_from_le)
    then show False using eq assms(4) by simp
  qed
  moreover obtain a b c d a' b' c' d' where "w = [a, b, c, d]" "w' = [a', b', c', d']"
    using assms(2,3) by (auto simp: numeral_eq_Suc length_Suc_conv)
  ultimately show ?thesis
    unfolding xor_rotate_left_def xor_rotate_left_append [OF assms(1)]
    by (simp add: xor_rotate_left_inj rotl_inj xor_inj)
qed

text \<open>Two readers that agree on the names of a list give the same digest, and the digest is injective in its start.\<close>

lemma add_files_cong:
  "(\<And>n. n \<in> set names \<Longrightarrow> rd (\<lambda>k. 0 < k \<and> k \<noteq> 0xFFFFFFFF) n = rd' (\<lambda>k. 0 < k \<and> k \<noteq> 0xFFFFFFFF) n)
   \<Longrightarrow> add_files rd names fs d = add_files rd' names fs d"
  by (induction names arbitrary: fs d) (auto split: option.split)

lemma add_files_inj:
  assumes "add_files rd names fs (v, h) = Some (r, k)" "add_files rd names fs (v', h') = Some (r', k')" "v \<noteq> v'"
  shows "r \<noteq> r'"
  using assms
proof (induction names arbitrary: fs v h v' h')
  case (Cons n names)
  show ?case
  proof (cases "fs \<and> n = file_list ! 1")
    case True
    then show ?thesis using Cons by simp
  next
    case False
    then obtain m where m: "rd (\<lambda>k. 0 < k \<and> k \<noteq> 0xFFFFFFFF) n = Some m" using Cons.prems(1) by (auto split: option.splits)
    show ?thesis
    proof (cases "\<exists>i out. m = Some (i, out) \<and> out \<noteq> []")
      case True
      then obtain i out where out: "m = Some (i, out)" "out \<noteq> []" by blast
      have "word_rotl 3 (v XOR xor_rotate_left out) \<noteq> word_rotl 3 (v' XOR xor_rotate_left out)"
        using Cons.prems(3) by (simp add: rotl_inj xor_inj)
      moreover have "add_files rd names (fs \<or> n \<in> set script_names) (word_rotl 3 (v XOR xor_rotate_left out), h @ out) = Some (r, k)"
        "add_files rd names (fs \<or> n \<in> set script_names) (word_rotl 3 (v' XOR xor_rotate_left out), h' @ out) = Some (r', k')"
        using False m out Cons.prems(1,2) by auto
      ultimately show ?thesis using Cons.IH by blast
    next
      case none: False
      then have "add_files rd names fs (v, h) = Some (r, k)" "add_files rd names fs (v', h') = Some (r', k')"
        using False m Cons.prems(1,2) by (auto split: option.splits if_splits)
      then show ?thesis using Cons.IH Cons.prems(3) by blast
    qed
  qed
qed simp

lemma add_files_differ:
  assumes "fname \<in> set names" "distinct names" "fname \<noteq> file_list ! 1"
    and "\<And>w n. n \<noteq> fname \<Longrightarrow> rd w n = rd' w n"
    and "rd (\<lambda>k. 0 < k \<and> k \<noteq> 0xFFFFFFFF) fname = Some (Some (i, out))"
    and "rd' (\<lambda>k. 0 < k \<and> k \<noteq> 0xFFFFFFFF) fname = Some (Some (i', out'))"
    and "out \<noteq> []" "out' \<noteq> []" "xor_rotate_left out \<noteq> xor_rotate_left out'"
    and "add_files rd names fs d = Some (r, k)" "add_files rd' names fs d = Some (r', k')"
  shows "r \<noteq> r'"
  using assms(1,2,10,11)
proof (induction names arbitrary: fs d)
  case (Cons n names)
  obtain v h where d: "d = (v, h)" by (cases d)
  show ?case
  proof (cases "n = fname")
    case True
    let ?fs = "fs \<or> fname \<in> set script_names"
    have "add_files rd names fs d = add_files rd' names fs d" for fs d
    proof (rule add_files_cong)
      fix m assume "m \<in> set names"
      then have "m \<noteq> fname" using Cons.prems(2) True by auto
      then show "rd (\<lambda>k. 0 < k \<and> k \<noteq> 0xFFFFFFFF) m = rd' (\<lambda>k. 0 < k \<and> k \<noteq> 0xFFFFFFFF) m" by (rule assms(4))
    qed
    then have "add_files rd names ?fs (word_rotl 3 (v XOR xor_rotate_left out), h @ out) = Some (r, k)"
      "add_files rd names ?fs (word_rotl 3 (v XOR xor_rotate_left out'), h @ out') = Some (r', k')"
      using Cons.prems(3,4) True assms(3,5-8) d by auto
    then show ?thesis by (rule add_files_inj) (simp add: rotl_inj xor_inj assms(9))
  next
    case False
    then have eq: "rd w n = rd' w n" for w by (rule assms(4))
    have IH: "add_files rd names fs (v, h) = Some (r, k) \<Longrightarrow> add_files rd' names fs (v, h) = Some (r', k') \<Longrightarrow> r \<noteq> r'"
      for fs v h using Cons.IH Cons.prems(1,2) False by auto
    show ?thesis using Cons.prems(3,4) IH unfolding d
      by (auto simp: eq split: if_splits option.splits) blast+
  qed
qed simp

lemma distinct_file_list: "distinct file_list"
  by (simp add: file_list_def str_def)



end
