(* ===== verification/Config.thy ===== *)
theory Config
  imports Bnet_Client Map_Load Chat_Parse "HOL-Library.AList"
begin

text \<open>
  The configuration (\<^verbatim>\<open>spectre/src/config.rs\<close>): the two formats of the file and what is taken from them. The
  parser of TOML, with the defaults that serde fills in, is a parameter, as are the operations of Rust on Unicode text
  (\<open>text_ops\<close>). A number without a type in the source is an \<^verbatim>\<open>i32\<close>, which the code then casts.
\<close>

section \<open>The configuration\<close>

record bot_config =
  bot_war3_path :: bytes
  bot_map_path :: bytes
  bot_default_map :: "bytes option"
  bot_max_games :: nat
  bot_tft :: bool
  bot_bind_address :: bytes
  bot_host_port :: u16
  bot_port_pool_start :: "u16 option"
  bot_port_pool_end :: "u16 option"
  bot_gproxy_reconnect_port :: u16
  bot_udp_broadcast_target :: bytes

record game_defaults =
  gd_latency :: nat
  gd_sync_limit :: u32
  gd_virtual_host_name :: bytes
  gd_reconnect_wait :: nat
  gd_max_downloaders :: u32
  gd_max_download_speed :: u32
  gd_allow_downloads :: u8
  gd_autokick_ping :: u32
  gd_lc_pings :: bool
  gd_spoof_checks :: u8
  gd_require_spoof_checks :: bool
  gd_lobby_time_limit :: u32
  gd_hcl_from_game_name :: bool
  gd_votekick_allowed :: bool
  gd_votekick_percentage :: u32

record spectator_config =
  sc_enabled :: bool
  sc_port :: u16
  sc_dotatv_enabled :: bool
  sc_dotatv_port :: u16
  sc_delay :: nat
  sc_max_viewers :: nat
  sc_history_max_mb :: nat

record config =
  cf_bot :: bot_config
  cf_bnet :: bnet_config
  cf_game :: game_defaults
  cf_spectator :: spectator_config
  cf_db_path :: bytes
  cf_maps :: "(bytes \<times> map_override) list"

record text_ops =
  tx_trim :: "bytes \<Rightarrow> bytes"
  tx_lower :: "bytes \<Rightarrow> bytes"
  tx_split_whitespace :: "bytes \<Rightarrow> bytes list"

section \<open>Addresses and ports\<close>

text \<open>\<^verbatim>\<open>Ipv4Addr::from_str\<close>: four numbers of one to three digits below 256, without a leading zero.\<close>

fun split_byte :: "u8 \<Rightarrow> bytes \<Rightarrow> bytes list" where
  "split_byte c [] = [[]]"
| "split_byte c (b # bs) =
     (if b = c then [] # split_byte c bs
      else case split_byte c bs of [] \<Rightarrow> [[b]] | p # ps \<Rightarrow> (b # p) # ps)"

definition parse_octet :: "bytes \<Rightarrow> u8 option" where
  "parse_octet s =
     (if s = [] \<or> length s > 3 \<or> \<not> list_all (in_range 48 57) s \<or> (length s > 1 \<and> hd s = 48) then None
      else parse_word s)"

definition parse_ipv4 :: "bytes \<Rightarrow> bytes option" where
  "parse_ipv4 s =
     (case map parse_octet (split_byte 46 s) of
        [Some a, Some b, Some c, Some d] \<Rightarrow> Some [a, b, c, d]
      | _ \<Rightarrow> None)"

definition ipv4_broadcast :: bytes where
  "ipv4_broadcast = [255, 255, 255, 255]"

definition resolved_udp_broadcast_target :: "text_ops \<Rightarrow> bot_config \<Rightarrow> bytes" where
  "resolved_udp_broadcast_target tx bt =
     (let trimmed = tx_trim tx (bot_udp_broadcast_target bt)
      in if trimmed = [] then ipv4_broadcast
         else case parse_ipv4 trimmed of Some ip \<Rightarrow> ip | None \<Rightarrow> ipv4_broadcast)"

definition is_port_pool_enabled :: "bot_config \<Rightarrow> bool" where
  "is_port_pool_enabled bt \<longleftrightarrow> bot_port_pool_start bt \<noteq> None \<and> bot_port_pool_end bt \<noteq> None"

definition port_pool_range :: "bot_config \<Rightarrow> u16 \<times> u16" where
  "port_pool_range bt =
     (let start = (case bot_port_pool_start bt of Some p \<Rightarrow> p | None \<Rightarrow> bot_host_port bt);
          stop = (case bot_port_pool_end bt of Some p \<Rightarrow> p | None \<Rightarrow> start)
      in (min start stop, max start stop))"

section \<open>TOML\<close>

text \<open>The values of \<^verbatim>\<open>toml::Value\<close> that the code tells apart.\<close>

datatype toml_value = TomlBoolean bool | TomlInteger int | TomlString bytes | TomlOther

record toml_bot =
  tb_war3_path :: bytes
  tb_map_path :: bytes
  tb_default_map :: "bytes option"
  tb_max_games :: nat
  tb_tft :: bool
  tb_bind_address :: bytes
  tb_host_port :: u16
  tb_port_pool_start :: "u16 option"
  tb_port_pool_end :: "u16 option"
  tb_gproxy_reconnect_port :: u16
  tb_udp_broadcast_target :: "bytes option"
  tb_allow_downloads :: "toml_value option"
  tb_max_downloaders :: "u32 option"
  tb_max_download_speed :: "u32 option"
  tb_autokick_ping :: "u32 option"
  tb_lc_pings :: "bool option"

definition toml_bot_default :: toml_bot where
  "toml_bot_default = \<lparr>tb_war3_path = str ''war3'', tb_map_path = str ''maps'', tb_default_map = None, tb_max_games = 20,
     tb_tft = True, tb_bind_address = str ''0.0.0.0'', tb_host_port = 6112, tb_port_pool_start = None,
     tb_port_pool_end = None, tb_gproxy_reconnect_port = 6114, tb_udp_broadcast_target = None, tb_allow_downloads = None,
     tb_max_downloaders = None, tb_max_download_speed = None, tb_autokick_ping = None, tb_lc_pings = None\<rparr>"

record toml_bnet =
  tn_server :: bytes
  tn_port :: u16
  tn_username :: bytes
  tn_password :: bytes
  tn_cdkey_roc :: bytes
  tn_cdkey_tft :: bytes
  tn_first_channel :: bytes
  tn_root_admins :: "bytes list"
  tn_command_trigger :: bytes
  tn_war3_version :: u8
  tn_reconnect_delay_sec :: nat
  tn_password_hash_type :: bytes
  tn_server_alias :: "bytes option"
  tn_pvpgn_realm_name :: "bytes option"

definition default_cdkey :: bytes where
  "default_cdkey = replicate 26 70"

definition toml_bnet_default :: toml_bnet where
  "toml_bnet_default = \<lparr>tn_server = str ''wc3.theabyss.ru'', tn_port = 6112, tn_username = str ''BOT'', tn_password = [],
     tn_cdkey_roc = default_cdkey, tn_cdkey_tft = default_cdkey, tn_first_channel = str ''The Abyss'', tn_root_admins = [],
     tn_command_trigger = str ''!'', tn_war3_version = 26, tn_reconnect_delay_sec = 5,
     tn_password_hash_type = str ''pvpgn'', tn_server_alias = None, tn_pvpgn_realm_name = None\<rparr>"

record toml_game =
  tg_latency_ms :: nat
  tg_sync_limit :: u32
  tg_virtual_host_name :: bytes
  tg_reconnect_wait_sec :: nat
  tg_max_downloaders :: u32
  tg_max_download_speed :: u32
  tg_allow_downloads :: u8
  tg_autokick_ping :: u32
  tg_lc_pings :: bool
  tg_spoof_checks :: u8
  tg_require_spoof_checks :: bool
  tg_lobby_time_limit :: u32
  tg_hcl_from_game_name :: bool
  tg_votekick_allowed :: bool
  tg_votekick_percentage :: u32

definition toml_game_default :: toml_game where
  "toml_game_default = \<lparr>tg_latency_ms = 100, tg_sync_limit = 50, tg_virtual_host_name = str ''|cFF4080C0Spectre'',
     tg_reconnect_wait_sec = 180, tg_max_downloaders = 3, tg_max_download_speed = 100, tg_allow_downloads = 1,
     tg_autokick_ping = 400, tg_lc_pings = True, tg_spoof_checks = 0, tg_require_spoof_checks = False,
     tg_lobby_time_limit = 10, tg_hcl_from_game_name = True, tg_votekick_allowed = True, tg_votekick_percentage = 100\<rparr>"

record toml_spectator =
  ts_enabled :: bool
  ts_port :: u16
  ts_dotatv_enabled :: bool
  ts_dotatv_port :: u16
  ts_delay_sec :: nat
  ts_max_viewers :: nat
  ts_history_max_mb :: nat

definition toml_spectator_default :: toml_spectator where
  "toml_spectator_default = \<lparr>ts_enabled = False, ts_port = 6115, ts_dotatv_enabled = True, ts_dotatv_port = 6116,
     ts_delay_sec = 120, ts_max_viewers = 32, ts_history_max_mb = 64\<rparr>"

record toml_map_override =
  to_speed :: "u8 option"
  to_visibility :: "u8 option"
  to_observers :: "u8 option"
  to_flags :: "u8 option"
  to_game_type :: "u32 option"
  to_filter_maker :: "u8 option"
  to_filter_type :: "u8 option"
  to_filter_size :: "u8 option"
  to_filter_obs :: "u8 option"
  to_options :: "u32 option"
  to_width :: "u16 option"
  to_height :: "u16 option"
  to_num_players :: "u8 option"
  to_num_teams :: "u8 option"
  to_map_type :: "bytes option"
  to_matchmaking_category :: "bytes option"
  to_default_hcl :: "bytes option"
  to_default_player_score :: "u32 option"
  to_loading_in_game :: "bool option"
  to_local_path :: "bytes option"
  to_max_slots :: "u32 option"

definition map_override_from :: "toml_map_override \<Rightarrow> map_override" where
  "map_override_from t =
     \<lparr>ov_speed = to_speed t, ov_visibility = to_visibility t, ov_observers = to_observers t, ov_flags = to_flags t,
      ov_game_type = to_game_type t, ov_filter_maker = to_filter_maker t, ov_filter_type = to_filter_type t,
      ov_filter_size = to_filter_size t, ov_filter_obs = to_filter_obs t, ov_options = to_options t,
      ov_width = to_width t, ov_height = to_height t, ov_num_players = to_num_players t, ov_num_teams = to_num_teams t,
      ov_custom_slots = None, ov_map_type = to_map_type t, ov_matchmaking_category = to_matchmaking_category t,
      ov_default_hcl = to_default_hcl t, ov_default_player_score = to_default_player_score t,
      ov_loading_in_game = to_loading_in_game t, ov_local_path = to_local_path t, ov_max_slots = to_max_slots t\<rparr>"

record toml_config =
  tc_bot :: "toml_bot option"
  tc_bnet :: "toml_bnet option"
  tc_game :: "toml_game option"
  tc_spectator :: "toml_spectator option"
  tc_database :: "bytes option"
  tc_maps :: "(bytes \<times> toml_map_override) list"

text \<open>\<^verbatim>\<open>clamp(0, 2) as u8\<close>, and the visitor for \<^verbatim>\<open>allow_downloads\<close>; \<open>None\<close> is its error.\<close>

definition clamp02 :: "int \<Rightarrow> u8" where
  "clamp02 i = of_int (max 0 (min i 2))"

definition visit_allow_downloads :: "toml_value \<Rightarrow> u8 option" where
  "visit_allow_downloads v =
     (case v of
        TomlBoolean b \<Rightarrow> Some (if b then 1 else 0)
      | TomlInteger i \<Rightarrow> Some (clamp02 i)
      | TomlString s \<Rightarrow>
          (let s = map to_ascii_lower s
           in if s = str ''true'' \<or> s = str ''1'' then Some 1
              else if s = str ''false'' \<or> s = str ''0'' then Some 0
              else if s = str ''conditional'' \<or> s = str ''2'' then Some 2
              else None)
      | TomlOther \<Rightarrow> None)"

definition bot_allow_downloads :: "toml_value option \<Rightarrow> u8 \<Rightarrow> u8" where
  "bot_allow_downloads v d =
     (case v of
        Some (TomlBoolean b) \<Rightarrow> (if b then 1 else 0)
      | Some (TomlInteger i) \<Rightarrow> clamp02 i
      | Some (TomlString s) \<Rightarrow>
          (if eq_ignore_ascii_case s (str ''true'') \<or> s = str ''1'' then 1
           else if eq_ignore_ascii_case s (str ''false'') \<or> s = str ''0'' then 0
           else if eq_ignore_ascii_case s (str ''conditional'') \<or> s = str ''2'' then 2
           else d)
      | _ \<Rightarrow> d)"

lemma or_default_simps [simp]: "or_default (Some x) d = x" "or_default None d = d"
  by (simp_all add: or_default_def)

definition config_of_toml :: "toml_config \<Rightarrow> config" where
  "config_of_toml c =
     (let bt = or_default (tc_bot c) toml_bot_default;
          bnet = or_default (tc_bnet c) toml_bnet_default;
          game = or_default (tc_game c) toml_game_default;
          spectator = or_default (tc_spectator c) toml_spectator_default
      in \<lparr>cf_bot =
            \<lparr>bot_war3_path = tb_war3_path bt, bot_map_path = tb_map_path bt, bot_default_map = tb_default_map bt,
             bot_max_games = tb_max_games bt, bot_tft = tb_tft bt, bot_bind_address = tb_bind_address bt,
             bot_host_port = tb_host_port bt, bot_port_pool_start = tb_port_pool_start bt,
             bot_port_pool_end = tb_port_pool_end bt, bot_gproxy_reconnect_port = tb_gproxy_reconnect_port bt,
             bot_udp_broadcast_target = or_default (tb_udp_broadcast_target bt) []\<rparr>,
          cf_bnet =
            \<lparr>bc_port = tn_port bnet, bc_host_port = tb_host_port bt, bc_username = tn_username bnet,
             bc_password = tn_password bnet, bc_cdkey_roc = tn_cdkey_roc bnet, bc_cdkey_tft = tn_cdkey_tft bnet,
             bc_first_channel = tn_first_channel bnet, bc_war3_version = tn_war3_version bnet,
             bc_exe_version = [1, 0, 26, 1], bc_exe_version_hash = [0, 0, 0, 0],
             bc_password_hash_type = tn_password_hash_type bnet, bc_server = tn_server bnet,
             bc_server_alias = or_default (tn_server_alias bnet) (tn_server bnet),
             bc_pvpgn_realm_name = or_default (tn_pvpgn_realm_name bnet) [], bc_root_admins = tn_root_admins bnet,
             bc_command_trigger = tn_command_trigger bnet, bc_reconnect_delay = secs (tn_reconnect_delay_sec bnet)\<rparr>,
          cf_game =
            \<lparr>gd_latency = millis (tg_latency_ms game), gd_sync_limit = tg_sync_limit game,
             gd_virtual_host_name = tg_virtual_host_name game, gd_reconnect_wait = secs (tg_reconnect_wait_sec game),
             gd_max_downloaders = or_default (tb_max_downloaders bt) (tg_max_downloaders game),
             gd_max_download_speed = or_default (tb_max_download_speed bt) (tg_max_download_speed game),
             gd_allow_downloads = bot_allow_downloads (tb_allow_downloads bt) (tg_allow_downloads game),
             gd_autokick_ping = or_default (tb_autokick_ping bt) (tg_autokick_ping game),
             gd_lc_pings = or_default (tb_lc_pings bt) (tg_lc_pings game), gd_spoof_checks = tg_spoof_checks game,
             gd_require_spoof_checks = tg_require_spoof_checks game, gd_lobby_time_limit = tg_lobby_time_limit game,
             gd_hcl_from_game_name = tg_hcl_from_game_name game, gd_votekick_allowed = tg_votekick_allowed game,
             gd_votekick_percentage = tg_votekick_percentage game\<rparr>,
          cf_spectator =
            \<lparr>sc_enabled = ts_enabled spectator, sc_port = ts_port spectator,
             sc_dotatv_enabled = ts_dotatv_enabled spectator, sc_dotatv_port = ts_dotatv_port spectator,
             sc_delay = secs (ts_delay_sec spectator), sc_max_viewers = ts_max_viewers spectator,
             sc_history_max_mb = ts_history_max_mb spectator\<rparr>,
          cf_db_path = or_default (tc_database c) (str ''spectre.db''),
          cf_maps = map (\<lambda>(k, v). (k, map_override_from v)) (tc_maps c)\<rparr>)"

text \<open>\<open>toml\<close> is \<^verbatim>\<open>toml::from_str\<close>.\<close>

definition from_toml :: "(bytes \<Rightarrow> bytes + toml_config) \<Rightarrow> bytes \<Rightarrow> bytes + config" where
  "from_toml toml s =
     (case toml s of Inl _ \<Rightarrow> Inl (str ''failed to parse TOML configuration'') | Inr c \<Rightarrow> Inr (config_of_toml c))"

section \<open>The old format\<close>

text \<open>\<^verbatim>\<open>str::lines\<close>: a line ends with a newline, which may follow a carriage return.\<close>

definition strip_cr :: "bytes \<Rightarrow> bytes" where
  "strip_cr l = (if l \<noteq> [] \<and> last l = 13 then butlast l else l)"

definition lines_of :: "bytes \<Rightarrow> bytes list" where
  "lines_of s =
     (let ps = split_byte 10 s
      in map strip_cr (butlast ps) @ (if last ps = [] then [] else [last ps]))"

definition split_once :: "u8 \<Rightarrow> bytes \<Rightarrow> (bytes \<times> bytes) option" where
  "split_once c s = map_option (\<lambda>i. (take i s, drop (Suc i) s)) (position (\<lambda>b. b = c) s)"

type_synonym settings = "(bytes \<times> bytes) list"

definition add_line :: "text_ops \<Rightarrow> bytes \<Rightarrow> settings \<Rightarrow> settings" where
  "add_line tx line m =
     (let trimmed = tx_trim tx line
      in if trimmed = [] \<or> hd trimmed = 35 then m
         else case split_once 61 trimmed of
                Some (k, v) \<Rightarrow> AList.update (tx_lower tx (tx_trim tx k)) (tx_trim tx v) m
              | None \<Rightarrow> m)"

definition config_map :: "text_ops \<Rightarrow> bytes \<Rightarrow> settings" where
  "config_map tx s = fold (add_line tx) (lines_of s) []"

definition setting :: "settings \<Rightarrow> string \<Rightarrow> bytes option" where
  "setting m key = map_of m (str key)"

definition setting_or :: "settings \<Rightarrow> string \<Rightarrow> bytes \<Rightarrow> bytes" where
  "setting_or m key d = or_default (setting m key) d"

definition parse_int :: "(bytes \<Rightarrow> 'a option) \<Rightarrow> settings \<Rightarrow> string \<Rightarrow> 'a \<Rightarrow> bytes + 'a" where
  "parse_int rd m key d =
     (case setting m key of
        Some v \<Rightarrow>
          (case rd v of
             Some x \<Rightarrow> Inr x
           | None \<Rightarrow> Inl (str ''failed to parse integer for key '' @ str key @ str '': '' @ v))
      | None \<Rightarrow> Inr d)"

definition parse_bool :: "settings \<Rightarrow> string \<Rightarrow> bool \<Rightarrow> bool" where
  "parse_bool m key d =
     (case setting m key of
        Some v \<Rightarrow> v = str ''1'' \<or> eq_ignore_ascii_case v (str ''true'')
      | None \<Rightarrow> d)"

text \<open>The readers of the number types: \<^verbatim>\<open>usize\<close> and \<^verbatim>\<open>u64\<close>, \<^verbatim>\<open>i32\<close>.\<close>

definition parse_u64 :: "bytes \<Rightarrow> nat option" where
  "parse_u64 = parse_nat (2 ^ 64)"

definition parse_i32 :: "bytes \<Rightarrow> int option" where
  "parse_i32 s =
     (case s of
        [] \<Rightarrow> None
      | b # bs \<Rightarrow>
          if b = 45 then (if bs = [] then None else map_option (\<lambda>n. - int n) (parse_dec (2 ^ 31 + 1) 0 bs))
          else map_option int (parse_nat (2 ^ 31) s))"

definition first_char :: "bytes option \<Rightarrow> bytes \<Rightarrow> bytes" where
  "first_char s d = (case s of Some v \<Rightarrow> (case utf8_chars v of c # _ \<Rightarrow> c | [] \<Rightarrow> d) | None \<Rightarrow> d)"

definition legacy_bot :: "settings \<Rightarrow> nat \<Rightarrow> u16 \<Rightarrow> u16 \<Rightarrow> bot_config" where
  "legacy_bot m maxgames hostport reconnect_port =
     \<lparr>bot_war3_path = setting_or m ''bot_war3path'' [], bot_map_path = setting_or m ''bot_mappath'' (str ''maps/''),
      bot_default_map = setting m ''bot_defaultmap'', bot_max_games = maxgames, bot_tft = parse_bool m ''bot_tft'' True,
      bot_bind_address = setting_or m ''bot_bindaddress'' (str ''0.0.0.0''), bot_host_port = hostport,
      bot_port_pool_start = None, bot_port_pool_end = None, bot_gproxy_reconnect_port = reconnect_port,
      bot_udp_broadcast_target =
        (case setting m ''udp_broadcasttarget'' of
           Some t \<Rightarrow> t | None \<Rightarrow> setting_or m ''udp_broadcast_target'' [])\<rparr>"

definition legacy_bnet :: "text_ops \<Rightarrow> settings \<Rightarrow> int \<Rightarrow> u16 \<Rightarrow> int \<Rightarrow> bnet_config" where
  "legacy_bnet tx m port hostport war3_version =
     (let server = setting_or m ''bnet_server'' (str ''wc3.theabyss.ru'')
      in \<lparr>bc_port = of_int port, bc_host_port = hostport, bc_username = setting_or m ''bnet_username'' (str ''BOT''),
          bc_password = setting_or m ''bnet_password'' [], bc_cdkey_roc = setting_or m ''bnet_cdkeyroc'' default_cdkey,
          bc_cdkey_tft = setting_or m ''bnet_cdkeytft'' default_cdkey,
          bc_first_channel = setting_or m ''bnet_firstchannel'' (str ''The Abyss''),
          bc_war3_version = of_int war3_version, bc_exe_version = [1, 0, 26, 1], bc_exe_version_hash = [0, 0, 0, 0],
          bc_password_hash_type = setting_or m ''bnet_custom_passwordhashtype'' (str ''pvpgn''), bc_server = server,
          bc_server_alias = setting_or m ''bnet_serveralias'' server,
          bc_pvpgn_realm_name = setting_or m ''bnet_custom_pvpgnrealmname'' [],
          bc_root_admins = (case setting m ''bnet_rootadmin'' of Some a \<Rightarrow> tx_split_whitespace tx a | None \<Rightarrow> []),
          bc_command_trigger = first_char (setting m ''bnet_commandtrigger'') (str ''!''),
          bc_reconnect_delay = secs 5\<rparr>)"

definition legacy_lobby_time_limit :: "settings \<Rightarrow> u32" where
  "legacy_lobby_time_limit m =
     (case parse_int parse_i32 m ''bot_lobbytimelimit'' 10 of Inr n \<Rightarrow> of_int n | Inl _ \<Rightarrow> 10)"

definition parse :: "text_ops \<Rightarrow> bytes \<Rightarrow> bytes + config" where
  "parse tx s =
     (let m = config_map tx s
      in and_then (parse_int parse_u64 m ''bot_maxgames'' 20) (\<lambda>maxgames.
         and_then (parse_int parse_word m ''bot_hostport'' 6112) (\<lambda>hostport.
         and_then (parse_int parse_i32 m ''bnet_serverport'' 6112) (\<lambda>bnet_port.
         and_then (parse_int parse_i32 m ''bnet_custom_war3version'' 26) (\<lambda>war3_version.
         and_then (parse_int parse_u64 m ''bot_latency'' 100) (\<lambda>latency_ms.
         and_then (parse_int parse_i32 m ''bot_synclimit'' 50) (\<lambda>sync_limit.
         and_then (parse_int parse_u64 m ''bot_reconnectwaittime'' 180) (\<lambda>reconnect_wait_sec.
         and_then (parse_int parse_word m ''bot_maxdownloaders'' 3) (\<lambda>max_downloaders.
         and_then (parse_int parse_word m ''bot_maxdownloadspeed'' 100) (\<lambda>max_download_speed.
         and_then (parse_int parse_i32 m ''bot_allowdownloads'' 1) (\<lambda>allow_downloads.
         and_then (parse_int parse_word m ''bot_autokickping'' 400) (\<lambda>autokick_ping.
         and_then (parse_int parse_i32 m ''bnet_spoofchecks'' 0) (\<lambda>spoof_checks.
         and_then (parse_int parse_word m ''spectator_port'' 6115) (\<lambda>spectator_port.
         and_then (parse_int parse_word m ''spectator_dotatv_port'' 6116) (\<lambda>dotatv_port.
         and_then (parse_int parse_u64 m ''spectator_delay'' 120) (\<lambda>delay_sec.
         and_then (parse_int parse_u64 m ''spectator_maxviewers'' 32) (\<lambda>max_viewers.
         and_then (parse_int parse_u64 m ''spectator_history_max_mb'' 64) (\<lambda>history_max_mb.
         and_then (parse_int parse_word m ''bot_reconnectport'' 6114) (\<lambda>reconnect_port.
         and_then (parse_int parse_word m ''bot_votekickpercentage'' 100) (\<lambda>votekick_percentage.
         Inr \<lparr>cf_bot = legacy_bot m maxgames hostport reconnect_port,
              cf_bnet = legacy_bnet tx m bnet_port hostport war3_version,
              cf_game =
                \<lparr>gd_latency = millis latency_ms, gd_sync_limit = of_int sync_limit,
                 gd_virtual_host_name = setting_or m ''bot_virtualhostname'' (str ''|cFF4080C0Spectre''),
                 gd_reconnect_wait = secs reconnect_wait_sec, gd_max_downloaders = max_downloaders,
                 gd_max_download_speed = max_download_speed, gd_allow_downloads = of_int allow_downloads,
                 gd_autokick_ping = autokick_ping, gd_lc_pings = parse_bool m ''bot_lcpings'' True,
                 gd_spoof_checks = of_int spoof_checks,
                 gd_require_spoof_checks = parse_bool m ''bnet_requirespoofchecks'' False,
                 gd_lobby_time_limit = legacy_lobby_time_limit m,
                 gd_hcl_from_game_name = parse_bool m ''bot_hclfromgamename'' True,
                 gd_votekick_allowed = parse_bool m ''bot_votekickallowed'' True,
                 gd_votekick_percentage = votekick_percentage\<rparr>,
              cf_spectator =
                \<lparr>sc_enabled = parse_bool m ''spectator_enabled'' False, sc_port = spectator_port,
                 sc_dotatv_enabled = parse_bool m ''spectator_dotatv_enabled'' True, sc_dotatv_port = dotatv_port,
                 sc_delay = secs delay_sec, sc_max_viewers = max_viewers, sc_history_max_mb = history_max_mb\<rparr>,
              cf_db_path = setting_or m ''db_path'' (str ''spectre.db''),
              cf_maps = []\<rparr>))))))))))))))))))))"

text \<open>\<^verbatim>\<open>Config::load\<close>: the format goes by the extension of the file.\<close>

definition load_config ::
    "(bytes \<Rightarrow> bytes + toml_config) \<Rightarrow> text_ops \<Rightarrow> bytes option \<Rightarrow> bytes option \<Rightarrow> bytes \<Rightarrow> bytes + config" where
  "load_config toml tx extension contents shown_path =
     (case contents of
        None \<Rightarrow> Inl (str ''failed to read config file at '' @ shown_path)
      | Some s \<Rightarrow> if extension = Some (str ''toml'') then from_toml toml s else parse tx s)"

section \<open>What the formats mean\<close>

text \<open>What a line of the old format assigns. Of several assignments to a key the last one counts.\<close>

definition assignment :: "text_ops \<Rightarrow> bytes \<Rightarrow> (bytes \<times> bytes) option" where
  "assignment tx line =
     (let trimmed = tx_trim tx line
      in if trimmed = [] \<or> hd trimmed = 35 then None
         else map_option (\<lambda>(k, v). (tx_lower tx (tx_trim tx k), tx_trim tx v)) (split_once 61 trimmed))"

lemma add_line_assignment:
  "add_line tx line m = (case assignment tx line of Some (k, v) \<Rightarrow> AList.update k v m | None \<Rightarrow> m)"
  by (auto simp: add_line_def assignment_def Let_def split: option.split)

lemma settings_last_wins:
  "map_of (fold (add_line tx) ls m) k =
   (case map_of (rev (List.map_filter (assignment tx) ls)) k of Some v \<Rightarrow> Some v | None \<Rightarrow> map_of m k)"
  by (induction ls arbitrary: m)
     (auto simp: add_line_assignment update_conv map_filter_simps map_add_def split: option.split)

lemma config_map_last_wins: "map_of (config_map tx s) k = map_of (rev (List.map_filter (assignment tx) (lines_of s))) k"
  by (auto simp: config_map_def settings_last_wins split: option.split)

text \<open>An empty file gives the same configuration in both formats, except for the two directories.\<close>

lemma config_defaults_agree:
  assumes "toml [] = Inr \<lparr>tc_bot = None, tc_bnet = None, tc_game = None, tc_spectator = None, tc_database = None, tc_maps = []\<rparr>"
    and "from_toml toml [] = Inr c"
  shows "parse tx [] = Inr (c\<lparr>cf_bot := (cf_bot c)\<lparr>bot_war3_path := [], bot_map_path := str ''maps/''\<rparr>\<rparr>)"
proof -
  have m: "setting (config_map tx []) key = None" for key
    by (simp add: setting_def config_map_def lines_of_def)
  have int: "parse_int rd (config_map tx []) key d = Inr d" for rd key and d :: 'a by (simp add: parse_int_def m)
  show ?thesis using assms
    by (simp add: from_toml_def parse_def Let_def parse_int_def m legacy_bot_def legacy_bnet_def setting_or_def parse_bool_def
        first_char_def legacy_lobby_time_limit_def config_of_toml_def toml_bot_default_def toml_bnet_default_def
        toml_game_default_def toml_spectator_default_def bot_allow_downloads_def)
       (elim subst; simp)
qed

lemma port_pool_range_ordered: "port_pool_range bt = (lo, hi) \<Longrightarrow> lo \<le> hi"
  by (auto simp: port_pool_range_def Let_def min_def max_def)

text \<open>Overrides of a configuration file never replace the slots of a map.\<close>

lemma toml_no_custom_slots: "map_of (cf_maps (config_of_toml c)) k = Some ovr \<Longrightarrow> ov_custom_slots ovr = None"
  by (auto simp: config_of_toml_def Let_def map_of_map map_override_from_def dest!: map_of_SomeD)

end
