(* ===== verification/Supervisor.thy ===== *)
theory Supervisor
  imports Config Actor_Run
begin

text \<open>
  The supervisor (\<^verbatim>\<open>spectre/src/supervisor.rs\<close>): it hosts games on the ports of a pool, routes connections to them,
  obeys the administrators on battle.net and announces the lobbies. Its state is a record; what it does to the rest of the
  program is the list \<open>sp_out\<close> of effects, oldest first. A handle of a game is a number, the place of the game among those
  that were spawned. The contents of files, the clock and the random key are inputs of an event; the decoders, Unicode
  text, the parser of socket addresses and the derived \<^verbatim>\<open>Debug\<close> text of a closed connection are parameters.
\<close>

section \<open>State and effects\<close>

record lobby_advert =
  la_game_name :: bytes
  la_stat_string :: bytes
  la_host_counter :: u32
  la_entry_key :: u32
  la_map_game_type :: bytes
  la_slots_total :: u32
  la_slots_open :: u32
  la_port :: u16

type_synonym handle = nat

record active_game =
  ag_name :: bytes
  ag_port :: u16
  ag_host_counter :: u32
  ag_handle :: handle
  ag_advert :: "lobby_advert option"
  ag_created_at :: nat
  ag_in_lobby :: bool

text \<open>The tasks that wait for an answer of the database: who asked, and about whom.\<close>

datatype query = Ask_Ban bytes bytes | Ask_Stats bytes bytes | Ask_Admin bytes bytes

datatype 'c effect =
    To_Bnet bnet_cmd
  | To_Game handle "'c game_cmd"
  | To_Store store_cmd
  | Query query
  | Spawn_Game handle game_config
  | Spawn_Listener u16
  | Spawn_Reconnect_Listener u16
  | Spawn_Relay
  | Spawn_Tv u16 u16
  | Spawn_Adoption u64 "handle list"
  | Start_After nat handle
  | Udp bytes

record 'c supervisor =
  sp_cfg :: config
  sp_current_game :: "handle option"
  sp_current_game_name :: "bytes option"
  sp_current_game_advert :: "lobby_advert option"
  sp_games :: "active_game list"
  sp_allocated_ports :: "u16 set"
  sp_port_to_game :: "u16 \<rightharpoonup> handle"
  sp_active_listeners :: "u16 set"
  sp_conn_to_game :: "u64 \<rightharpoonup> handle"
  sp_udp :: bool
  sp_relay :: bool
  sp_selected_map_file :: "bytes option"
  sp_host_counter :: u32
  sp_current_game_created_at :: "nat option"
  sp_shutdown_requested :: bool
  sp_spawned :: nat
  sp_out :: "'c effect list"

record 's sup_env =
  se_decoders :: "'s decoders"
  se_map_ops :: map_ops
  se_text :: text_ops
  se_addr_ok :: "bytes \<Rightarrow> u16 \<Rightarrow> bool"
  se_show_reason :: "close_reason \<Rightarrow> bytes"

record inputs =
  in_now :: nat
  in_key :: u32
  in_files :: "bytes \<Rightarrow> bytes option"

abbreviation emit :: "'c effect list \<Rightarrow> 'c supervisor \<Rightarrow> 'c supervisor" where
  "emit es s \<equiv> s\<lparr>sp_out := sp_out s @ es\<rparr>"

definition say :: "bytes \<Rightarrow> 'c effect" where
  "say text = To_Bnet (SendChat text)"

definition whisper :: "bytes \<Rightarrow> bytes \<Rightarrow> 'c effect" where
  "whisper user text = say (str ''/w '' @ user @ str '' '' @ text)"

section \<open>The map of a game\<close>

text \<open>
  \<^verbatim>\<open>ends_with\<close>, \<^verbatim>\<open>Path::join\<close> and \<^verbatim>\<open>Path::file_name\<close> of Unix: an absolute path replaces the one it is joined
  to, and the last component names a file unless it is the parent directory.
\<close>

definition ends_with :: "bytes \<Rightarrow> bytes \<Rightarrow> bool" where
  "ends_with s t \<longleftrightarrow> length t \<le> length s \<and> drop (length s - length t) s = t"

definition path_join :: "bytes \<Rightarrow> bytes \<Rightarrow> bytes" where
  "path_join base p =
     (if p \<noteq> [] \<and> hd p = 47 then p
      else if base = [] \<or> last base = 47 then base @ p
      else base @ [47] @ p)"

definition path_file_name :: "bytes \<Rightarrow> bytes option" where
  "path_file_name p =
     (let cs = filter (\<lambda>c. c \<noteq> [] \<and> c \<noteq> str ''.'') (split_byte 47 p)
      in if cs = [] \<or> last cs = str ''..'' then None else Some (last cs))"

definition with_extensions :: "bytes \<Rightarrow> bytes list" where
  "with_extensions f =
     (if \<not> ends_with f (str ''.w3x'') \<and> \<not> ends_with f (str ''.w3m'')
      then [f, f @ str ''.w3x'', f @ str ''.w3m''] else [f])"

definition candidate_filenames :: "bytes option \<Rightarrow> bytes option \<Rightarrow> bytes \<Rightarrow> bytes list" where
  "candidate_filenames selected default_map game_name =
     (case selected of Some f \<Rightarrow> with_extensions f | None \<Rightarrow> [])
     @ (case default_map of Some f \<Rightarrow> with_extensions f | None \<Rightarrow> [])
     @ [game_name @ str ''.w3x'', game_name @ str ''.w3m'', game_name]"

definition candidate_paths :: "bytes \<Rightarrow> bytes \<Rightarrow> bytes list" where
  "candidate_paths map_path f = [path_join map_path f, path_join (str ''maps'') f, f]"

definition read_either :: "(bytes \<Rightarrow> bytes option) \<Rightarrow> bytes \<Rightarrow> bytes \<Rightarrow> bytes option" where
  "read_either files p q = (case files p of Some c \<Rightarrow> Some c | None \<Rightarrow> files q)"

definition find_override :: "config \<Rightarrow> bytes option \<Rightarrow> bytes \<Rightarrow> map_override option" where
  "find_override cfg selected game_name =
     (let maps = map_of (cf_maps cfg)
      in case Option.bind selected maps of
           Some ovr \<Rightarrow> Some ovr
         | None \<Rightarrow>
             (case Option.bind (bot_default_map (cf_bot cfg)) maps of
                Some ovr \<Rightarrow> Some ovr
              | None \<Rightarrow> maps game_name))"

text \<open>The first path that can be read and loaded. The outer \<open>None\<close> is a panic of the loader.\<close>

fun load_first ::
    "'s sup_env \<Rightarrow> (bytes \<Rightarrow> bytes option) \<Rightarrow> bytes option \<Rightarrow> bytes option \<Rightarrow> map_override option \<Rightarrow> bytes list
     \<Rightarrow> parsed_map option option" where
  "load_first env files cj bj ovr [] = Some None"
| "load_first env files cj bj ovr (p # ps) =
     (case files p of
        None \<Rightarrow> load_first env files cj bj ovr ps
      | Some data \<Rightarrow>
          Option.bind
            (load_mpq_with_override (se_decoders env) (se_map_ops env) (path_file_name p) data cj bj ovr)
            (\<lambda>r. case r of Inr m \<Rightarrow> Some (Some m) | Inl _ \<Rightarrow> load_first env files cj bj ovr ps))"

definition fallback_info :: "bytes \<Rightarrow> map_info" where
  "fallback_info game_name =
     \<lparr>mi_path = str (''Maps'' @ [CHR 0x5C] @ ''Download'' @ [CHR 0x5C]) @ game_name @ str ''.w3x'',
      mi_size = 1000, mi_info = 1, mi_crc = 0x12345678, mi_sha1 = replicate 20 0, mi_num_players = 12, mi_num_teams = 2,
      mi_width = 128, mi_height = 128, mi_game_type = 1, mi_flags = 0x2 OR 0x800 OR 0x4000 OR 0x60000, mi_data = None,
      mi_layout_style = 0, mi_options = 0, mi_map_type = str ''dota'', mi_matchmaking_category = [], mi_default_hcl = [],
      mi_default_player_score = 1000, mi_loading_in_game = False, mi_local_path = [], mi_max_slots = 24\<rparr>"

definition resolve_map_info ::
    "'s sup_env \<Rightarrow> inputs \<Rightarrow> config \<Rightarrow> bytes option \<Rightarrow> bytes \<Rightarrow> (map_info \<times> bytes \<times> slot_info list option) option" where
  "resolve_map_info env inp cfg selected game_name =
     (let files = in_files inp;
          common_j = read_either files (str ''war3/common.j'') (str ''maps/common.j'');
          blizzard_j = read_either files (str ''war3/blizzard.j'') (str ''maps/blizzard.j'');
          bt = cf_bot cfg;
          names = candidate_filenames selected (bot_default_map bt) game_name;
          paths = concat (map (candidate_paths (bot_map_path bt)) names)
      in map_option (\<lambda>r. case r of
             Some m \<Rightarrow> (pm_info m, put_u32_le (mi_game_type (pm_info m)), Some (pm_slots m))
           | None \<Rightarrow> (fallback_info game_name, [1, 0, 0, 0], None))
         (load_first env files common_j blizzard_j (find_override cfg selected game_name) paths))"

section \<open>Hosting a game\<close>

definition port_pool :: "bot_config \<Rightarrow> u16 list" where
  "port_pool bt = (let (start, stop) = port_pool_range bt in map of_nat [unat start..<Suc (unat stop)])"

definition allocate_port :: "'c supervisor \<Rightarrow> u16 option \<times> 'c supervisor" where
  "allocate_port s =
     (case find (\<lambda>p. p \<notin> sp_allocated_ports s) (port_pool (cf_bot (sp_cfg s))) of
        Some p \<Rightarrow> (Some p, s\<lparr>sp_allocated_ports := insert p (sp_allocated_ports s)\<rparr>)
      | None \<Rightarrow> (None, s))"

definition release_port :: "u16 \<Rightarrow> 'c supervisor \<Rightarrow> 'c supervisor" where
  "release_port p s = s\<lparr>sp_allocated_ports := sp_allocated_ports s - {p}\<rparr>"

definition advert_map_of :: "map_info \<Rightarrow> map_advert" where
  "advert_map_of m =
     \<lparr>ma_path = mi_path m, ma_size = mi_size m, ma_info = mi_info m, ma_crc = mi_crc m, ma_sha1 = mi_sha1 m,
      ma_num_players = mi_num_players m, ma_num_teams = mi_num_teams m, ma_width = mi_width m, ma_height = mi_height m,
      ma_game_type = mi_game_type m, ma_flags = mi_flags m\<rparr>"

definition game_config_of ::
    "config \<Rightarrow> bool \<Rightarrow> bytes \<Rightarrow> bytes \<Rightarrow> bytes \<Rightarrow> u32 \<Rightarrow> map_info \<Rightarrow> slot_info list option \<Rightarrow> bytes \<Rightarrow> u16 \<Rightarrow> game_config" where
  "game_config_of cfg has_relay name owner creator_server host_counter map_info custom_slots stat_string port =
     (let gd = cf_game cfg
      in \<lparr>cfg_name = name, cfg_owner = owner, cfg_host_counter = host_counter,
          cfg_num_slots = unat (mi_num_players map_info), cfg_latency = gd_latency gd, cfg_sync_limit = gd_sync_limit gd,
          cfg_map = map_info, cfg_virtual_host_name = gd_virtual_host_name gd, cfg_reconnect_wait = gd_reconnect_wait gd,
          cfg_custom_slots = custom_slots, cfg_has_relay = has_relay, cfg_max_downloaders = gd_max_downloaders gd,
          cfg_max_download_speed = gd_max_download_speed gd, cfg_allow_downloads = gd_allow_downloads gd,
          cfg_autokick_ping = gd_autokick_ping gd, cfg_lc_pings = gd_lc_pings gd, cfg_spoof_checks = gd_spoof_checks gd,
          cfg_require_spoof_checks = gd_require_spoof_checks gd, cfg_host_port = port,
          cfg_gproxy_reconnect_port = bot_gproxy_reconnect_port (cf_bot cfg), cfg_has_store = True,
          cfg_stat_string = stat_string, cfg_lobby_time_limit = gd_lobby_time_limit gd, cfg_creator_name = owner,
          cfg_creator_server = creator_server, cfg_matchmaking = False, cfg_hcl_from_game_name = gd_hcl_from_game_name gd,
          cfg_votekick_allowed = gd_votekick_allowed gd, cfg_votekick_percentage = gd_votekick_percentage gd,
          cfg_has_events = True\<rparr>)"

definition open_listener :: "'s sup_env \<Rightarrow> u16 \<Rightarrow> 'c supervisor \<Rightarrow> 'c supervisor" where
  "open_listener env port s =
     (if port \<notin> sp_active_listeners s \<and> se_addr_ok env (bot_bind_address (cf_bot (sp_cfg s))) port
      then emit [Spawn_Listener port] (s\<lparr>sp_active_listeners := insert port (sp_active_listeners s)\<rparr>)
      else s)"

definition tv_port_of :: "config \<Rightarrow> u16 \<Rightarrow> u16" where
  "tv_port_of c port = sc_dotatv_port (cf_spectator c) + (port - fst (port_pool_range (cf_bot c)))"

definition open_tv :: "handle \<Rightarrow> u16 \<Rightarrow> 'c supervisor \<Rightarrow> 'c supervisor" where
  "open_tv h port s =
     (if sc_dotatv_enabled (cf_spectator (sp_cfg s))
      then let tv_port = tv_port_of (sp_cfg s) port
           in emit [To_Game h AttachDotaTv, Spawn_Tv tv_port (tv_port + 1)] s
      else s)"

definition register_game :: "inputs \<Rightarrow> handle \<Rightarrow> lobby_advert \<Rightarrow> 'c supervisor \<Rightarrow> 'c supervisor" where
  "register_game inp h advert s =
     (let name = la_game_name advert; port = la_port advert
      in s\<lparr>sp_port_to_game := (sp_port_to_game s)(port \<mapsto> h),
           sp_current_game := Some h, sp_current_game_name := Some name,
           sp_current_game_advert := Some advert, sp_current_game_created_at := Some (in_now inp),
           sp_games := sp_games s @ [\<lparr>ag_name = name, ag_port = port, ag_host_counter = la_host_counter advert,
             ag_handle = h, ag_advert = Some advert, ag_created_at = in_now inp, ag_in_lobby = True\<rparr>]\<rparr>)"

definition spawn_hosted ::
    "'s sup_env \<Rightarrow> inputs \<Rightarrow> bytes \<Rightarrow> bytes \<Rightarrow> bytes \<Rightarrow> game_visibility \<Rightarrow> map_info \<Rightarrow> bytes \<Rightarrow> slot_info list option
     \<Rightarrow> u32 \<Rightarrow> u16 \<Rightarrow> 'c supervisor \<Rightarrow> 'c supervisor" where
  "spawn_hosted env inp name owner creator_server visibility map_info game_type custom_slots host_counter port s =
     (let s = open_listener env port s;
          advert_map = advert_map_of map_info;
          host_name = gd_virtual_host_name (cf_game (sp_cfg s));
          stat_string = encode_lan_statstring advert_map name host_name;
          h = sp_spawned s;
          s = emit [Spawn_Game h (game_config_of (sp_cfg s) (sp_relay s) name owner creator_server host_counter map_info
                                    custom_slots stat_string port),
                    To_Game h CreateVirtualHost]
                (s\<lparr>sp_spawned := Suc h\<rparr>);
          s = open_tv h port s;
          slots = ucast (mi_num_players map_info);
          s = register_game inp h \<lparr>la_game_name = name, la_stat_string = stat_string, la_host_counter = host_counter,
                la_entry_key = in_key inp, la_map_game_type = game_type, la_slots_total = slots,
                la_slots_open = slots, la_port = port\<rparr> s
      in emit [To_Bnet (CreateGame \<lparr>cg_name = name, cg_map = advert_map, cg_host_counter = host_counter,
                 cg_visibility = visibility, cg_host_name = Some host_name, cg_port = Some port\<rparr>)] s)"

definition create_game_with_creator ::
    "'s sup_env \<Rightarrow> inputs \<Rightarrow> bytes \<Rightarrow> bytes \<Rightarrow> bytes \<Rightarrow> game_visibility \<Rightarrow> 'c supervisor \<Rightarrow> 'c supervisor option" where
  "create_game_with_creator env inp name owner creator_server visibility s =
     map_option (\<lambda>(map_info, game_type, custom_slots).
       let host_counter = sp_host_counter s AND 0x0FFFFFFF;
           s = s\<lparr>sp_host_counter := sp_host_counter s + 1\<rparr>
       in case allocate_port s of
            (None, s) \<Rightarrow> s
          | (Some port, s) \<Rightarrow>
              spawn_hosted env inp name owner creator_server visibility map_info game_type custom_slots
                host_counter port s)
     (resolve_map_info env inp (sp_cfg s) (sp_selected_map_file s) name)"

definition sup_create_game ::
    "'s sup_env \<Rightarrow> inputs \<Rightarrow> bytes \<Rightarrow> bytes \<Rightarrow> game_visibility \<Rightarrow> 'c supervisor \<Rightarrow> 'c supervisor option" where
  "sup_create_game env inp name owner visibility s =
     create_game_with_creator env inp name owner (bc_server (cf_bnet (sp_cfg s))) visibility s"

section \<open>Commands of the administrators\<close>

definition remove_game :: "bytes \<Rightarrow> nat \<Rightarrow> 'c supervisor \<Rightarrow> 'c supervisor" where
  "remove_game user idx s =
     (let g = sp_games s ! idx;
          s = emit [To_Game (ag_handle g) UnhostCmd] (s\<lparr>sp_games := take idx (sp_games s) @ drop (Suc idx) (sp_games s)\<rparr>);
          s = release_port (ag_port g) s
      in emit [To_Bnet UnhostGame, whisper user (str ''Game ['' @ ag_name g @ str ''] unhosted'')]
           (s\<lparr>sp_port_to_game := (sp_port_to_game s)(ag_port g := None)\<rparr>))"

definition cmd_unhost :: "bytes \<Rightarrow> bytes \<Rightarrow> 'c supervisor \<Rightarrow> 'c supervisor" where
  "cmd_unhost user target_name s =
     (if target_name \<noteq> [] then
        (case position (\<lambda>g. eq_ignore_ascii_case (ag_name g) target_name) (sp_games s) of
           Some idx \<Rightarrow> remove_game user idx s
         | None \<Rightarrow> emit [whisper user (str ''No game matching ['' @ target_name @ str '']'')] s)
      else case position ag_in_lobby (sp_games s) of
             Some idx \<Rightarrow> remove_game user idx s
           | None \<Rightarrow>
               (case sp_current_game s of
                  Some h \<Rightarrow>
                    emit [To_Game h UnhostCmd, To_Bnet UnhostGame, whisper user (str ''Game unhosted'')]
                      (s\<lparr>sp_current_game := None, sp_current_game_name := None, sp_current_game_advert := None,
                         sp_current_game_created_at := None\<rparr>)
                | None \<Rightarrow> s))"

definition cmd_host ::
    "'s sup_env \<Rightarrow> inputs \<Rightarrow> bytes \<Rightarrow> bytes \<Rightarrow> bytes \<Rightarrow> 'c supervisor \<Rightarrow> 'c supervisor option" where
  "cmd_host env inp user verb name s =
     (let visibility = (if eq_ignore_ascii_case verb (str ''pub'') then VisPublic else VisPrivate)
      in if name = [] then Some (emit [whisper user (str ''Usage: !pub <game name>'')] s)
         else if length (sp_games s) \<ge> bot_max_games (cf_bot (sp_cfg s))
         then Some (emit [whisper user (str ''Error: maximum games reached'')] s)
         else sup_create_game env inp name user visibility s)"

definition cmd_host_by ::
    "'s sup_env \<Rightarrow> inputs \<Rightarrow> bytes \<Rightarrow> bytes \<Rightarrow> bytes list \<Rightarrow> 'c supervisor \<Rightarrow> 'c supervisor option" where
  "cmd_host_by env inp user verb args s =
     (let visibility = (if eq_ignore_ascii_case verb (str ''pubby'') then VisPublic else VisPrivate)
      in case args of
           [] \<Rightarrow> Some s
         | owner # rest \<Rightarrow>
             (let gname = join (str '' '') rest
              in if gname = [] then Some s
                 else map_option
                        (emit [whisper user (str ''Hosted game ['' @ gname @ str ''] for ['' @ owner @ str ''].'')])
                        (create_game_with_creator env inp gname owner (bc_server (cf_bnet (sp_cfg s))) visibility s)))"

definition cmd_map :: "bytes \<Rightarrow> bytes \<Rightarrow> 'c supervisor \<Rightarrow> 'c supervisor" where
  "cmd_map user map_name s =
     (if map_name = [] then emit [whisper user (str ''Usage: !map <filename>'')] s
      else emit [whisper user (str ''Map set to ['' @ map_name @ str '']'')] (s\<lparr>sp_selected_map_file := Some map_name\<rparr>))"

text \<open>The other commands only speak to the rest of the program.\<close>

definition about :: "bytes list \<Rightarrow> (bytes \<Rightarrow> 'c effect list) \<Rightarrow> 'c effect list" where
  "about args f = (case args of target # _ \<Rightarrow> f target | [] \<Rightarrow> [])"

definition store_verbs :: "bytes \<Rightarrow> bytes list \<Rightarrow> (bytes \<times> 'c effect list) list" where
  "store_verbs user args =
     (let unban = about args (\<lambda>t. [To_Store (RemoveBan t), whisper user (str ''Unbanned ['' @ t @ str '']'')]);
          stats = [Query (Ask_Stats user (case args of t # _ \<Rightarrow> t | [] \<Rightarrow> user))];
          reason = (if 1 \<le> length args then join (str '' '') (drop 1 args) else str ''banned by admin'')
      in [(str ''ban'', about args (\<lambda>t. [To_Store (AddBan t [] user reason),
                                        whisper user (str ''Banned ['' @ t @ str '']: '' @ reason)])),
          (str ''unban'', unban), (str ''delban'', unban),
          (str ''checkban'', about args (\<lambda>t. [Query (Ask_Ban user t)])),
          (str ''statsdota'', stats), (str ''stats'', stats),
          (str ''addadmin'', about args (\<lambda>t. [To_Store (AddAdmin t []), whisper user (str ''Added admin ['' @ t @ str '']'')])),
          (str ''deladmin'',
             about args (\<lambda>t. [To_Store (RemoveAdmin t), whisper user (str ''Removed admin ['' @ t @ str '']'')])),
          (str ''checkadmin'', about args (\<lambda>t. [Query (Ask_Admin user t)]))])"

definition clan_verbs :: "bytes \<Rightarrow> bytes list \<Rightarrow> (bytes \<times> 'c effect list) list" where
  "clan_verbs user args =
     (let rank = (\<lambda>r title. about args (\<lambda>t. [To_Bnet (ClanChangeRank t r),
            whisper user (str ''Set ['' @ t @ str ''] rank to '' @ title @ str ''.'')]));
          motd_text = join (str '' '') args
      in [(str ''accept'', [To_Bnet (ClanAcceptInvite True), whisper user (str ''Accepted clan invitation.'')]),
          (str ''invite'',
             about args (\<lambda>t. [To_Bnet (ClanInvitation t), whisper user (str ''Invited ['' @ t @ str ''] to clan.'')])),
          (str ''getclan'', [To_Bnet GetClanList, whisper user (str ''Requesting clan member list...'')]),
          (str ''getfriends'', [To_Bnet GetFriendsList, whisper user (str ''Requesting friends list...'')]),
          (str ''grunt'', rank 2 (str ''Grunt'')), (str ''peon'', rank 1 (str ''Peon'')),
          (str ''shaman'', rank 3 (str ''Shaman'')),
          (str ''remove'',
             about args (\<lambda>t. [To_Bnet (ClanRemoveMember t), whisper user (str ''Removed ['' @ t @ str ''] from clan.'')])),
          (str ''motd'', [To_Bnet (ClanSetMotd motd_text), whisper user (str ''Set clan MOTD to: '' @ motd_text)])])"

definition fixed_replies :: "bytes \<Rightarrow> (bytes \<times> 'c effect list) list" where
  "fixed_replies user =
     map (\<lambda>(verb, text). (str verb, [whisper user (str text)]))
       [(''countbans'', ''Bans stored in SQLite database.''),
        (''version'', ''Spectre v0.2.0 (High-Performance Async Warcraft III Hostbot)''),
        (''dbstatus'', ''Database WAL mode active, connected.''),
        (''disable'', ''Bot hosting disabled.''), (''enable'', ''Bot hosting enabled.''),
        (''reload'', ''Configuration and maps reloaded.''),
        (''wardenstatus'', ''Warden status: BNLS not configured.'')]"

definition game_line :: "active_game \<Rightarrow> bytes" where
  "game_line g =
     ag_name g @ str '' [port:'' @ show_word (ag_port g) @ str '', ''
     @ (if ag_in_lobby g then str ''Lobby'' else str ''Playing'') @ str '']''"

definition games_text :: "active_game list \<Rightarrow> bytes" where
  "games_text games =
     (if games = [] then str ''No active games.''
      else str ''Active games ('' @ show_nat (length games) @ str ''): '' @ join (str '', '') (map game_line games))"

definition status_text :: "'c supervisor \<Rightarrow> bytes" where
  "status_text s =
     (let (start, stop) = port_pool_range (cf_bot (sp_cfg s));
          total_ports = unat (stop - start + 1);
          free_ports = total_ports - card (sp_allocated_ports s)
      in str ''Status: '' @ show_nat (length (sp_games s)) @ str '' active games (''
         @ show_nat (length (filter ag_in_lobby (sp_games s))) @ str '' in lobby), '' @ show_nat free_ports @ str ''/''
         @ show_nat total_ports @ str '' ports free'')"

definition game_verbs :: "'c supervisor \<Rightarrow> bytes \<Rightarrow> bytes list \<Rightarrow> (bytes \<times> 'c effect list) list" where
  "game_verbs s user args =
     (let text = join (str '' '') args; games = [whisper user (games_text (sp_games s))]
      in [(str ''start'', case sp_current_game s of Some h \<Rightarrow> [To_Game h StartCmd] | None \<Rightarrow> []),
          (str ''say'', [say text]),
          (str ''countadmins'',
             [whisper user (str ''Root admins configured: '' @ show_nat (length (bc_root_admins (cf_bnet (sp_cfg s)))))]),
          (str ''channel'', if text = [] then [] else [say (str ''/join '' @ text)]),
          (str ''getgame'', games), (str ''getgames'', games),
          (str ''saygames'', [say (games_text (sp_games s))]),
          (str ''status'', [whisper user (status_text s)])])"

definition run_verb ::
    "'s sup_env \<Rightarrow> inputs \<Rightarrow> bytes \<Rightarrow> bytes \<Rightarrow> bytes list \<Rightarrow> 'c supervisor \<Rightarrow> 'c supervisor option" where
  "run_verb env inp user verb args s =
     (let v = tx_lower (se_text env) verb
      in if verb_is v [''pub'', ''priv''] then cmd_host env inp user verb (join (str '' '') args) s
         else if verb_is v [''map'', ''load''] then Some (cmd_map user (join (str '' '') args) s)
         else if verb_is v [''unhost''] then Some (cmd_unhost user (join (str '' '') args) s)
         else if verb_is v [''exit'', ''quit'']
         then Some ((emit [whisper user (str ''Shutting down bot.'')] s)\<lparr>sp_shutdown_requested := True\<rparr>)
         else if verb_is v [''pubby'', ''privby''] then cmd_host_by env inp user verb args s
         else Some (emit (or_default (map_of (game_verbs s user args @ store_verbs user args @ clan_verbs user args
                                              @ fixed_replies user) v) []) s))"

definition handle_chat_command ::
    "'s sup_env \<Rightarrow> inputs \<Rightarrow> bytes \<Rightarrow> bytes \<Rightarrow> 'c supervisor \<Rightarrow> 'c supervisor option" where
  "handle_chat_command env inp user text s =
     (let bnet = cf_bnet (sp_cfg s)
      in if \<not> list_ex (\<lambda>a. eq_ignore_ascii_case a user) (bc_root_admins bnet) then Some s
         else case strip_prefix (bc_command_trigger bnet) text of
                None \<Rightarrow> Some s
              | Some cmd_text \<Rightarrow>
                  (case tx_split_whitespace (se_text env) cmd_text of
                     [] \<Rightarrow> Some s
                   | verb # args \<Rightarrow> run_verb env inp user verb args s))"

text \<open>What the tasks answer.\<close>

definition ban_reply :: "bytes \<Rightarrow> bytes \<Rightarrow> (bytes \<times> bytes) option \<Rightarrow> bytes" where
  "ban_reply user target ban =
     str ''/w '' @ user @ str '' ['' @ target
     @ (case ban of
          Some (admin, reason) \<Rightarrow> str ''] was banned by ['' @ admin @ str ''] for ['' @ reason @ str '']''
        | None \<Rightarrow> str ''] is not banned'')"

definition admin_reply :: "bytes \<Rightarrow> bytes \<Rightarrow> bool \<Rightarrow> bytes" where
  "admin_reply user target is_admin =
     str ''/w '' @ user @ str '' ['' @ target @ (if is_admin then str ''] is an admin.'' else str ''] is NOT an admin.'')"

record dota_summary =
  ds_games :: u32
  ds_wins :: u32
  ds_losses :: u32
  ds_kills :: u32
  ds_deaths :: u32
  ds_assists :: u32
  ds_creep_kills :: u32
  ds_creep_denies :: u32
  ds_neutral_kills :: u32
  ds_tower_kills :: u32
  ds_rax_kills :: u32

definition stats_reply :: "bytes \<Rightarrow> bytes \<Rightarrow> dota_summary option \<Rightarrow> bytes" where
  "stats_reply user target stats =
     str ''/w '' @ user @ str '' ''
     @ (case stats of
          Some st \<Rightarrow>
            str ''['' @ target @ str ''] Games: '' @ show_word (ds_games st) @ str '', K/D/A: '' @ show_word (ds_kills st)
            @ str ''/'' @ show_word (ds_deaths st) @ str ''/'' @ show_word (ds_assists st) @ str '', CS: ''
            @ show_word (ds_creep_kills st) @ str ''/'' @ show_word (ds_creep_denies st)
        | None \<Rightarrow> str ''No stats recorded for ['' @ target @ str ''].'')"

section \<open>Connections\<close>

datatype peer_ip = IPv4 bytes | IPv6

definition handle_new_connection :: "u64 \<Rightarrow> 'c \<Rightarrow> peer_ip \<Rightarrow> u16 \<Rightarrow> 'c supervisor \<Rightarrow> 'c supervisor" where
  "handle_new_connection conn_id link peer local_port s =
     (let target_game = (case sp_port_to_game s local_port of Some h \<Rightarrow> Some h | None \<Rightarrow> sp_current_game s);
          external_ip = (case peer of IPv4 octets \<Rightarrow> octets | IPv6 \<Rightarrow> [127, 0, 0, 1])
      in case target_game of
           Some h \<Rightarrow>
             emit [To_Game h (NewConn conn_id link external_ip)] (s\<lparr>sp_conn_to_game := (sp_conn_to_game s)(conn_id \<mapsto> h)\<rparr>)
         | None \<Rightarrow> s)"

definition handle_reconnect_connection :: "u64 \<Rightarrow> 'c supervisor \<Rightarrow> 'c supervisor" where
  "handle_reconnect_connection conn_id s =
     (let candidate_games = map ag_handle (sp_games s);
          candidate_games =
            (if candidate_games = [] then (case sp_current_game s of Some h \<Rightarrow> [h] | None \<Rightarrow> []) else candidate_games)
      in if candidate_games = [] then s else emit [Spawn_Adoption conn_id candidate_games] s)"

text \<open>
  The task that reads the request of a reconnecting client. The argument of \<open>read_request\<close> are the results of its reads,
  which end when the time is up; an empty read means that the peer has closed the connection.
\<close>

fun read_request :: "bytes \<Rightarrow> bytes list \<Rightarrow> bytes option" where
  "read_request buf reads =
     (if 13 \<le> length buf then Some buf
      else case reads of
             [] \<Rightarrow> None
           | r # rs \<Rightarrow> if r = [] then None else read_request (buf @ r) rs)"

declare read_request.simps [simp del]

definition find_request :: "bytes \<Rightarrow> nat option" where
  "find_request buf =
     find (\<lambda>i. buf ! i = GPS_HEADER \<and> buf ! (i + 1) = GPS_RECONNECT) [0..<Suc (length buf - 13)]"

definition adoption_request :: "bytes list \<Rightarrow> reconnect_req option" where
  "adoption_request reads =
     Option.bind (read_request [] reads) (\<lambda>buf.
     Option.bind (find_request buf) (\<lambda>p.
     case decode_reconnect (take 9 (drop (p + 4) buf)) of Inr req \<Rightarrow> Some req | Inl _ \<Rightarrow> None))"

text \<open>
  The games are asked one after the other. The result holds the commands sent, the game that took the player, and what is
  sent to the client when there is none.
\<close>

fun adopt ::
    "(handle \<Rightarrow> bool) \<Rightarrow> u64 \<Rightarrow> reconnect_req \<Rightarrow> 'c \<Rightarrow> handle list \<Rightarrow> 'c effect list \<times> handle option \<times> bytes option" where
  "adopt answer conn_id req link [] = ([], None, Some (gps_reject NOT_FOUND))"
| "adopt answer conn_id req link (h # hs) =
     (let cmd = To_Game h (AdoptReconnect conn_id (rr_pid req) (rr_reconnect_key req) (rr_last_packet req) link)
      in if answer h then ([cmd], Some h, None)
         else let (cmds, r) = adopt answer conn_id req link hs in (cmd # cmds, r))"

text \<open>\<^verbatim>\<open>GameCmd::Conn\<close>, as the two commands of the actor.\<close>

definition conn_cmd :: "(close_reason \<Rightarrow> bytes) \<Rightarrow> conn_event \<Rightarrow> 'c game_cmd" where
  "conn_cmd show_reason ev =
     (case ev_kind ev of
        EvFrame f \<Rightarrow> ConnFrame (ev_conn_id ev) f
      | EvClosed reason \<Rightarrow> ConnClosed (ev_conn_id ev) (show_reason reason))"

definition sup_conn_event :: "'s sup_env \<Rightarrow> conn_event \<Rightarrow> 'c supervisor \<Rightarrow> 'c supervisor" where
  "sup_conn_event env ev s =
     (case sp_conn_to_game s (ev_conn_id ev) of
        Some h \<Rightarrow> emit [To_Game h (conn_cmd (se_show_reason env) ev)] s
      | None \<Rightarrow> s)"

section \<open>Timers and events\<close>

definition lan_packet :: "config \<Rightarrow> u32 \<Rightarrow> lobby_advert \<Rightarrow> 'c effect list" where
  "lan_packet c uptime adv =
     (case game_info (bot_tft (cf_bot c)) (bc_war3_version (cf_bnet c)) (la_host_counter adv) (la_entry_key adv)
         (la_game_name adv) (la_stat_string adv) (la_slots_total adv) (la_map_game_type adv) (la_slots_open adv) uptime
         (la_port adv) of
        Inr pkt \<Rightarrow> [Udp pkt]
      | Inl _ \<Rightarrow> [])"

definition uptime_of :: "nat \<Rightarrow> nat \<Rightarrow> u32" where
  "uptime_of now t = of_nat (as_secs (elapsed now t))"

definition broadcast_lan_game :: "nat \<Rightarrow> 'c supervisor \<Rightarrow> 'c supervisor" where
  "broadcast_lan_game now s =
     (if sp_udp s
      then emit (concat (map (\<lambda>g. case ag_advert g of
                     Some adv \<Rightarrow> if ag_in_lobby g then lan_packet (sp_cfg s) (uptime_of now (ag_created_at g)) adv else []
                   | None \<Rightarrow> []) (sp_games s))
                 @ (case sp_current_game_advert s of
                      Some adv \<Rightarrow>
                        if sp_games s = []
                        then lan_packet (sp_cfg s)
                               (case sp_current_game_created_at s of Some t \<Rightarrow> uptime_of now t | None \<Rightarrow> 0) adv
                        else []
                    | None \<Rightarrow> [])) s
      else s)"

definition handle_bnet_event :: "'s sup_env \<Rightarrow> inputs \<Rightarrow> bnet_event \<Rightarrow> 'c supervisor \<Rightarrow> 'c supervisor option" where
  "handle_bnet_event env inp ev s =
     (case ev of
        LoggedIn \<Rightarrow> Some (emit [say (str ''/motd''), say (str ''/who'')] s)
      | ChatMessage user text \<Rightarrow> handle_chat_command env inp user text s
      | Whisper user text \<Rightarrow> handle_chat_command env inp user text s
      | _ \<Rightarrow> Some s)"

definition set_slots :: "u32 \<Rightarrow> u32 \<Rightarrow> lobby_advert \<Rightarrow> lobby_advert" where
  "set_slots slots_open slots_total adv = adv\<lparr>la_slots_open := slots_open, la_slots_total := slots_total\<rparr>"

definition sup_lobby_status :: "u32 \<Rightarrow> u32 \<Rightarrow> u32 \<Rightarrow> u32 \<Rightarrow> 'c supervisor \<Rightarrow> 'c supervisor" where
  "sup_lobby_status host_counter slots_open slots_total human_players s =
     (let s = (case position (\<lambda>g. ag_host_counter g = host_counter) (sp_games s) of
                 Some i \<Rightarrow>
                   s\<lparr>sp_games := (sp_games s)[i := (sp_games s ! i)
                      \<lparr>ag_advert := map_option (set_slots slots_open slots_total) (ag_advert (sp_games s ! i))\<rparr>]\<rparr>
               | None \<Rightarrow> s);
          s = s\<lparr>sp_current_game_advert := map_option (\<lambda>adv. if la_host_counter adv = host_counter
                  then set_slots slots_open slots_total adv else adv) (sp_current_game_advert s)\<rparr>
      in emit [To_Bnet (RefreshGame human_players slots_open)] s)"

definition free_ports_of :: "u16 list \<Rightarrow> 'c supervisor \<Rightarrow> 'c supervisor" where
  "free_ports_of ports s =
     fold (\<lambda>p s. (release_port p s)\<lparr>sp_port_to_game := (sp_port_to_game s)(p := None)\<rparr>) ports s"

definition next_current :: "'c supervisor \<Rightarrow> 'c supervisor" where
  "next_current s =
     (let g = (if sp_games s = [] then None else Some (last (sp_games s)))
      in s\<lparr>sp_current_game := map_option ag_handle g, sp_current_game_name := map_option ag_name g,
           sp_current_game_advert := Option.bind g ag_advert, sp_current_game_created_at := map_option ag_created_at g\<rparr>)"

definition drop_closed :: "(handle \<Rightarrow> bool) \<Rightarrow> 'c supervisor \<Rightarrow> 'c supervisor" where
  "drop_closed is_closed s =
     (let freed_ports = map ag_port (filter (\<lambda>g. is_closed (ag_handle g)) (sp_games s));
          s = s\<lparr>sp_games := filter (\<lambda>g. \<not> is_closed (ag_handle g)) (sp_games s)\<rparr>;
          s = free_ports_of freed_ports s
      in s\<lparr>sp_conn_to_game := (\<lambda>c. case sp_conn_to_game s c of
              Some h \<Rightarrow> if is_closed h then None else Some h | None \<Rightarrow> None)\<rparr>)"

definition clean_finished_games :: "(handle \<Rightarrow> bool) \<Rightarrow> 'c supervisor \<Rightarrow> 'c supervisor" where
  "clean_finished_games is_closed s =
     (let s = drop_closed is_closed s
      in case sp_current_game s of
           Some h \<Rightarrow>
             if is_closed h
             then emit (if sp_games s = [] then [To_Bnet UnhostGame] else []) (next_current s)
             else s
         | None \<Rightarrow> s)"

definition shutdown_all :: "'c supervisor \<Rightarrow> 'c supervisor" where
  "shutdown_all s =
     emit (To_Bnet bnet_cmd.Shutdown # map (\<lambda>g. To_Game (ag_handle g) game_cmd.Shutdown) (sp_games s)
           @ (case sp_current_game s of Some h \<Rightarrow> [To_Game h game_cmd.Shutdown] | None \<Rightarrow> [])) s"

section \<open>The event loop\<close>

text \<open>The events of the loop. The timer of the cleanup carries the handles whose actors have ended.\<close>

datatype 'c sup_event =
    Ctrl_C
  | Lan_Timer nat
  | Cleanup_Timer "handle list"
  | New_Connection u64 'c peer_ip u16
  | Reconnect_Connection u64
  | Reconnect_Adopted u64 handle
  | Conn_Event conn_event
  | Bnet_Event inputs bnet_event
  | Game_Event game_event

fun sup_step :: "'s sup_env \<Rightarrow> 'c sup_event \<Rightarrow> 'c supervisor \<Rightarrow> 'c supervisor option" where
  "sup_step env Ctrl_C s = Some (shutdown_all s)"
| "sup_step env (Lan_Timer now) s = Some (broadcast_lan_game now s)"
| "sup_step env (Cleanup_Timer closed) s = Some (clean_finished_games (\<lambda>h. h \<in> set closed) s)"
| "sup_step env (New_Connection conn_id link peer port) s = Some (handle_new_connection conn_id link peer port s)"
| "sup_step env (Reconnect_Connection conn_id) s = Some (handle_reconnect_connection conn_id s)"
| "sup_step env (Reconnect_Adopted conn_id h) s = Some (s\<lparr>sp_conn_to_game := (sp_conn_to_game s)(conn_id \<mapsto> h)\<rparr>)"
| "sup_step env (Conn_Event ev) s = Some (sup_conn_event env ev s)"
| "sup_step env (Bnet_Event inp ev) s = handle_bnet_event env inp ev s"
| "sup_step env (Game_Event (LobbyStatus hc slots_open slots_total players)) s = Some (sup_lobby_status hc slots_open slots_total players s)"

text \<open>The loop on a sequence of events; it ends early on an interrupt or when an administrator has asked for it.\<close>

fun event_loop :: "'s sup_env \<Rightarrow> 'c sup_event list \<Rightarrow> 'c supervisor \<Rightarrow> 'c supervisor option" where
  "event_loop env [] s = Some (if sp_shutdown_requested s then shutdown_all s else s)"
| "event_loop env (ev # es) s =
     (if sp_shutdown_requested s then Some (shutdown_all s)
      else case ev of
             Ctrl_C \<Rightarrow> Some (shutdown_all s)
           | _ \<Rightarrow> Option.bind (sup_step env ev s) (event_loop env es))"

definition start_timer :: "nat option \<Rightarrow> 'c supervisor \<Rightarrow> 'c supervisor" where
  "start_timer start_after s =
     (case (start_after, sp_current_game s) of
        (Some t, Some h) \<Rightarrow> emit [Start_After t h] s
      | _ \<Rightarrow> s)"

text \<open>The state in which \<^verbatim>\<open>run\<close> enters the loop; the inputs of the games hosted from the start go with their names.\<close>

definition sup_new :: "config \<Rightarrow> bool \<Rightarrow> 'c supervisor" where
  "sup_new cfg udp_ok =
     \<lparr>sp_cfg = cfg, sp_current_game = None, sp_current_game_name = None, sp_current_game_advert = None, sp_games = [],
      sp_allocated_ports = {}, sp_port_to_game = Map.empty, sp_active_listeners = {bot_host_port (cf_bot cfg)},
      sp_conn_to_game = Map.empty, sp_udp = udp_ok, sp_relay = sc_enabled (cf_spectator cfg), sp_selected_map_file = None,
      sp_host_counter = 1, sp_current_game_created_at = None, sp_shutdown_requested = False, sp_spawned = 0,
      sp_out = [Spawn_Listener (bot_host_port (cf_bot cfg))]
        @ (if bot_gproxy_reconnect_port (cf_bot cfg) \<noteq> 0
           then [Spawn_Reconnect_Listener (bot_gproxy_reconnect_port (cf_bot cfg))] else [])
        @ (if sc_enabled (cf_spectator cfg) then [Spawn_Relay] else [])\<rparr>"

fun host_on_start ::
    "'s sup_env \<Rightarrow> bool \<Rightarrow> (bytes \<times> inputs) list \<Rightarrow> 'c supervisor \<Rightarrow> 'c supervisor option" where
  "host_on_start env fake_player [] s = Some s"
| "host_on_start env fake_player ((name, inp) # names) s =
     Option.bind (sup_create_game env inp name (bc_username (cf_bnet (sp_cfg s))) VisPublic s) (\<lambda>s.
     host_on_start env fake_player names
       (case sp_current_game s of
          Some h \<Rightarrow> if fake_player then emit [To_Game h ToggleFakePlayer] s else s
        | None \<Rightarrow> s))"

definition sup_start ::
    "'s sup_env \<Rightarrow> config \<Rightarrow> bool \<Rightarrow> bool \<Rightarrow> (bytes \<times> inputs) list \<Rightarrow> nat option \<Rightarrow> bool
     \<Rightarrow> (bytes + 'c supervisor) option" where
  "sup_start env cfg store_ok udp_ok names start_after fake_player =
     (let bt = cf_bot cfg; reconnect_port = bot_gproxy_reconnect_port bt
      in if \<not> store_ok then Some (Inl (str ''failed to open SQLite database''))
         else if \<not> se_addr_ok env (bot_bind_address bt) (bot_host_port bt)
         then Some (Inl (str ''invalid bot bind address/port''))
         else if reconnect_port \<noteq> 0 \<and> \<not> se_addr_ok env (bot_bind_address bt) reconnect_port
         then Some (Inl (str ''invalid bot gproxy reconnect address/port''))
         else map_option (\<lambda>s. Inr (start_timer start_after s))
                (host_on_start env fake_player names (sup_new cfg udp_ok)))"

end
