(* ===== verification/Hosting.thy ===== *)
theory Hosting
  imports Supervisor
begin

text \<open>
  What the supervisor promises: the ports of the pool are given to one game at a time and lead to it, every game is
  created in a state that its actor keeps sound, nothing that arrives makes the supervisor panic, and what a connection
  sends reaches its game in order.
\<close>

section \<open>Reachable states\<close>

inductive sup_reach :: "'s sup_env \<Rightarrow> config \<Rightarrow> 'c supervisor \<Rightarrow> bool" for env :: "'s sup_env" and cfg :: config where
  start: "sup_start env cfg store_ok udp_ok names start_after fake_player = Some (Inr s) \<Longrightarrow> sup_reach env cfg s"
| step: "sup_reach env cfg s \<Longrightarrow> sup_step env ev s = Some s' \<Longrightarrow> sup_reach env cfg s'"

lemma sup_reach_loop: "sup_reach env cfg s \<Longrightarrow> event_loop env es s = Some s' \<Longrightarrow> sup_reach env cfg s'"
proof (induction es arbitrary: s)
  case Nil
  then show ?case using sup_reach.step [of env cfg s Ctrl_C] by (auto split: if_splits)
next
  case (Cons ev es)
  have stop: "sup_reach env cfg (shutdown_all s)" using sup_reach.step [OF Cons.prems(1), of Ctrl_C] by simp
  show ?case
  proof (cases "sp_shutdown_requested s \<or> ev = Ctrl_C")
    case True
    then show ?thesis using Cons.prems stop by (auto split: if_splits)
  next
    case False
    then have "Option.bind (sup_step env ev s) (event_loop env es) = Some s'" using Cons.prems(2) by (cases ev) auto
    then show ?thesis using Cons.IH sup_reach.step [OF Cons.prems(1)] by (auto simp: bind_eq_Some_conv)
  qed
qed

section \<open>The table of ports\<close>

text \<open>The pairs of port and handle of the active games, against the ports taken and the table of ports.\<close>

definition ports_ok :: "u16 list \<Rightarrow> (u16 \<times> handle) list \<Rightarrow> u16 set \<Rightarrow> (u16 \<rightharpoonup> handle) \<Rightarrow> nat \<Rightarrow> bool" where
  "ports_ok pool ps taken pm n \<longleftrightarrow>
     distinct (map fst ps) \<and> taken = fst ` set ps \<and> taken \<subseteq> set pool \<and> pm = map_of ps
     \<and> distinct (map snd ps) \<and> (\<forall>h \<in> snd ` set ps. h < n)"

lemma ports_ok_empty: "ports_ok pool [] {} Map.empty n"
  by (simp add: ports_ok_def)

lemma ports_ok_add:
  assumes "ports_ok pool ps taken pm n" "p \<notin> taken" "p \<in> set pool"
  shows "ports_ok pool (ps @ [(p, n)]) (insert p taken) (pm(p \<mapsto> n)) (Suc n)"
proof -
  have "map_of ps p = None" using assms by (auto simp: ports_ok_def map_of_eq_None_iff)
  then have "map_of (ps @ [(p, n)]) = (map_of ps)(p \<mapsto> n)" by (auto simp: map_add_def fun_eq_iff split: option.split)
  then show ?thesis using assms by (auto simp: ports_ok_def intro: less_SucI)
qed

lemma ports_ok_filter:
  assumes "ports_ok pool ps taken pm n" and "gone = fst ` {x \<in> set ps. \<not> P x}"
  shows "ports_ok pool (filter P ps) (taken - gone) (pm |` (- gone)) n"
proof -
  have d: "distinct (map fst ps)" using assms by (simp add: ports_ok_def)
  have "map_of (filter P ps) p = (if p \<in> gone then None else map_of ps p)" for p
  proof (cases "map_of (filter P ps) p")
    case None
    then have "\<forall>h. (p, h) \<in> set ps \<longrightarrow> \<not> P (p, h)" by (auto simp: map_of_eq_None_iff image_iff)
    then show ?thesis using assms(2) None by (cases "map_of ps p") (auto dest!: map_of_SomeD simp: image_iff)
  next
    case (Some h)
    then have h: "(p, h) \<in> set ps" "P (p, h)" by (auto dest: map_of_SomeD)
    then have "p \<notin> gone" using assms(2) d eq_key_imp_eq_value by fastforce
    then show ?thesis using Some h d by (simp add: map_of_eq_Some_iff)
  qed
  moreover have "fst ` set (filter P ps) = taken - gone"
    using assms d by (auto simp: ports_ok_def image_iff) (metis eq_key_imp_eq_value)
  moreover have "distinct (map fst (filter P ps))" "distinct (map snd (filter P ps))"
    using assms by (auto simp: ports_ok_def distinct_map_filter)
  ultimately show ?thesis using assms by (auto simp: ports_ok_def fun_eq_iff restrict_map_def)
qed

lemma remove_nth_filter:
  assumes "distinct (map f xs)" "i < length xs"
  shows "take i xs @ drop (Suc i) xs = filter (\<lambda>x. f x \<noteq> f (xs ! i)) xs"
proof -
  let ?P = "\<lambda>x. f x \<noteq> f (xs ! i)"
  have j: "f (xs ! j) = f (xs ! i) \<longleftrightarrow> j = i" if "j < length xs" for j
    using assms that nth_eq_iff_index_eq [of "map f xs" j i] by simp
  have "filter ?P (take i xs) = take i xs" "filter ?P (drop (Suc i) xs) = drop (Suc i) xs"
    using assms(2) j by (auto simp: filter_id_conv in_set_conv_nth)
  moreover have "filter ?P xs = filter ?P (take i xs) @ filter ?P (drop (Suc i) xs)"
    using assms(2) by (subst id_take_nth_drop [OF assms(2)]) simp
  ultimately show ?thesis by simp
qed

definition games_ok :: "'c supervisor \<Rightarrow> bool" where
  "games_ok s \<longleftrightarrow>
     ports_ok (port_pool (cf_bot (sp_cfg s))) (map (\<lambda>g. (ag_port g, ag_handle g)) (sp_games s)) (sp_allocated_ports s)
       (sp_port_to_game s) (sp_spawned s)
     \<and> list_all ag_in_lobby (sp_games s)"

text \<open>Most operations leave the games alone.\<close>

lemma games_ok_update [simp]:
  "games_ok (s\<lparr>sp_out := es\<rparr>) = games_ok s"
  "games_ok (s\<lparr>sp_conn_to_game := cm\<rparr>) = games_ok s"
  "games_ok (s\<lparr>sp_selected_map_file := f\<rparr>) = games_ok s"
  "games_ok (s\<lparr>sp_shutdown_requested := b\<rparr>) = games_ok s"
  "games_ok (s\<lparr>sp_current_game := h, sp_current_game_name := nm, sp_current_game_advert := ad,
     sp_current_game_created_at := t\<rparr>) = games_ok s"
  by (simp_all add: games_ok_def)

lemma allocate_port_SomeD:
  assumes "allocate_port s = (Some p, s')"
  shows "p \<notin> sp_allocated_ports s" "p \<in> set (port_pool (cf_bot (sp_cfg s)))"
    "s' = s\<lparr>sp_allocated_ports := insert p (sp_allocated_ports s)\<rparr>"
  using assms by (auto simp: allocate_port_def find_Some_iff in_set_conv_nth split: option.splits)

lemma allocate_port_None: "allocate_port s = (None, s') \<longleftrightarrow> s' = s \<and> set (port_pool (cf_bot (sp_cfg s))) \<subseteq> sp_allocated_ports s"
  by (auto simp: allocate_port_def find_None_iff find_Some_iff subset_iff split: option.splits) (metis nth_mem)

lemma spawn_hosted_games:
  "sp_cfg (spawn_hosted env inp name ow cs vis mi gt sl hc port s) = sp_cfg s"
  "sp_allocated_ports (spawn_hosted env inp name ow cs vis mi gt sl hc port s) = sp_allocated_ports s"
  "sp_port_to_game (spawn_hosted env inp name ow cs vis mi gt sl hc port s) = (sp_port_to_game s)(port \<mapsto> sp_spawned s)"
  "sp_spawned (spawn_hosted env inp name ow cs vis mi gt sl hc port s) = Suc (sp_spawned s)"
  "map (\<lambda>g. (ag_port g, ag_handle g)) (sp_games (spawn_hosted env inp name ow cs vis mi gt sl hc port s))
     = map (\<lambda>g. (ag_port g, ag_handle g)) (sp_games s) @ [(port, sp_spawned s)]"
  "list_all ag_in_lobby (sp_games (spawn_hosted env inp name ow cs vis mi gt sl hc port s))
     \<longleftrightarrow> list_all ag_in_lobby (sp_games s)"
  by (simp_all add: spawn_hosted_def Let_def register_game_def open_tv_def open_listener_def)

lemma create_game_ok:
  assumes "create_game_with_creator env inp name ow cs vis s = Some s'" "games_ok s"
  shows "games_ok s'" "sp_cfg s' = sp_cfg s"
proof -
  obtain mi gt sl where *: "s' = (case allocate_port (s\<lparr>sp_host_counter := sp_host_counter s + 1\<rparr>) of
      (None, s) \<Rightarrow> s
    | (Some port, s1) \<Rightarrow> spawn_hosted env inp name ow cs vis mi gt sl (sp_host_counter s AND 0x0FFFFFFF) port s1)"
    using assms(1) by (auto simp: create_game_with_creator_def Let_def)
  have "games_ok s' \<and> sp_cfg s' = sp_cfg s"
  proof (cases "allocate_port (s\<lparr>sp_host_counter := sp_host_counter s + 1\<rparr>)")
    case (Pair r s1)
    show ?thesis
    proof (cases r)
      case None
      then show ?thesis using * Pair assms(2) by (auto simp: allocate_port_None games_ok_def)
    next
      case (Some p)
      note p = allocate_port_SomeD [OF Pair [unfolded Some]]
      then show ?thesis using * Pair Some assms(2) by (simp add: games_ok_def spawn_hosted_games ports_ok_add)
    qed
  qed
  then show "games_ok s'" "sp_cfg s' = sp_cfg s" by simp_all
qed

lemma games_filter_ok:
  assumes "games_ok s" and "sp_cfg s' = sp_cfg s" "sp_spawned s' = sp_spawned s" "sp_games s' = filter P (sp_games s)"
    and "gone = ag_port ` {g \<in> set (sp_games s). \<not> P g}" and "sp_allocated_ports s' = sp_allocated_ports s - gone"
    and "sp_port_to_game s' = sp_port_to_game s |` (- gone)"
    and "\<And>g. P g = Q (ag_port g, ag_handle g)"
  shows "games_ok s'"
proof -
  let ?f = "\<lambda>g. (ag_port g, ag_handle g)"
  have "map ?f (filter P (sp_games s)) = filter Q (map ?f (sp_games s))"
    by (simp add: filter_map comp_def assms(8) [symmetric])
  moreover have "gone = fst ` {x \<in> set (map ?f (sp_games s)). \<not> Q x}" using assms(5,8) by force
  ultimately show ?thesis using assms ports_ok_filter [of _ "map ?f (sp_games s)" _ _ _ gone Q]
    by (auto simp: games_ok_def list_all_iff)
qed

lemma remove_game_ok:
  assumes "games_ok s" "i < length (sp_games s)"
  shows "games_ok (remove_game user i s)" "sp_cfg (remove_game user i s) = sp_cfg s"
proof -
  let ?g = "sp_games s ! i"
  have d: "distinct (map ag_port (sp_games s))" using assms(1) by (simp add: games_ok_def ports_ok_def comp_def)
  show "sp_cfg (remove_game user i s) = sp_cfg s" by (simp add: remove_game_def Let_def release_port_def)
  have gone: "{ag_port ?g} = ag_port ` {g \<in> set (sp_games s). \<not> ag_port g \<noteq> ag_port ?g}"
    using nth_mem [OF assms(2)] by (auto simp: image_iff)
  show "games_ok (remove_game user i s)"
    by (rule games_filter_ok [OF assms(1) _ _ _ gone, where Q = "\<lambda>x. fst x \<noteq> ag_port ?g"])
       (simp_all add: remove_game_def Let_def release_port_def remove_nth_filter [OF d assms(2)] restrict_complement_singleton_eq)
qed

lemma free_ports_of_simps:
  "sp_allocated_ports (free_ports_of ps s) = sp_allocated_ports s - set ps"
  "sp_port_to_game (free_ports_of ps s) = sp_port_to_game s |` (- set ps)"
  "sp_cfg (free_ports_of ps s) = sp_cfg s" "sp_spawned (free_ports_of ps s) = sp_spawned s"
  "sp_games (free_ports_of ps s) = sp_games s" "sp_current_game (free_ports_of ps s) = sp_current_game s"
  "sp_conn_to_game (free_ports_of ps s) = sp_conn_to_game s" "sp_out (free_ports_of ps s) = sp_out s"
  "sp_shutdown_requested (free_ports_of ps s) = sp_shutdown_requested s"
  unfolding free_ports_of_def by (induction ps arbitrary: s) (auto simp: release_port_def fun_eq_iff restrict_map_def)

lemma drop_closed_simps:
  "sp_cfg (drop_closed closed s) = sp_cfg s" "sp_spawned (drop_closed closed s) = sp_spawned s"
  "sp_out (drop_closed closed s) = sp_out s" "sp_shutdown_requested (drop_closed closed s) = sp_shutdown_requested s"
  "sp_games (drop_closed closed s) = filter (\<lambda>g. \<not> closed (ag_handle g)) (sp_games s)"
  "sp_conn_to_game (drop_closed closed s) =
     (\<lambda>c. case sp_conn_to_game s c of Some h \<Rightarrow> if closed h then None else Some h | None \<Rightarrow> None)"
  by (simp_all add: drop_closed_def Let_def free_ports_of_simps)

lemma clean_simps:
  "sp_conn_to_game (clean_finished_games closed s) = sp_conn_to_game (drop_closed closed s)"
  "sp_out (clean_finished_games closed s) = sp_out s \<or> sp_out (clean_finished_games closed s) = sp_out s @ [To_Bnet UnhostGame]"
  by (simp_all add: clean_finished_games_def Let_def next_current_def drop_closed_simps split: option.split)

lemma drop_closed_ok:
  assumes "games_ok s" shows "games_ok (drop_closed closed s)"
  by (rule games_filter_ok [OF assms drop_closed_simps(1,2,5) refl, where Q = "\<lambda>x. \<not> closed (snd x)"])
     (simp_all add: drop_closed_def Let_def free_ports_of_simps)

lemma clean_ok:
  assumes "games_ok s"
  shows "games_ok (clean_finished_games closed s)" "sp_cfg (clean_finished_games closed s) = sp_cfg s"
  using drop_closed_ok [OF assms]
  by (simp_all add: clean_finished_games_def Let_def next_current_def drop_closed_simps split: option.split)

lemma lobby_status_ok:
  assumes "games_ok s" shows "games_ok (sup_lobby_status hc so st pl s)" "sp_cfg (sup_lobby_status hc so st pl s) = sp_cfg s"
proof -
  let ?f = "\<lambda>g. (ag_port g, ag_handle g)"
  have ports: "map ?f (xs[i := (xs ! i)\<lparr>ag_advert := a\<rparr>]) = map ?f xs" for xs :: "active_game list" and i a
    by (cases "i < length xs") (simp_all add: map_update list_update_same_conv list_update_beyond)
  have lobbies: "list_all ag_in_lobby (xs[i := (xs ! i)\<lparr>ag_advert := a\<rparr>])" if "list_all ag_in_lobby xs"
    for xs :: "active_game list" and i a
    using that by (cases "i < length xs") (auto simp: list_all_iff list_update_beyond dest!: set_update_subset_insert [THEN subsetD])
  show "sp_cfg (sup_lobby_status hc so st pl s) = sp_cfg s" by (simp add: sup_lobby_status_def Let_def split: option.split)
  show "games_ok (sup_lobby_status hc so st pl s)"
    using assms by (simp add: sup_lobby_status_def Let_def games_ok_def ports lobbies split: option.split)
qed

lemma cmd_unhost_ok:
  assumes "games_ok s" shows "games_ok (cmd_unhost user name s) \<and> sp_cfg (cmd_unhost user name s) = sp_cfg s"
proof -
  note pos = position_SomeD [where xs = "sp_games s", THEN conjunct1]
  show ?thesis unfolding cmd_unhost_def
    using assms by (auto simp: remove_game_ok dest!: pos split: option.split)
qed

lemma cmd_host_ok:
  "cmd_host env inp user verb name s = Some s' \<Longrightarrow> games_ok s \<Longrightarrow> games_ok s' \<and> sp_cfg s' = sp_cfg s"
  by (auto simp: cmd_host_def sup_create_game_def Let_def create_game_ok split: if_splits)

lemma cmd_host_by_ok:
  "cmd_host_by env inp user verb args s = Some s' \<Longrightarrow> games_ok s \<Longrightarrow> games_ok s' \<and> sp_cfg s' = sp_cfg s"
  by (auto simp: cmd_host_by_def Let_def create_game_ok split: if_splits list.splits)

lemma run_verb_ok:
  assumes "run_verb env inp user verb args s = Some s'" "games_ok s" shows "games_ok s' \<and> sp_cfg s' = sp_cfg s"
  using assms unfolding run_verb_def Let_def
  by (auto simp: cmd_map_def cmd_unhost_ok split: if_splits dest: cmd_host_ok cmd_host_by_ok)

lemma chat_ok:
  assumes "handle_chat_command env inp user text s = Some s'" "games_ok s" shows "games_ok s' \<and> sp_cfg s' = sp_cfg s"
  using assms unfolding handle_chat_command_def Let_def
  by (auto split: if_splits option.splits list.splits dest: run_verb_ok)

lemmas quiet_defs = broadcast_lan_game_def handle_new_connection_def handle_reconnect_connection_def sup_conn_event_def
  shutdown_all_def Let_def

lemma sup_step_ok:
  assumes "sup_step env ev s = Some s'" "games_ok s" shows "games_ok s' \<and> sp_cfg s' = sp_cfg s"
proof (cases ev)
  case (Bnet_Event inp e)
  then show ?thesis using assms by (cases e) (auto simp: handle_bnet_event_def dest: chat_ok)
next
  case (Game_Event e)
  then show ?thesis using assms lobby_status_ok by (cases e) auto
qed (use assms clean_ok in \<open>auto simp: quiet_defs split: option.splits\<close>)

lemma start_ok:
  assumes "sup_start env cfg store_ok udp_ok names start_after fake_player = Some (Inr s)"
  shows "games_ok s \<and> sp_cfg s = cfg"
proof -
  have loop: "games_ok s2 \<and> sp_cfg s2 = cfg"
    if "host_on_start env fake_player names s1 = Some s2" "games_ok s1" "sp_cfg s1 = cfg" for s1 s2 :: "'a supervisor"
    using that
  proof (induction names arbitrary: s1)
    case (Cons x names)
    obtain name inp where "x = (name, inp)" by (cases x)
    then show ?case using Cons
      by (fastforce simp: bind_eq_Some_conv sup_create_game_def dest: create_game_ok split: option.splits if_splits)
  qed simp
  have "games_ok (sup_new cfg udp_ok)" by (simp add: games_ok_def sup_new_def ports_ok_empty)
  moreover obtain s1 where s1: "host_on_start env fake_player names (sup_new cfg udp_ok) = Some s1"
    and s: "s = start_timer start_after s1"
    using assms unfolding sup_start_def Let_def by (simp split: if_splits) blast
  moreover have "sp_cfg (sup_new cfg udp_ok) = cfg" by (simp add: sup_new_def)
  ultimately have "games_ok s1 \<and> sp_cfg s1 = cfg" using loop by blast
  then show ?thesis unfolding s start_timer_def by (simp split: option.split)
qed

lemma reach_ok: "sup_reach env cfg s \<Longrightarrow> games_ok s \<and> sp_cfg s = cfg"
  by (induction rule: sup_reach.induct) (auto dest: start_ok sup_step_ok)

lemma port_pool_bounds:
  assumes "p \<in> set (port_pool bt)" shows "fst (port_pool_range bt) \<le> p" "p \<le> snd (port_pool_range bt)"
proof -
  obtain n where n: "p = of_nat n" "unat (fst (port_pool_range bt)) \<le> n" "n \<le> unat (snd (port_pool_range bt))"
    using assms by (auto simp: port_pool_def case_prod_beta)
  moreover have "unat (snd (port_pool_range bt)) < 65536" using unsigned_less [of "snd (port_pool_range bt)"] by simp
  ultimately have "n < 65536" by simp
  then have "unat p = n" using n(1) by (simp add: unat_of_nat)
  then show "fst (port_pool_range bt) \<le> p" "p \<le> snd (port_pool_range bt)" using n by (simp_all add: word_le_nat_alt)
qed

text \<open>
  C15. In every state the supervisor reaches, whatever arrives, no two active games share a port or a handle, every port
  lies in the configured range, the ports taken are exactly those of the active games, and a connection to the port of a
  game is given to that game.
\<close>

theorem ports_lead_to_games:
  assumes "sup_reach env cfg s"
  shows "distinct (map ag_port (sp_games s)) \<and> distinct (map ag_handle (sp_games s))
    \<and> sp_allocated_ports s = ag_port ` set (sp_games s)
    \<and> (\<forall>g \<in> set (sp_games s).
         fst (port_pool_range (cf_bot cfg)) \<le> ag_port g \<and> ag_port g \<le> snd (port_pool_range (cf_bot cfg))
         \<and> sp_out (handle_new_connection conn_id link peer (ag_port g) s)
             = sp_out s @ [To_Game (ag_handle g) (NewConn conn_id link (case peer of IPv4 ip \<Rightarrow> ip | IPv6 \<Rightarrow> [127, 0, 0, 1]))])"
proof -
  let ?f = "\<lambda>g. (ag_port g, ag_handle g)"
  have ok: "ports_ok (port_pool (cf_bot cfg)) (map ?f (sp_games s)) (sp_allocated_ports s) (sp_port_to_game s) (sp_spawned s)"
    using reach_ok [OF assms] by (auto simp: games_ok_def)
  then have d: "distinct (map ag_port (sp_games s))" "distinct (map ag_handle (sp_games s))"
    "sp_allocated_ports s = ag_port ` set (sp_games s)"
    by (simp_all add: ports_ok_def comp_def image_image)
  have "sp_port_to_game s (ag_port g) = Some (ag_handle g) \<and> ag_port g \<in> set (port_pool (cf_bot cfg))"
    if "g \<in> set (sp_games s)" for g
    using ok that d(3) by (auto simp: ports_ok_def intro!: map_of_is_SomeI)
  then show ?thesis using d port_pool_bounds [of _ "cf_bot cfg"] by (simp add: handle_new_connection_def)
qed

text \<open>A game counts as a lobby for as long as it is listed, and the second port of a game is the first of its neighbour.\<close>

lemma always_in_lobby: "sup_reach env cfg s \<Longrightarrow> g \<in> set (sp_games s) \<Longrightarrow> ag_in_lobby g"
  by (auto dest!: reach_ok simp: games_ok_def list_all_iff)

lemma tv_ports_overlap: "tv_port_of cfg port + 1 = tv_port_of cfg (port + 1)"
  by (simp add: tv_port_of_def algebra_simps)

section \<open>The games that are created\<close>

text \<open>Overrides of maps that leave the slots alone; those of a configuration file do.\<close>

definition overrides_ok :: "config \<Rightarrow> bool" where
  "overrides_ok cfg \<longleftrightarrow>
     list_all (\<lambda>(k, ovr). ov_custom_slots ovr = None \<and> (case ov_max_slots ovr of Some n \<Rightarrow> n \<le> 255 | None \<Rightarrow> True)) (cf_maps cfg)"

lemma find_override_ok:
  assumes "overrides_ok cfg" "find_override cfg selected name = Some ovr"
  shows "ov_custom_slots ovr = None" "ov_max_slots ovr = Some n \<Longrightarrow> n \<le> 255"
proof -
  obtain k where "map_of (cf_maps cfg) k = Some ovr"
    using assms(2) by (auto simp: find_override_def Let_def bind_eq_Some_conv split: option.splits)
  then have "(k, ovr) \<in> set (cf_maps cfg)" by (rule map_of_SomeD)
  then show "ov_custom_slots ovr = None" "ov_max_slots ovr = Some n \<Longrightarrow> n \<le> 255"
    using assms(1) by (auto simp: overrides_ok_def list_all_iff)
qed

lemma load_first_ok:
  assumes "load_first env files cj bj ovr ps = Some (Some m)"
    and "Option.bind ovr ov_custom_slots = None" and "\<And>n. Option.bind ovr ov_max_slots = Some n \<Longrightarrow> n \<le> 255"
  shows "slots_inv (pm_slots m) \<and> seated (pm_slots m) = []"
  using assms(1)
proof (induction ps)
  case (Cons p ps)
  show ?case
  proof (cases "files p")
    case (Some data)
    then obtain r where r: "load_mpq_with_override (se_decoders env) (se_map_ops env) (path_file_name p) data cj bj ovr = Some r"
      using Cons.prems by (auto simp: bind_eq_Some_conv)
    then show ?thesis using Cons Some loaded_map_slots(3,4) [OF _ assms(2,3)] by (cases r) auto
  qed (use Cons in simp)
qed simp

lemma resolve_map_info_ok:
  assumes "resolve_map_info env inp cfg selected name = Some (mi, gt, sl)" "overrides_ok cfg"
  shows "config_ok (game_config_of cfg relay name ow cs hc mi sl stat port)"
proof -
  let ?ovr = "find_override cfg selected name"
  have ovr: "Option.bind ?ovr ov_custom_slots = None" "\<And>n. Option.bind ?ovr ov_max_slots = Some n \<Longrightarrow> n \<le> 255"
    using find_override_ok [OF assms(2)] by (auto simp: bind_eq_Some_conv split: Option.bind_splits)
  show ?thesis using assms(1)
    by (auto simp: resolve_map_info_def Let_def config_ok_def game_config_of_def fallback_info_def
        split: option.splits dest!: load_first_ok [OF _ ovr])
qed

lemma load_first_total:
  assumes "zlib_law (se_decoders env)" shows "\<exists>r. load_first env files cj bj ovr ps = Some r"
proof (induction ps)
  case (Cons p ps)
  show ?case
  proof (cases "files p")
    case (Some data)
    obtain r where "load_mpq_with_override (se_decoders env) (se_map_ops env) (path_file_name p) data cj bj ovr = Some r"
      using load_no_panic [OF assms] by blast
    then show ?thesis using Some Cons by (cases r) simp_all
  qed (use Cons in simp)
qed simp

section \<open>What a step emits\<close>

text \<open>
  All effects but the delivery of what connections send, with a condition on the games that are created. A step is calm_step when
  it adds only such effects, leaves the connections with their games and does not take back the request to stop.
\<close>

definition tame :: "(game_config \<Rightarrow> bool) \<Rightarrow> 'c effect \<Rightarrow> bool" where
  "tame P e =
     (case e of
        Spawn_Game h c \<Rightarrow> P c
      | To_Game h cmd \<Rightarrow> (case cmd of ConnFrame _ _ \<Rightarrow> False | ConnClosed _ _ \<Rightarrow> False | _ \<Rightarrow> True)
      | _ \<Rightarrow> True)"

lemma tame_simps [simp]:
  "tame P (Spawn_Game h c) = P c" "tame P (To_Bnet b)" "tame P (To_Store st)" "tame P (Query q)" "tame P (Spawn_Listener p)"
  "tame P (Spawn_Reconnect_Listener p)" "tame P Spawn_Relay" "tame P (Spawn_Tv p q')" "tame P (Spawn_Adoption conn hs)"
  "tame P (Start_After t h)" "tame P (Udp bs)" "tame P (say txt)" "tame P (whisper user txt)"
  "tame P (To_Game h CreateVirtualHost)" "tame P (To_Game h AttachDotaTv)" "tame P (To_Game h UnhostCmd)"
  "tame P (To_Game h StartCmd)" "tame P (To_Game h game_cmd.Shutdown)" "tame P (To_Game h ToggleFakePlayer)"
  "tame P (To_Game h (NewConn conn link ip))"
  by (simp_all add: tame_def say_def whisper_def)

definition calm_step :: "(game_config \<Rightarrow> bool) \<Rightarrow> 'c supervisor \<Rightarrow> 'c supervisor \<Rightarrow> bool" where
  "calm_step P s s' \<longleftrightarrow>
     (\<exists>es. sp_out s' = sp_out s @ es \<and> list_all (tame P) es) \<and> sp_conn_to_game s' = sp_conn_to_game s
     \<and> (sp_shutdown_requested s \<longrightarrow> sp_shutdown_requested s')"

lemma calm_refl [simp]: "calm_step P s s"
  by (simp add: calm_step_def)

lemma calm_trans: "calm_step P s s' \<Longrightarrow> calm_step P s' s'' \<Longrightarrow> calm_step P s s''"
  unfolding calm_step_def by fastforce

lemma calm_emit [simp]: "calm_step P s (emit es s) = list_all (tame P) es"
  by (simp add: calm_step_def)

lemma calm_then_emit: "calm_step P s s' \<Longrightarrow> list_all (tame P) es \<Longrightarrow> calm_step P s (emit es s')"
  using calm_trans [of P s s'] by simp

lemma calm_spawned:
  "calm_step P s s' \<Longrightarrow> Spawn_Game h c \<in> set (sp_out s') \<Longrightarrow> Spawn_Game h c \<in> set (sp_out s) \<or> P c"
  by (fastforce simp: calm_step_def list_all_iff)

lemma calm_spawn_hosted:
  assumes "\<And>stat. P (game_config_of (sp_cfg s) (sp_relay s) name ow cs hc mi sl stat port)"
  shows "calm_step P s (spawn_hosted env inp name ow cs vis mi gt sl hc port s)"
  using assms by (simp add: calm_step_def spawn_hosted_def Let_def open_listener_def open_tv_def register_game_def)

lemma tame_tables:
  assumes "(v, es) \<in> set (game_verbs s user args @ store_verbs user args @ clan_verbs user args @ fixed_replies user)"
  shows "list_all (tame P) es"
proof -
  have about: "list_all (tame P) (about args f)" if "\<And>t. list_all (tame P) (f t)" for f
    using that by (simp add: about_def split: list.split)
  have "list_all (tame P) es" if "(v, es) \<in> set (game_verbs s user args)"
    using that by (auto simp: game_verbs_def Let_def split: option.split)
  moreover have "list_all (tame P) es" if "(v, es) \<in> set (store_verbs user args)"
    using that by (auto simp: store_verbs_def Let_def intro!: about)
  moreover have "list_all (tame P) es" if "(v, es) \<in> set (clan_verbs user args)"
    using that by (auto simp: clan_verbs_def Let_def intro!: about)
  moreover have "list_all (tame P) es" if "(v, es) \<in> set (fixed_replies user)"
    using that by (auto simp: fixed_replies_def)
  ultimately show ?thesis using assms by auto
qed

text \<open>A condition that every game the supervisor can create satisfies.\<close>

locale hosting_policy =
  fixes env :: "'s sup_env" and Q :: "config \<Rightarrow> game_config \<Rightarrow> bool"
  assumes permits: "resolve_map_info env inp cfg selected name = Some (mi, gt, sl) \<Longrightarrow>
    Q cfg (game_config_of cfg relay name ow cs hc mi sl stat port)"
begin

lemma calm_create:
  assumes "create_game_with_creator env inp name ow cs vis s = Some s'"
  shows "calm_step (Q (sp_cfg s)) s s'"
proof -
  obtain mi gt sl where r: "resolve_map_info env inp (sp_cfg s) (sp_selected_map_file s) name = Some (mi, gt, sl)"
    and s': "s' = (case allocate_port (s\<lparr>sp_host_counter := sp_host_counter s + 1\<rparr>) of
      (None, s) \<Rightarrow> s
    | (Some port, s1) \<Rightarrow> spawn_hosted env inp name ow cs vis mi gt sl (sp_host_counter s AND 0x0FFFFFFF) port s1)"
    using assms by (auto simp: create_game_with_creator_def Let_def)
  obtain p s1 where a: "allocate_port (s\<lparr>sp_host_counter := sp_host_counter s + 1\<rparr>) = (p, s1)" by fastforce
  then have s1: "calm_step (Q (sp_cfg s)) s s1" "sp_cfg s1 = sp_cfg s"
    by (auto simp: allocate_port_def calm_step_def split: option.splits)
  show ?thesis
  proof (cases p)
    case (Some port)
    have "calm_step (Q (sp_cfg s)) s1 s'"
      unfolding s' a Some option.case prod.case by (rule calm_spawn_hosted) (simp add: s1(2) permits [OF r])
    then show ?thesis using s1 calm_trans by blast
  qed (use s' a s1 in simp)
qed

lemma calm_run_verb:
  assumes "run_verb env inp user verb args s = Some s'" shows "calm_step (Q (sp_cfg s)) s s'"
proof -
  note create = calm_create [where s = s]
  have "calm_step (Q (sp_cfg s)) s s2" if "cmd_host env inp user verb name s = Some s2" for name s2
    using that create by (auto simp: cmd_host_def sup_create_game_def Let_def split: if_splits)
  moreover have "calm_step (Q (sp_cfg s)) s s2" if "cmd_host_by env inp user verb args s = Some s2" for s2
    using that create by (auto simp: cmd_host_by_def Let_def split: if_splits list.splits intro!: calm_then_emit)
  moreover have "calm_step (Q (sp_cfg s)) s (cmd_unhost user name s)" for name
    by (auto simp: cmd_unhost_def remove_game_def release_port_def Let_def calm_step_def split: option.split)
  moreover have "calm_step (Q (sp_cfg s)) s (cmd_map user name s)" for name
    by (simp add: cmd_map_def calm_step_def)
  moreover have "list_all (tame (Q (sp_cfg s))) (or_default (map_of (game_verbs s user args @ store_verbs user args
      @ clan_verbs user args @ fixed_replies user) v) [])" for v
    using tame_tables map_of_SomeD by (fastforce simp: or_default_def split: option.split)
  ultimately show ?thesis using assms unfolding run_verb_def Let_def
    by (simp split: if_splits) (auto simp: calm_step_def)
qed

lemma calm_bnet_event:
  assumes "handle_bnet_event env inp ev s = Some s'" shows "calm_step (Q (sp_cfg s)) s s'"
proof -
  have "calm_step (Q (sp_cfg s)) s s2" if "handle_chat_command env inp user t s = Some s2" for user t s2
    using that calm_run_verb by (auto simp: handle_chat_command_def Let_def split: if_splits option.splits list.splits)
  then show ?thesis using assms by (cases ev) (auto simp: handle_bnet_event_def)
qed

lemma spawned_step:
  assumes "sup_step env ev s = Some s'" "Spawn_Game h c \<in> set (sp_out s')"
  shows "Spawn_Game h c \<in> set (sp_out s) \<or> Q (sp_cfg s) c"
proof (cases ev)
  case (Bnet_Event inp e)
  then show ?thesis using assms calm_spawned [OF calm_bnet_event [of inp e s s']] by auto
next
  case (Game_Event e)
  then show ?thesis using assms by (cases e) (auto simp: sup_lobby_status_def Let_def split: option.splits)
next
  case (Cleanup_Timer closed)
  then show ?thesis using assms clean_simps(2) [of "\<lambda>h. h \<in> set closed" s] by auto
qed (use assms in \<open>auto simp: quiet_defs lan_packet_def split: option.splits sum.splits if_splits\<close>)

lemma spawned_start:
  assumes "sup_start env cfg store_ok udp_ok names start_after fake_player = Some (Inr s)" "Spawn_Game h c \<in> set (sp_out s)"
  shows "Q cfg c"
proof -
  have loop: "Spawn_Game h c \<in> set (sp_out s1) \<or> Q cfg c"
    if "host_on_start env fake_player names s1 = Some s2" "sp_cfg s1 = cfg" "games_ok s1" "Spawn_Game h c \<in> set (sp_out s2)"
    for s1 s2 :: "'b supervisor"
    using that
  proof (induction names arbitrary: s1)
    case (Cons x names)
    obtain name inp where x: "x = (name, inp)" by (cases x)
    obtain s3 where c: "create_game_with_creator env inp name (bc_username (cf_bnet cfg)) (bc_server (cf_bnet cfg)) VisPublic s1 = Some s3"
      and l: "host_on_start env fake_player names (case sp_current_game s3 of
          Some h \<Rightarrow> if fake_player then emit [To_Game h ToggleFakePlayer] s3 else s3 | None \<Rightarrow> s3) = Some s2"
      using Cons.prems(1,2) by (auto simp: x bind_eq_Some_conv sup_create_game_def)
    have "Spawn_Game h c \<in> set (sp_out s3) \<or> Q cfg c"
      using Cons.IH [OF l] Cons.prems(2,4) create_game_ok [OF c Cons.prems(3)]
      by (cases "sp_current_game s3"; cases fake_player) auto
    then show ?case using calm_spawned [OF calm_create [OF c]] Cons.prems(2) by auto
  qed simp
  obtain s1 where s1: "host_on_start env fake_player names (sup_new cfg udp_ok) = Some s1"
    and s: "s = start_timer start_after s1"
    using assms(1) unfolding sup_start_def Let_def by (simp split: if_splits) blast
  have "Spawn_Game h c \<in> set (sp_out s1)" using assms(2) by (auto simp: s start_timer_def split: option.splits)
  moreover have "sp_cfg (sup_new cfg udp_ok) = cfg" "games_ok (sup_new cfg udp_ok)" "Spawn_Game h c \<notin> set (sp_out (sup_new cfg udp_ok))"
    by (simp_all add: games_ok_def sup_new_def ports_ok_empty)
  ultimately show ?thesis using loop [OF s1] by blast
qed

lemma spawned_reach: "sup_reach env cfg s \<Longrightarrow> Spawn_Game h c \<in> set (sp_out s) \<Longrightarrow> Q cfg c"
  by (induction rule: sup_reach.induct) (auto dest: spawned_start spawned_step reach_ok)

end

interpretation every_game: hosting_policy env "\<lambda>_ _. True" for env
  by unfold_locales simp

interpretation sound_game: hosting_policy env "\<lambda>cfg c. overrides_ok cfg \<longrightarrow> config_ok c" for env
  by unfold_locales (auto intro: resolve_map_info_ok)

lemma create_total:
  assumes "zlib_law (se_decoders env)" shows "\<exists>s'. create_game_with_creator env inp name ow cs vis s = Some s'"
proof -
  have "\<exists>r. resolve_map_info env inp cfg selected name = Some r" for cfg selected
    using load_first_total [OF assms] by (fastforce simp: resolve_map_info_def Let_def)
  then show ?thesis by (fastforce simp: create_game_with_creator_def)
qed

lemma sup_step_total:
  assumes "zlib_law (se_decoders env)" shows "\<exists>s'. sup_step env ev s = Some s'"
proof (cases ev)
  case (Bnet_Event inp e)
  have "\<exists>s'. cmd_host env inp user verb name s = Some s'" for user verb name
    by (simp add: cmd_host_def sup_create_game_def Let_def create_total [OF assms])
  moreover have "\<exists>s'. cmd_host_by env inp user verb args s = Some s'" for user verb args
    by (simp add: cmd_host_by_def Let_def create_total [OF assms] split: list.split)
  ultimately have "\<exists>s'. handle_chat_command env inp user t s = Some s'" for user t
    by (simp add: handle_chat_command_def run_verb_def Let_def split: option.split list.split)
  then show ?thesis using Bnet_Event by (cases e) (simp_all add: handle_bnet_event_def)
next
  case (Game_Event e)
  then show ?thesis by (cases e) simp
qed simp_all

lemma event_loop_total:
  assumes "zlib_law (se_decoders env)" shows "\<exists>s'. event_loop env es s = Some s'"
proof (induction es arbitrary: s)
  case (Cons ev es)
  obtain s1 where "sup_step env ev s = Some s1" using sup_step_total [OF assms] by blast
  then show ?case using Cons by (cases ev) simp_all
qed simp


section \<open>The way of a connection\<close>

text \<open>What a connection has sent, what was delivered of it, and the events that do not end the connection.\<close>

definition arrivals :: "u64 \<Rightarrow> 'c sup_event list \<Rightarrow> conn_event list" where
  "arrivals conn es =
     List.map_filter (\<lambda>ev. case ev of Conn_Event e \<Rightarrow> if ev_conn_id e = conn then Some e else None | _ \<Rightarrow> None) es"

definition delivered :: "u64 \<Rightarrow> 'c effect \<Rightarrow> bool" where
  "delivered conn e =
     (case e of
        To_Game h cmd \<Rightarrow> (case cmd of ConnFrame c _ \<Rightarrow> c = conn | ConnClosed c _ \<Rightarrow> c = conn | _ \<Rightarrow> False)
      | _ \<Rightarrow> False)"

definition keeps :: "u64 \<Rightarrow> handle \<Rightarrow> 'c sup_event \<Rightarrow> bool" where
  "keeps conn h ev =
     (case ev of
        New_Connection c _ _ _ \<Rightarrow> c \<noteq> conn
      | Reconnect_Adopted c _ \<Rightarrow> c \<noteq> conn
      | Cleanup_Timer closed \<Rightarrow> h \<notin> set closed
      | Ctrl_C \<Rightarrow> False
      | _ \<Rightarrow> True)"

lemma tame_not_delivered: "tame P e \<Longrightarrow> \<not> delivered conn e"
  by (auto simp: tame_def delivered_def split: effect.splits game_cmd.splits)

lemma delivered_conn_cmd [simp]: "delivered conn (To_Game h (conn_cmd show_reason e)) \<longleftrightarrow> ev_conn_id e = conn"
  by (simp add: delivered_def conn_cmd_def split: conn_event_kind.split)

lemma routed_step:
  assumes "sup_step env ev s = Some s'" "keeps conn h ev" "sp_conn_to_game s conn = Some h"
  shows "sp_conn_to_game s' conn = Some h
    \<and> filter (delivered conn) (sp_out s') = filter (delivered conn) (sp_out s)
        @ map (\<lambda>e. To_Game h (conn_cmd (se_show_reason env) e)) (arrivals conn [ev])"
proof -
  have udp: "filter (delivered conn) (lan_packet c t adv) = []" for c t adv
    by (simp add: lan_packet_def delivered_def split: sum.split)
  have udps: "filter (delivered conn) (concat (map (\<lambda>g. case ag_advert g of
      Some adv \<Rightarrow> if ag_in_lobby g then lan_packet c (uptime_of t (ag_created_at g)) adv else [] | None \<Rightarrow> []) gs)) = []" for c t gs
    by (induction gs) (auto simp: udp split: option.split)
  show ?thesis
  proof (cases ev)
    case (Bnet_Event inp e)
    then have "calm_step (\<lambda>_. True) s s'" using assms(1) every_game.calm_bnet_event by simp
    moreover have "filter (delivered conn) es = []" if "list_all (tame (\<lambda>_. True)) es" for es
      using that tame_not_delivered by (fastforce simp: list_all_iff filter_empty_conv)
    ultimately show ?thesis using Bnet_Event assms(3) by (auto simp: calm_step_def arrivals_def map_filter_simps)
  next
    case (Game_Event e)
    then show ?thesis using assms
      by (cases e) (auto simp: sup_lobby_status_def Let_def arrivals_def map_filter_simps delivered_def split: option.splits)
  next
    case (Lan_Timer t)
    then show ?thesis using assms
      by (auto simp: broadcast_lan_game_def arrivals_def map_filter_simps udp udps split: option.split)
  next
    case (Cleanup_Timer closed)
    then show ?thesis using assms clean_simps(2) [of "\<lambda>h. h \<in> set closed" s]
      by (auto simp: clean_simps(1) drop_closed_simps arrivals_def map_filter_simps keeps_def delivered_def)
  next
    case (Conn_Event e)
    then show ?thesis using assms
      by (auto simp: sup_conn_event_def arrivals_def map_filter_simps split: option.split)
  qed (use assms in \<open>auto simp: keeps_def quiet_defs arrivals_def map_filter_simps delivered_def split: option.splits\<close>)
qed

lemma routed_loop:
  assumes "event_loop env es s = Some s'" "list_all (keeps conn h) es" "sp_conn_to_game s conn = Some h"
    "\<not> sp_shutdown_requested s'"
  shows "filter (delivered conn) (sp_out s') = filter (delivered conn) (sp_out s)
    @ map (\<lambda>e. To_Game h (conn_cmd (se_show_reason env) e)) (arrivals conn es)"
  using assms
proof (induction es arbitrary: s)
  case Nil
  then show ?case by (auto simp: arrivals_def map_filter_simps shutdown_all_def split: if_splits)
next
  case (Cons ev es)
  have run: "\<not> sp_shutdown_requested s" "ev \<noteq> Ctrl_C"
    using Cons.prems by (auto simp: shutdown_all_def keeps_def split: if_splits)
  then have "Option.bind (sup_step env ev s) (event_loop env es) = Some s'" using Cons.prems(1) by (cases ev) auto
  then obtain s1 where s1: "sup_step env ev s = Some s1" "event_loop env es s1 = Some s'"
    by (auto simp: bind_eq_Some_conv)
  have "arrivals conn (ev # es) = arrivals conn [ev] @ arrivals conn es"
    by (simp add: arrivals_def map_filter_simps split: option.split)
  then show ?case
    using Cons.IH [OF s1(2)] Cons.prems routed_step [OF s1(1), of conn h] by simp
qed


section \<open>Reconnecting clients\<close>

text \<open>However the request of a client is cut into reads, it is understood; the games are asked until one takes the player.\<close>

lemma read_request_concat:
  assumes "list_all (\<lambda>r. r \<noteq> []) reads" "length (buf @ concat reads) = 13"
  shows "read_request buf reads = Some (buf @ concat reads)"
  using assms
proof (induction reads arbitrary: buf)
  case Nil
  then show ?case by (simp add: read_request.simps)
next
  case (Cons r reads)
  then have "length buf < 13" by (cases r) auto
  then show ?case using Cons.IH [of "buf @ r"] Cons.prems by (simp add: read_request.simps [of buf])
qed

lemma adoption_request_read:
  assumes "list_all (\<lambda>r. r \<noteq> []) reads"
    and "concat reads = [GPS_HEADER, GPS_RECONNECT, 13, 0, pid] @ put_u32_le key @ put_u32_le lp"
  shows "adoption_request reads = Some \<lparr>rr_pid = pid, rr_reconnect_key = key, rr_last_packet = lp\<rparr>"
proof -
  have "read_request [] reads = Some (concat reads)" using read_request_concat [OF assms(1)] assms(2) by simp
  moreover have "find_request (concat reads) = Some 0" unfolding assms(2) by (simp add: find_request_def)
  ultimately show ?thesis unfolding adoption_request_def assms(2) by (simp add: decode_reconnect_def)
qed

lemma adopt_first:
  "adopt answer conn req link hs =
     (map (\<lambda>h. To_Game h (AdoptReconnect conn (rr_pid req) (rr_reconnect_key req) (rr_last_packet req) link))
        (takeWhile (\<lambda>h. \<not> answer h) hs @ (case find answer hs of Some h \<Rightarrow> [h] | None \<Rightarrow> [])),
      find answer hs, if find answer hs = None then Some (gps_reject NOT_FOUND) else None)"
  by (induction hs) (auto simp: Let_def)

section \<open>An example\<close>

text \<open>A bot with an empty configuration file and no map files, which hosts one game from the start.\<close>

definition demo_env :: "unit sup_env" where
  "demo_env = \<lparr>se_decoders = \<lparr>dz_zlib = (\<lambda>p n. None), dz_exploder = (), dz_ended = (\<lambda>_. True), dz_explode = (\<lambda>_ _. None)\<rparr>,
     se_map_ops = \<lparr>mo_crc32 = \<lambda>_. 0, mo_sha1 = \<lambda>_. replicate 20 0\<rparr>,
     se_text = \<lparr>tx_trim = \<lambda>t. t, tx_lower = map to_ascii_lower, tx_split_whitespace = \<lambda>t. filter (\<lambda>w. w \<noteq> []) (split_byte 32 t)\<rparr>,
     se_addr_ok = \<lambda>_ _. True, se_show_reason = \<lambda>_. str ''PeerClosed''\<rparr>"

definition demo_cfg :: config where
  "demo_cfg = config_of_toml
     \<lparr>tc_bot = None, tc_bnet = None, tc_game = None, tc_spectator = None, tc_database = None, tc_maps = []\<rparr>"

definition demo_inputs :: inputs where
  "demo_inputs = \<lparr>in_now = 0, in_key = 7, in_files = \<lambda>_. None\<rparr>"

definition demo_start :: "unit supervisor" where
  "demo_start = projr (the (sup_start demo_env demo_cfg True True [(str ''lobby'', demo_inputs)] None False))"

lemma sup_new_simps:
  "sp_host_counter (sup_new cfg u) = 1" "sp_cfg (sup_new cfg u) = cfg" "sp_selected_map_file (sup_new cfg u) = None"
  by (simp_all add: sup_new_def)

lemma load_first_no_files: "load_first env (\<lambda>_. None) cj bj ovr ps = Some None"
  by (induction ps) simp_all

lemma demo_pool: "port_pool (cf_bot demo_cfg) = [6112]"
  by (simp add: port_pool_def port_pool_range_def demo_cfg_def config_of_toml_def toml_bot_default_def Let_def)

lemma demo_cfg_simps:
  "bot_gproxy_reconnect_port (cf_bot demo_cfg) = 6114" "overrides_ok demo_cfg"
  by (simp_all add: demo_cfg_def config_of_toml_def toml_bot_default_def Let_def overrides_ok_def)

lemma demo_start_ok:
  "sup_start demo_env demo_cfg True True [(str ''lobby'', demo_inputs)] None False = Some (Inr demo_start)"
  "map (\<lambda>g. (ag_port g, ag_handle g)) (sp_games demo_start) = [(6112, 0)]"
  "\<not> sp_shutdown_requested demo_start" "\<exists>c. Spawn_Game 0 c \<in> set (sp_out demo_start)"
proof -
  obtain mi gt sl where r: "resolve_map_info demo_env demo_inputs demo_cfg None (str ''lobby'') = Some (mi, gt, sl)"
    by (simp add: resolve_map_info_def Let_def demo_inputs_def load_first_no_files)
  define s0 :: "unit supervisor" where "s0 = (sup_new demo_cfg True)
    \<lparr>sp_host_counter := 2, sp_allocated_ports := {6112}\<rparr>"
  define s1 where "s1 = spawn_hosted demo_env demo_inputs (str ''lobby'') (bc_username (cf_bnet demo_cfg))
    (bc_server (cf_bnet demo_cfg)) VisPublic mi gt sl 1 6112 s0"
  have "allocate_port ((sup_new demo_cfg True :: unit supervisor)\<lparr>sp_host_counter := 2\<rparr>) = (Some 6112, s0)"
    by (simp add: allocate_port_def sup_new_def demo_pool s0_def)
  then have "sup_create_game demo_env demo_inputs (str ''lobby'') (bc_username (cf_bnet demo_cfg)) VisPublic
      (sup_new demo_cfg True) = Some s1"
    using r by (simp add: sup_create_game_def create_game_with_creator_def s1_def sup_new_simps)
  then have start: "sup_start demo_env demo_cfg True True [(str ''lobby'', demo_inputs)] None False = Some (Inr s1)"
    by (simp add: sup_start_def demo_env_def [THEN arg_cong, of se_addr_ok] start_timer_def demo_cfg_simps Let_def
        sup_new_simps split: option.split)
  then have s1: "demo_start = s1" by (simp add: demo_start_def)
  show "sup_start demo_env demo_cfg True True [(str ''lobby'', demo_inputs)] None False = Some (Inr demo_start)"
    using start s1 by simp
  show "map (\<lambda>g. (ag_port g, ag_handle g)) (sp_games demo_start) = [(6112, 0)]"
    unfolding s1 s1_def by (simp add: spawn_hosted_games s0_def sup_new_def)
  show "\<not> sp_shutdown_requested demo_start" "\<exists>c. Spawn_Game 0 c \<in> set (sp_out demo_start)"
    unfolding s1 s1_def
    by (simp_all add: spawn_hosted_def Let_def open_listener_def open_tv_def register_game_def s0_def sup_new_def)
qed

lemma demo_reach: "sup_reach demo_env demo_cfg demo_start"
  by (rule sup_reach.start [OF demo_start_ok(1)])

lemma demo_game: "\<exists>g. sp_games demo_start = [g] \<and> ag_port g = 6112 \<and> ag_handle g = 0"
  using demo_start_ok(2) by (cases "sp_games demo_start") auto

theorem ports_lead_to_games_witness:
  "sup_reach demo_env demo_cfg demo_start
   \<and> sp_out (handle_new_connection 5 () (IPv4 [10, 0, 0, 1]) 6112 demo_start)
       = sp_out demo_start @ [To_Game 0 (NewConn 5 () [10, 0, 0, 1])]
   \<and> sp_allocated_ports demo_start = {6112}"
proof -
  obtain g where g: "sp_games demo_start = [g]" "ag_port g = 6112" "ag_handle g = 0" using demo_game by blast
  show ?thesis using ports_lead_to_games [OF demo_reach, of 5 "()" "IPv4 [10, 0, 0, 1]"] demo_reach g by simp
qed



end
