(* ===== verification/Spec2Isabelle.thy ===== *)
theory Spec2Isabelle
  imports Prelude Utf8 Wire W3gs_Types W3gs_In W3gs_Out Gps Dotatv_Proto Conn Slots Tick History
    Stats_Dota Replay_Body Hcl Players Game_State Game_Ops Catchup Desync Lag Lifecycle Actions Mapxfer
    Reconnect Lobby Chat_Parse Chat Actor Seating Crc W3g Dotatv_Stream Dotatv_Server Actor_Run Dotatv_Chat Relay Mpq_Crypt Mpq_Tables Mpq_Archive Mpq_Store W3mmd
    Bncs_Out Bncs_In Advert Nls Exe_Info Check_Revision Cdkey_Tables Cdkey Bnet_Client Map_Load
    Config Supervisor Hosting
begin

text \<open>
  Verification development of ghostrs, a host for Warcraft III games written in Rust.

  \<^bold>\<open>The program.\<close> A process hosts lobbies and games. Game clients connect by TCP; their frames
  (W3GS, and GPS or iCCup for reconnecting) reach the actor of one game, which owns all of its
  state: the slot table, the players, the packet logs, the lag screen, the statistics and the
  replay. A tick collects the actions of the players and broadcasts them. Every broadcast packet is
  kept for players that rejoin; blocks of the replay go to the spectator crate, which either relays
  them with a delay or frames them as a compressed live stream for viewers. Maps are read from MPQ
  archives, and games are announced on battle.net.

  \<^bold>\<open>Theories.\<close> Each theory opens with the files of \<^verbatim>\<open>src/crates\<close> it models.

  \<^item> Prelude and Utf8: machine integers, results, little-endian bytes, slices, and what the
    sources use of Rust's strings.
  \<^item> \<^verbatim>\<open>spectre-protocol\<close>: Wire (readers, stat strings, framing; the locales
    stream-codec and framed-message), W3gs-Types, W3gs-In, W3gs-Out (game packets), Gps (reconnect
    packets), Dotatv-Proto (spectator packets), Bncs-Out, Bncs-In (battle.net packets). They show that encoders and decoders are
    inverse, that framing does not depend on how TCP cuts a stream, and which inputs are refused.
  \<^item> \<^verbatim>\<open>spectre-net\<close>: Conn, the codec of a socket that carries three protocols, an instance
    of stream-codec, and the state of a connection.
  \<^item> \<^verbatim>\<open>spectre-engine\<close>: Slots, Tick, History (both packet logs, instances of the locale
    replay-log), Players, Hcl, Stats-Dota, W3mmd are components of their own; Game-State is the
    record of \<^verbatim>\<open>state.rs\<close> with the interface to the code outside, and Game-Ops its
    operations. Catchup (delivery and rejoining), Desync, Lag, Lifecycle (phases), Actions (the
    tick), Mapxfer, Reconnect, Lobby, Chat-Parse and Chat are the handlers over that record, one
    theory per file or group of handlers. Actor dispatches frames, commands and timers to them,
    Actor-Run is its loop as a relation on states, and Seating the invariant of the player table
    and the slot table that all of them keep.
  \<^item> \<^verbatim>\<open>spectre-spectator\<close>: Replay-Body and W3g (the replay), Crc, Dotatv-Stream (framing
    the live stream), Dotatv-Server and Dotatv-Chat (sessions of viewers), Relay (the delayed
    relay).
  \<^item> \<^verbatim>\<open>spectre-mpq\<close>: Mpq-Crypt, Mpq-Tables, Mpq-Archive model the reader; Mpq-Store is a
    specification of what a writer stores, and the proof that the reader gets it back.

  \<^item> \<^verbatim>\<open>spectre-engine/src/map.rs\<close>: Map-Load reads the information file of a map, computes its checksum
    and decides the slots and the flags of a game; it shows that loading never panics and that a
    loaded map satisfies the invariant games are created with.
  \<^item> \<^verbatim>\<open>spectre-bnet\<close>: Advert (stat strings), Nls (the key exchange; the algebra is the
    locale srp-group, interpreted on the group of the code), Exe-Info and Check-Revision (version
    data), Cdkey-Tables and Cdkey (keys, password hashes) and Bnet-Client, the client as a step
    function over commands, timers and frames.
  \<^item> \<^verbatim>\<open>spectre\<close>: Config (both formats of the configuration file), Supervisor (hosting, routing, the
    commands of administrators, the event loop; its effects on the rest of the program are a list) and Hosting, what
    holds in every state the supervisor reaches. The locale hosting-policy is the contract between the
    loader of maps and the creation of games, interpreted with the condition that games are created sound.

  \<^bold>\<open>Conventions.\<close> A Rust struct is a record, an enum a datatype with the same
  constructors, a function one definition. Integers of a fixed width are words, and wrap where the
  release build wraps; \<^verbatim>\<open>usize\<close> is a natural number, since every such value is bounded
  by data in memory. Strings are their UTF-8 bytes. Instants and durations are natural numbers of
  nanoseconds, and a handler reads the clock once. Random numbers are arguments. A hash map is an
  association list in the order of iteration; theorems hold for every order. The \<open>Result\<close> type is a
  sum with the error on the left. A panic, and a loop that does not end, is \<open>None\<close> (in the archive
  reader the error \<open>MpqPanic\<close>); that it does not occur is proved where it is claimed. Loops with
  fuel have their fuel fixed in the definition to a bound of the number of rounds, and the theorems
  about them have no hypothesis on the fuel.

  \<^bold>\<open>Parameters.\<close> Code outside the repository is an argument: compression and checksums of other
  crates (records \<open>env\<close>, \<open>codec\<close>, \<open>decoders\<close>), floating point numbers (\<open>float_ops\<close>), channels as
  the number of packets they still take. Theorems that need something of them name it as a
  hypothesis (for example that inflating undoes deflating), and their witnesses use concrete
  functions.

  \<^bold>\<open>Main results.\<close> Every run of a game actor keeps player ids, slots and the host consistent (C1);
  a tick sends every action exactly once and in order (C2); players that rejoin or reconnect and
  viewers miss nothing and see nothing twice (C3 to C8, C10); archives read back what was stored and
  never panic (C9, C23); a map that loads can be hosted and its checksum notices changes (C16, C24); the
  supervisor never panics, creates only sound games, and gives every connection to its game (C13, C14, C15); the
  logon to battle.net happens in order and both sides agree on its key (C17, C18). The other claims are about single components: verdicts on desynchronised
  players, the lag screen, map transfer, round trips of the formats, and error behaviour.

  \<^bold>\<open>Not modelled.\<close> The tasks that only move bytes between sockets, channels and files (listeners, UDP
  broadcasts, the load test), the SQL of the database writer, logging, telemetry and the command line. They hold no
  state of the host beyond the channels, and the packages they call (tokio, rusqlite, clap) are not in the repository.
\<close>

end
